(* ===== verification/Prelude.thy ===== *)
theory Prelude
  imports Main "HOL-Library.Word"
begin

text \<open>
  Shared vocabulary of the development: byte strings, the error record of the Git protocol,
  sequencing of fallible steps, and the list, option and association-list facts that the component
  theories use. A Rust \<open>String\<close> or \<open>Vec<u8>\<close> is a HOL \<open>string\<close>: a HOL \<open>char\<close> is exactly one
  byte, so \<open>length\<close> is the byte length that \<open>len()\<close> returns (UTF-8 for strings).
\<close>

section \<open>Collections\<close>

named_theorems result_simps \<open>inversion of fallible steps\<close>
named_theorems step_simps \<open>definitions of the operations a step performs\<close>

section \<open>Types shared by the components\<close>

type_synonym bytes = string
type_synonym u8 = "8 word"
type_synonym u32 = "32 word"
type_synonym u64 = "64 word"

text \<open>The protocol error of \<open>tools/agent/src/git/protocol.rs\<close>.\<close>

record gerror =
  code :: string
  message :: string
  retry :: string

definition gerror_new :: "string \<Rightarrow> string \<Rightarrow> gerror" where
  "gerror_new c m = \<lparr>code = c, message = m, retry = ''never''\<rparr>"

definition gerror_invalid :: "string \<Rightarrow> gerror" where
  "gerror_invalid m = gerror_new ''INVALID_REQUEST'' m"

definition gerror_transport :: "string \<Rightarrow> gerror" where
  "gerror_transport m = gerror_new ''TRANSPORT_ERROR'' m"

lemma code_gerror_new [simp]: "code (gerror_new c m) = c"
  by (simp add: gerror_new_def)

lemma message_gerror_new [simp]: "message (gerror_new c m) = m"
  by (simp add: gerror_new_def)

lemma code_gerror_invalid [simp]: "code (gerror_invalid m) = ''INVALID_REQUEST''"
  by (simp add: gerror_invalid_def)

lemma code_gerror_transport [simp]: "code (gerror_transport m) = ''TRANSPORT_ERROR''"
  by (simp add: gerror_transport_def)

section \<open>Fallible steps\<close>

text \<open>\<open>bindR m k\<close> is the \<open>?\<close> operator: the error of \<open>m\<close> is returned, its result continues in \<open>k\<close>.\<close>

definition bindR :: "'e + 'a \<Rightarrow> ('a \<Rightarrow> 'e + 'b) \<Rightarrow> 'e + 'b" where
  "bindR m k = (case m of Inl e \<Rightarrow> Inl e | Inr x \<Rightarrow> k x)"

definition mapR :: "('a \<Rightarrow> 'b) \<Rightarrow> 'e + 'a \<Rightarrow> 'e + 'b" where
  "mapR f m = (case m of Inl e \<Rightarrow> Inl e | Inr x \<Rightarrow> Inr (f x))"

definition map_errR :: "('e \<Rightarrow> 'f) \<Rightarrow> 'e + 'a \<Rightarrow> 'f + 'a" where
  "map_errR f m = (case m of Inl e \<Rightarrow> Inl (f e) | Inr x \<Rightarrow> Inr x)"

text \<open>\<open>ok_or e x\<close> is \<open>Option::ok_or\<close>.\<close>

definition ok_or :: "'e \<Rightarrow> 'a option \<Rightarrow> 'e + 'a" where
  "ok_or e x = (case x of None \<Rightarrow> Inl e | Some y \<Rightarrow> Inr y)"

lemma bindR_simps [simp]:
  "bindR (Inl e) k = Inl e"
  "bindR (Inr x) k = k x"
  by (simp_all add: bindR_def)

lemma mapR_simps [simp]:
  "mapR f (Inl e) = Inl e"
  "mapR f (Inr x) = Inr (f x)"
  by (simp_all add: mapR_def)

lemma map_errR_simps [simp]:
  "map_errR f (Inl e) = Inl (f e)"
  "map_errR f (Inr x) = Inr x"
  by (simp_all add: map_errR_def)

lemma ok_or_simps [simp]:
  "ok_or e None = Inl e"
  "ok_or e (Some y) = Inr y"
  by (simp_all add: ok_or_def)

lemma bindR_Inr_iff [result_simps]:
  "bindR m k = Inr y \<longleftrightarrow> (\<exists>x. m = Inr x \<and> k x = Inr y)"
  by (cases m) auto

lemma bindR_Inl_iff [result_simps]:
  "bindR m k = Inl e \<longleftrightarrow> m = Inl e \<or> (\<exists>x. m = Inr x \<and> k x = Inl e)"
  by (cases m) auto

lemma mapR_Inr_iff [result_simps]: "mapR f m = Inr y \<longleftrightarrow> (\<exists>x. m = Inr x \<and> y = f x)"
  by (cases m) auto

lemma mapR_Inl_iff [result_simps]: "mapR f m = Inl e \<longleftrightarrow> m = Inl e"
  by (cases m) auto

lemma map_errR_Inr_iff [result_simps]: "map_errR f m = Inr y \<longleftrightarrow> m = Inr y"
  by (cases m) auto

lemma map_errR_Inl_iff [result_simps]: "map_errR f m = Inl e \<longleftrightarrow> (\<exists>x. m = Inl x \<and> e = f x)"
  by (cases m) auto

lemma ok_or_Inr_iff [result_simps]: "ok_or e m = Inr y \<longleftrightarrow> m = Some y"
  by (cases m) auto

lemma ok_or_Inl_iff [result_simps]: "ok_or e m = Inl e' \<longleftrightarrow> m = None \<and> e' = e"
  by (cases m) auto

lemma bindR_cong [fundef_cong]:
  "m = m' \<Longrightarrow> (\<And>x. m' = Inr x \<Longrightarrow> k x = k' x) \<Longrightarrow> bindR m k = bindR m' k'"
  by (cases m') auto

text \<open>\<open>iter().map(f).collect::<Result<Vec<_>, _>>()\<close>: the first error wins.\<close>

fun collectR :: "('a \<Rightarrow> 'e + 'b) \<Rightarrow> 'a list \<Rightarrow> 'e + 'b list" where
  "collectR f [] = Inr []"
| "collectR f (x # xs) = bindR (f x) (\<lambda>y. mapR (\<lambda>ys. y # ys) (collectR f xs))"

lemma collectR_Inr_length: "collectR f xs = Inr ys \<Longrightarrow> length ys = length xs"
  by (induction xs arbitrary: ys) (auto simp: result_simps)

lemma collectR_Inr_nth:
  "collectR f xs = Inr ys \<Longrightarrow> i < length xs \<Longrightarrow> f (xs ! i) = Inr (ys ! i)"
  by (induction xs arbitrary: ys i) (auto simp: result_simps nth_Cons split: nat.splits)

lemma collectR_Inr_map: "(\<And>x. x \<in> set xs \<Longrightarrow> f x = Inr (g x)) \<Longrightarrow> collectR f xs = Inr (map g xs)"
  by (induction xs) auto

section \<open>Byte strings\<close>

definition byte :: "char \<Rightarrow> nat" where
  "byte c = of_char c"

definition starts_with :: "bytes \<Rightarrow> bytes \<Rightarrow> bool" where
  "starts_with p s = (take (length p) s = p)"

definition strip_prefix :: "bytes \<Rightarrow> bytes \<Rightarrow> bytes option" where
  "strip_prefix p s = (if starts_with p s then Some (drop (length p) s) else None)"

definition ends_with :: "bytes \<Rightarrow> bytes \<Rightarrow> bool" where
  "ends_with p s = (length p \<le> length s \<and> drop (length s - length p) s = p)"

fun contains_sub :: "bytes \<Rightarrow> bytes \<Rightarrow> bool" where
  "contains_sub p [] = (p = [])"
| "contains_sub p (c # s) = (starts_with p (c # s) \<or> contains_sub p s)"

text \<open>\<open>split_on d s\<close> is \<open>s.split(|b| b == d)\<close>: one piece more than there are separators.\<close>

fun split_on :: "char \<Rightarrow> bytes \<Rightarrow> bytes list" where
  "split_on d [] = [[]]"
| "split_on d (c # s) =
     (if c = d then [] # split_on d s
      else (case split_on d s of [] \<Rightarrow> [[c]] | p # ps \<Rightarrow> (c # p) # ps))"

text \<open>\<open>splitn n d s\<close> stops splitting after \<open>n - 1\<close> separators.\<close>

fun splitn :: "nat \<Rightarrow> char \<Rightarrow> bytes \<Rightarrow> bytes list" where
  "splitn 0 d s = []"
| "splitn (Suc 0) d s = [s]"
| "splitn (Suc (Suc n)) d s =
     (if d \<in> set s
      then takeWhile (\<lambda>c. c \<noteq> d) s # splitn (Suc n) d (tl (dropWhile (\<lambda>c. c \<noteq> d) s))
      else [s])"

text \<open>\<open>split_incl d s\<close> is \<open>split_inclusive\<close>: every piece keeps its terminator.\<close>

fun split_incl :: "char \<Rightarrow> bytes \<Rightarrow> bytes list" where
  "split_incl d [] = []"
| "split_incl d (c # s) =
     (if c = d then [c] # split_incl d s
      else (case split_incl d s of [] \<Rightarrow> [[c]] | p # ps \<Rightarrow> (c # p) # ps))"

text \<open>\<open>trim_line\<close> of \<open>git/cli/mod.rs\<close> removes one final newline.\<close>

definition trim_line :: "bytes \<Rightarrow> bytes" where
  "trim_line s = (if s \<noteq> [] \<and> last s = CHR 0x0A then butlast s else s)"

text \<open>Numbers as text, in a base of at most sixteen.\<close>

definition dec_digit :: "nat \<Rightarrow> char" where
  "dec_digit n = (''0123456789abcdef'' ! n)"

fun show_base :: "nat \<Rightarrow> nat \<Rightarrow> string" where
  "show_base base n = (if base < 2 \<or> n < base then [dec_digit n]
                       else show_base base (n div base) @ [dec_digit (n mod base)])"

declare show_base.simps [simp del]

definition show_nat :: "nat \<Rightarrow> string" where
  "show_nat n = show_base 10 n"

lemma starts_with_append [simp]: "starts_with p (p @ s)"
  by (simp add: starts_with_def)

lemma strip_prefix_append [simp]: "strip_prefix p (p @ s) = Some s"
  by (simp add: strip_prefix_def)

lemma strip_prefix_Some: "strip_prefix p s = Some r \<longleftrightarrow> s = p @ r"
proof
  assume "strip_prefix p s = Some r"
  then have "take (length p) s = p" and "r = drop (length p) s"
    by (auto simp: strip_prefix_def starts_with_def split: if_splits)
  then show "s = p @ r" by (metis append_take_drop_id)
qed simp

lemma split_on_not_Nil [simp]: "split_on d s \<noteq> []"
  by (induction s) (auto split: list.splits)

lemma split_on_no_sep: "d \<notin> set s \<Longrightarrow> split_on d s = [s]"
  by (induction s) auto

lemma split_on_append_sep: "d \<notin> set p \<Longrightarrow> split_on d (p @ d # s) = p # split_on d s"
  by (induction p) auto

lemma split_on_sep_free: "p \<in> set (split_on d s) \<Longrightarrow> d \<notin> set p"
  by (induction s arbitrary: p) (auto split: if_splits list.splits)

lemma concat_split_incl [simp]: "concat (split_incl d s) = s"
  by (induction s) (auto split: list.splits)

lemma split_incl_nonempty: "p \<in> set (split_incl d s) \<Longrightarrow> p \<noteq> []"
  by (induction s arbitrary: p) (auto split: if_splits list.splits)

lemma split_incl_line: "d \<notin> set p \<Longrightarrow> split_incl d (p @ d # s) = (p @ [d]) # split_incl d s"
  by (induction p) auto

text \<open>Rendering and splitting agree: terminated records, and separated fields before a free tail.\<close>

definition terminate :: "char \<Rightarrow> bytes list \<Rightarrow> bytes" where
  "terminate d rs = concat (map (\<lambda>r. r @ [d]) rs)"

lemma split_on_terminate:
  "(\<And>r. r \<in> set rs \<Longrightarrow> d \<notin> set r) \<Longrightarrow> split_on d (terminate d rs) = rs @ [[]]"
proof (induction rs)
  case (Cons r rs)
  have "terminate d (r # rs) = r @ d # terminate d rs" by (simp add: terminate_def)
  then show ?case using Cons split_on_append_sep [of d r "terminate d rs"] by simp
qed (simp add: terminate_def)

lemma splitn_fields:
  "(\<And>f. f \<in> set fs \<Longrightarrow> d \<notin> set f) \<Longrightarrow>
   splitn (Suc (length fs)) d (terminate d fs @ rest) = fs @ [rest]"
proof (induction fs)
  case (Cons f fs)
  have e: "terminate d (f # fs) @ rest = f @ d # (terminate d fs @ rest)" by (simp add: terminate_def)
  have f: "d \<notin> set f" using Cons.prems by simp
  have tw: "takeWhile (\<lambda>c. c \<noteq> d) (f @ d # t) = f" "tl (dropWhile (\<lambda>c. c \<noteq> d) (f @ d # t)) = t" for t
    using f by (induction f) auto
  have "splitn (Suc (length (f # fs))) d (terminate d (f # fs) @ rest)
      = f # splitn (Suc (length fs)) d (terminate d fs @ rest)"
    by (simp only: e length_Cons splitn.simps tw) simp
  then show ?case using Cons by simp
qed (simp add: terminate_def)

section \<open>Association lists with distinct keys\<close>

text \<open>
  A directory, a \<open>BTreeMap\<close> or a \<open>HashMap\<close> whose enumeration matters is an association list;
  \<open>aput\<close> replaces the entry in place or appends it.
\<close>

fun aput :: "'k \<Rightarrow> 'v \<Rightarrow> ('k \<times> 'v) list \<Rightarrow> ('k \<times> 'v) list" where
  "aput k v [] = [(k, v)]"
| "aput k v ((k', v') # m) = (if k = k' then (k, v) # m else (k', v') # aput k v m)"

definition adel :: "'k \<Rightarrow> ('k \<times> 'v) list \<Rightarrow> ('k \<times> 'v) list" where
  "adel k m = filter (\<lambda>(k', v). k' \<noteq> k) m"

lemma map_of_aput [simp]: "map_of (aput k v m) = (map_of m)(k \<mapsto> v)"
  by (induction m) (auto simp: fun_eq_iff)

lemma set_keys_aput [simp]: "fst ` set (aput k v m) = insert k (fst ` set m)"
  by (simp flip: dom_map_of_conv_image_fst)

lemma length_aput: "length (aput k v m) = (if k \<in> fst ` set m then length m else Suc (length m))"
  by (induction k v m rule: aput.induct) auto

lemma distinct_aput: "distinct (map fst m) \<Longrightarrow> distinct (map fst (aput k v m))"
proof (induction m)
  case (Cons a m)
  obtain k' v' where a: "a = (k', v')" by (cases a)
  have "k' \<notin> fst ` set (aput k v m)" if "k \<noteq> k'"
    using Cons.prems that a by simp
  then show ?case using Cons a by auto
qed simp

lemma map_of_adel [simp]: "map_of (adel k m) = (map_of m)(k := None)"
  by (induction m) (auto simp: adel_def fun_eq_iff)

lemma distinct_adel: "distinct (map fst m) \<Longrightarrow> distinct (map fst (adel k m))"
  unfolding adel_def by (induction m) auto

lemma set_aput_cases:
  "x \<in> set (aput k v m) \<Longrightarrow> x = (k, v) \<or> (x \<in> set m \<and> fst x \<noteq> k) \<or> x \<in> set m"
  by (induction m) (auto split: if_splits)

lemma set_aput_distinct:
  "distinct (map fst m) \<Longrightarrow>
   set (aput k v m) = insert (k, v) {x \<in> set m. fst x \<noteq> k}"
proof (induction m)
  case (Cons a m)
  obtain k' v' where a: "a = (k', v')" by (cases a)
  have nk: "\<And>y. y \<in> set m \<Longrightarrow> fst y \<noteq> k'" using Cons.prems a by force
  show ?case
  proof (cases "k = k'")
    case True
    then show ?thesis using a nk by auto
  next
    case False
    then show ?thesis using Cons a by auto
  qed
qed simp

lemma map_of_Some_iff_mem:
  "distinct (map fst m) \<Longrightarrow> map_of m k = Some v \<longleftrightarrow> (k, v) \<in> set m"
  by (simp add: map_of_eq_Some_iff)

section \<open>A file that is replaced as a whole\<close>

text \<open>
  What the users of an atomically replaced file rely on: \<open>put\<close> of a value the format can hold leaves
  the new value when it succeeds, and the old or the new one when it fails.
\<close>

locale replaced_file =
  fixes get :: "'s \<Rightarrow> 'e + 'v"
    and put :: "'v \<Rightarrow> 's \<Rightarrow> 's \<times> ('e + unit)"
    and good :: "'v \<Rightarrow> bool"
  assumes put_ok: "good v \<Longrightarrow> put v s = (s', Inr u) \<Longrightarrow> get s' = Inr v"
    and put_err: "good v \<Longrightarrow> put v s = (s', Inl e) \<Longrightarrow> get s' = get s \<or> get s' = Inr v"
begin

lemma put_cases: "good v \<Longrightarrow> put v s = (s', r) \<Longrightarrow> get s' = get s \<or> get s' = Inr v"
  using put_ok put_err by (cases r) blast+

lemma put_done: "good v \<Longrightarrow> snd (put v s) = Inr () \<Longrightarrow> get (fst (put v s)) = Inr v"
  by (cases "put v s") (use put_ok in auto)

text \<open>A read-modify-write that relates what it writes to what it read by \<open>R\<close>.\<close>

lemma modify:
  assumes "get s = Inr v"
    and "\<And>w. f v = Inr (Some w) \<Longrightarrow> good w \<and> R v w" and "R v v"
    and "(s', r) = (case bindR (get s) f of Inl e \<Rightarrow> (s, Inl e) | Inr None \<Rightarrow> (s, Inr ())
                    | Inr (Some w) \<Rightarrow> put w s)"
  shows "\<exists>w. get s' = Inr w \<and> R v w"
proof (cases "f v")
  case (Inl e)
  then show ?thesis using assms by simp
next
  case (Inr x)
  then show ?thesis
  proof (cases x)
    case None
    then show ?thesis using Inr assms by simp
  next
    case (Some w)
    then have "good w" "R v w" "put w s = (s', r)" using Inr assms by simp_all
    with put_cases [of w s s' r] show ?thesis using assms(1,3) by auto
  qed
qed

end

end
