(* ===== verification/Json.thy ===== *)
theory Json
  imports Prelude
begin

text \<open>
  \<open>serde_json::Value\<close> as the agent uses it: objects are association lists in the order the code
  writes them, \<open>jget\<close> is the indexing operator (absent keys read as null), \<open>jset\<close> assignment to
  an index. The textual encoding is third-party and stays a parameter of the components.
  Also the state-passing steps shared by the components that touch the operating system.
\<close>

section \<open>JSON values\<close>

datatype json =
    JNull
  | JBool bool
  | JNum int
  | JStr string
  | JArr "json list"
  | JObj "(string \<times> json) list"

definition jget :: "json \<Rightarrow> string \<Rightarrow> json" where
  "jget v k = (case v of JObj m \<Rightarrow> (case map_of m k of None \<Rightarrow> JNull | Some x \<Rightarrow> x) | _ \<Rightarrow> JNull)"

definition jset :: "json \<Rightarrow> string \<Rightarrow> json \<Rightarrow> json" where
  "jset v k x = (case v of JObj m \<Rightarrow> JObj (aput k x m) | JNull \<Rightarrow> JObj [(k, x)] | _ \<Rightarrow> v)"

definition jstr :: "json \<Rightarrow> string option" where
  "jstr v = (case v of JStr s \<Rightarrow> Some s | _ \<Rightarrow> None)"

definition jstr_or_empty :: "json \<Rightarrow> string" where
  "jstr_or_empty v = (case jstr v of None \<Rightarrow> '''' | Some s \<Rightarrow> s)"

definition jopt :: "('a \<Rightarrow> json) \<Rightarrow> 'a option \<Rightarrow> json" where
  "jopt f x = (case x of None \<Rightarrow> JNull | Some y \<Rightarrow> f y)"

definition jnat :: "nat \<Rightarrow> json" where
  "jnat n = JNum (int n)"

lemma jget_JObj [simp]: "jget (JObj m) k = (case map_of m k of None \<Rightarrow> JNull | Some x \<Rightarrow> x)"
  by (simp add: jget_def)

lemma jget_other [simp]:
  "jget JNull k = JNull" "jget (JBool b) k = JNull" "jget (JNum n) k = JNull"
  "jget (JStr s) k = JNull" "jget (JArr xs) k = JNull"
  by (simp_all add: jget_def)

lemma jget_jset_same: "v = JObj m \<Longrightarrow> jget (jset v k x) k = x"
  by (simp add: jset_def)

lemma jget_jset_other: "k' \<noteq> k \<Longrightarrow> jget (jset (JObj m) k x) k' = jget (JObj m) k'"
  by (simp add: jset_def)

section \<open>Steps with state\<close>

type_synonym ('s, 'a) step = "'s \<Rightarrow> 's \<times> (gerror + 'a)"

definition retS :: "'a \<Rightarrow> ('s, 'a) step" where
  "retS x s = (s, Inr x)"

definition failS :: "gerror \<Rightarrow> ('s, 'a) step" where
  "failS e s = (s, Inl e)"

definition bindS :: "('s, 'a) step \<Rightarrow> ('a \<Rightarrow> ('s, 'b) step) \<Rightarrow> ('s, 'b) step" where
  "bindS m k s = (case m s of (s', Inl e) \<Rightarrow> (s', Inl e) | (s', Inr x) \<Rightarrow> k x s')"

definition liftS :: "gerror + 'a \<Rightarrow> ('s, 'a) step" where
  "liftS r s = (s, r)"

text \<open>\<open>attemptS m\<close> hands the result of \<open>m\<close>, error or not, to the caller.\<close>

definition attemptS :: "('s, 'a) step \<Rightarrow> ('s, gerror + 'a) step" where
  "attemptS m s = (case m s of (s', r) \<Rightarrow> (s', Inr r))"

definition guardS :: "bool \<Rightarrow> gerror \<Rightarrow> ('s, unit) step" where
  "guardS b e = (if b then retS () else failS e)"

definition map_errS :: "(gerror \<Rightarrow> gerror) \<Rightarrow> ('s, 'a) step \<Rightarrow> ('s, 'a) step" where
  "map_errS f m s = (case m s of (s', r) \<Rightarrow> (s', map_errR f r))"

fun collectS :: "('a \<Rightarrow> ('s, 'b) step) \<Rightarrow> 'a list \<Rightarrow> ('s, 'b list) step" where
  "collectS f [] = retS []"
| "collectS f (x # xs) = bindS (f x) (\<lambda>y. bindS (collectS f xs) (\<lambda>ys. retS (y # ys)))"

lemma step_simps [simp]:
  "retS x s = (s, Inr x)" "failS e s = (s, Inl e)" "liftS r s = (s, r)"
  by (simp_all add: retS_def failS_def liftS_def)

lemma guardS_simps [simp]:
  "guardS True e = retS ()" "guardS False e = failS e"
  by (simp_all add: guardS_def)

lemma bindS_eq:
  "m s = (s', Inl e) \<Longrightarrow> bindS m k s = (s', Inl e)"
  "m s = (s', Inr x) \<Longrightarrow> bindS m k s = k x s'"
  by (simp_all add: bindS_def)

lemma bindS_basic [simp]:
  "bindS (retS x) k = k x" "bindS (failS e) k = failS e" "bindS (liftS (Inr x)) k = k x"
  "bindS (liftS (Inl e)) k = failS e"
  by (simp_all add: bindS_def fun_eq_iff)

lemma bindS_Inr_iff:
  "bindS m k s = (s2, Inr y) \<longleftrightarrow> (\<exists>s1 x. m s = (s1, Inr x) \<and> k x s1 = (s2, Inr y))"
  by (auto simp: bindS_def split: prod.splits sum.splits)

lemma bindS_Inl_iff:
  "bindS m k s = (s2, Inl e) \<longleftrightarrow>
     m s = (s2, Inl e) \<or> (\<exists>s1 x. m s = (s1, Inr x) \<and> k x s1 = (s2, Inl e))"
  by (auto simp: bindS_def split: prod.splits sum.splits)

text \<open>
  A step \<open>preserves\<close> a relation between states when it relates the state before to the one after,
  on success and on error; the components use it for effect claims ("no mutating command ran").
\<close>

definition preserves :: "('s \<Rightarrow> 's \<Rightarrow> bool) \<Rightarrow> ('s, 'a) step \<Rightarrow> bool" where
  "preserves R m \<longleftrightarrow> (\<forall>s. R s (fst (m s)))"

locale effect =
  fixes R :: "'s \<Rightarrow> 's \<Rightarrow> bool"
  assumes refl: "R s s"
    and trans: "R s t \<Longrightarrow> R t u \<Longrightarrow> R s u"
begin

lemma pres_ret: "preserves R (retS x)"
  by (simp add: preserves_def refl)

lemma pres_fail: "preserves R (failS e)"
  by (simp add: preserves_def refl)

lemma pres_lift: "preserves R (liftS r)"
  by (simp add: preserves_def refl)

lemma pres_guard: "preserves R (guardS b e)"
  by (simp add: guardS_def pres_ret pres_fail)

lemma pres_bind:
  "preserves R m \<Longrightarrow> (\<And>x. preserves R (k x)) \<Longrightarrow> preserves R (bindS m k)"
  unfolding preserves_def
proof
  fix s
  assume m: "\<forall>s. R s (fst (m s))" and k: "\<And>x. \<forall>s. R s (fst (k x s))"
  obtain s1 r where e: "m s = (s1, r)" by (cases "m s")
  then have a: "R s s1" using m by (metis fst_conv)
  show "R s (fst (bindS m k s))"
    by (cases r) (use e a k trans in \<open>auto simp: bindS_def\<close>)
qed

lemma pres_attempt: "preserves R m \<Longrightarrow> preserves R (attemptS m)"
  by (simp add: preserves_def attemptS_def case_prod_beta)

lemma pres_map_err: "preserves R m \<Longrightarrow> preserves R (map_errS f m)"
  by (simp add: preserves_def map_errS_def case_prod_beta)

lemma pres_collect: "(\<And>x. preserves R (f x)) \<Longrightarrow> preserves R (collectS f xs)"
  by (induction xs) (auto intro: pres_ret pres_bind)

lemma pres_if: "(b \<Longrightarrow> preserves R m) \<Longrightarrow> (\<not> b \<Longrightarrow> preserves R n) \<Longrightarrow> preserves R (if b then m else n)"
  by simp

lemma pres_option:
  "preserves R m \<Longrightarrow> (\<And>x. preserves R (f x)) \<Longrightarrow>
   preserves R (case z of None \<Rightarrow> m | Some x \<Rightarrow> f x)"
  by (cases z) simp_all

lemmas pres_rules = pres_ret pres_fail pres_lift pres_guard pres_bind pres_attempt pres_map_err
  pres_collect pres_if pres_option

end

end
