(* ===== verification/Pending.thy ===== *)
theory Pending
  imports Json
begin

text \<open>
  The recovery log of the desktop, \<open>src-tauri/src/git/pending.rs\<close>: one receipt per dispatched write,
  written before the dispatch, updated with every outcome the server reports, and removed only by
  an acknowledgement. The log is one file that is always replaced as a whole; \<open>faults\<close> tells, for
  each replacement in turn, whether it fails before or after the rename. The JSON encoder is a
  parameter. The mutex of the source makes the operations atomic, so they are functions of the log.
\<close>

section \<open>Receipts\<close>

datatype receipt_state =
    Pending | Succeeded | Failed | Rejected | NeedsResolution | OutcomeUnknown | ReviewedUnknown

record receipt =
  rc_operation :: string
  rc_server :: string
  rc_action :: string
  rc_state :: receipt_state

definition MAX_RECEIPTS :: nat where "MAX_RECEIPTS = 1000"
definition MAX_LOG :: nat where "MAX_LOG = 1024 * 1024"

definition complete :: "receipt_state \<Rightarrow> bool" where
  "complete s \<longleftrightarrow> s \<in> {Succeeded, Failed, Rejected, NeedsResolution, ReviewedUnknown}"

text \<open>The errors of a write after which the desktop takes the write as never begun.\<close>

definition rejected_before_mutation :: "string \<Rightarrow> bool" where
  "rejected_before_mutation c \<longleftrightarrow>
     c \<in> {''STALE_SNAPSHOT'', ''INVALID_REQUEST'', ''REPO_NOT_FOUND'', ''UNSUPPORTED_METHOD''}"

definition bootstrap_rejected_before_mutation :: "string \<Rightarrow> bool" where
  "bootstrap_rejected_before_mutation c \<longleftrightarrow>
     c \<in> {''INVALID_REQUEST'', ''UNSUPPORTED_METHOD'', ''DIRECTORY_REQUIRED'',
          ''ALREADY_REPOSITORY'', ''PATH_EXISTS'', ''PATH_CHANGED''}"

definition outcome_of :: "string option \<Rightarrow> receipt_state option" where
  "outcome_of s =
     (if s = Some ''running'' then Some Pending
      else if s = Some ''succeeded'' then Some Succeeded
      else if s = Some ''failed'' then Some Failed
      else if s = Some ''needs_resolution'' then Some NeedsResolution
      else if s = Some ''outcome_unknown'' then Some OutcomeUnknown
      else if s = Some ''reviewed_unknown'' then Some ReviewedUnknown
      else None)"

definition remote_outcome :: "json \<Rightarrow> string \<Rightarrow> receipt_state option" where
  "remote_outcome v expected_id =
     (if jstr (jget v ''operationId'') \<noteq> Some expected_id then None
      else outcome_of (jstr (jget v ''state'')))"

section \<open>The log\<close>

datatype log_file = NoFile | Unopened string | Bytes bytes

datatype replace_fault = Replaced | NotReplaced string | ReplacedNotSynced string

record ledger =
  lg_file :: log_file
  lg_faults :: "replace_fault list"

record ledger_lib =
  ll_print :: "receipt list \<Rightarrow> bytes option"
  ll_parse :: "bytes \<Rightarrow> receipt list option"

definition valid_action :: "string \<Rightarrow> bool" where
  "valid_action a \<longleftrightarrow> a \<noteq> [] \<and> length a \<le> 80"

definition valid_rows :: "receipt list \<Rightarrow> bool" where
  "valid_rows rows \<longleftrightarrow> length rows \<le> MAX_RECEIPTS \<and> distinct (map rc_operation rows) \<and>
     (\<forall>r\<in>set rows. valid_action (rc_action r))"

definition read_log :: "ledger_lib \<Rightarrow> ledger \<Rightarrow> string + receipt list" where
  "read_log lib led =
     (case lg_file led of
        NoFile \<Rightarrow> Inr []
      | Unopened e \<Rightarrow> Inl e
      | Bytes b \<Rightarrow>
          if MAX_LOG < length b then Inl ''Git recovery log exceeds its limit.''
          else (case ll_parse lib b of
                  None \<Rightarrow> Inl ''Cannot read Git recovery log''
                | Some rows \<Rightarrow> if valid_rows rows then Inr rows
                               else Inl ''Git recovery log is invalid.''))"

definition save_log :: "ledger_lib \<Rightarrow> receipt list \<Rightarrow> ledger \<Rightarrow> ledger \<times> (string + unit)" where
  "save_log lib rows led =
     (case ll_print lib rows of
        None \<Rightarrow> (led, Inl ''not serialisable'')
      | Some d \<Rightarrow>
          (let fault = (case lg_faults led of [] \<Rightarrow> Replaced | f # _ \<Rightarrow> f);
               led1 = led\<lparr>lg_faults := tl (lg_faults led)\<rparr>;
               led2 = led1\<lparr>lg_file := Bytes d\<rparr>
           in case fault of
                Replaced \<Rightarrow> (led2, Inr ())
              | NotReplaced e \<Rightarrow> (led1, Inl e)
              | ReplacedNotSynced e \<Rightarrow> (led2, Inl e)))"

section \<open>The operations\<close>

text \<open>
  Every operation reads the log, decides on the rows and saves them, or returns without saving.
\<close>

definition update_log ::
  "ledger_lib \<Rightarrow> (receipt list \<Rightarrow> string + receipt list option) \<Rightarrow> ledger \<Rightarrow>
   ledger \<times> (string + unit)" where
  "update_log lib f led =
     (case bindR (read_log lib led) f of
        Inl e \<Rightarrow> (led, Inl e)
      | Inr None \<Rightarrow> (led, Inr ())
      | Inr (Some rows) \<Rightarrow> save_log lib rows led)"

definition same_operation :: "string \<Rightarrow> string \<Rightarrow> receipt \<Rightarrow> bool" where
  "same_operation sv i r \<longleftrightarrow> rc_operation r = i \<and> rc_server r = sv"

fun update_first :: "('a \<Rightarrow> bool) \<Rightarrow> ('a \<Rightarrow> 'a) \<Rightarrow> 'a list \<Rightarrow> 'a list" where
  "update_first P f [] = []"
| "update_first P f (x # xs) = (if P x then f x # xs else x # update_first P f xs)"

definition begin_rows ::
  "string \<Rightarrow> string \<Rightarrow> string \<Rightarrow> receipt list \<Rightarrow> string + receipt list option" where
  "begin_rows sv i a rows =
     (if \<not> valid_action a then Inl ''Invalid Git action name.''
      else case find (\<lambda>r. rc_operation r = i) rows of
        Some old \<Rightarrow>
          if rc_server old \<noteq> sv \<or> rc_action old \<noteq> a
          then Inl ''Operation ID belongs to another action.''
          else Inl ''This operation is already recorded. Check its outcome before continuing.''
      | None \<Rightarrow>
          if MAX_RECEIPTS \<le> length rows
          then Inl ''Review saved Git outcomes before starting more operations.''
          else Inr (Some (rows @ [\<lparr>rc_operation = i, rc_server = sv, rc_action = a,
                                   rc_state = Pending\<rparr>])))"

definition begin_receipt ::
  "ledger_lib \<Rightarrow> string \<Rightarrow> string \<Rightarrow> string \<Rightarrow> ledger \<Rightarrow> ledger \<times> (string + unit)" where
  "begin_receipt lib sv i a = update_log lib (begin_rows sv i a)"

definition observe_rows ::
  "string \<Rightarrow> string \<Rightarrow> receipt_state \<Rightarrow> receipt list \<Rightarrow> string + receipt list option" where
  "observe_rows sv i st rows =
     (case find (same_operation sv i) rows of
        None \<Rightarrow> Inr None
      | Some row \<Rightarrow>
          if rc_state row = ReviewedUnknown \<and> st \<in> {OutcomeUnknown, ReviewedUnknown} then Inr None
          else if rc_state row = ReviewedUnknown \<and> st \<notin> {Succeeded, Failed, NeedsResolution}
          then Inl ''A reviewed operation cannot return to an unconfirmed state.''
          else if rc_state row \<noteq> ReviewedUnknown \<and> complete (rc_state row) \<and> rc_state row \<noteq> st
          then Inl ''Git operation outcome changed unexpectedly.''
          else Inr (Some (update_first (same_operation sv i) (\<lambda>r. r\<lparr>rc_state := st\<rparr>) rows)))"

definition observe ::
  "ledger_lib \<Rightarrow> string \<Rightarrow> string \<Rightarrow> receipt_state \<Rightarrow> ledger \<Rightarrow> ledger \<times> (string + unit)" where
  "observe lib sv i st = update_log lib (observe_rows sv i st)"

definition not_this_server :: string where
  "not_this_server = ''The saved operation does not belong to this server.''"

definition review_ready :: "ledger_lib \<Rightarrow> string \<Rightarrow> string \<Rightarrow> ledger \<Rightarrow> string + unit" where
  "review_ready lib sv i led =
     bindR (read_log lib led) (\<lambda>rows.
     bindR (ok_or not_this_server (find (same_operation sv i) rows)) (\<lambda>row.
       if rc_state row \<in> {OutcomeUnknown, ReviewedUnknown} then Inr ()
       else Inl ''Refresh this operation's outcome before reviewing it.''))"

definition review_rows :: "string \<Rightarrow> string \<Rightarrow> receipt list \<Rightarrow> string + receipt list option" where
  "review_rows sv i rows =
     bindR (ok_or not_this_server (find (same_operation sv i) rows)) (\<lambda>row.
       if rc_state row = OutcomeUnknown
       then Inr (Some (update_first (same_operation sv i) (\<lambda>r. r\<lparr>rc_state := ReviewedUnknown\<rparr>) rows))
       else if rc_state row = ReviewedUnknown then Inr None
       else Inl ''The operation outcome changed. Refresh it before reviewing.'')"

definition review_receipt ::
  "ledger_lib \<Rightarrow> string \<Rightarrow> string \<Rightarrow> bool \<Rightarrow> ledger \<Rightarrow> ledger \<times> (string + unit)" where
  "review_receipt lib sv i confirmed led =
     (if \<not> confirmed then (led, Inl ''Only a remotely confirmed review can be saved.'')
      else update_log lib (review_rows sv i) led)"

definition acknowledge_rows ::
  "string \<Rightarrow> string \<Rightarrow> receipt list \<Rightarrow> string + receipt list option" where
  "acknowledge_rows sv i rows =
     (if \<exists>r\<in>set rows. same_operation sv i r \<and> \<not> complete (rc_state r)
      then Inl ''This operation has no confirmed outcome yet.''
      else Inr (Some (filter (\<lambda>r. \<not> same_operation sv i r) rows)))"

definition acknowledge ::
  "ledger_lib \<Rightarrow> string \<Rightarrow> string \<Rightarrow> ledger \<Rightarrow> ledger \<times> (string + unit)" where
  "acknowledge lib sv i = update_log lib (acknowledge_rows sv i)"

definition pending_operations :: "ledger_lib \<Rightarrow> string \<Rightarrow> ledger \<Rightarrow> string + receipt list" where
  "pending_operations lib sv led = mapR (filter (\<lambda>r. rc_server r = sv)) (read_log lib led)"

end
