(* ===== verification/PendingProps.thy ===== *)
theory PendingProps
  imports Pending
begin

text \<open>
  What the recovery log guarantees: the file as an instance of \<open>replaced_file\<close>, the state machine of
  a receipt, and its preservation by every operation under arbitrary disk faults.
\<close>

section \<open>The log as a replaced file\<close>

text \<open>
  The documented behaviour of the encoder: printed rows parse back, and a row takes at most its two
  identifiers, its action with every byte escaped, and the names of the fields.
\<close>

definition ledger_lib_ok :: "ledger_lib \<Rightarrow> bool" where
  "ledger_lib_ok lib \<longleftrightarrow> (\<forall>rows d. ll_print lib rows = Some d \<longrightarrow> ll_parse lib d = Some rows \<and>
     length d \<le> 2 + sum_list (map (\<lambda>r. 100 + length (rc_operation r) + length (rc_server r) +
                                       6 * length (rc_action r)) rows))"

text \<open>Hyphenated identifiers, the type \<open>Uuid\<close> of the source.\<close>

definition uuid_rows :: "receipt list \<Rightarrow> bool" where
  "uuid_rows rows \<longleftrightarrow> (\<forall>r\<in>set rows. length (rc_operation r) = 36 \<and> length (rc_server r) = 36)"

lemma sum_list_bound: "(\<And>x. x \<in> set xs \<Longrightarrow> f x \<le> k) \<Longrightarrow> sum_list (map f xs) \<le> k * length (xs :: 'a list)"
  for f :: "'a \<Rightarrow> nat"
  by (induction xs) (auto simp: add_mono)

text \<open>A log of the maximal number of rows still fits its size limit.\<close>

lemma rows_fit:
  assumes "ledger_lib_ok lib" "valid_rows rows" "uuid_rows rows" "ll_print lib rows = Some d"
  shows "length d \<le> MAX_LOG"
proof -
  have "100 + length (rc_operation r) + length (rc_server r) + 6 * length (rc_action r) \<le> 652"
    if "r \<in> set rows" for r
    using that assms(2,3) by (auto simp: valid_rows_def uuid_rows_def valid_action_def)
  then have "sum_list (map (\<lambda>r. 100 + length (rc_operation r) + length (rc_server r) +
      6 * length (rc_action r)) rows) \<le> 652 * length rows"
    by (rule sum_list_bound)
  moreover have "length d \<le> 2 + sum_list (map (\<lambda>r. 100 + length (rc_operation r) +
      length (rc_server r) + 6 * length (rc_action r)) rows)"
    using assms(1,4) unfolding ledger_lib_ok_def by blast
  moreover have "length rows \<le> 1000" using assms(2) by (simp add: valid_rows_def MAX_RECEIPTS_def)
  ultimately show ?thesis unfolding MAX_LOG_def by linarith
qed

definition storable :: "ledger_lib \<Rightarrow> receipt list \<Rightarrow> bool" where
  "storable lib rows \<longleftrightarrow> ledger_lib_ok lib \<and> valid_rows rows \<and> uuid_rows rows"

lemma read_printed:
  "storable lib rows \<Longrightarrow> ll_print lib rows = Some d \<Longrightarrow>
   read_log lib (led\<lparr>lg_file := Bytes d\<rparr>) = Inr rows"
  using rows_fit [of lib rows d]
  by (auto simp: storable_def read_log_def ledger_lib_ok_def)

lemma read_log_faults [simp]: "read_log lib (led\<lparr>lg_faults := x\<rparr>) = read_log lib led"
  by (simp add: read_log_def)

interpretation log: replaced_file "read_log lib" "save_log lib" "storable lib" for lib
proof unfold_locales
  fix v s s' u
  assume "storable lib v" "save_log lib v s = (s', Inr u)"
  then show "read_log lib s' = Inr v"
    using read_printed [of lib v]
    by (auto simp: save_log_def Let_def split: option.splits list.splits replace_fault.splits)
next
  fix v s s' e
  assume "storable lib v" "save_log lib v s = (s', Inl e)"
  then show "read_log lib s' = read_log lib s \<or> read_log lib s' = Inr v"
    using read_printed [of lib v]
    by (auto simp: save_log_def Let_def split: option.splits list.splits replace_fault.splits)
qed

section \<open>What an operation may change\<close>

definition look :: "receipt list \<Rightarrow> string \<Rightarrow> receipt option" where
  "look rows = map_of (map (\<lambda>r. (rc_operation r, r)) rows)"

text \<open>
  The state machine of a receipt. A confirmed outcome is final; the acknowledgement of an unknown
  outcome may still be replaced by the confirmed one.
\<close>

definition state_next :: "receipt_state \<Rightarrow> receipt_state \<Rightarrow> bool" where
  "state_next a b \<longleftrightarrow> a = b \<or> \<not> complete a \<or>
     (a = ReviewedUnknown \<and> b \<in> {Succeeded, Failed, NeedsResolution})"

definition receipt_step :: "receipt option \<Rightarrow> receipt option \<Rightarrow> bool" where
  "receipt_step x y \<longleftrightarrow> x = y \<or>
     (case (x, y) of
        (None, Some r) \<Rightarrow> rc_state r = Pending
      | (Some r, Some r') \<Rightarrow> state_next (rc_state r) (rc_state r') \<and> r' = r\<lparr>rc_state := rc_state r'\<rparr>
      | (Some r, None) \<Rightarrow> complete (rc_state r)
      | (None, None) \<Rightarrow> True)"

definition log_next :: "receipt list \<Rightarrow> receipt list \<Rightarrow> bool" where
  "log_next rows rows' \<longleftrightarrow> (\<exists>i. receipt_step (look rows i) (look rows' i) \<and>
     (\<forall>j. j \<noteq> i \<longrightarrow> look rows' j = look rows j))"

lemma look_simps [simp]: "look [] = Map.empty"
  "look (r # rows) = (look rows)(rc_operation r \<mapsto> r)"
  by (simp_all add: look_def)

lemma look_None: "look rows i = None \<longleftrightarrow> i \<notin> rc_operation ` set rows"
  by (induction rows) auto

lemma look_append: "look rows i = None \<Longrightarrow> rc_operation r = i \<Longrightarrow>
  look (rows @ [r]) = (look rows)(i \<mapsto> r)"
  by (induction rows) (auto simp: fun_eq_iff)

lemma look_Some: "look rows i = Some r \<Longrightarrow> r \<in> set rows \<and> rc_operation r = i"
  by (induction rows) (auto split: if_splits)

lemma look_mem: "distinct (map rc_operation rows) \<Longrightarrow> r \<in> set rows \<Longrightarrow> look rows (rc_operation r) = Some r"
  by (induction rows) (auto simp: image_iff)

lemma find_look:
  assumes "distinct (map rc_operation rows)" "find (same_operation sv i) rows = Some row"
  shows "look rows i = Some row" "rc_operation row = i" "rc_server row = sv" "row \<in> set rows"
proof -
  from assms(2) have m: "row \<in> set rows" "same_operation sv i row"
    by (auto simp: find_Some_iff)
  then show "rc_operation row = i" "rc_server row = sv" "row \<in> set rows"
    by (simp_all add: same_operation_def)
  with look_mem [OF assms(1) m(1)] show "look rows i = Some row" by simp
qed

lemma look_update:
  assumes "distinct (map rc_operation rows)" "find (same_operation sv i) rows = Some row"
    and "\<And>r. rc_operation (f r) = rc_operation r"
  shows "look (update_first (same_operation sv i) f rows) = (look rows)(i \<mapsto> f row)"
  using assms(1,2)
proof (induction rows)
  case (Cons r rows)
  show ?case
  proof (cases "same_operation sv i r")
    case True
    then show ?thesis using Cons.prems assms(3) by (simp add: same_operation_def fun_eq_iff)
  next
    case False
    then have f: "find (same_operation sv i) rows = Some row" using Cons.prems by simp
    then have "rc_operation row = i" "row \<in> set rows"
      using find_look [OF _ f] Cons.prems by auto
    then have "rc_operation r \<noteq> i" using Cons.prems(1) by auto
    then show ?thesis using False Cons.IH [OF _ f] Cons.prems by (auto simp: fun_eq_iff)
  qed
qed simp

lemma update_first_keys:
  "(\<And>r. rc_operation (f r) = rc_operation r) \<Longrightarrow>
   map rc_operation (update_first P f rows) = map rc_operation rows"
  by (induction rows) simp_all

lemma update_first_all:
  "(\<And>r. Q r \<Longrightarrow> Q (f r)) \<Longrightarrow> \<forall>r\<in>set rows. Q r \<Longrightarrow> \<forall>r\<in>set (update_first P f rows). Q r"
  by (induction rows) auto

lemma update_first_storable:
  "storable lib rows \<Longrightarrow> storable lib (update_first P (\<lambda>r. r\<lparr>rc_state := st\<rparr>) rows)"
proof -
  assume s: "storable lib rows"
  have k: "map rc_operation (update_first P (\<lambda>r. r\<lparr>rc_state := st\<rparr>) rows) = map rc_operation rows"
    by (rule update_first_keys) simp
  then have "length (update_first P (\<lambda>r. r\<lparr>rc_state := st\<rparr>) rows) = length rows"
    by (metis length_map)
  moreover have "\<forall>r\<in>set (update_first P (\<lambda>r. r\<lparr>rc_state := st\<rparr>) rows). valid_action (rc_action r) \<and>
      length (rc_operation r) = 36 \<and> length (rc_server r) = 36"
    by (rule update_first_all) (use s in \<open>auto simp: storable_def valid_rows_def uuid_rows_def\<close>)
  ultimately show ?thesis using s k
    by (simp add: storable_def valid_rows_def uuid_rows_def)
qed

lemma look_filter:
  "distinct (map rc_operation rows) \<Longrightarrow>
   look (filter P rows) i = (case look rows i of None \<Rightarrow> None | Some r \<Rightarrow> if P r then Some r else None)"
  by (induction rows) (auto simp: look_None fun_upd_def split: option.split)

lemma log_nextI:
  "(\<And>j. j \<noteq> i \<Longrightarrow> look rows' j = look rows j) \<Longrightarrow> receipt_step (look rows i) (look rows' i) \<Longrightarrow>
   log_next rows rows'"
  unfolding log_next_def by blast

lemma log_next_refl: "log_next rows rows"
  by (simp add: log_next_def receipt_step_def)

lemma begin_rows_next:
  assumes s: "storable lib rows" and i: "length i = 36" "length sv = 36"
    and b: "begin_rows sv i a rows = Inr (Some rows')"
  shows "storable lib rows' \<and> log_next rows rows'"
proof -
  let ?new = "\<lparr>rc_operation = i, rc_server = sv, rc_action = a, rc_state = Pending\<rparr>"
  from b have new: "valid_action a" "find (\<lambda>r. rc_operation r = i) rows = None"
    "length rows < MAX_RECEIPTS" "rows' = rows @ [?new]"
    by (auto simp: begin_rows_def split: if_splits option.splits)
  have none: "look rows i = None" using new(2) by (auto simp: look_None find_None_iff)
  then have fresh: "i \<notin> rc_operation ` set rows" by (simp add: look_None)
  have look': "look rows' = (look rows)(i \<mapsto> ?new)"
    unfolding new(4) by (rule look_append [OF none]) simp
  have "storable lib rows'"
    using s new(1,3) fresh i unfolding new(4) storable_def valid_rows_def uuid_rows_def by auto
  moreover have "log_next rows rows'"
    by (rule log_nextI [where i = i]) (simp_all add: look' none receipt_step_def)
  ultimately show ?thesis ..
qed

text \<open>Changing the state of the first matching row along the state machine.\<close>

lemma update_state_next:
  assumes s: "storable lib rows" and f: "find (same_operation sv i) rows = Some row"
    and st: "state_next (rc_state row) st"
    and u: "rows' = update_first (same_operation sv i) (\<lambda>r. r\<lparr>rc_state := st\<rparr>) rows"
  shows "storable lib rows' \<and> log_next rows rows'"
proof -
  have d: "distinct (map rc_operation rows)" using s by (simp add: storable_def valid_rows_def)
  have l: "look rows' = (look rows)(i \<mapsto> row\<lparr>rc_state := st\<rparr>)"
    unfolding u by (rule look_update [OF d f]) simp
  have "log_next rows rows'"
    by (rule log_nextI [where i = i])
      (simp_all add: l find_look(1) [OF d f] receipt_step_def st)
  then show ?thesis using update_first_storable [OF s] u by simp
qed

lemma observe_rows_next:
  assumes "storable lib rows" "observe_rows sv i st rows = Inr (Some rows')"
  shows "storable lib rows' \<and> log_next rows rows'"
proof -
  obtain row where f: "find (same_operation sv i) rows = Some row"
    and st: "state_next (rc_state row) st"
    and u: "rows' = update_first (same_operation sv i) (\<lambda>r. r\<lparr>rc_state := st\<rparr>) rows"
    using assms(2) by (auto simp: observe_rows_def state_next_def complete_def split: option.splits if_splits)
  show ?thesis by (rule update_state_next [OF assms(1) f st u])
qed

lemma review_rows_next:
  assumes "storable lib rows" "review_rows sv i rows = Inr (Some rows')"
  shows "storable lib rows' \<and> log_next rows rows'"
proof -
  obtain row where f: "find (same_operation sv i) rows = Some row"
    and st: "state_next (rc_state row) ReviewedUnknown"
    and u: "rows' = update_first (same_operation sv i) (\<lambda>r. r\<lparr>rc_state := ReviewedUnknown\<rparr>) rows"
    using assms(2)
    by (auto simp: review_rows_def state_next_def complete_def result_simps split: if_splits)
  show ?thesis by (rule update_state_next [OF assms(1) f st u])
qed

lemma acknowledge_rows_next:
  assumes s: "storable lib rows" and a: "acknowledge_rows sv i rows = Inr (Some rows')"
  shows "storable lib rows' \<and> log_next rows rows'"
proof -
  have d: "distinct (map rc_operation rows)" using s by (simp add: storable_def valid_rows_def)
  have f: "rows' = filter (\<lambda>r. \<not> same_operation sv i r) rows"
    and c: "\<And>r. r \<in> set rows \<Longrightarrow> same_operation sv i r \<Longrightarrow> complete (rc_state r)"
    using a by (auto simp: acknowledge_rows_def split: if_splits)
  have "distinct (map rc_operation rows')" unfolding f by (rule distinct_map_filter [OF d])
  moreover have "length rows' \<le> MAX_RECEIPTS" unfolding f
    by (rule order_trans [OF length_filter_le]) (use s in \<open>simp add: storable_def valid_rows_def\<close>)
  moreover have "set rows' \<subseteq> set rows" unfolding f by auto
  ultimately have "storable lib rows'" using s
    unfolding storable_def valid_rows_def uuid_rows_def by blast
  moreover have "log_next rows rows'"
  proof (rule log_nextI [where i = i])
    fix j assume "j \<noteq> i"
    then show "look rows' j = look rows j"
      using look_Some [of rows j]
      by (auto simp: f look_filter [OF d] same_operation_def split: option.split)
  next
    show "receipt_step (look rows i) (look rows' i)"
      using look_Some [of rows i] c
      by (auto simp: f look_filter [OF d] receipt_step_def split: option.split)
  qed
  ultimately show ?thesis ..
qed

section \<open>All operations\<close>

datatype log_op =
    Begin string string string
  | Observe string string receipt_state
  | Review string string bool
  | Acknowledge string string

fun log_run :: "ledger_lib \<Rightarrow> log_op \<Rightarrow> ledger \<Rightarrow> ledger \<times> (string + unit)" where
  "log_run lib (Begin sv i a) led = begin_receipt lib sv i a led"
| "log_run lib (Observe sv i st) led = observe lib sv i st led"
| "log_run lib (Review sv i c) led = review_receipt lib sv i c led"
| "log_run lib (Acknowledge sv i) led = acknowledge lib sv i led"

fun uuid_op :: "log_op \<Rightarrow> bool" where
  "uuid_op (Begin sv i a) \<longleftrightarrow> length sv = 36 \<and> length i = 36"
| "uuid_op (Observe sv i st) \<longleftrightarrow> True"
| "uuid_op (Review sv i c) \<longleftrightarrow> True"
| "uuid_op (Acknowledge sv i) \<longleftrightarrow> True"

lemma update_log_rel:
  assumes "storable lib rows" "read_log lib led = Inr rows"
    and "\<And>rows'. f rows = Inr (Some rows') \<Longrightarrow> storable lib rows' \<and> R rows rows'" and "R rows rows"
  shows "\<exists>rows'. read_log lib (fst (update_log lib f led)) = Inr rows' \<and>
    storable lib rows' \<and> R rows rows'"
proof (rule log.modify [where v = rows and f = f and s = led and r = "snd (update_log lib f led)"
      and R = "\<lambda>v w. storable lib w \<and> R v w"])
  show "(fst (update_log lib f led), snd (update_log lib f led)) =
      (case bindR (read_log lib led) f of Inl e \<Rightarrow> (led, Inl e) | Inr None \<Rightarrow> (led, Inr ())
       | Inr (Some w) \<Rightarrow> save_log lib w led)"
    by (simp add: update_log_def)
qed (use assms in auto)

text \<open>Only its own acknowledgement removes a receipt.\<close>

definition kept :: "log_op \<Rightarrow> receipt list \<Rightarrow> receipt list \<Rightarrow> bool" where
  "kept op rows rows' \<longleftrightarrow> (\<forall>r\<in>set rows. op = Acknowledge (rc_server r) (rc_operation r) \<or>
     rc_operation r \<in> set (map rc_operation rows'))"

definition op_rows :: "log_op \<Rightarrow> receipt list \<Rightarrow> string + receipt list option" where
  "op_rows op = (case op of Begin sv i a \<Rightarrow> begin_rows sv i a | Observe sv i st \<Rightarrow> observe_rows sv i st
     | Review sv i c \<Rightarrow> review_rows sv i | Acknowledge sv i \<Rightarrow> acknowledge_rows sv i)"

lemma kept_refl: "kept op rows rows"
  by (simp add: kept_def)

lemma op_rows_next:
  assumes "storable lib rows" "uuid_op op" "op_rows op rows = Inr (Some rows')"
  shows "storable lib rows' \<and> log_next rows rows' \<and> kept op rows rows'"
proof -
  have same: "kept op rows rows'" if "map rc_operation rows' = map rc_operation rows"
    using that by (auto simp: kept_def)
  show ?thesis
  proof (cases op)
    case (Begin sv i a)
    then have "kept op rows rows'"
      using assms(3) by (auto simp: op_rows_def begin_rows_def kept_def split: if_splits option.splits)
    then show ?thesis using begin_rows_next [OF assms(1), of i sv a rows'] assms(2,3) Begin
      by (simp add: op_rows_def)
  next
    case (Observe sv i st)
    then have "map rc_operation rows' = map rc_operation rows"
      using assms(3) by (auto simp: op_rows_def observe_rows_def update_first_keys split: option.splits if_splits)
    then show ?thesis using observe_rows_next [OF assms(1)] same assms(3) Observe
      by (auto simp: op_rows_def)
  next
    case (Review sv i c)
    then have "map rc_operation rows' = map rc_operation rows"
      using assms(3) by (auto simp: op_rows_def review_rows_def update_first_keys result_simps split: if_splits)
    then show ?thesis using review_rows_next [OF assms(1)] same assms(3) Review
      by (auto simp: op_rows_def)
  next
    case (Acknowledge sv i)
    then have "kept op rows rows'"
      using assms(3) by (auto simp: op_rows_def acknowledge_rows_def kept_def same_operation_def split: if_splits)
    then show ?thesis using acknowledge_rows_next [OF assms(1)] assms(3) Acknowledge
      by (simp add: op_rows_def)
  qed
qed

lemma log_run_update:
  "log_run lib op led = update_log lib (op_rows op) led \<or>
   (\<exists>e. log_run lib op led = (led, Inl e))"
  by (cases op) (auto simp: op_rows_def begin_receipt_def observe_def review_receipt_def acknowledge_def)

lemma log_run_next:
  assumes "storable lib rows" "read_log lib led = Inr rows" "uuid_op op"
  shows "\<exists>rows'. read_log lib (fst (log_run lib op led)) = Inr rows' \<and>
    storable lib rows' \<and> log_next rows rows' \<and> kept op rows rows'"
  using log_run_update [of lib op led]
proof
  assume r: "log_run lib op led = update_log lib (op_rows op) led"
  show ?thesis unfolding r
    by (rule update_log_rel [where R = "\<lambda>v w. log_next v w \<and> kept op v w", OF assms(1,2)
          op_rows_next [OF assms(1,3)]])
      (simp_all add: log_next_refl kept_refl)
qed (use assms log_next_refl kept_refl in fastforce)

fun log_runs :: "ledger_lib \<Rightarrow> log_op list \<Rightarrow> ledger \<Rightarrow> ledger" where
  "log_runs lib [] led = led"
| "log_runs lib (op # ops) led = log_runs lib ops (fst (log_run lib op led))"

text \<open>What a confirmed receipt keeps until it is acknowledged.\<close>

lemma confirmed_kept:
  assumes "log_next rows rows'" "kept op rows rows'" "look rows i = Some r"
    and "complete (rc_state r)" "rc_state r \<noteq> ReviewedUnknown"
    and "op \<noteq> Acknowledge (rc_server r) i"
  shows "look rows' i = Some r"
proof -
  have r: "r \<in> set rows" "rc_operation r = i" using look_Some [OF assms(3)] by simp_all
  then have "i \<in> rc_operation ` set rows'" using assms(2,6) by (auto simp: kept_def)
  then obtain r' where r': "look rows' i = Some r'" using look_None [of rows' i] by blast
  obtain k where k: "receipt_step (look rows k) (look rows' k)"
    "\<forall>j. j \<noteq> k \<longrightarrow> look rows' j = look rows j" using assms(1) unfolding log_next_def by blast
  show ?thesis
  proof (cases "i = k")
    case True
    then have "receipt_step (Some r) (Some r')" using k(1) assms(3) r' by simp
    then have "r' = r"
      using assms(4,5) by (auto simp: receipt_step_def state_next_def complete_def)
    with r' show ?thesis by simp
  qed (use k(2) assms(3) in simp)
qed

lemma read_valid: "read_log lib led = Inr rows \<Longrightarrow> valid_rows rows"
  by (auto simp: read_log_def valid_rows_def MAX_RECEIPTS_def split: log_file.splits if_splits option.splits)

section \<open>A concrete encoder\<close>

text \<open>Length prefixes in unary would not meet the size law, so the sample writes each row as its
  two identifiers, one byte of state, one byte of length and the action.\<close>

definition state_codes :: "receipt_state list" where
  "state_codes = [Pending, Succeeded, Failed, Rejected, NeedsResolution, OutcomeUnknown, ReviewedUnknown]"

definition state_code :: "receipt_state \<Rightarrow> char" where
  "state_code s = char_of (length (takeWhile (\<lambda>t. t \<noteq> s) state_codes))"

definition enc_receipt :: "receipt \<Rightarrow> bytes" where
  "enc_receipt r = rc_operation r @ rc_server r @ [state_code (rc_state r), char_of (length (rc_action r))] @
     rc_action r"

fun dec_receipts :: "nat \<Rightarrow> bytes \<Rightarrow> receipt list" where
  "dec_receipts 0 b = []"
| "dec_receipts (Suc n) b =
     (if b = [] then []
      else (let k = of_char (b ! 73) in
        \<lparr>rc_operation = take 36 b, rc_server = take 36 (drop 36 b), rc_action = take k (drop 74 b),
         rc_state = state_codes ! of_char (b ! 72)\<rparr> # dec_receipts n (drop (74 + k) b)))"

definition sample_log_lib :: ledger_lib where
  "sample_log_lib = \<lparr>ll_print = (\<lambda>rows. if uuid_rows rows \<and> (\<forall>r\<in>set rows. length (rc_action r) < 256)
                                   then Some (concat (map enc_receipt rows)) else None),
     ll_parse = (\<lambda>b. Some (dec_receipts (length b) b))\<rparr>"

lemma state_code_inverse: "state_codes ! of_char (state_code s) = s"
  by (cases s) (simp_all add: state_code_def state_codes_def)

lemma dec_receipt:
  assumes "length (rc_operation r) = 36" "length (rc_server r) = 36" "length (rc_action r) < 256"
  shows "dec_receipts (Suc n) (enc_receipt r @ b) = r # dec_receipts n b"
proof -
  let ?b = "enc_receipt r @ b"
  have pos: "?b ! 72 = state_code (rc_state r)" "?b ! 73 = char_of (length (rc_action r))"
    "take 36 ?b = rc_operation r" "take 36 (drop 36 ?b) = rc_server r"
    using assms(1,2) by (simp_all add: enc_receipt_def nth_append)
  have k: "of_char (char_of (length (rc_action r)) :: char) = length (rc_action r)"
    using assms(3) by simp
  have tail: "take (length (rc_action r)) (drop 74 ?b) = rc_action r" "drop (74 + length (rc_action r)) ?b = b"
    using assms(1,2) by (simp_all add: enc_receipt_def)
  have "?b \<noteq> []" using assms(1) by (auto simp: enc_receipt_def)
  then show ?thesis by (simp only: dec_receipts.simps Let_def if_False pos k tail state_code_inverse) simp
qed

lemma dec_all:
  "uuid_rows rows \<Longrightarrow> \<forall>r\<in>set rows. length (rc_action r) < 256 \<Longrightarrow> length rows \<le> n \<Longrightarrow>
   dec_receipts n (concat (map enc_receipt rows)) = rows"
proof (induction rows arbitrary: n)
  case Nil
  then show ?case by (cases n) simp_all
next
  case (Cons r rows)
  then obtain m where "n = Suc m" by (cases n) auto
  with Cons show ?case by (simp add: dec_receipt uuid_rows_def del: dec_receipts.simps)
qed

lemma sample_read:
  assumes "length (rc_operation r) = 36" "length (rc_server r) = 36" "valid_action (rc_action r)"
    and "lg_file led = Bytes (enc_receipt r)"
  shows "read_log sample_log_lib led = Inr [r]"
proof -
  have len: "length (rc_action r) \<le> 80" using assms(3) by (simp add: valid_action_def)
  have "dec_receipts (length (enc_receipt r)) (enc_receipt r) = [r]"
    using dec_all [of "[r]" "length (enc_receipt r)"] assms(1,2) len
    by (simp add: uuid_rows_def enc_receipt_def)
  moreover have "length (enc_receipt r) \<le> MAX_LOG"
    using assms(1,2) len by (simp add: enc_receipt_def MAX_LOG_def)
  ultimately show ?thesis using assms(3,4)
    by (simp add: read_log_def sample_log_lib_def valid_rows_def MAX_RECEIPTS_def)
qed

lemma sample_save:
  assumes "length (rc_operation r) = 36" "length (rc_server r) = 36" "valid_action (rc_action r)"
    and "lg_faults led = []"
  shows "save_log sample_log_lib [r] led = (led\<lparr>lg_file := Bytes (enc_receipt r)\<rparr>, Inr ())"
  using assms by (simp add: save_log_def sample_log_lib_def uuid_rows_def valid_action_def)

lemma sample_log_lib_ok: "ledger_lib_ok sample_log_lib"
  unfolding ledger_lib_ok_def
proof (intro allI impI conjI)
  fix rows d assume "ll_print sample_log_lib rows = Some d"
  then have u: "uuid_rows rows" "\<forall>r\<in>set rows. length (rc_action r) < 256"
    and d: "d = concat (map enc_receipt rows)"
    by (auto simp: sample_log_lib_def split: if_splits)
  have "length rows \<le> length d"
    unfolding d by (induction rows) (auto simp: enc_receipt_def)
  then show "ll_parse sample_log_lib d = Some rows"
    using dec_all [OF u] d by (simp add: sample_log_lib_def)
  show "length d \<le> 2 + sum_list (map (\<lambda>r. 100 + length (rc_operation r) + length (rc_server r) +
      6 * length (rc_action r)) rows)"
    unfolding d by (induction rows) (auto simp: enc_receipt_def)
qed

section \<open>Properties\<close>

text \<open>
  C12: Whatever the disk does, an operation on a readable log leaves a readable, valid log (it never
  outgrows the limits its reader enforces), changes at most one receipt and moves it along the
  receipt's state machine, and removes a receipt only by its own acknowledgement.
\<close>

theorem ledger_transition:
  assumes "ledger_lib_ok lib" and "read_log lib led = Inr rows" and "uuid_rows rows" and "uuid_op op"
  shows "\<exists>rows'. read_log lib (fst (log_run lib op led)) = Inr rows' \<and> valid_rows rows' \<and>
    uuid_rows rows' \<and> log_next rows rows' \<and> kept op rows rows'"
proof -
  have "storable lib rows" using assms(1,3) read_valid [OF assms(2)] by (simp add: storable_def)
  from log_run_next [OF this assms(2,4)] show ?thesis by (auto simp: storable_def)
qed

definition id_a :: string where "id_a = replicate 36 (CHR ''a'')"
definition id_s :: string where "id_s = replicate 36 (CHR ''5'')"

text \<open>A device that renames the file and then fails to sync the directory.\<close>

definition empty_log :: ledger where
  "empty_log = \<lparr>lg_file = NoFile, lg_faults = [ReplacedNotSynced ''EIO'']\<rparr>"

theorem ledger_transition_witness:
  "\<exists>rows'. read_log sample_log_lib (fst (begin_receipt sample_log_lib id_s id_a ''commit'' empty_log)) = Inr rows' \<and>
    valid_rows rows'"
  using ledger_transition [OF sample_log_lib_ok, of empty_log "[]" "Begin id_s id_a ''commit''"]
  by (auto simp: read_log_def empty_log_def uuid_rows_def id_a_def id_s_def)

text \<open>
  A confirmed outcome is final: whatever operations follow, in any order and with any disk
  faults, the receipt keeps it until it is acknowledged.
\<close>

lemma confirmed_outcome_final:
  assumes "ledger_lib_ok lib" and "read_log lib led = Inr rows" and "uuid_rows rows"
    and "list_all uuid_op ops" and "look rows i = Some r"
    and "complete (rc_state r)" and "rc_state r \<noteq> ReviewedUnknown"
    and "Acknowledge (rc_server r) i \<notin> set ops"
  shows "\<exists>rows'. read_log lib (log_runs lib ops led) = Inr rows' \<and> look rows' i = Some r"
  using assms(2-5,8)
proof (induction ops arbitrary: led rows)
  case Nil
  then show ?case by simp
next
  case (Cons op ops)
  have "storable lib rows" using assms(1) Cons.prems(2) read_valid [OF Cons.prems(1)]
    by (simp add: storable_def)
  from log_run_next [OF this Cons.prems(1), of op] obtain rows1 where
    r1: "read_log lib (fst (log_run lib op led)) = Inr rows1" "storable lib rows1"
      "log_next rows rows1" "kept op rows rows1" using Cons.prems(3) by auto
  have "look rows1 i = Some r"
    by (rule confirmed_kept [OF r1(3,4) Cons.prems(4) assms(6,7)]) (use Cons.prems(5) in auto)
  with Cons.IH [OF r1(1)] r1(2) Cons.prems(3,5) show ?case by (auto simp: storable_def)
qed

definition confirmed_row :: receipt where
  "confirmed_row = \<lparr>rc_operation = id_a, rc_server = id_s, rc_action = ''commit'', rc_state = Succeeded\<rparr>"

definition confirmed_log :: ledger where
  "confirmed_log = \<lparr>lg_file = Bytes (enc_receipt confirmed_row), lg_faults = [NotReplaced ''ENOSPC'']\<rparr>"

lemma confirmed_outcome_final_witness:
  "\<exists>rows'. read_log sample_log_lib (log_runs sample_log_lib
     [Observe id_s id_a Rejected, Review id_s id_a True, Begin id_s id_a ''commit''] confirmed_log) = Inr rows' \<and>
     look rows' id_a = Some confirmed_row"
proof -
  have len: "length (rc_operation confirmed_row) = 36" "length (rc_server confirmed_row) = 36"
    "valid_action (rc_action confirmed_row)"
    by (simp_all add: confirmed_row_def id_a_def id_s_def valid_action_def)
  have read: "read_log sample_log_lib confirmed_log = Inr [confirmed_row]"
    by (rule sample_read [OF len]) (simp add: confirmed_log_def)
  show ?thesis
    by (rule confirmed_outcome_final [OF sample_log_lib_ok read])
      (simp_all add: uuid_rows_def len complete_def, simp_all add: confirmed_row_def id_a_def id_s_def)
qed

end
