(* ===== verification/Dispatch.thy ===== *)
theory Dispatch
  imports PendingProps
begin

text \<open>
  How the desktop sends a request, \<open>git_request\<close> of \<open>src-tauri/src/git/mod.rs\<close> with \<open>response\<close> of
  \<open>reads.rs\<close> and the review of an unknown outcome (\<open>pending.rs\<close>): a receipt is saved before a write
  is sent, the write is sent once, and what comes back decides the receipt. The exchange with the
  agent is a parameter of the model; connecting and the choice of a lane come before it and change
  nothing that is modelled.
\<close>

section \<open>Requests\<close>

datatype desk_request =
    ReqStart string string
  | ReqInit string
  | ReqClone string
  | ReqGet string
  | ReqReview string
  | ReqRead

fun is_mutation :: "desk_request \<Rightarrow> bool" where
  "is_mutation (ReqStart i a) = True"
| "is_mutation (ReqInit i) = True"
| "is_mutation (ReqClone i) = True"
| "is_mutation (ReqReview i) = True"
| "is_mutation (ReqGet i) = False"
| "is_mutation ReqRead = False"

fun operation_of :: "desk_request \<Rightarrow> string option" where
  "operation_of (ReqStart i a) = Some i"
| "operation_of (ReqInit i) = Some i"
| "operation_of (ReqClone i) = Some i"
| "operation_of _ = None"

fun observed_of :: "desk_request \<Rightarrow> string option" where
  "observed_of (ReqGet i) = Some i"
| "observed_of (ReqReview i) = Some i"
| "observed_of r = operation_of r"

text \<open>The name a receipt records: the kind of the action, or the method.\<close>

fun action_of :: "desk_request \<Rightarrow> string" where
  "action_of (ReqStart i a) = a"
| "action_of (ReqInit i) = ''repo.init''"
| "action_of (ReqClone i) = ''repo.clone''"
| "action_of (ReqGet i) = ''operation.get''"
| "action_of (ReqReview i) = ''operation.review''"
| "action_of ReqRead = ''read''"

fun repository_write :: "desk_request \<Rightarrow> bool" where
  "repository_write (ReqStart i a) = True"
| "repository_write _ = False"

fun bootstrap_write :: "desk_request \<Rightarrow> bool" where
  "bootstrap_write (ReqInit i) = True"
| "bootstrap_write (ReqClone i) = True"
| "bootstrap_write _ = False"

fun is_lookup :: "desk_request \<Rightarrow> bool" where
  "is_lookup (ReqGet i) = True"
| "is_lookup _ = False"

section \<open>The response\<close>

text \<open>How waiting for the client ends.\<close>

datatype waited = Answered "gerror + json" | ReadCancelled | SessionCancelled | DeadlinePassed

definition read_cancelled :: gerror where
  "read_cancelled = gerror_new ''READ_CANCELLED'' ''Git read was cancelled.''"

definition waited_result :: "waited \<Rightarrow> gerror + json" where
  "waited_result w = (case w of
     Answered r \<Rightarrow> r
   | ReadCancelled \<Rightarrow> Inl read_cancelled
   | SessionCancelled \<Rightarrow> Inl (gerror_new ''CANCELLED'' ''Git session was disconnected.'')
   | DeadlinePassed \<Rightarrow> Inl (gerror_transport ''Git request timed out. Reconnect before continuing.''))"

text \<open>The result and whether the lane's stream is kept.\<close>

definition response :: "bool \<Rightarrow> waited \<Rightarrow> (gerror + json) \<times> bool" where
  "response mutation w =
     (case waited_result w of
        Inr v \<Rightarrow> (Inr v, True)
      | Inl e \<Rightarrow>
          if \<not> mutation \<and> code e \<in> {''TRANSPORT_ERROR'', ''PROTOCOL_ERROR''}
          then (Inl (e\<lparr>code := ''READ_CHANNEL_ERROR'',
                       message := ''The Git read channel was interrupted. Retry this read.''\<rparr>), False)
          else (Inl e, code e \<noteq> ''READ_CANCELLED''))"

section \<open>Sending\<close>

record 'w desk =
  ds_ledger :: ledger
  ds_remote :: 'w
  ds_lane :: bool
  ds_open :: bool

record 'w desk_env =
  de_log :: ledger_lib
  de_uuid :: "string \<Rightarrow> string option"
  de_server :: string
  de_exchange :: "'w \<Rightarrow> 'w \<times> waited"
  de_closed :: "'w \<Rightarrow> bool"
  de_current :: "'w \<Rightarrow> bool"

definition uncertain :: "string \<Rightarrow> gerror" where
  "uncertain i = gerror_new ''OUTCOME_UNKNOWN''
     (''Operation '' @ i @ '' may have completed. Reconnect and query operation.get with this ID; do not repeat the write.'')"

definition bad_operation_id :: gerror where
  "bad_operation_id = gerror_invalid ''Operation ID must be a UUID.''"

text \<open>The receipt, before anything is sent.\<close>

definition announce :: "'w desk_env \<Rightarrow> desk_request \<Rightarrow> 'w desk \<Rightarrow> 'w desk \<times> (gerror + unit)" where
  "announce env rq d =
     (case operation_of rq of
        None \<Rightarrow> (d, Inr ())
      | Some s \<Rightarrow>
          (case de_uuid env s of
             None \<Rightarrow> (d, Inl bad_operation_id)
           | Some i \<Rightarrow>
               (case begin_receipt (de_log env) (de_server env) i (action_of rq) (ds_ledger d) of
                  (led, Inl e) \<Rightarrow> (d\<lparr>ds_ledger := led\<rparr>, Inl (gerror_new ''LOCAL_JOURNAL_UNAVAILABLE'' e))
                | (led, Inr _) \<Rightarrow> (d\<lparr>ds_ledger := led\<rparr>, Inr ()))))"

text \<open>An observation whose failure makes the outcome uncertain.\<close>

definition observe_as ::
  "'w desk_env \<Rightarrow> string \<Rightarrow> receipt_state \<Rightarrow> 'w desk \<Rightarrow> 'w desk \<times> (gerror + unit)" where
  "observe_as env s st d =
     (case de_uuid env s of
        None \<Rightarrow> (d, Inl bad_operation_id)
      | Some i \<Rightarrow>
          (case observe (de_log env) (de_server env) i st (ds_ledger d) of
             (led, Inl e) \<Rightarrow> (d\<lparr>ds_ledger := led\<rparr>, Inl (uncertain s))
           | (led, Inr _) \<Rightarrow> (d\<lparr>ds_ledger := led\<rparr>, Inr ())))"

text \<open>The observation an answer calls for.\<close>

definition verdict :: "desk_request \<Rightarrow> gerror + json \<Rightarrow> gerror + (string \<times> receipt_state) option" where
  "verdict rq result =
     (case result of
        Inr v \<Rightarrow>
          (case observed_of rq of
             None \<Rightarrow> Inr None
           | Some s \<Rightarrow> (case remote_outcome v s of None \<Rightarrow> Inl (uncertain s)
                        | Some st \<Rightarrow> Inr (Some (s, st))))
      | Inl e \<Rightarrow>
          (if is_lookup rq \<and> code e = ''OPERATION_NOT_FOUND''
           then Inr (map_option (\<lambda>s. (s, Rejected)) (observed_of rq))
           else if (repository_write rq \<and> rejected_before_mutation (code e)) \<or>
                   (bootstrap_write rq \<and> bootstrap_rejected_before_mutation (code e))
           then Inr (map_option (\<lambda>s. (s, Rejected)) (operation_of rq))
           else Inr None))"

definition settle :: "'w desk_env \<Rightarrow> desk_request \<Rightarrow> gerror + json \<Rightarrow> 'w desk \<Rightarrow> 'w desk \<times> (gerror + json)" where
  "settle env rq result d =
     (case verdict rq result of
        Inl e \<Rightarrow> (d, Inl e)
      | Inr None \<Rightarrow> (d, result)
      | Inr (Some (s, st)) \<Rightarrow>
          (case observe_as env s st d of (d', Inl e) \<Rightarrow> (d', Inl e) | (d', Inr _) \<Rightarrow> (d', result)))"

definition close_session :: "'w desk \<Rightarrow> 'w desk" where
  "close_session d = d\<lparr>ds_open := False\<rparr>"

definition broken :: "gerror + json \<Rightarrow> bool" where
  "broken r = (case r of Inr _ \<Rightarrow> False
               | Inl e \<Rightarrow> code e \<in> {''TRANSPORT_ERROR'', ''PROTOCOL_ERROR'', ''CANCELLED''})"

text \<open>What follows the exchange.\<close>

definition conclude ::
  "'w desk_env \<Rightarrow> desk_request \<Rightarrow> gerror + json \<Rightarrow> 'w desk \<Rightarrow> 'w desk \<times> (gerror + json)" where
  "conclude env rq result d =
     (let lost = broken result;
          d1 = (if lost then close_session (d\<lparr>ds_lane := False\<rparr>) else d);
          result1 = (if lost then (case operation_of rq of Some s \<Rightarrow> Inl (uncertain s) | None \<Rightarrow> result)
                     else result)
      in if \<not> de_current env (ds_remote d1)
         then (close_session d1,
               Inl (case operation_of rq of Some s \<Rightarrow> uncertain s
                    | None \<Rightarrow> gerror_new ''STALE_CONNECTION''
                        ''Server configuration changed during this request.''))
         else settle env rq result1 d1)"

definition is_error :: "string \<Rightarrow> gerror + 'a \<Rightarrow> bool" where
  "is_error c r = (case r of Inl e \<Rightarrow> code e = c | Inr _ \<Rightarrow> False)"

definition git_request :: "'w desk_env \<Rightarrow> desk_request \<Rightarrow> 'w desk \<Rightarrow> 'w desk \<times> (gerror + json)" where
  "git_request env rq d =
     (case announce env rq d of
        (d1, Inl e) \<Rightarrow> (d1, Inl e)
      | (d1, Inr _) \<Rightarrow>
          (case de_exchange env (ds_remote d1) of (w, x) \<Rightarrow>
           case response (is_mutation rq) x of (result, lane) \<Rightarrow>
             (let d2 = d1\<lparr>ds_remote := w, ds_lane := lane\<rparr> in
              if is_error ''READ_CANCELLED'' result then (d2, result)
              else if is_error ''READ_CHANNEL_ERROR'' result \<and> de_closed env w
              then (close_session d2,
                    Inl (gerror_transport ''The SSH connection closed during this Git read.''))
              else conclude env rq result d2)))"

section \<open>Reviewing an unknown outcome\<close>

definition not_reviewable :: "string \<Rightarrow> gerror" where
  "not_reviewable m = gerror_new ''OPERATION_NOT_REVIEWABLE'' m"

text \<open>\<open>lookup\<close> is \<open>git_request\<close> with the review request; it also works on the log.\<close>

definition review_with_remote_confirmation ::
  "ledger_lib \<Rightarrow> string \<Rightarrow> string \<Rightarrow> ('w desk \<Rightarrow> 'w desk \<times> (gerror + json)) \<Rightarrow> 'w desk \<Rightarrow>
   'w desk \<times> (gerror + unit)" where
  "review_with_remote_confirmation lib sv i lookup d =
     (case review_ready lib sv i (ds_ledger d) of
        Inl e \<Rightarrow> (d, Inl (not_reviewable e))
      | Inr _ \<Rightarrow>
          (case lookup d of
             (d1, Inl e) \<Rightarrow> (d1, Inl e)
           | (d1, Inr v) \<Rightarrow>
               if remote_outcome v i \<noteq> Some ReviewedUnknown
               then (d1, Inl (not_reviewable ''The server did not confirm the operation review.''))
               else (case review_receipt lib sv i True (ds_ledger d1) of
                       (led, Inl e) \<Rightarrow> (d1\<lparr>ds_ledger := led\<rparr>, Inl (not_reviewable e))
                     | (led, Inr _) \<Rightarrow> (d1\<lparr>ds_ledger := led\<rparr>, Inr ()))))"

definition git_review_operation ::
  "'w desk_env \<Rightarrow> string \<Rightarrow> 'w desk \<Rightarrow> 'w desk \<times> (gerror + unit)" where
  "git_review_operation env i d =
     review_with_remote_confirmation (de_log env) (de_server env) i (git_request env (ReqReview i)) d"

end
