(* ===== verification/Command.thy ===== *)
theory Command
  imports Json
begin

text \<open>
  Bounded Git processes, \<open>tools/agent/src/git/cli/command.rs\<close>. A spawned process is described by
  how it ended and by the chunks its two pipes delivered; the operating system that spawns it is
  the field \<open>os_spawn\<close> of \<open>os\<close>, so nothing is assumed about Git itself. The state carries a ghost
  log of the processes that were started, reads (\<open>Query\<close>) and writes (\<open>Mutation\<close>) apart.
\<close>

section \<open>Processes\<close>

datatype wait_outcome = Exited "int option" | WaitTimeout | WaitError

record pipe =
  chunks :: "bytes list"
  pipe_ok :: bool

record process =
  pr_wait :: wait_outcome
  pr_out :: pipe
  pr_err :: pipe

datatype spawned = NoGit | SpawnFailed | Spawned process

datatype kind = Query | Mutation

datatype read_result = NotFound | ReadError | Content bytes

text \<open>What \<open>lstat\<close> and a read of a path show: the tree below it, with every unreadable part marked.\<close>

record fmeta =
  fm_mode :: u64
  fm_len :: u64
  fm_dev :: u64
  fm_ino :: u64
  fm_mtime :: u64
  fm_mtime_nsec :: u64
  fm_ctime :: u64
  fm_ctime_nsec :: u64

datatype node =
    Missing
  | Unreadable
  | Symlink fmeta "bytes option"
  | Directory fmeta "(string \<times> node) list option"
  | Regular fmeta "bytes option"
  | Special fmeta

record 'w os =
  os_spawn :: "string \<Rightarrow> string list \<Rightarrow> bytes \<Rightarrow> 'w \<Rightarrow> 'w \<times> spawned"
  os_exists :: "string \<Rightarrow> 'w \<Rightarrow> bool option"
  os_read :: "string \<Rightarrow> 'w \<Rightarrow> read_result"
  os_write :: "string \<Rightarrow> bytes \<Rightarrow> 'w \<Rightarrow> 'w \<times> bool"
  os_remove :: "string \<Rightarrow> 'w \<Rightarrow> 'w"
  os_canonical :: "string \<Rightarrow> 'w \<Rightarrow> string option"
  os_meta :: "string \<Rightarrow> 'w \<Rightarrow> (u64 \<times> u64) option"
  os_is_file :: "string \<Rightarrow> 'w \<Rightarrow> bool"
  os_list :: "string \<Rightarrow> 'w \<Rightarrow> string list option"
  os_tree :: "string \<Rightarrow> 'w \<Rightarrow> node"
  os_lstat_ok :: "string \<Rightarrow> 'w \<Rightarrow> bool"
  os_tempdir :: "string \<Rightarrow> string \<Rightarrow> 'w \<Rightarrow> 'w \<times> string option"
  os_remove_tree :: "string \<Rightarrow> 'w \<Rightarrow> 'w"

record 'w gst =
  gw :: 'w
  glog :: "(kind \<times> string list \<times> bytes) list"

record completed =
  c_success :: bool
  c_code :: "int option"
  c_stdout :: bytes
  c_stderr :: bytes

definition OUTPUT_LIMIT :: nat where "OUTPUT_LIMIT = 32 * 1024 * 1024"

definition STDERR_LIMIT :: nat where "STDERR_LIMIT = 64 * 1024"

text \<open>\<open>failure()\<close> of \<open>cli/mod.rs\<close>.\<close>

definition git_failure :: gerror where
  "git_failure = gerror_new ''GIT_ERROR'' ''The Git CLI could not read this repository.''"

section \<open>Draining the pipes\<close>

text \<open>\<open>drain\<close> keeps at most \<open>limit\<close> bytes but reads the pipe to its end.\<close>

fun drain_loop :: "nat \<Rightarrow> bytes \<Rightarrow> bool \<Rightarrow> bytes list \<Rightarrow> bytes \<times> bool" where
  "drain_loop limit acc overflow [] = (acc, overflow)"
| "drain_loop limit acc overflow (c # cs) =
     (let count = length c; keep = min count (limit - length acc) in
      drain_loop limit (acc @ take keep c) (overflow \<or> keep < count) cs)"

definition drain :: "pipe \<Rightarrow> nat \<Rightarrow> (bytes \<times> bool) option" where
  "drain p limit = (if pipe_ok p then Some (drain_loop limit [] False (chunks p)) else None)"

text \<open>\<open>drain_window\<close> keeps the bytes \<open>offset .. offset + len\<close> of the stream.\<close>

fun window_loop :: "nat \<Rightarrow> nat \<Rightarrow> nat \<Rightarrow> bytes \<Rightarrow> bytes list \<Rightarrow> bytes" where
  "window_loop offset len pos acc [] = acc"
| "window_loop offset len pos acc (c # cs) =
     (let n = length c;
          start = min (offset - pos) n;
          stop = min (offset + len - pos) n;
          acc' = (if start < stop then acc @ take (stop - start) (drop start c) else acc)
      in window_loop offset len (pos + n) acc' cs)"

definition drain_window :: "pipe \<Rightarrow> nat \<Rightarrow> nat \<Rightarrow> (bytes \<times> bool) option" where
  "drain_window p offset len =
     (if pipe_ok p then Some (window_loop offset len 0 [] (chunks p), False) else None)"

section \<open>Running Git\<close>

definition log_start :: "kind \<Rightarrow> string list \<Rightarrow> bytes \<Rightarrow> 'w gst \<Rightarrow> 'w gst" where
  "log_start k args input s = s\<lparr>glog := glog s @ [(k, args, input)]\<rparr>"

definition timeout_error :: gerror where
  "timeout_error = gerror_new ''TIMEOUT'' ''The Git command exceeded its time limit.''"

definition limit_error :: gerror where
  "limit_error = gerror_new ''LIMIT_EXCEEDED'' ''Git output exceeds the CLI backend's memory limit.''"

definition execute_capture ::
  "'w os \<Rightarrow> kind \<Rightarrow> string \<Rightarrow> string list \<Rightarrow> bytes \<Rightarrow> (nat \<times> nat) option \<Rightarrow>
   ('w gst, completed) step" where
  "execute_capture os k root args input win s =
     (let (w, sp) = os_spawn os root args input (gw s); s1 = s\<lparr>gw := w\<rparr> in
      case sp of
        NoGit \<Rightarrow> (s1, Inl (gerror_new ''GIT_UNAVAILABLE''
                             ''The CLI backend requires Git on the server.''))
      | SpawnFailed \<Rightarrow> (s1, Inl git_failure)
      | Spawned p \<Rightarrow>
         (let s2 = log_start k args input s1 in
          case (case win of Some (offset, len) \<Rightarrow> drain_window (pr_out p) offset len
                          | None \<Rightarrow> drain (pr_out p) OUTPUT_LIMIT) of
            None \<Rightarrow> (s2, Inl git_failure)
          | Some (out, overflow) \<Rightarrow>
             (case drain (pr_err p) STDERR_LIMIT of
                None \<Rightarrow> (s2, Inl git_failure)
              | Some (err, _) \<Rightarrow>
                 (case pr_wait p of
                    WaitTimeout \<Rightarrow> (s2, Inl timeout_error)
                  | WaitError \<Rightarrow> (s2, Inl git_failure)
                  | Exited c \<Rightarrow>
                      if overflow then (s2, Inl limit_error)
                      else (s2, Inr \<lparr>c_success = (c = Some 0), c_code = c, c_stdout = out,
                                     c_stderr = err\<rparr>)))))"

definition execute ::
  "'w os \<Rightarrow> kind \<Rightarrow> string \<Rightarrow> string list \<Rightarrow> bytes \<Rightarrow> ('w gst, completed) step" where
  "execute os k root args input = execute_capture os k root args input None"

text \<open>A failed query is \<open>None\<close>; \<open>--no-index\<close> comparisons exit with 1 when files differ.\<close>

definition run_os ::
  "'w os \<Rightarrow> string \<Rightarrow> string list \<Rightarrow> bytes \<Rightarrow> ('w gst, bytes option) step" where
  "run_os os root args input =
     bindS (execute os Query root args input) (\<lambda>c.
       retS (if c_success c \<or> (c_code c = Some 1 \<and> ''--no-index'' \<in> set args)
             then Some (c_stdout c) else None))"

definition run_input ::
  "'w os \<Rightarrow> string \<Rightarrow> string list \<Rightarrow> bytes \<Rightarrow> ('w gst, bytes option) step" where
  "run_input os root args input = run_os os root args input"

definition run :: "'w os \<Rightarrow> string \<Rightarrow> string list \<Rightarrow> ('w gst, bytes option) step" where
  "run os root args = run_input os root args []"

definition window ::
  "'w os \<Rightarrow> string \<Rightarrow> string list \<Rightarrow> nat \<Rightarrow> nat \<Rightarrow> ('w gst, bytes) step" where
  "window os root args offset len =
     bindS (execute_capture os Query root args [] (Some (offset, len))) (\<lambda>c.
       if c_success c then retS (c_stdout c) else failS git_failure)"

section \<open>Mutations\<close>

definition unknown_error :: "string \<Rightarrow> gerror" where
  "unknown_error m = gerror_new ''OUTCOME_UNKNOWN'' m"

text \<open>The classification of a Git error by what it printed.\<close>

definition push_rejected :: "string list \<Rightarrow> bytes \<Rightarrow> bool" where
  "push_rejected args out \<longleftrightarrow> args \<noteq> [] \<and> hd args = ''push'' \<and>
     (\<exists>line\<in>set (split_on (CHR 0x0A) out). starts_with (CHR ''!'' # [CHR 0x09]) line)"

definition classify :: "string list \<Rightarrow> bytes \<Rightarrow> bytes \<Rightarrow> gerror" where
  "classify args out err =
    (if contains_sub ''Authentication failed'' err \<or> contains_sub ''could not read Username'' err \<or>
        contains_sub ''Permission denied (publickey)'' err
     then gerror_new ''AUTH_REQUIRED''
       ''Git authentication failed. Check the server's configured credential helper or SSH agent.''
     else if contains_sub ''Host key verification failed'' err \<or>
        contains_sub ''REMOTE HOST IDENTIFICATION HAS CHANGED'' err \<or>
        contains_sub ''SSL certificate problem'' err \<or>
        contains_sub ''server certificate verification failed'' err
     then gerror_new ''CERTIFICATE_REJECTED''
       ''Git rejected the remote host key or TLS certificate. Verify the server identity and trust configuration.''
     else if push_rejected args out
     then (if contains_sub ''(stale info)'' out
           then gerror_new ''STALE_REMOTE_REFERENCE''
             ''The remote reference changed. Refresh before continuing.''
           else gerror_new ''PUSH_REJECTED''
             ''The remote rejected the push. Refresh the remote references before continuing.'')
     else if contains_sub ''not possible to fast-forward'' err \<or>
        contains_sub ''Not possible to fast-forward'' err
     then gerror_new ''NON_FAST_FORWARD''
       ''The branches have diverged. Choose merge or rebase instead of a fast-forward pull.''
     else if contains_sub ''would be overwritten'' err
     then gerror_new ''LOCAL_CHANGES''
       ''Local changes would be overwritten. Commit or stash them first.''
     else if contains_sub ''nothing to commit'' err
     then gerror_new ''NOTHING_TO_COMMIT'' ''There are no staged changes to commit.''
     else if contains_sub ''.lock'' err \<and> contains_sub ''File exists'' err
     then gerror_new ''REPOSITORY_BUSY'' ''Git found an existing lock. No lock was removed.''
     else gerror_new ''GIT_ERROR''
       ''Git reported that the operation failed. Refresh the repository before retrying.'')"

definition git_write :: "'w os \<Rightarrow> string \<Rightarrow> string list \<Rightarrow> bytes \<Rightarrow> ('w gst, unit) step" where
  "git_write os root args input =
     bindS (map_errS (\<lambda>e. if code e = ''GIT_UNAVAILABLE'' then e
                          else unknown_error ''The Git process ended without a confirmed result. Inspect the saved outcome.'')
              (execute os Mutation root args input)) (\<lambda>c.
       if c_success c then retS ()
       else if c_code c = None
       then failS (unknown_error ''Git was terminated by a signal. Inspect the saved outcome before retrying.'')
       else failS (classify args (c_stdout c) (c_stderr c)))"

section \<open>What the drains compute\<close>

lemma drain_loop_spec:
  "length acc \<le> limit \<Longrightarrow>
   drain_loop limit acc overflow cs =
     (take limit (acc @ concat cs), overflow \<or> limit < length (acc @ concat cs))"
proof (induction cs arbitrary: acc overflow)
  case (Cons c cs)
  let ?k = "min (length c) (limit - length acc)"
  have acc: "length (acc @ take ?k c) \<le> limit" using Cons.prems by simp
  have "take limit (acc @ take ?k c @ concat cs) = take limit (acc @ c @ concat cs)"
    using Cons.prems by (cases "length c \<le> limit - length acc") simp_all
  moreover have "(overflow \<or> ?k < length c) \<or> limit < length ((acc @ take ?k c) @ concat cs) \<longleftrightarrow>
      overflow \<or> limit < length (acc @ c @ concat cs)"
    using Cons.prems by (cases "length c \<le> limit - length acc") auto
  ultimately show ?case using Cons.IH [OF acc, of "overflow \<or> ?k < length c"] Cons.prems
    by (simp add: Let_def)
qed simp

lemma window_loop_spec:
  "window_loop offset len pos acc cs =
     acc @ take (offset + len - pos - (offset - pos)) (drop (offset - pos) (concat cs))"
proof (induction cs arbitrary: pos acc)
  case (Cons c cs)
  have split: "take m (drop k (c @ d)) = take (min (k + m) (length c) - min k (length c)) (drop (min k (length c)) c) @
      take (k + m - length c - (k - length c)) (drop (k - length c) d)" for k m d
    by (cases "k \<le> length c") (auto simp: take_drop min_def add.commute)
  define k where "k = offset - pos"
  define m where "m = offset + len - pos - (offset - pos)"
  have km: "offset + len - pos = k + m" "offset - pos = k" by (simp_all add: k_def m_def)
  have next_pos: "offset - (pos + length c) = k - length c"
    "offset + len - (pos + length c) = k + m - length c"
    using km by linarith+
  let ?piece = "take (min (k + m) (length c) - min k (length c)) (drop (min k (length c)) c)"
  have "window_loop offset len pos acc (c # cs) =
      window_loop offset len (pos + length c) (acc @ ?piece) cs"
  proof (cases "min k (length c) < min (k + m) (length c)")
    case True
    then show ?thesis by (simp only: window_loop.simps Let_def km if_True)
  next
    case False
    then have "min (k + m) (length c) - min k (length c) = 0" by linarith
    then have "?piece = []" by (simp only: take_0)
    with False show ?thesis by (simp only: window_loop.simps Let_def km if_False append_Nil2)
  qed
  also have "\<dots> = (acc @ ?piece) @ take (k + m - length c - (k - length c)) (drop (k - length c) (concat cs))"
    by (simp only: Cons.IH next_pos)
  also have "\<dots> = acc @ take m (drop k (c @ concat cs))" by (simp only: split append_assoc)
  finally show ?case by (simp only: km concat.simps diff_add_inverse)
qed simp

lemma drain_correct:
  "drain p limit = (if pipe_ok p then Some (take limit (concat (chunks p)),
                                            limit < length (concat (chunks p))) else None)"
  by (simp add: drain_def drain_loop_spec)

lemma drain_window_correct:
  "drain_window p offset len =
     (if pipe_ok p then Some (take len (drop offset (concat (chunks p))), False) else None)"
  by (simp add: drain_window_def window_loop_spec)

text \<open>
  However a pipe splits its stream into reads, draining it keeps exactly the first \<open>limit\<close> bytes
  and reports an overflow exactly when there were more, and a windowed read returns exactly the
  requested slice; only a read error fails either.
\<close>

lemma pipes_read:
  "drain p limit = (if pipe_ok p then Some (take limit (concat (chunks p)),
                                            limit < length (concat (chunks p))) else None) \<and>
   drain_window p offset len =
     (if pipe_ok p then Some (take len (drop offset (concat (chunks p))), False) else None)"
  by (simp add: drain_correct drain_window_correct)

section \<open>What the runs guarantee\<close>

lemma execute_log:
  "glog (fst (execute_capture os k root args input win s)) = glog s \<or>
   glog (fst (execute_capture os k root args input win s)) = glog s @ [(k, args, input)]"
  by (auto simp: execute_capture_def log_start_def Let_def
      split: prod.splits spawned.splits option.splits wait_outcome.splits)

text \<open>The processes of kind \<open>Mutation\<close> that a step started.\<close>

definition mutations :: "'w gst \<Rightarrow> (string list \<times> bytes) list" where
  "mutations s = map snd (filter (\<lambda>(k, _). k = Mutation) (glog s))"

definition same_mutations :: "'w gst \<Rightarrow> 'w gst \<Rightarrow> bool" where
  "same_mutations s t \<longleftrightarrow> mutations t = mutations s"

interpretation quiet: effect same_mutations
  by unfold_locales (simp_all add: same_mutations_def)

lemma query_quiet: "preserves same_mutations (execute_capture os Query root args input win)"
  unfolding preserves_def same_mutations_def mutations_def
proof
  fix s
  show "map snd (filter (\<lambda>(k, _). k = Mutation)
      (glog (fst (execute_capture os Query root args input win s)))) =
    map snd (filter (\<lambda>(k, _). k = Mutation) (glog s))"
    using execute_log [of os Query root args input win s] by auto
qed

lemma run_os_quiet: "preserves same_mutations (run_os os root args input)"
  unfolding run_os_def execute_def by (intro quiet.pres_bind query_quiet quiet.pres_ret)

lemma run_quiet: "preserves same_mutations (run os root args)"
  unfolding run_def run_input_def by (rule run_os_quiet)

lemma run_input_quiet: "preserves same_mutations (run_input os root args input)"
  unfolding run_input_def by (rule run_os_quiet)

lemma window_quiet: "preserves same_mutations (window os root args offset len)"
  unfolding window_def by (intro quiet.pres_bind query_quiet quiet.pres_if quiet.pres_ret quiet.pres_fail)

lemmas query_quiets = run_os_quiet run_quiet run_input_quiet window_quiet

lemma classify_certain: "code (classify args out err) \<noteq> ''OUTCOME_UNKNOWN''"
  by (simp add: classify_def)


text \<open>A Git that never ends.\<close>

definition endless_os :: "unit os" where
  "endless_os = \<lparr>os_spawn = (\<lambda>root args input w. (w, Spawned \<lparr>pr_wait = WaitTimeout,
       pr_out = \<lparr>chunks = [], pipe_ok = True\<rparr>, pr_err = \<lparr>chunks = [], pipe_ok = True\<rparr>\<rparr>)),
     os_exists = (\<lambda>p w. Some False), os_read = (\<lambda>p w. NotFound),
     os_write = (\<lambda>p b w. (w, True)), os_remove = (\<lambda>p w. w), os_canonical = (\<lambda>p w. Some p),
     os_meta = (\<lambda>p w. None), os_is_file = (\<lambda>p w. False), os_list = (\<lambda>p w. Some []),
     os_tree = (\<lambda>p w. Missing), os_lstat_ok = (\<lambda>p w. False),
     os_tempdir = (\<lambda>p n w. (w, None)), os_remove_tree = (\<lambda>p w. w)\<rparr>"


end
