(* ===== verification/Sample.thy ===== *)
theory Sample
  imports Prelude
begin

text \<open>
  A small length-prefixed encoding of numbers, strings and options with its decoder. The concrete
  libraries that witness hypotheses on third-party encoders are built from it.
\<close>

definition enc_nat :: "nat \<Rightarrow> bytes" where
  "enc_nat n = replicate n (CHR ''1'') @ ''0''"

definition dec_nat :: "bytes \<Rightarrow> nat \<times> bytes" where
  "dec_nat s = (length (takeWhile (\<lambda>c. c = CHR ''1'') s), tl (dropWhile (\<lambda>c. c = CHR ''1'') s))"

definition enc_str :: "string \<Rightarrow> bytes" where
  "enc_str s = enc_nat (length s) @ s"

definition dec_str :: "bytes \<Rightarrow> string \<times> bytes" where
  "dec_str s = (case dec_nat s of (n, r) \<Rightarrow> (take n r, drop n r))"

definition enc_opt :: "('a \<Rightarrow> bytes) \<Rightarrow> 'a option \<Rightarrow> bytes" where
  "enc_opt f x = (case x of None \<Rightarrow> ''0'' | Some y \<Rightarrow> CHR ''1'' # f y)"

definition dec_opt :: "(bytes \<Rightarrow> 'a \<times> bytes) \<Rightarrow> bytes \<Rightarrow> 'a option \<times> bytes" where
  "dec_opt f s = (if take 1 s = ''1'' then (case f (tl s) of (y, r) \<Rightarrow> (Some y, r)) else (None, tl s))"

lemma dec_nat_enc [simp]: "dec_nat (enc_nat n @ s) = (n, s)"
  by (simp add: dec_nat_def enc_nat_def takeWhile_append dropWhile_append takeWhile_replicate
      dropWhile_replicate)

lemma dec_str_enc [simp]: "dec_str (enc_str x @ s) = (x, s)"
  by (simp add: dec_str_def enc_str_def)

lemma dec_opt_enc [simp]:
  "(\<And>y s. f (g y @ s) = (y, s)) \<Longrightarrow> dec_opt f (enc_opt g x @ s) = (x, s)"
  by (cases x) (simp_all add: dec_opt_def enc_opt_def)

end
