(* ===== verification/Tokens.thy ===== *)
theory Tokens
  imports Json Sample
begin

text \<open>
  The stateless request tokens of \<open>tools/agent/src/git/tokens.rs\<close>: repositories, snapshots, file
  entries and cursors as \<open><kind>.<base64url(json)>\<close>. The base64 alphabets and the typed JSON
  encoding are third-party (\<open>token_lib\<close>); \<open>token_lib_ok\<close> states that each decodes what it encoded.
\<close>

section \<open>The tokens\<close>

record repo_ref =
  rr_g :: string
  rr_d :: u64
  rr_i :: u64

record snapshot_ref =
  sn_r :: repo_ref
  sn_q :: string
  sn_f :: string
  sn_p :: "string option"

record entry_ref =
  en_p :: "string list"

record cursor_ref =
  cu_s :: snapshot_ref
  cu_o :: nat
  cu_k :: "string option"

record token_lib =
  b64 :: "bytes \<Rightarrow> string"
  unb64 :: "string \<Rightarrow> bytes option"
  url64 :: "bytes \<Rightarrow> string"
  unurl64 :: "string \<Rightarrow> bytes option"
  repo_json :: "repo_ref \<Rightarrow> bytes"
  json_repo :: "bytes \<Rightarrow> repo_ref option"
  snapshot_json :: "snapshot_ref \<Rightarrow> bytes"
  json_snapshot :: "bytes \<Rightarrow> snapshot_ref option"
  entry_json :: "entry_ref \<Rightarrow> bytes"
  json_entry :: "bytes \<Rightarrow> entry_ref option"
  cursor_json :: "cursor_ref \<Rightarrow> bytes"
  json_cursor :: "bytes \<Rightarrow> cursor_ref option"

definition MAX_TOKEN :: nat where "MAX_TOKEN = 16 * 1024"

definition REPO :: string where "REPO = ''r''"
definition SNAPSHOT :: string where "SNAPSHOT = ''s''"
definition ENTRY :: string where "ENTRY = ''e''"
definition CURSOR :: string where "CURSOR = ''c''"

definition token_name :: "string \<Rightarrow> string" where
  "token_name kind = (if kind = REPO then ''repository'' else if kind = SNAPSHOT then ''snapshot''
                      else if kind = ENTRY then ''file entry'' else ''cursor'')"

definition encode :: "token_lib \<Rightarrow> string \<Rightarrow> bytes \<Rightarrow> string" where
  "encode tk kind json = kind @ ''.'' @ url64 tk json"

definition invalid_token :: "string \<Rightarrow> gerror" where
  "invalid_token kind = gerror_invalid (''Invalid '' @ token_name kind @ '' token.'')"

definition decode :: "token_lib \<Rightarrow> (bytes \<Rightarrow> 'a option) \<Rightarrow> string \<Rightarrow> string \<Rightarrow> gerror + 'a" where
  "decode tk parse kind token =
     (if MAX_TOKEN < length token then Inl (invalid_token kind)
      else (case Option.bind (strip_prefix kind token) (strip_prefix ''.'') of
              None \<Rightarrow> Inl (invalid_token kind)
            | Some body \<Rightarrow>
               (case unurl64 tk body of
                  None \<Rightarrow> Inl (invalid_token kind)
                | Some json \<Rightarrow>
                   (case parse json of
                      None \<Rightarrow> Inl (invalid_token kind)
                    | Some x \<Rightarrow> Inr x))))"

definition token_bytes :: "token_lib \<Rightarrow> string \<Rightarrow> gerror + bytes" where
  "token_bytes tk s = ok_or (gerror_invalid ''Invalid path in token.'') (unb64 tk s)"

section \<open>Paths in tokens\<close>

text \<open>\<open>Path::components()\<close>: \<open>..\<close> is a parent component anywhere, \<open>.\<close> a current-directory
  component only in front; repeated slashes and inner dots are skipped.\<close>

definition has_parent :: "bytes \<Rightarrow> bool" where
  "has_parent p \<longleftrightarrow> ''..'' \<in> set (split_on (CHR ''/'') p)"

definition has_cur :: "bytes \<Rightarrow> bool" where
  "has_cur p \<longleftrightarrow> hd (split_on (CHR ''/'') p) = ''.''"

definition repo_path_ok :: "bytes \<Rightarrow> bool" where
  "repo_path_ok p \<longleftrightarrow> starts_with ''/'' p \<and> CHR 0x00 \<notin> set p \<and> \<not> has_parent p \<and> \<not> has_cur p"

definition entry_path_ok :: "bytes \<Rightarrow> bool" where
  "entry_path_ok p \<longleftrightarrow> p \<noteq> [] \<and> \<not> starts_with ''/'' p \<and> CHR 0x00 \<notin> set p \<and> \<not> has_parent p"

section \<open>Each kind\<close>

definition repo_new :: "token_lib \<Rightarrow> bytes \<Rightarrow> u64 \<Rightarrow> u64 \<Rightarrow> repo_ref" where
  "repo_new tk git_dir dev ino = \<lparr>rr_g = b64 tk git_dir, rr_d = dev, rr_i = ino\<rparr>"

definition repo_encode :: "token_lib \<Rightarrow> repo_ref \<Rightarrow> string" where
  "repo_encode tk r = encode tk REPO (repo_json tk r)"

definition repo_decode :: "token_lib \<Rightarrow> string \<Rightarrow> gerror + repo_ref" where
  "repo_decode tk token =
     bindR (decode tk (json_repo tk) REPO token) (\<lambda>r.
     bindR (token_bytes tk (rr_g r)) (\<lambda>path.
       if repo_path_ok path then Inr r
       else Inl (gerror_invalid ''Invalid repository token.'')))"

text \<open>\<open>checked_path\<close>: the directory at the path must still be the one that was opened.\<close>

datatype meta_result = MetaMissing | MetaError | Meta u64 u64

definition checked_path ::
  "token_lib \<Rightarrow> (bytes \<Rightarrow> meta_result) \<Rightarrow> repo_ref \<Rightarrow> gerror + bytes" where
  "checked_path tk stat r =
     bindR (token_bytes tk (rr_g r)) (\<lambda>path.
       case stat path of
         MetaMissing \<Rightarrow> Inl (gerror_new ''REPO_NOT_FOUND'' ''The repository is no longer available.'')
       | MetaError \<Rightarrow> Inl (gerror_new ''IO_ERROR'' ''A repository file could not be read.'')
       | Meta dev ino \<Rightarrow>
           if dev \<noteq> rr_d r \<or> ino \<noteq> rr_i r
           then Inl (gerror_new ''REPO_REPLACED'' ''The repository directory was replaced.'')
           else Inr path)"

definition snapshot_encode :: "token_lib \<Rightarrow> snapshot_ref \<Rightarrow> string" where
  "snapshot_encode tk s = encode tk SNAPSHOT (snapshot_json tk s)"

definition snapshot_decode :: "token_lib \<Rightarrow> string \<Rightarrow> gerror + snapshot_ref" where
  "snapshot_decode tk token = decode tk (json_snapshot tk) SNAPSHOT token"

definition entry_new :: "token_lib \<Rightarrow> bytes list \<Rightarrow> entry_ref" where
  "entry_new tk ps = \<lparr>en_p = map (b64 tk) ps\<rparr>"

definition entry_encode :: "token_lib \<Rightarrow> entry_ref \<Rightarrow> string" where
  "entry_encode tk e = encode tk ENTRY (entry_json tk e)"

definition entry_paths :: "token_lib \<Rightarrow> entry_ref \<Rightarrow> gerror + bytes list" where
  "entry_paths tk e = collectR (token_bytes tk) (en_p e)"

definition entry_decode :: "token_lib \<Rightarrow> string \<Rightarrow> gerror + entry_ref" where
  "entry_decode tk token =
     bindR (decode tk (json_entry tk) ENTRY token) (\<lambda>e.
     bindR (entry_paths tk e) (\<lambda>ps.
       if ps = [] \<or> 2 < length ps \<or> (\<exists>p\<in>set ps. \<not> entry_path_ok p)
       then Inl (gerror_invalid ''Invalid file entry token.'')
       else Inr e))"

definition cursor_encode :: "token_lib \<Rightarrow> cursor_ref \<Rightarrow> string" where
  "cursor_encode tk c = encode tk CURSOR (cursor_json tk c)"

definition cursor_decode :: "token_lib \<Rightarrow> string \<Rightarrow> gerror + cursor_ref" where
  "cursor_decode tk token = decode tk (json_cursor tk) CURSOR token"

section \<open>Lemmas\<close>

definition token_lib_ok :: "token_lib \<Rightarrow> bool" where
  "token_lib_ok tk \<longleftrightarrow>
     (\<forall>x. unb64 tk (b64 tk x) = Some x) \<and> (\<forall>x. unurl64 tk (url64 tk x) = Some x) \<and>
     (\<forall>x. json_repo tk (repo_json tk x) = Some x) \<and>
     (\<forall>x. json_snapshot tk (snapshot_json tk x) = Some x) \<and>
     (\<forall>x. json_entry tk (entry_json tk x) = Some x) \<and>
     (\<forall>x. json_cursor tk (cursor_json tk x) = Some x)"

lemma token_lib_okD:
  assumes "token_lib_ok tk"
  shows "unb64 tk (b64 tk x) = Some x" "unurl64 tk (url64 tk y) = Some y"
    "json_repo tk (repo_json tk r) = Some r" "json_snapshot tk (snapshot_json tk s) = Some s"
    "json_entry tk (entry_json tk e) = Some e" "json_cursor tk (cursor_json tk c) = Some c"
  using assms unfolding token_lib_ok_def by blast+

lemma decode_encode:
  assumes "token_lib_ok tk" "parse json = Some x"
    "length (encode tk kind json) \<le> MAX_TOKEN"
  shows "decode tk parse kind (encode tk kind json) = Inr x"
proof -
  have "Option.bind (strip_prefix kind (encode tk kind json)) (strip_prefix ''.'') =
      Some (url64 tk json)"
    unfolding encode_def by (simp only: strip_prefix_append bind.simps)
  then show ?thesis using assms token_lib_okD(2) [OF assms(1)] by (simp add: decode_def)
qed

lemma decode_prefix:
  "decode tk parse kind token = Inr x \<Longrightarrow>
   \<exists>body json. token = kind @ ''.'' @ body \<and> unurl64 tk body = Some json \<and> parse json = Some x \<and>
     length token \<le> MAX_TOKEN"
  by (auto simp: decode_def strip_prefix_Some bind_eq_Some_conv
      split: if_splits option.splits)

lemma decode_other_kind:
  assumes "length kind = length kind'" "kind \<noteq> kind'"
  shows "decode tk parse kind (encode tk kind' json) = Inl (invalid_token kind)"
  using decode_prefix [of tk parse kind "encode tk kind' json"] assms
  by (cases "decode tk parse kind (encode tk kind' json)")
    (auto simp: decode_def encode_def split: if_splits option.splits)

lemma entry_paths_new:
  "token_lib_ok tk \<Longrightarrow> entry_paths tk (entry_new tk ps) = Inr ps"
  by (induction ps)
    (simp_all add: entry_paths_def entry_new_def token_bytes_def token_lib_okD)

lemma cursor_roundtrip:
  assumes "token_lib_ok tk" "length (cursor_encode tk c) \<le> MAX_TOKEN"
  shows "cursor_decode tk (cursor_encode tk c) = Inr c"
  using assms decode_encode [OF assms(1), where kind = CURSOR and parse = "json_cursor tk" and
      json = "cursor_json tk c" and x = c] token_lib_okD(6) [OF assms(1)]
  by (simp add: cursor_decode_def cursor_encode_def)

text \<open>The kinds differ, so their tokens do.\<close>

definition kind_of_token :: "string \<Rightarrow> string" where
  "kind_of_token t = takeWhile (\<lambda>c. c \<noteq> CHR ''.'') t"

lemma kind_of_encode: "CHR ''.'' \<notin> set kind \<Longrightarrow> kind_of_token (encode tk kind json) = kind"
  by (induction kind) (auto simp: kind_of_token_def encode_def)

section \<open>Properties\<close>

text \<open>
  Every token the agent issues decodes to what it encoded: repositories (with a valid git
  directory), snapshots, entries of one or two relative paths, and cursors.
\<close>

lemma token_roundtrip_repo:
  assumes "token_lib_ok tk" "repo_path_ok dir"
    "length (repo_encode tk (repo_new tk dir dev ino)) \<le> MAX_TOKEN"
  shows "repo_decode tk (repo_encode tk (repo_new tk dir dev ino)) = Inr (repo_new tk dir dev ino)"
  using assms decode_encode [OF assms(1), where kind = REPO and parse = "json_repo tk" and json = "repo_json tk (repo_new tk dir dev ino)" and x = "repo_new tk dir dev ino"] token_lib_okD [OF assms(1)]
  by (simp add: repo_decode_def repo_encode_def token_bytes_def repo_new_def token_lib_okD(1))

lemma token_roundtrip:
  assumes ok: "token_lib_ok tk"
  shows "(repo_path_ok dir \<and> length (repo_encode tk (repo_new tk dir dev ino)) \<le> MAX_TOKEN \<longrightarrow>
        repo_decode tk (repo_encode tk (repo_new tk dir dev ino)) = Inr (repo_new tk dir dev ino)) \<and>
    (length (snapshot_encode tk s) \<le> MAX_TOKEN \<longrightarrow>
        snapshot_decode tk (snapshot_encode tk s) = Inr s) \<and>
    (ps \<noteq> [] \<and> length ps \<le> 2 \<and> (\<forall>p\<in>set ps. entry_path_ok p) \<and>
       length (entry_encode tk (entry_new tk ps)) \<le> MAX_TOKEN \<longrightarrow>
        entry_decode tk (entry_encode tk (entry_new tk ps)) = Inr (entry_new tk ps)) \<and>
    (length (cursor_encode tk c) \<le> MAX_TOKEN \<longrightarrow> cursor_decode tk (cursor_encode tk c) = Inr c)"
proof (intro conjI impI)
  assume "repo_path_ok dir \<and> length (repo_encode tk (repo_new tk dir dev ino)) \<le> MAX_TOKEN"
  then show "repo_decode tk (repo_encode tk (repo_new tk dir dev ino)) = Inr (repo_new tk dir dev ino)"
    using decode_encode [OF ok, where kind = REPO and parse = "json_repo tk" and json = "repo_json tk (repo_new tk dir dev ino)" and x = "repo_new tk dir dev ino"] token_lib_okD [OF ok]
    by (simp add: repo_decode_def repo_encode_def token_bytes_def repo_new_def token_lib_okD(1) [OF ok])
next
  assume "length (snapshot_encode tk s) \<le> MAX_TOKEN"
  then show "snapshot_decode tk (snapshot_encode tk s) = Inr s"
    using decode_encode [OF ok, where kind = SNAPSHOT and parse = "json_snapshot tk" and json = "snapshot_json tk (s)" and x = "s"] token_lib_okD [OF ok]
    by (simp add: snapshot_decode_def snapshot_encode_def)
next
  assume "ps \<noteq> [] \<and> length ps \<le> 2 \<and> (\<forall>p\<in>set ps. entry_path_ok p) \<and>
    length (entry_encode tk (entry_new tk ps)) \<le> MAX_TOKEN"
  then show "entry_decode tk (entry_encode tk (entry_new tk ps)) = Inr (entry_new tk ps)"
    using decode_encode [OF ok, where kind = ENTRY and parse = "json_entry tk" and json = "entry_json tk (entry_new tk ps)" and x = "entry_new tk ps"] token_lib_okD [OF ok]
      entry_paths_new [OF ok, of ps]
    by (auto simp: entry_decode_def entry_encode_def)
next
  assume "length (cursor_encode tk c) \<le> MAX_TOKEN"
  then show "cursor_decode tk (cursor_encode tk c) = Inr c"
    using decode_encode [OF ok, where kind = CURSOR and parse = "json_cursor tk" and json = "cursor_json tk (c)" and x = "c"] token_lib_okD [OF ok]
    by (simp add: cursor_decode_def cursor_encode_def)
qed

text \<open>
  A token is only accepted as the kind it was issued for, and what is accepted is confined: a
  repository token names an absolute path without parent components, an entry token one or two
  relative paths without parent components, so a forged token cannot leave the repository.
\<close>

lemma token_confined:
  "(\<forall>r. repo_decode tk t = Inr r \<longrightarrow> kind_of_token t = REPO \<and>
      (\<exists>p. unb64 tk (rr_g r) = Some p \<and> starts_with ''/'' p \<and> \<not> has_parent p \<and> CHR 0x00 \<notin> set p)) \<and>
   (\<forall>s. snapshot_decode tk t = Inr s \<longrightarrow> kind_of_token t = SNAPSHOT) \<and>
   (\<forall>e. entry_decode tk t = Inr e \<longrightarrow> kind_of_token t = ENTRY \<and>
      (\<exists>ps. entry_paths tk e = Inr ps \<and> 1 \<le> length ps \<and> length ps \<le> 2 \<and>
         (\<forall>p\<in>set ps. p \<noteq> [] \<and> \<not> starts_with ''/'' p \<and> \<not> has_parent p))) \<and>
   (\<forall>c. cursor_decode tk t = Inr c \<longrightarrow> kind_of_token t = CURSOR)"
proof -
  show ?thesis
  proof (intro conjI allI impI)
    fix r assume a: "repo_decode tk t = Inr r"
    then obtain path where b: "decode tk (json_repo tk) REPO t = Inr r"
      "token_bytes tk (rr_g r) = Inr path" "repo_path_ok path"
      by (auto simp: repo_decode_def result_simps split: if_splits)
    show "kind_of_token t = REPO" using decode_prefix [OF b(1)]
      by (auto simp: kind_of_token_def REPO_def)
    show "\<exists>p. unb64 tk (rr_g r) = Some p \<and> starts_with ''/'' p \<and> \<not> has_parent p \<and> CHR 0x00 \<notin> set p"
      using b by (auto simp: token_bytes_def result_simps repo_path_ok_def)
  next
    fix s assume "snapshot_decode tk t = Inr s"
    then show "kind_of_token t = SNAPSHOT"
      using decode_prefix [of tk "json_snapshot tk" SNAPSHOT t s]
      by (auto simp: snapshot_decode_def kind_of_token_def SNAPSHOT_def)
  next
    fix e assume a: "entry_decode tk t = Inr e"
    then obtain ps where b: "decode tk (json_entry tk) ENTRY t = Inr e" "entry_paths tk e = Inr ps"
      "ps \<noteq> []" "length ps \<le> 2" "\<forall>p\<in>set ps. entry_path_ok p"
      by (auto simp: entry_decode_def result_simps split: if_splits)
    show "kind_of_token t = ENTRY" using decode_prefix [OF b(1)]
      by (auto simp: kind_of_token_def ENTRY_def)
    have "1 \<le> length ps" using b(3) by (cases ps) simp_all
    then show "\<exists>ps. entry_paths tk e = Inr ps \<and> 1 \<le> length ps \<and> length ps \<le> 2 \<and>
         (\<forall>p\<in>set ps. p \<noteq> [] \<and> \<not> starts_with ''/'' p \<and> \<not> has_parent p)"
      using b by (auto simp: entry_path_ok_def)
  next
    fix c assume "cursor_decode tk t = Inr c"
    then show "kind_of_token t = CURSOR"
      using decode_prefix [of tk "json_cursor tk" CURSOR t c]
      by (auto simp: cursor_decode_def kind_of_token_def CURSOR_def)
  qed
qed

section \<open>A concrete library\<close>

definition enc_repo :: "repo_ref \<Rightarrow> bytes" where
  "enc_repo r = enc_str (rr_g r) @ enc_nat (unat (rr_d r)) @ enc_nat (unat (rr_i r))"

definition dec_repo :: "bytes \<Rightarrow> repo_ref \<times> bytes" where
  "dec_repo s = (case dec_str s of (x, s1) \<Rightarrow> case dec_nat s1 of (m, s2) \<Rightarrow> case dec_nat s2 of (n, s3) \<Rightarrow>
     (\<lparr>rr_g = x, rr_d = of_nat m, rr_i = of_nat n\<rparr>, s3))"

definition enc_snapshot :: "snapshot_ref \<Rightarrow> bytes" where
  "enc_snapshot s = enc_repo (sn_r s) @ enc_str (sn_q s) @ enc_str (sn_f s) @ enc_opt enc_str (sn_p s)"

definition dec_snapshot :: "bytes \<Rightarrow> snapshot_ref \<times> bytes" where
  "dec_snapshot s = (case dec_repo s of (r, s1) \<Rightarrow> case dec_str s1 of (q, s2) \<Rightarrow>
     case dec_str s2 of (f, s3) \<Rightarrow> case dec_opt dec_str s3 of (p, s4) \<Rightarrow>
     (\<lparr>sn_r = r, sn_q = q, sn_f = f, sn_p = p\<rparr>, s4))"

definition enc_cursor :: "cursor_ref \<Rightarrow> bytes" where
  "enc_cursor c = enc_snapshot (cu_s c) @ enc_nat (cu_o c) @ enc_opt enc_str (cu_k c)"

definition dec_cursor :: "bytes \<Rightarrow> cursor_ref \<times> bytes" where
  "dec_cursor s = (case dec_snapshot s of (sn, s1) \<Rightarrow> case dec_nat s1 of (n, s2) \<Rightarrow>
     case dec_opt dec_str s2 of (k, s3) \<Rightarrow> (\<lparr>cu_s = sn, cu_o = n, cu_k = k\<rparr>, s3))"

fun enc_strs :: "string list \<Rightarrow> bytes" where
  "enc_strs [] = ''0''"
| "enc_strs (x # xs) = CHR ''1'' # enc_str x @ enc_strs xs"

fun dec_strs :: "nat \<Rightarrow> bytes \<Rightarrow> string list" where
  "dec_strs 0 s = []"
| "dec_strs (Suc n) s = (if take 1 s = ''1'' then
     (case dec_str (tl s) of (x, r) \<Rightarrow> x # dec_strs n r) else [])"

definition sample_tokens :: token_lib where
  "sample_tokens = \<lparr>b64 = (\<lambda>x. x), unb64 = Some, url64 = (\<lambda>x. x), unurl64 = Some,
     repo_json = enc_repo, json_repo = Some \<circ> fst \<circ> dec_repo,
     snapshot_json = enc_snapshot, json_snapshot = Some \<circ> fst \<circ> dec_snapshot,
     entry_json = enc_strs \<circ> en_p, json_entry = (\<lambda>s. Some \<lparr>en_p = dec_strs (length s) s\<rparr>),
     cursor_json = enc_cursor, json_cursor = Some \<circ> fst \<circ> dec_cursor\<rparr>"

lemma dec_repo_enc [simp]: "dec_repo (enc_repo r @ s) = (r, s)"
  by (simp add: dec_repo_def enc_repo_def)

lemma dec_snapshot_enc [simp]: "dec_snapshot (enc_snapshot r @ s) = (r, s)"
  by (simp add: dec_snapshot_def enc_snapshot_def)

lemma dec_cursor_enc [simp]: "dec_cursor (enc_cursor r @ s) = (r, s)"
  by (simp add: dec_cursor_def enc_cursor_def)

lemma dec_strs_enc: "length xs \<le> n \<Longrightarrow> dec_strs n (enc_strs xs) = xs"
proof (induction xs arbitrary: n)
  case Nil
  show ?case by (cases n) simp_all
next
  case (Cons x xs)
  then show ?case by (cases n) simp_all
qed

lemma enc_strs_length: "length xs \<le> length (enc_strs xs)"
  by (induction xs) simp_all

lemma sample_tokens_ok: "token_lib_ok sample_tokens"
  using dec_repo_enc [where s = "[]"] dec_snapshot_enc [where s = "[]"]
    dec_cursor_enc [where s = "[]"] dec_strs_enc [OF enc_strs_length]
  by (simp add: token_lib_ok_def sample_tokens_def)

lemma sample_repo_token:
  "repo_path_ok ''/r/.git''"
  "length (repo_encode sample_tokens (repo_new sample_tokens ''/r/.git'' 3 4)) \<le> MAX_TOKEN"
  by (code_simp, simp add: repo_encode_def encode_def sample_tokens_def repo_new_def enc_repo_def
      enc_str_def enc_nat_def MAX_TOKEN_def REPO_def)

lemma token_roundtrip_witness:
  "repo_decode sample_tokens (repo_encode sample_tokens (repo_new sample_tokens ''/r/.git'' 3 4))
     = Inr (repo_new sample_tokens ''/r/.git'' 3 4)"
  using token_roundtrip [OF sample_tokens_ok] sample_repo_token by blast

lemma token_confined_witness:
  "kind_of_token (repo_encode sample_tokens (repo_new sample_tokens ''/r/.git'' 3 4)) = REPO"
  using token_confined [of sample_tokens
      "repo_encode sample_tokens (repo_new sample_tokens ''/r/.git'' 3 4)"]
    token_roundtrip_repo [OF sample_tokens_ok sample_repo_token] by blast

end
