(* ===== verification/RepoState.thy ===== *)
theory RepoState
  imports Command Tokens
begin

text \<open>
  The repository handle of \<open>tools/agent/src/git/cli/mod.rs\<close>: discovery, re-validation of a
  repository token, HEAD, the operation state and the integration marker, and the status summary
  parsed from \<open>git status --porcelain=v1 -z\<close>. Third-party encoders, SHA-256 and the Unicode
  functions of the standard library are the fields of \<open>libs\<close>.
\<close>

section \<open>Libraries and paths\<close>

record url =
  ur_scheme :: string
  ur_password :: "string option"
  ur_query :: "string option"
  ur_fragment :: "string option"

record libs =
  lb_tk :: token_lib
  lossy :: "bytes \<Rightarrow> string"
  utf8 :: "bytes \<Rightarrow> bool"
  json_vec :: "json \<Rightarrow> bytes option"
  sha256 :: "bytes \<Rightarrow> bytes"
  lower :: "string \<Rightarrow> string"
  utrim :: "string \<Rightarrow> string"
  url_parse :: "string \<Rightarrow> url option"
  url_redacted :: "string \<Rightarrow> bool \<Rightarrow> string"

record wire_path =
  wp_b64 :: string
  wp_display :: string

definition wire_new :: "libs \<Rightarrow> bytes \<Rightarrow> wire_path" where
  "wire_new lb p = \<lparr>wp_b64 = b64 (lb_tk lb) p, wp_display = lossy lb p\<rparr>"

definition wire_decode :: "libs \<Rightarrow> wire_path \<Rightarrow> gerror + bytes" where
  "wire_decode lb p =
     bindR (ok_or (gerror_invalid ''Invalid path encoding.'') (unb64 (lb_tk lb) (wp_b64 p))) (\<lambda>b.
       if b = [] \<or> 4096 < length b \<or> CHR 0x00 \<in> set b then Inl (gerror_invalid ''Invalid path.'')
       else Inr b)"

definition wire_json :: "wire_path \<Rightarrow> json" where
  "wire_json p = JObj [(''bytesB64'', JStr (wp_b64 p)), (''display'', JStr (wp_display p))]"

definition wpath :: "libs \<Rightarrow> bytes \<Rightarrow> json" where
  "wpath lb b = wire_json (wire_new lb b)"

text \<open>\<open>serde_json::from_value::<WirePath>\<close> of a value this module built.\<close>

definition wire_of :: "json \<Rightarrow> wire_path option" where
  "wire_of v = (case jget v ''bytesB64'' of
                  JStr b \<Rightarrow> Some \<lparr>wp_b64 = b, wp_display = jstr_or_empty (jget v ''display'')\<rparr>
                | _ \<Rightarrow> None)"

definition is_absolute :: "bytes \<Rightarrow> bool" where
  "is_absolute p = starts_with ''/'' p"

definition path_join :: "bytes \<Rightarrow> bytes \<Rightarrow> bytes" where
  "path_join a b = (if is_absolute b then b else if ends_with ''/'' a then a @ b else a @ ''/'' @ b)"

definition path_parts :: "bytes \<Rightarrow> bytes list" where
  "path_parts p = filter (\<lambda>c. c \<noteq> [] \<and> c \<noteq> ''.'') (split_on (CHR ''/'') p)"

fun join_parts :: "bytes list \<Rightarrow> bytes" where
  "join_parts [] = []"
| "join_parts [p] = p"
| "join_parts (p # q # ps) = p @ ''/'' @ join_parts (q # ps)"

definition file_name :: "bytes \<Rightarrow> bytes option" where
  "file_name p = (if path_parts p = [] \<or> last (path_parts p) = ''..'' then None
                  else Some (last (path_parts p)))"

definition path_parent :: "bytes \<Rightarrow> bytes option" where
  "path_parent p = (if path_parts p = [] then None
     else Some ((if is_absolute p then ''/'' else []) @ join_parts (butlast (path_parts p))))"

definition hexd :: "nat \<Rightarrow> char" where
  "hexd n = (''0123456789abcdef'' ! n)"

definition hex :: "bytes \<Rightarrow> string" where
  "hex bs = concat (map (\<lambda>c. [hexd (byte c div 16), hexd (byte c mod 16)]) bs)"

definition ascii_hexdigit :: "char \<Rightarrow> bool" where
  "ascii_hexdigit c \<longleftrightarrow> c \<in> set ''0123456789abcdefABCDEF''"

definition is_oid :: "bytes \<Rightarrow> bool" where
  "is_oid b \<longleftrightarrow> (length b = 40 \<or> length b = 64) \<and> list_all ascii_hexdigit b"

definition oid :: "bytes \<Rightarrow> gerror + json" where
  "oid b = (if is_oid b
            then Inr (JObj [(''algorithm'', JStr (if length b = 40 then ''sha1'' else ''sha256'')),
                            (''hex'', JStr b)])
            else Inl git_failure)"

definition io_error :: gerror where
  "io_error = gerror_new ''IO_ERROR'' ''A repository file could not be read.''"

text \<open>Integers in text: \<open>str::parse::<usize>\<close> and \<open>split_whitespace\<close> (ASCII blanks).\<close>

definition digit :: "char \<Rightarrow> bool" where
  "digit c \<longleftrightarrow> c \<in> set ''0123456789''"

definition digits_val :: "string \<Rightarrow> nat" where
  "digits_val s = foldl (\<lambda>n c. 10 * n + (byte c - 48)) 0 s"

definition parse_usize :: "string \<Rightarrow> nat option" where
  "parse_usize s =
     (let t = (if starts_with ''+'' s then tl s else s) in
      if t \<noteq> [] \<and> list_all digit t \<and> digits_val t < 2 ^ 64 then Some (digits_val t) else None)"

definition blank :: "char \<Rightarrow> bool" where
  "blank c \<longleftrightarrow> byte c \<in> {9, 10, 11, 12, 13, 32}"

fun split_ws :: "string \<Rightarrow> string list" where
  "split_ws [] = []"
| "split_ws (c # s) =
     (if blank c then split_ws s
      else (case s of [] \<Rightarrow> [[c]]
            | c' # _ \<Rightarrow> if blank c' then [c] # split_ws s
                        else (case split_ws s of [] \<Rightarrow> [[c]] | w # ws \<Rightarrow> (c # w) # ws)))"

section \<open>The handle\<close>

record repo =
  rp_root :: bytes
  rp_git_dir :: bytes
  rp_common :: bytes
  rp_id :: repo_ref
  rp_bare :: bool

definition readW :: "('w \<Rightarrow> gerror + 'a) \<Rightarrow> ('w gst, 'a) step" where
  "readW f s = (s, f (gw s))"

definition canonicalize :: "'w os \<Rightarrow> bytes \<Rightarrow> ('w gst, bytes) step" where
  "canonicalize os p = readW (\<lambda>w. ok_or io_error (os_canonical os p w))"

definition some_or :: "gerror \<Rightarrow> ('s, 'a option) step \<Rightarrow> ('s, 'a) step" where
  "some_or e m = bindS m (\<lambda>x. liftS (ok_or e x))"

definition discover :: "libs \<Rightarrow> 'w os \<Rightarrow> wire_path \<Rightarrow> ('w gst, repo) step" where
  "discover lb os path =
     bindS (liftS (wire_decode lb path)) (\<lambda>root.
     bindS (guardS (is_absolute root) (gerror_invalid ''An absolute repository path is required.'')) (\<lambda>_.
     bindS (some_or (gerror_new ''REPO_NOT_FOUND'' ''The repository is no longer available.'')
              (run os root [''rev-parse'', ''--absolute-git-dir''])) (\<lambda>gd.
     bindS (canonicalize os (trim_line gd)) (\<lambda>git_dir.
     bindS (some_or git_failure (run os root [''rev-parse'', ''--is-bare-repository''])) (\<lambda>b.
     let bare = (b = ''true'' @ [CHR 0x0A]) in
     bindS (if bare then retS git_dir
            else bindS (some_or git_failure (run os root [''rev-parse'', ''--show-toplevel'']))
                   (\<lambda>v. canonicalize os (trim_line v))) (\<lambda>top.
     bindS (bindS (readW (\<lambda>w. Inr (os_read os (path_join git_dir ''commondir'') w))) (\<lambda>r.
              case r of Content c \<Rightarrow> canonicalize os (path_join git_dir (trim_line c))
              | NotFound \<Rightarrow> retS git_dir
              | ReadError \<Rightarrow> failS io_error)) (\<lambda>common.
     bindS (readW (\<lambda>w. ok_or io_error (os_meta os git_dir w))) (\<lambda>(dev, ino).
       retS \<lparr>rp_root = top, rp_git_dir = git_dir, rp_common = common,
             rp_id = repo_new (lb_tk lb) git_dir dev ino, rp_bare = bare\<rparr>))))))))"

definition stat_repo :: "'w os \<Rightarrow> 'w \<Rightarrow> bytes \<Rightarrow> meta_result" where
  "stat_repo os w p = (case os_meta os p w of Some (dev, ino) \<Rightarrow> Meta dev ino
     | None \<Rightarrow> if os_exists os p w = Some False then MetaMissing else MetaError)"

definition from_id :: "libs \<Rightarrow> 'w os \<Rightarrow> string \<Rightarrow> ('w gst, repo) step" where
  "from_id lb os t =
     bindS (liftS (repo_decode (lb_tk lb) t)) (\<lambda>id.
     bindS (readW (\<lambda>w. checked_path (lb_tk lb) (stat_repo os w) id)) (\<lambda>dir.
     bindS (if file_name dir = Some ''.git'' then liftS (ok_or git_failure (path_parent dir))
            else bindS (readW (\<lambda>w. Inr (os_is_file os (path_join dir ''gitdir'') w))) (\<lambda>linked.
              if linked
              then bindS (readW (\<lambda>w. case os_read os (path_join dir ''gitdir'') w of
                            Content c \<Rightarrow> Inr c | _ \<Rightarrow> Inl io_error)) (\<lambda>c.
                     liftS (ok_or git_failure (path_parent (trim_line c))))
              else bindS (run os dir [''config'', ''--path'', ''--get'', ''core.worktree'']) (\<lambda>v.
                     retS (case v of Some x \<Rightarrow> path_join dir (trim_line x) | None \<Rightarrow> dir)))) (\<lambda>root.
     bindS (discover lb os (wire_new lb root)) (\<lambda>repo.
       if rp_id repo \<noteq> id
       then failS (gerror_new ''REPO_REPLACED'' ''The repository directory was replaced.'')
       else retS repo))))"

definition repo_run :: "'w os \<Rightarrow> repo \<Rightarrow> string list \<Rightarrow> ('w gst, bytes) step" where
  "repo_run os repo args = some_or git_failure (run os (rp_root repo) args)"

definition oid_opt :: "bytes option \<Rightarrow> gerror + json" where
  "oid_opt x = (case x of None \<Rightarrow> Inr JNull | Some b \<Rightarrow> oid (trim_line b))"

definition head :: "libs \<Rightarrow> 'w os \<Rightarrow> repo \<Rightarrow> ('w gst, json) step" where
  "head lb os repo =
     bindS (run os (rp_root repo) [''symbolic-ref'', ''-q'', ''HEAD'']) (\<lambda>ref.
     bindS (run os (rp_root repo) [''rev-parse'', ''--verify'', ''HEAD'']) (\<lambda>target.
     bindS (guardS (\<not> (target = None \<and> ref = None)) git_failure) (\<lambda>_.
     bindS (liftS (oid_opt target)) (\<lambda>oj.
       retS (JObj [(''oid'', oj),
         (''name'', case ref of Some r \<Rightarrow> wpath lb (trim_line r)
                    | None \<Rightarrow> if target = None then JNull else wpath lb ''HEAD''),
         (''detached'', JBool (ref = None)), (''unborn'', JBool (target = None))])))))"

text \<open>The markers are tried in this order; the first that exists names the state.\<close>

definition markers :: "(string \<times> string) list" where
  "markers = [(''rebase-merge'', ''RebaseMerge''), (''rebase-apply'', ''Rebase''),
     (''MERGE_HEAD'', ''Merge''), (''CHERRY_PICK_HEAD'', ''CherryPick''),
     (''REVERT_HEAD'', ''Revert''), (''BISECT_LOG'', ''Bisect'')]"

fun first_marker :: "(string \<Rightarrow> bool option) \<Rightarrow> (string \<times> string) list \<Rightarrow> gerror + string" where
  "first_marker ex [] = Inr ''Clean''"
| "first_marker ex ((m, st) # ms) =
     (case ex m of None \<Rightarrow> Inl io_error | Some True \<Rightarrow> Inr st | Some False \<Rightarrow> first_marker ex ms)"

definition repo_state :: "'w os \<Rightarrow> repo \<Rightarrow> ('w gst, string) step" where
  "repo_state os repo =
     readW (\<lambda>w. first_marker (\<lambda>m. os_exists os (path_join (rp_git_dir repo) m) w) markers)"

definition marker_path :: "repo \<Rightarrow> bytes" where
  "marker_path repo = path_join (rp_git_dir repo) ''newport-cli-integration''"

definition integration_kind :: "string \<Rightarrow> string option" where
  "integration_kind st =
     (if st = ''Merge'' then Some ''merge'' else if st = ''CherryPick'' then Some ''cherry_pick''
      else if st = ''Revert'' then Some ''revert''
      else if st = ''Rebase'' \<or> st = ''RebaseMerge'' then Some ''rebase'' else None)"

definition integration :: "'w os \<Rightarrow> repo \<Rightarrow> ('w gst, json) step" where
  "integration os repo =
     bindS (repo_state os repo) (\<lambda>st.
       case integration_kind st of
         None \<Rightarrow> retS JNull
       | Some k \<Rightarrow>
           bindS (readW (\<lambda>w. ok_or io_error (os_exists os (marker_path repo) w))) (\<lambda>managed.
             retS (JObj [(''kind'', JStr k), (''managed'', JBool managed),
               (''canContinue'', JBool managed), (''canAbort'', JBool managed),
               (''canSkip'', JBool (managed \<and> k \<noteq> ''merge''))])))"

section \<open>The status summary\<close>

record counts =
  n_total :: nat
  n_staged :: nat
  n_unstaged :: nat
  n_untracked :: nat
  n_conflicted :: nat

definition zero_counts :: counts where
  "zero_counts = \<lparr>n_total = 0, n_staged = 0, n_unstaged = 0, n_untracked = 0, n_conflicted = 0\<rparr>"

definition conflict_codes :: "string list" where
  "conflict_codes = [''DD'', ''AU'', ''UD'', ''UA'', ''DU'', ''AA'', ''UU'']"

definition count_row :: "string \<Rightarrow> counts \<Rightarrow> counts" where
  "count_row xy c =
     (let c = c\<lparr>n_total := n_total c + 1\<rparr> in
      if xy \<in> set conflict_codes then c\<lparr>n_conflicted := n_conflicted c + 1\<rparr>
      else if xy = ''??'' then c\<lparr>n_untracked := n_untracked c + 1\<rparr>
      else c\<lparr>n_staged := n_staged c + (if xy ! 0 \<in> set ''MADRTC'' then 1 else 0),
             n_unstaged := n_unstaged c + (if xy ! 1 \<in> set ''MDRTC'' then 1 else 0)\<rparr>)"

fun count_records :: "bytes list \<Rightarrow> counts \<Rightarrow> gerror + counts" where
  "count_records [] c = Inr c"
| "count_records (row # rest) c =
     (if length row < 4 \<or> row ! 2 \<noteq> CHR '' '' then Inl git_failure
      else
        (let xy = take 2 row; c' = count_row xy c in
         if CHR ''R'' \<in> set xy \<or> CHR ''C'' \<in> set xy
         then (case rest of [] \<Rightarrow> Inl git_failure | _ # rest' \<Rightarrow> count_records rest' c')
         else count_records rest c'))"

definition nul_records :: "bytes \<Rightarrow> bytes list" where
  "nul_records b = filter (\<lambda>r. r \<noteq> []) (split_on (CHR 0x00) b)"

definition parse_counts :: "libs \<Rightarrow> bytes \<Rightarrow> gerror + nat list" where
  "parse_counts lb v = collectR (\<lambda>w. ok_or git_failure (parse_usize w)) (split_ws (lossy lb v))"

definition nth_json :: "nat list option \<Rightarrow> nat \<Rightarrow> json" where
  "nth_json v k = (case v of None \<Rightarrow> JNull | Some xs \<Rightarrow> if k < length xs then jnat (xs ! k) else JNull)"

definition summary :: "libs \<Rightarrow> 'w os \<Rightarrow> repo \<Rightarrow> ('w gst, json) step" where
  "summary lb os repo =
     bindS (guardS (\<not> rp_bare repo) (gerror_new ''UNSUPPORTED_CAPABILITY''
              ''Bare repositories have no working tree.'')) (\<lambda>_.
     bindS (repo_state os repo) (\<lambda>st.
     bindS (repo_run os repo [''-c'', ''status.renames=true'', ''status'', ''--porcelain=v1'', ''-z'',
              ''--untracked-files=normal'', ''--ignore-submodules=none'']) (\<lambda>b.
     bindS (liftS (count_records (nul_records b) zero_counts)) (\<lambda>c.
     bindS (run os (rp_root repo) [''rev-parse'', ''--symbolic-full-name'', ''--verify'', ''@'' @ ''{upstream}''])
       (\<lambda>upstream.
     bindS (if upstream = None then retS None
            else bindS (run os (rp_root repo)
                          [''rev-list'', ''--left-right'', ''--count'', ''HEAD...@'' @ ''{upstream}''])
                   (\<lambda>v. case v of None \<Rightarrow> retS None
                        | Some x \<Rightarrow> liftS (mapR Some (parse_counts lb x)))) (\<lambda>counts.
     bindS (head lb os repo) (\<lambda>h.
     bindS (integration os repo) (\<lambda>i.
       retS (JObj [(''head'', h), (''operationState'', JStr st), (''integration'', i),
         (''ahead'', nth_json counts 0), (''behind'', nth_json counts 1),
         (''basis'', JStr ''stored_refs''),
         (''upstreamRef'', jopt (\<lambda>u. wpath lb (trim_line u)) upstream),
         (''truncated'', JBool False), (''totalEntries'', jnat (n_total c)),
         (''groupCounts'', JObj [(''staged'', jnat (n_staged c)),
            (''unstaged'', jnat (n_unstaged c)), (''untracked'', jnat (n_untracked c)),
            (''conflicted'', jnat (n_conflicted c))])])))))))))"

definition open_repo :: "libs \<Rightarrow> 'w os \<Rightarrow> repo \<Rightarrow> ('w gst, json) step" where
  "open_repo lb os repo =
     bindS (repo_run os repo [''rev-parse'', ''--show-object-format'']) (\<lambda>format.
     bindS (head lb os repo) (\<lambda>h.
     bindS (repo_state os repo) (\<lambda>st.
     bindS (integration os repo) (\<lambda>i.
       retS (JObj [(''repoId'', JStr (repo_encode (lb_tk lb) (rp_id repo))),
         (''commonRepoId'', JStr (hex (sha256 lb (rp_common repo)))),
         (''root'', wpath lb (rp_root repo)), (''bare'', JBool (rp_bare repo)),
         (''objectFormat'', JStr (lossy lb (trim_line format))), (''head'', h),
         (''operationState'', JStr st), (''integration'', i),
         (''capabilities'', JObj [(''readOnly'', JBool True),
            (''workingTree'', JBool (\<not> rp_bare repo))])])))))"

section \<open>Lemmas\<close>

lemma readW_simp [simp]: "readW f s = (s, f (gw s))"
  by (simp add: readW_def)

lemma readW_quiet: "preserves same_mutations (readW f)"
  by (simp add: preserves_def same_mutations_def)

lemma some_or_quiet: "preserves same_mutations m \<Longrightarrow> preserves same_mutations (some_or e m)"
  unfolding some_or_def by (intro quiet.pres_bind quiet.pres_lift)

lemma repo_run_quiet: "preserves same_mutations (repo_run os repo args)"
  unfolding repo_run_def by (intro some_or_quiet run_quiet)

lemma canonicalize_quiet: "preserves same_mutations (canonicalize os p)"
  unfolding canonicalize_def by (rule readW_quiet)

lemma repo_state_quiet: "preserves same_mutations (repo_state os repo)"
  unfolding repo_state_def by (rule readW_quiet)

lemma head_quiet: "preserves same_mutations (head lb os repo)"
  unfolding head_def by (intro quiet.pres_rules query_quiets)

lemma integration_quiet: "preserves same_mutations (integration os repo)"
  unfolding integration_def by (intro quiet.pres_rules readW_quiet repo_state_quiet)

lemmas repo_quiets = query_quiets readW_quiet some_or_quiet repo_run_quiet canonicalize_quiet
  repo_state_quiet head_quiet integration_quiet

lemma summary_quiet: "preserves same_mutations (summary lb os repo)"
  unfolding summary_def by (intro quiet.pres_rules repo_quiets)

lemma discover_quiet: "preserves same_mutations (discover lb os p)"
  unfolding discover_def Let_def
  by (intro quiet.pres_rules repo_quiets) (auto split: read_result.splits prod.splits
      intro!: quiet.pres_rules repo_quiets)

lemma from_id_quiet: "preserves same_mutations (from_id lb os t)"
  unfolding from_id_def by (intro quiet.pres_rules repo_quiets discover_quiet)

end
