(* ===== verification/Pages.thy ===== *)
theory Pages
  imports RepoState
begin

text \<open>
  Bounded listing pages with opaque cursors, \<open>git/cli/pages.rs\<close>. The contract of a paged read is
  the locale \<open>paging\<close>: a page is a nonempty prefix of what is left, so a client that follows the
  cursors reassembles the listing. The page of a listing and the page of a blob both provide it.
\<close>

section \<open>The interface of a paged read\<close>

text \<open>A client that fetches page after page with the cursor of the page before.\<close>

fun read_all ::
  "(string option \<Rightarrow> 'p option) \<Rightarrow> ('p \<Rightarrow> 'b list) \<Rightarrow> ('p \<Rightarrow> string option) \<Rightarrow> nat \<Rightarrow> string option \<Rightarrow>
   'b list option" where
  "read_all fetch shown next 0 c = None"
| "read_all fetch shown next (Suc n) c =
     Option.bind (fetch c) (\<lambda>v.
       case next v of None \<Rightarrow> Some (shown v)
       | Some c' \<Rightarrow> map_option ((@) (shown v)) (read_all fetch shown next n (Some c')))"

text \<open>\<open>slice xs off\<close> is the page of \<open>xs\<close> at \<open>off\<close>, or \<open>None\<close> when an element cannot be sent.\<close>

locale paging =
  fixes slice :: "'a list \<Rightarrow> nat \<Rightarrow> 'a list option"
  assumes slice_prefix: "slice xs off = Some p \<Longrightarrow> p = take (length p) (drop off xs)"
    and slice_progress: "slice xs off = Some p \<Longrightarrow> off < length xs \<Longrightarrow> p \<noteq> []"
begin

text \<open>A client that follows the cursors; the fuel bounds the number of pages it reads.\<close>

fun follow :: "nat \<Rightarrow> 'a list \<Rightarrow> nat \<Rightarrow> 'a list option" where
  "follow 0 xs off = None"
| "follow (Suc n) xs off =
     (case slice xs off of
        None \<Rightarrow> None
      | Some p \<Rightarrow> if off + length p < length xs
                  then map_option (\<lambda>r. p @ r) (follow n xs (off + length p))
                  else Some p)"

lemma follow_complete:
  assumes "\<And>k. k \<le> length xs \<Longrightarrow> slice xs k \<noteq> None" and "length xs - off < n" and "off \<le> length xs"
  shows "follow n xs off = Some (drop off xs)"
  using assms(2,3)
proof (induction n arbitrary: off)
  case (Suc n)
  obtain p where p: "slice xs off = Some p" using assms(1) [of off] Suc.prems(2) by auto
  note pre = slice_prefix [OF p]
  have len: "off + length p \<le> length xs" using pre Suc.prems(2)
    by (metis length_drop length_take le_add_diff_inverse min.cobounded1 nat_add_left_cancel_le)
  show ?case
  proof (cases "off + length p < length xs")
    case True
    then have "p \<noteq> []" using slice_progress [OF p] by simp
    then have "length xs - (off + length p) < n" using Suc.prems True by (cases p) auto
    then have "follow n xs (off + length p) = Some (drop (off + length p) xs)"
      using Suc.IH len by blast
    moreover have "p @ drop (off + length p) xs = drop off xs"
      by (metis append_take_drop_id drop_drop pre add.commute)
    ultimately show ?thesis using p True by simp
  next
    case False
    then have "length p = length (drop off xs)" using len by simp
    then have "p = drop off xs" using pre by simp
    then show ?thesis using p False by simp
  qed
qed simp

text \<open>
  A client of pages: \<open>at_offset c off\<close> says that the cursor \<open>c\<close> stands for the offset \<open>off\<close>, \<open>g\<close> is
  what the client sees of an element. If every fetch answers with the slice at its offset and the
  cursor of what follows, the client reads what \<open>follow\<close> does.
\<close>

lemma read_all_follow:
  assumes step: "\<And>c off. at_offset c off \<Longrightarrow> off \<le> length xs \<Longrightarrow>
      (case slice xs off of
         None \<Rightarrow> fetch c = None
       | Some p \<Rightarrow> \<exists>v. fetch c = Some v \<and> shown v = map g p \<and>
           (if off + length p < length xs
            then \<exists>c'. next v = Some c' \<and> at_offset (Some c') (off + length p) else next v = None))"
    and start: "at_offset c off" "off \<le> length xs"
  shows "read_all fetch shown next n c = map_option (map g) (follow n xs off)"
  using start
proof (induction n arbitrary: c off)
  case (Suc n)
  show ?case
  proof (cases "slice xs off")
    case None
    then show ?thesis using step [OF Suc.prems] by simp
  next
    case (Some p)
    then obtain v where v: "fetch c = Some v" "shown v = map g p"
      and nx: "if off + length p < length xs
        then \<exists>c'. next v = Some c' \<and> at_offset (Some c') (off + length p) else next v = None"
      using step [OF Suc.prems] by auto
    show ?thesis
    proof (cases "off + length p < length xs")
      case True
      then obtain c' where "next v = Some c'" "at_offset (Some c') (off + length p)" using nx by auto
      with Suc.IH [of "Some c'" "off + length p"] True show ?thesis
        using Some v by (simp add: option.map_comp comp_def)
    qed (use Some v nx in simp)
  qed
qed simp

end

section \<open>The rows of one page\<close>

definition MAX_FRAME :: nat where "MAX_FRAME = 1024 * 1024"

definition row_limit_error :: gerror where
  "row_limit_error = gerror_new ''LIMIT_EXCEEDED'' ''A listing row exceeds the response limit.''"

text \<open>The loop over \<open>rows.skip(offset).take(count)\<close> with the byte budget.\<close>

fun page_rows :: "('a \<Rightarrow> nat option) \<Rightarrow> 'a list \<Rightarrow> nat \<Rightarrow> gerror + 'a list" where
  "page_rows sz [] used = Inr []"
| "page_rows sz (r # rs) used =
     (case sz r of
        None \<Rightarrow> Inl git_failure
      | Some n \<Rightarrow>
          if MAX_FRAME div 2 < n then Inl row_limit_error
          else if MAX_FRAME div 2 < used + n then Inr []
          else mapR (\<lambda>ps. r # ps) (page_rows sz rs (used + n)))"

definition json_size :: "libs \<Rightarrow> json \<Rightarrow> nat option" where
  "json_size lb v = map_option length (json_vec lb v)"

definition bad_cursor :: gerror where
  "bad_cursor = gerror_invalid ''Cursor does not match this query.''"

text \<open>The offset a cursor names, refused when it belongs to another listing.\<close>

definition cursor_offset :: "libs \<Rightarrow> snapshot_ref \<Rightarrow> string option \<Rightarrow> gerror + nat" where
  "cursor_offset lb snapshot cursor =
     (case cursor of
        None \<Rightarrow> Inr 0
      | Some t \<Rightarrow>
          bindR (cursor_decode (lb_tk lb) t) (\<lambda>c.
            if sn_r (cu_s c) \<noteq> sn_r snapshot \<or> sn_q (cu_s c) \<noteq> sn_q snapshot \<or>
               sn_p (cu_s c) \<noteq> None \<or> cu_k c \<noteq> None
            then Inl bad_cursor
            else if sn_f (cu_s c) \<noteq> sn_f snapshot
            then Inl (gerror_new ''SNAPSHOT_EXPIRED''
                   ''The listing changed. Restart from the first page.'')
            else Inr (cu_o c)))"

definition page_from ::
  "libs \<Rightarrow> snapshot_ref \<Rightarrow> json list \<Rightarrow> nat \<Rightarrow> nat \<Rightarrow> json \<Rightarrow> gerror + json" where
  "page_from lb snapshot rows count offset metadata =
     (if length rows < offset
      then Inl (gerror_invalid ''Cursor is past the end of the listing.'')
      else
        bindR (page_rows (json_size lb) (take count (drop offset rows)) 0) (\<lambda>result.
          Inr (JObj [(''snapshot'', JStr (snapshot_encode (lb_tk lb) snapshot)),
               (''entries'', JArr result),
               (''nextCursor'',
                  if offset + length result < length rows
                  then JStr (cursor_encode (lb_tk lb)
                         \<lparr>cu_s = snapshot, cu_o = offset + length result, cu_k = None\<rparr>)
                  else JNull),
               (''metadata'', metadata)])))"

definition page_snapshot :: "repo \<Rightarrow> string \<Rightarrow> string \<Rightarrow> snapshot_ref" where
  "page_snapshot repo query fingerprint =
     \<lparr>sn_r = rp_id repo, sn_q = query, sn_f = fingerprint, sn_p = None\<rparr>"

definition page ::
  "libs \<Rightarrow> repo \<Rightarrow> string \<Rightarrow> string \<Rightarrow> json list \<Rightarrow> nat \<Rightarrow> string option \<Rightarrow> json \<Rightarrow> gerror + json"
where
  "page lb repo query fingerprint rows count cursor metadata =
     (if \<not> (1 \<le> count \<and> count \<le> 200)
      then Inl (gerror_invalid ''pageSize must be between 1 and 200.'')
      else
        bindR (cursor_offset lb (page_snapshot repo query fingerprint) cursor) (\<lambda>offset.
          page_from lb (page_snapshot repo query fingerprint) rows count offset metadata))"

definition page_hash :: "libs \<Rightarrow> json \<Rightarrow> gerror + string" where
  "page_hash lb v = bindR (ok_or git_failure (json_vec lb v)) (\<lambda>b. Inr (hex (sha256 lb b)))"

section \<open>Lemmas\<close>

lemma page_rows_prefix:
  "page_rows sz rs used = Inr ps \<Longrightarrow> \<exists>k. ps = take k rs"
proof (induction rs arbitrary: used ps)
  case (Cons r rs)
  from Cons.prems show ?case
  proof (cases "sz r")
    case (Some n)
    show ?thesis
    proof (cases "MAX_FRAME div 2 < n \<or> MAX_FRAME div 2 < used + n")
      case True
      then show ?thesis using Cons.prems Some by (auto intro: exI [of _ 0] split: if_splits)
    next
      case False
      then obtain qs where "page_rows sz rs (used + n) = Inr qs" "ps = r # qs"
        using Cons.prems Some by (auto simp: result_simps)
      then show ?thesis using Cons.IH by (metis take_Suc_Cons)
    qed
  qed simp
qed simp

lemma page_rows_prefix_length:
  "page_rows sz rs used = Inr ps \<Longrightarrow> ps = take (length ps) rs"
  using page_rows_prefix [of sz rs used ps] by (metis length_take min.cobounded1 take_all_iff
      min_def nat_le_linear take_all)

lemma page_rows_progress:
  "page_rows sz (r # rs) 0 = Inr ps \<Longrightarrow> ps \<noteq> []"
  by (auto simp: result_simps split: option.splits if_splits)

lemma page_rows_ok:
  "(\<And>r. r \<in> set rs \<Longrightarrow> \<exists>n. sz r = Some n \<and> n \<le> MAX_FRAME div 2) \<Longrightarrow>
   \<exists>ps. page_rows sz rs used = Inr ps"
proof (induction rs arbitrary: used)
  case (Cons r rs)
  obtain n where n: "sz r = Some n" "n \<le> MAX_FRAME div 2" using Cons.prems by fastforce
  obtain ps where "page_rows sz rs (used + n) = Inr ps" using Cons.IH Cons.prems by fastforce
  then show ?case using n by auto
qed simp

lemma page_rows_budget:
  assumes "page_rows sz rs used = Inr ps" "used \<le> MAX_FRAME div 2"
  shows "used + sum_list (map (\<lambda>r. the (sz r)) ps) \<le> MAX_FRAME div 2"
  using assms
proof (induction rs arbitrary: used ps)
  case (Cons r rs)
  then show ?case by (fastforce simp: result_simps add.assoc split: option.splits if_splits)
qed simp

text \<open>The page of \<open>Suc n\<close> rows provides the contract.\<close>

definition listing_slice :: "('a \<Rightarrow> nat option) \<Rightarrow> nat \<Rightarrow> 'a list \<Rightarrow> nat \<Rightarrow> 'a list option" where
  "listing_slice sz n rows off =
     (case page_rows sz (take (Suc n) (drop off rows)) 0 of Inl e \<Rightarrow> None | Inr p \<Rightarrow> Some p)"

interpretation listing: paging "listing_slice sz n" for sz :: "'a \<Rightarrow> nat option" and n
proof
  fix xs :: "'a list" and off p
  assume s: "listing_slice sz n xs off = Some p"
  then have r: "page_rows sz (take (Suc n) (drop off xs)) 0 = Inr p"
    by (auto simp: listing_slice_def split: sum.splits)
  have "p = take (length p) (take (Suc n) (drop off xs))" by (rule page_rows_prefix_length [OF r])
  then show "p = take (length p) (drop off xs)"
    by (metis length_take min.absorb2 nat_le_linear take_all take_take)
  assume "off < length xs"
  then obtain y ys where "drop off xs = y # ys" by (metis Cons_nth_drop_Suc)
  then show "p \<noteq> []" using r page_rows_progress by fastforce
qed

text \<open>What a client sees of a page.\<close>

definition entries :: "json \<Rightarrow> json list" where
  "entries v = (case jget v ''entries'' of JArr xs \<Rightarrow> xs | _ \<Rightarrow> [])"

definition next_cursor :: "json \<Rightarrow> string option" where
  "next_cursor v = jstr (jget v ''nextCursor'')"

lemma page_from_result:
  assumes "page_from lb sn rows count off md = Inr v"
  shows "off \<le> length rows"
    "page_rows (json_size lb) (take count (drop off rows)) 0 = Inr (entries v)"
    "entries v = take (length (entries v)) (drop off rows)"
    "next_cursor v = (if off + length (entries v) < length rows
       then Some (cursor_encode (lb_tk lb)
              \<lparr>cu_s = sn, cu_o = off + length (entries v), cu_k = None\<rparr>) else None)"
proof -
  from assms obtain rs where r: "off \<le> length rows"
    "page_rows (json_size lb) (take count (drop off rows)) 0 = Inr rs"
    "v = JObj [(''snapshot'', JStr (snapshot_encode (lb_tk lb) sn)), (''entries'', JArr rs),
          (''nextCursor'', if off + length rs < length rows
             then JStr (cursor_encode (lb_tk lb) \<lparr>cu_s = sn, cu_o = off + length rs, cu_k = None\<rparr>)
             else JNull), (''metadata'', md)]"
    by (auto simp: page_from_def result_simps split: if_splits)
  have e: "entries v = rs" by (simp add: entries_def r(3))
  show "off \<le> length rows"
    "page_rows (json_size lb) (take count (drop off rows)) 0 = Inr (entries v)"
    using r e by simp_all
  show "entries v = take (length (entries v)) (drop off rows)"
    using page_rows_prefix_length [OF r(2)] e
    by (metis length_take min.absorb2 nat_le_linear take_all take_take)
  show "next_cursor v = (if off + length (entries v) < length rows
       then Some (cursor_encode (lb_tk lb)
              \<lparr>cu_s = sn, cu_o = off + length (entries v), cu_k = None\<rparr>) else None)"
    unfolding e by (simp add: next_cursor_def jstr_def r(3))
qed

text \<open>A client that requests page after page with the cursor of the page before.\<close>

fun read_pages ::
  "libs \<Rightarrow> repo \<Rightarrow> string \<Rightarrow> string \<Rightarrow> json list \<Rightarrow> nat \<Rightarrow> json \<Rightarrow> nat \<Rightarrow> string option \<Rightarrow> json list option"
where
  "read_pages lb repo q f rows count md 0 cursor = None"
| "read_pages lb repo q f rows count md (Suc n) cursor =
     (case page lb repo q f rows count cursor md of
        Inl e \<Rightarrow> None
      | Inr v \<Rightarrow> (case next_cursor v of
                    None \<Rightarrow> Some (entries v)
                  | Some c \<Rightarrow> map_option (\<lambda>r. entries v @ r)
                      (read_pages lb repo q f rows count md n (Some c))))"

lemma read_pages_follow:
  assumes tk: "token_lib_ok (lb_tk lb)" and count: "count = Suc k" "count \<le> 200"
    and short: "\<And>off. length (cursor_encode (lb_tk lb)
          \<lparr>cu_s = page_snapshot repo q f, cu_o = off, cu_k = None\<rparr>) \<le> MAX_TOKEN \<or> length rows < off"
    and off: "cursor_offset lb (page_snapshot repo q f) cursor = Inr off" "off \<le> length rows"
  shows "read_pages lb repo q f rows count md n cursor
       = listing.follow (json_size lb) k n rows off"
  using off
proof (induction n arbitrary: cursor off)
  case (Suc n)
  let ?s = "page_snapshot repo q f"
  have pg: "page lb repo q f rows count cursor md = page_from lb ?s rows count off md"
    using Suc.prems count by (simp add: page_def)
  show ?case
  proof (cases "page_from lb ?s rows count off md")
    case (Inl e)
    then have "listing_slice (json_size lb) k rows off = None"
      using Suc.prems(2) count(1)
      by (auto simp: page_from_def listing_slice_def result_simps split: sum.splits)
    then show ?thesis using Inl pg by simp
  next
    case (Inr v)
    note r = page_from_result [OF Inr]
    have sl: "listing_slice (json_size lb) k rows off = Some (entries v)"
      using r(2) count(1) by (simp add: listing_slice_def)
    show ?thesis
    proof (cases "off + length (entries v) < length rows")
      case True
      let ?c = "\<lparr>cu_s = ?s, cu_o = off + length (entries v), cu_k = None\<rparr>"
      have "length (cursor_encode (lb_tk lb) ?c) \<le> MAX_TOKEN"
        using short [of "off + length (entries v)"] True by linarith
      then have "cursor_offset lb ?s (Some (cursor_encode (lb_tk lb) ?c)) = Inr (off + length (entries v))"
        using cursor_roundtrip [OF tk] by (simp add: cursor_offset_def page_snapshot_def)
      from Suc.IH [OF this] True show ?thesis
        using pg Inr sl r(4) by simp
    next
      case False
      then show ?thesis using pg Inr sl r(4) by simp
    qed
  qed
qed simp


text \<open>
  A page never exceeds its byte budget or the requested number of rows, and a cursor of a
  listing that has changed is refused as expired instead of mixing two listings.
\<close>

lemma page_bounded:
  "(\<forall>v. page lb repo q f rows count cursor md = Inr v \<longrightarrow>
      length (entries v) \<le> count \<and> count \<le> 200 \<and>
      sum_list (map (\<lambda>r. the (json_size lb r)) (entries v)) \<le> MAX_FRAME div 2) \<and>
   (\<forall>c t. cursor = Some t \<and> cursor_decode (lb_tk lb) t = Inr c \<and> sn_f (cu_s c) \<noteq> f \<longrightarrow>
      (\<exists>e. page lb repo q f rows count cursor md = Inl e))"
proof (intro conjI allI impI)
  fix v assume "page lb repo q f rows count cursor md = Inr v"
  then obtain off where c: "1 \<le> count" "count \<le> 200" and
    p: "page_from lb (page_snapshot repo q f) rows count off md = Inr v"
    by (auto simp: page_def result_simps split: if_splits)
  note r = page_from_result [OF p]
  show "count \<le> 200" by (rule c(2))
  show "length (entries v) \<le> count"
    using arg_cong [OF page_rows_prefix_length [OF r(2)], of length]
    unfolding length_take by linarith
  show "sum_list (map (\<lambda>r. the (json_size lb r)) (entries v)) \<le> MAX_FRAME div 2"
    using page_rows_budget [OF r(2)] by simp
next
  fix c t assume "cursor = Some t \<and> cursor_decode (lb_tk lb) t = Inr c \<and> sn_f (cu_s c) \<noteq> f"
  then show "\<exists>e. page lb repo q f rows count cursor md = Inl e"
    by (simp add: page_def cursor_offset_def page_snapshot_def)
qed

section \<open>A concrete library\<close>

fun enc_json :: "json \<Rightarrow> bytes" where
  "enc_json JNull = ''n''"
| "enc_json (JBool b) = (if b then ''t'' else ''f'')"
| "enc_json (JNum k) = (if k < 0 then ''-'' else ''+'') @ enc_nat (nat (abs k))"
| "enc_json (JStr s) = CHR ''s'' # enc_str s"
| "enc_json (JArr xs) = ''['' @ concat (map enc_json xs) @ '']''"
| "enc_json (JObj m) = ''{'' @ concat (map (\<lambda>(k, v). enc_str k @ enc_json v) m) @ ''}''"

definition sample_libs :: libs where
  "sample_libs = \<lparr>lb_tk = sample_tokens, lossy = (\<lambda>b. b), utf8 = (\<lambda>_. True),
     json_vec = (\<lambda>v. Some (enc_json v)), sha256 = (\<lambda>b. take 32 b), lower = (\<lambda>s. s), utrim = (\<lambda>s. s),
     url_parse = (\<lambda>s. None), url_redacted = (\<lambda>s u. ''[redacted]'')\<rparr>"

definition sample_repo :: repo where
  "sample_repo = \<lparr>rp_root = ''/r'', rp_git_dir = ''/r/.git'', rp_common = ''/r/.git'',
     rp_id = repo_new sample_tokens ''/r/.git'' 3 4, rp_bare = False\<rparr>"

definition sample_rows :: "json list" where
  "sample_rows = [JStr ''a'', JStr ''bb'', JNum 7]"

lemma sample_cursor_short:
  "off \<le> 3 \<Longrightarrow> length (cursor_encode (lb_tk sample_libs)
     \<lparr>cu_s = page_snapshot sample_repo ''q'' ''f'', cu_o = off, cu_k = None\<rparr>) \<le> MAX_TOKEN"
  by (simp add: cursor_encode_def encode_def sample_libs_def sample_tokens_def enc_cursor_def
      enc_snapshot_def enc_repo_def enc_str_def enc_nat_def enc_opt_def page_snapshot_def
      sample_repo_def repo_new_def MAX_TOKEN_def CURSOR_def)

lemma lb_tk_sample [simp]: "lb_tk sample_libs = sample_tokens"
  by (simp add: sample_libs_def)

lemma sample_rows_fit:
  "\<forall>r\<in>set sample_rows. \<exists>n. json_size sample_libs r = Some n \<and> n \<le> MAX_FRAME div 2"
  by (simp add: sample_rows_def json_size_def sample_libs_def enc_str_def enc_nat_def MAX_FRAME_def)

lemma sample_cursors_short:
  "\<forall>off \<le> length sample_rows. length (cursor_encode (lb_tk sample_libs)
     \<lparr>cu_s = page_snapshot sample_repo ''q'' ''f'', cu_o = off, cu_k = None\<rparr>) \<le> MAX_TOKEN"
  using sample_cursor_short by (simp add: sample_rows_def)


definition sample_stale_cursor :: string where
  "sample_stale_cursor = cursor_encode (lb_tk sample_libs)
     \<lparr>cu_s = page_snapshot sample_repo ''q'' ''f'', cu_o = 1, cu_k = None\<rparr>"

lemma page_bounded_witness:
  "\<exists>e. page sample_libs sample_repo ''q'' ''g'' sample_rows 2 (Some sample_stale_cursor) JNull = Inl e"
proof -
  have "cursor_decode (lb_tk sample_libs) sample_stale_cursor =
      Inr \<lparr>cu_s = page_snapshot sample_repo ''q'' ''f'', cu_o = 1, cu_k = None\<rparr>"
    unfolding sample_stale_cursor_def
    by (rule cursor_roundtrip) (use sample_cursor_short [of 1] sample_tokens_ok in simp_all)
  moreover have "sn_f (page_snapshot sample_repo ''q'' ''f'') \<noteq> ''g''"
    by (simp add: page_snapshot_def)
  ultimately show ?thesis
    using page_bounded [of sample_libs sample_repo "''q''" "''g''" sample_rows 2
        "Some sample_stale_cursor" JNull] by auto
qed

end
