(* ===== verification/Status.thy ===== *)
theory Status
  imports Pages "HOL-Library.Char_ord" "HOL-Library.List_Lexorder"
begin

unbundle bit_operations_syntax

text \<open>
  Working-tree status, \<open>git/cli/status.rs\<close>: the parser of \<open>git status --porcelain=v2 -z\<close>, the flag
  word of a row, the snapshot fingerprint with its bounded walk over the files (\<open>hash_file\<close>), and
  the filtered page. A file tree is the \<open>node\<close> that \<open>os_tree\<close> shows at a path.
\<close>

section \<open>Rows\<close>

record capture =
  cp_rows :: "json list"
  cp_fingerprint :: string
  cp_metadata :: json

definition octal :: "char \<Rightarrow> bool" where
  "octal c \<longleftrightarrow> c \<in> set ''01234567''"

definition parse_octal :: "bytes \<Rightarrow> nat option" where
  "parse_octal s =
     (let t = (if starts_with ''+'' s then tl s else s);
          v = foldl (\<lambda>n c. 8 * n + (byte c - 48)) 0 t in
      if t \<noteq> [] \<and> list_all octal t \<and> v < 2 ^ 32 then Some v else None)"

definition side :: "libs \<Rightarrow> bytes \<Rightarrow> bytes \<Rightarrow> bytes \<Rightarrow> gerror + json" where
  "side lb mode ident path =
     (if mode = ''000000'' then Inr JNull
      else bindR (ok_or git_failure (parse_octal mode)) (\<lambda>m.
           bindR (oid ident) (\<lambda>oj.
             Inr (JObj [(''mode'', jnat m), (''oid'', oj), (''path'', wpath lb path)]))))"

definition record_fields :: "bytes \<Rightarrow> nat \<Rightarrow> gerror + bytes list" where
  "record_fields record count =
     (let r = splitn count (CHR '' '') record in
      if length r \<noteq> count then Inl git_failure else Inr r)"

definition flags :: "char \<Rightarrow> char \<Rightarrow> u32" where
  "flags x y =
     ((if x = CHR ''A'' then 1 else if x = CHR ''M'' then 2 else if x = CHR ''D'' then 4
       else if x = CHR ''R'' \<or> x = CHR ''C'' then 8 else if x = CHR ''T'' then 16 else 0) OR
      (if y = CHR ''M'' then 256 else if y = CHR ''D'' then 512 else if y = CHR ''T'' then 1024
       else if y = CHR ''R'' \<or> y = CHR ''C'' then 2048 else 0))"

text \<open>One row of the listing, \<open>(path, old path, flags, conflict)\<close>.\<close>

type_synonym entry = "bytes \<times> bytes option \<times> u32 \<times> json"

definition entry_paths_of :: "bytes \<Rightarrow> bytes option \<Rightarrow> bytes list" where
  "entry_paths_of path old =
     remdups_adj (sort (case old of None \<Rightarrow> [path] | Some q \<Rightarrow> [path, q]))"

definition bit_set :: "u32 \<Rightarrow> u32 \<Rightarrow> json" where
  "bit_set bits m = JBool (bits AND m \<noteq> 0)"

definition row_json :: "libs \<Rightarrow> entry \<Rightarrow> json" where
  "row_json lb e = (case e of (path, old, bits, conflict) \<Rightarrow>
     JObj [(''entryId'', JStr (entry_encode (lb_tk lb) (entry_new (lb_tk lb) (entry_paths_of path old)))),
       (''path'', wpath lb path), (''oldPath'', jopt (wpath lb) old),
       (''flags'', JNum (uint bits)), (''staged'', bit_set bits 31), (''unstaged'', bit_set bits 3840),
       (''untracked'', bit_set bits 128), (''conflicted'', bit_set bits 32768),
       (''conflict'', conflict)])"

text \<open>The loop over the NUL-separated records; a rename takes the next record as its source.\<close>

fun parse_entries :: "libs \<Rightarrow> bytes list \<Rightarrow> gerror + entry list" where
  "parse_entries lb [] = Inr []"
| "parse_entries lb (r # rest) =
     (if hd r = CHR ''?''
      then mapR (\<lambda>es. (drop 2 r, None, 128, JNull) # es) (parse_entries lb rest)
      else if hd r = CHR ''1''
      then bindR (record_fields r 9) (\<lambda>f.
             if length (f ! 1) \<noteq> 2 then Inl git_failure
             else mapR (\<lambda>es. (last f, Some (last f), flags (f ! 1 ! 0) (f ! 1 ! 1), JNull) # es)
                    (parse_entries lb rest))
      else if hd r = CHR ''2''
      then bindR (record_fields r 10) (\<lambda>f.
             if length (f ! 1) \<noteq> 2 then Inl git_failure
             else (case rest of
                     [] \<Rightarrow> Inl git_failure
                   | old # rest' \<Rightarrow>
                       mapR (\<lambda>es. (last f, Some old, flags (f ! 1 ! 0) (f ! 1 ! 1), JNull) # es)
                         (parse_entries lb rest')))
      else if hd r = CHR ''u''
      then bindR (record_fields r 11) (\<lambda>f.
           bindR (side lb (f ! 3) (f ! 7) (f ! 10)) (\<lambda>base.
           bindR (side lb (f ! 4) (f ! 8) (f ! 10)) (\<lambda>ours.
           bindR (side lb (f ! 5) (f ! 9) (f ! 10)) (\<lambda>theirs.
             if length (f ! 1) \<noteq> 2 then Inl git_failure
             else mapR (\<lambda>es. (f ! 10, Some (f ! 10), 32768,
                          JObj [(''base'', base), (''ours'', ours), (''theirs'', theirs)]) # es)
                    (parse_entries lb rest)))))
      else Inl git_failure)"

section \<open>The fingerprint\<close>

definition be64 :: "u64 \<Rightarrow> bytes" where
  "be64 w = map (\<lambda>k. char_of (unat (drop_bit (8 * k) w) mod 256)) [7, 6, 5, 4, 3, 2, 1, 0]"

definition meta_bytes :: "fmeta \<Rightarrow> bytes" where
  "meta_bytes m = concat (map be64 [fm_mode m, fm_len m, fm_dev m, fm_ino m, fm_mtime m,
     fm_mtime_nsec m, fm_ctime m, fm_ctime_nsec m])"

definition budget_error :: gerror where
  "budget_error = gerror_new ''LIMIT_EXCEEDED'' ''Status snapshot exceeds its read budget.''"

definition SMALL_FILE :: nat where "SMALL_FILE = 64 * 1024"

text \<open>\<open>hash_file\<close>: the bytes fed to the hash and the budget that is left.\<close>

fun hash_node :: "node \<Rightarrow> nat \<Rightarrow> gerror + bytes \<times> nat"
  and hash_children :: "(string \<times> node) list \<Rightarrow> nat \<Rightarrow> gerror + bytes \<times> nat" where
  "hash_node Missing b = Inr (''missing'', b)"
| "hash_node Unreadable b = Inl io_error"
| "hash_node (Symlink m t) b =
     (case t of None \<Rightarrow> Inl io_error | Some p \<Rightarrow> Inr (meta_bytes m @ p, b))"
| "hash_node (Directory m None) b = Inl io_error"
| "hash_node (Directory m (Some cs)) b =
     bindR (hash_children cs b) (\<lambda>(h, b'). Inr (meta_bytes m @ h, b'))"
| "hash_node (Regular m c) b =
     (if SMALL_FILE < unat (fm_len m) \<or> b < unat (fm_len m) then Inr (meta_bytes m, b)
      else (case c of None \<Rightarrow> Inl io_error
            | Some data \<Rightarrow> Inr (meta_bytes m @ take (unat (fm_len m) + 1) data,
                                b - unat (fm_len m))))"
| "hash_node (Special m) b =
     Inl (gerror_new ''UNSUPPORTED_CAPABILITY''
            ''Special files cannot be included in a write snapshot.'')"
| "hash_children [] b = Inr ([], b)"
| "hash_children ((n, c) # cs) b =
     (if n = ''.git'' then hash_children cs b
      else if b = 0 then Inl budget_error
      else bindR (hash_node c (b - 1)) (\<lambda>(h, b1).
           bindR (hash_children cs b1) (\<lambda>(hs, b2). Inr (n @ h @ hs, b2))))"

text \<open>Children are visited in name order; \<open>order_tree\<close> sorts every directory of a tree once.\<close>

fun order_tree :: "node \<Rightarrow> node" where
  "order_tree (Directory m (Some cs)) =
     Directory m (Some (sort_key fst (map (\<lambda>(n, c). (n, order_tree c)) cs)))"
| "order_tree t = t"

definition hash_file :: "'w os \<Rightarrow> bytes \<Rightarrow> nat \<Rightarrow> 'w \<Rightarrow> gerror + bytes \<times> nat" where
  "hash_file os path budget w = hash_node (order_tree (os_tree os path w)) budget"

fun hash_files :: "'w os \<Rightarrow> 'w \<Rightarrow> bytes list \<Rightarrow> nat \<Rightarrow> gerror + bytes \<times> nat" where
  "hash_files os w [] b = Inr ([], b)"
| "hash_files os w (p # ps) b =
     bindR (hash_file os p b w) (\<lambda>(h, b1).
     bindR (hash_files os w ps b1) (\<lambda>(hs, b2). Inr (h @ hs, b2)))"

definition READ_BUDGET :: nat where "READ_BUDGET = 256 * 1024 * 1024"

section \<open>Capture and page\<close>

definition is_true :: "json \<Rightarrow> bool" where
  "is_true v \<longleftrightarrow> v = JBool True"

definition row_path :: "libs \<Rightarrow> json \<Rightarrow> gerror + bytes" where
  "row_path lb r = bindR (ok_or git_failure (wire_of (jget r ''path''))) (wire_decode lb)"

definition display_path :: "json \<Rightarrow> string \<Rightarrow> string" where
  "display_path r k = jstr_or_empty (jget (jget r k) ''display'')"

fun hash_rows :: "libs \<Rightarrow> 'w os \<Rightarrow> 'w \<Rightarrow> bytes \<Rightarrow> json list \<Rightarrow> nat \<Rightarrow> gerror + bytes \<times> nat" where
  "hash_rows lb os w root [] b = Inr ([], b)"
| "hash_rows lb os w root (r # rs) b =
     (if is_true (jget r ''untracked'') then hash_rows lb os w root rs b
      else bindR (row_path lb r) (\<lambda>p.
           bindR (hash_file os (path_join root p) b w) (\<lambda>(h, b1).
           bindR (hash_rows lb os w root rs b1) (\<lambda>(hs, b2). Inr (h @ hs, b2)))))"

definition status_capture :: "libs \<Rightarrow> 'w os \<Rightarrow> repo \<Rightarrow> ('w gst, capture) step" where
  "status_capture lb os repo =
     bindS (guardS (\<not> rp_bare repo) (gerror_new ''UNSUPPORTED_CAPABILITY''
              ''Bare repositories have no working tree.'')) (\<lambda>_.
     bindS (repo_run os repo [''-c'', ''status.renames=true'', ''status'', ''--porcelain=v2'', ''-z'',
              ''--untracked-files=normal'', ''--ignore-submodules=none'']) (\<lambda>b.
     bindS (liftS (parse_entries lb (nul_records b))) (\<lambda>es.
     let rows = sort_key (\<lambda>r. display_path r ''path'') (map (row_json lb) es) in
     bindS (summary lb os repo) (\<lambda>metadata.
     bindS (liftS (ok_or git_failure (json_vec lb metadata))) (\<lambda>mj.
     bindS (readW (hash_file os (path_join (rp_git_dir repo) ''index'') READ_BUDGET)) (\<lambda>(h1, b1).
     bindS (if \<exists>r\<in>set rows. is_true (jget r ''untracked'')
            then bindS (repo_run os repo [''ls-files'', ''--others'', ''--exclude-standard'', ''-z''])
                   (\<lambda>ps. bindS (readW (\<lambda>w. hash_files os w
                            (map (path_join (rp_root repo)) (nul_records ps)) b1)) (\<lambda>(h, b2).
                      retS (ps @ h, b2)))
            else retS ([], b1)) (\<lambda>(h2, b2).
     bindS (readW (\<lambda>w. hash_rows lb os w (rp_root repo) rows b2)) (\<lambda>(h3, _).
       retS \<lparr>cp_rows = rows, cp_fingerprint = hex (sha256 lb (mj @ b @ h1 @ h2 @ h3)),
             cp_metadata = metadata\<rparr>))))))))"

record status_filter =
  sf_text :: string
  sf_group :: "string option"

definition status_groups :: "string list" where
  "status_groups = [''all'', ''staged'', ''unstaged'', ''untracked'', ''conflicted'']"

definition row_matches :: "libs \<Rightarrow> string \<Rightarrow> string \<Rightarrow> json \<Rightarrow> bool" where
  "row_matches lb grp txt r \<longleftrightarrow> (grp = ''all'' \<or> is_true (jget r grp)) \<and>
     (txt = [] \<or> contains_sub txt
        (lower lb (display_path r ''path'' @ '' '' @ display_path r ''oldPath'')))"

definition status_page ::
  "libs \<Rightarrow> 'w os \<Rightarrow> repo \<Rightarrow> status_filter option \<Rightarrow> nat \<Rightarrow> string option \<Rightarrow> ('w gst, json) step" where
  "status_page lb os repo filt count cursor =
     (let f = (case filt of None \<Rightarrow> \<lparr>sf_text = [], sf_group = None\<rparr> | Some f \<Rightarrow> f);
          grp = (case sf_group f of None \<Rightarrow> ''all'' | Some x \<Rightarrow> x) in
      if 1024 < length (sf_text f) \<or> CHR 0x00 \<in> set (sf_text f) \<or> grp \<notin> set status_groups
      then failS (gerror_invalid ''Invalid changed-file filter.'')
      else
        bindS (status_capture lb os repo) (\<lambda>cp.
        let txt = lower lb (utrim lb (sf_text f));
            rows = filter (row_matches lb grp txt) (cp_rows cp);
            metadata = jset (cp_metadata cp) ''matchedEntries'' (jnat (length rows)) in
        bindS (liftS (ok_or git_failure (json_vec lb (JArr [JStr txt, JStr grp])))) (\<lambda>q.
        bindS (liftS (page lb repo (''cli.status:'' @ q) (cp_fingerprint cp) rows count cursor metadata))
          (\<lambda>result.
            retS (jset result ''snapshot'' (JStr (snapshot_encode (lb_tk lb)
                    (page_snapshot repo ''cli.status'' (cp_fingerprint cp)))))))))"

section \<open>Lemmas\<close>

lemma status_capture_quiet: "preserves same_mutations (status_capture lb os repo)"
  unfolding status_capture_def Let_def
  by (intro quiet.pres_rules repo_quiets summary_quiet)
    (auto intro!: quiet.pres_rules repo_quiets split: prod.splits)

lemma status_page_quiet: "preserves same_mutations (status_page lb os repo f count cursor)"
  unfolding status_page_def Let_def by (intro quiet.pres_rules status_capture_quiet)

section \<open>What Git prints\<close>

text \<open>The entries of \<open>git status\<close> as its documentation describes them, and their two renderings.\<close>

datatype st_entry =
    Untracked bytes
  | Changed char char "bytes list" bytes
  | Renamed char char "bytes list" bytes bytes
  | Unmerged char char "bytes list" bytes

definition sp :: "bytes list \<Rightarrow> bytes" where
  "sp fs = terminate (CHR '' '') fs"

fun render_v2 :: "st_entry \<Rightarrow> bytes list" where
  "render_v2 (Untracked p) = [''? '' @ p]"
| "render_v2 (Changed x y m p) = [sp (''1'' # [x, y] # m) @ p]"
| "render_v2 (Renamed x y m p q) = [sp (''2'' # [x, y] # m) @ p, q]"
| "render_v2 (Unmerged x y m p) = [sp (''u'' # [x, y] # m) @ p]"

definition v1 :: "char \<Rightarrow> char" where
  "v1 c = (if c = CHR ''.'' then CHR '' '' else c)"

fun render_v1 :: "st_entry \<Rightarrow> bytes list" where
  "render_v1 (Untracked p) = [''?? '' @ p]"
| "render_v1 (Changed x y m p) = [[v1 x, v1 y, CHR '' ''] @ p]"
| "render_v1 (Renamed x y m p q) = [[v1 x, v1 y, CHR '' ''] @ p, q]"
| "render_v1 (Unmerged x y m p) = [[v1 x, v1 y, CHR '' ''] @ p]"

definition code_letters :: "char set" where
  "code_letters = set ''.MADRCTU''"

definition clean :: "bytes \<Rightarrow> bool" where
  "clean f \<longleftrightarrow> CHR '' '' \<notin> set f \<and> CHR 0x00 \<notin> set f"

fun wf_entry :: "st_entry \<Rightarrow> bool" where
  "wf_entry (Untracked p) \<longleftrightarrow> p \<noteq> [] \<and> CHR 0x00 \<notin> set p"
| "wf_entry (Changed x y m p) \<longleftrightarrow> x \<in> set ''.MADT'' \<and> y \<in> set ''.MADT'' \<and>
     [x, y] \<notin> set conflict_codes \<and> length m = 6 \<and> list_all clean m \<and> p \<noteq> [] \<and> CHR 0x00 \<notin> set p"
| "wf_entry (Renamed x y m p q) \<longleftrightarrow> x \<in> set ''.MADRCT'' \<and> y \<in> set ''.MADRCT'' \<and>
     (x \<in> set ''RC'' \<or> y \<in> set ''RC'') \<and> length m = 7 \<and> list_all clean m \<and>
     p \<noteq> [] \<and> CHR 0x00 \<notin> set p \<and> q \<noteq> [] \<and> CHR 0x00 \<notin> set q"
| "wf_entry (Unmerged x y m p) \<longleftrightarrow> [x, y] \<in> set conflict_codes \<and> length m = 8 \<and>
     list_all clean m \<and> p \<noteq> [] \<and> CHR 0x00 \<notin> set p"

fun expected_entry :: "libs \<Rightarrow> st_entry \<Rightarrow> gerror + entry" where
  "expected_entry lb (Untracked p) = Inr (p, None, 128, JNull)"
| "expected_entry lb (Changed x y m p) = Inr (p, Some p, flags x y, JNull)"
| "expected_entry lb (Renamed x y m p q) = Inr (p, Some q, flags x y, JNull)"
| "expected_entry lb (Unmerged x y m p) =
     bindR (side lb (m ! 1) (m ! 5) p) (\<lambda>base.
     bindR (side lb (m ! 2) (m ! 6) p) (\<lambda>ours.
     bindR (side lb (m ! 3) (m ! 7) p) (\<lambda>theirs.
       Inr (p, Some p, 32768,
            JObj [(''base'', base), (''ours'', ours), (''theirs'', theirs)]))))"

lemma clean_sep: "list_all clean m \<Longrightarrow> f \<in> set m \<Longrightarrow> CHR '' '' \<notin> set f"
  by (auto simp: list_all_iff clean_def)

lemma fields_render:
  assumes "list_all clean m" "CHR '' '' \<noteq> x" "CHR '' '' \<noteq> y" "t \<noteq> CHR '' ''"
  shows "record_fields (sp ([t] # [x, y] # m) @ p) (3 + length m) = Inr ([t] # [x, y] # m @ [p])"
proof -
  have "splitn (Suc (length ([t] # [x, y] # m))) (CHR '' '') (sp ([t] # [x, y] # m) @ p)
      = ([t] # [x, y] # m) @ [p]"
    unfolding sp_def by (rule splitn_fields) (use assms clean_sep in auto)
  moreover have n: "3 + length m = Suc (length ([t] # [x, y] # m))" by simp
  ultimately show ?thesis unfolding record_fields_def Let_def n by simp
qed

lemma hd_sp: "hd (sp ([t] # r) @ p) = t"
  by (simp add: sp_def terminate_def)

lemma parse_one:
  assumes "wf_entry e"
  shows "parse_entries lb (render_v2 e @ rest) =
    bindR (expected_entry lb e) (\<lambda>x. mapR (\<lambda>es. x # es) (parse_entries lb rest))"
proof (cases e)
  case (Untracked p)
  then show ?thesis by simp
next
  case (Changed x y m p)
  then have m: "list_all clean m" "CHR '' '' \<noteq> x" "CHR '' '' \<noteq> y" "length m = 6"
    using assms by auto
  have "record_fields (sp (''1'' # [x, y] # m) @ p) 9 = Inr (''1'' # [x, y] # m @ [p])"
    using fields_render [OF m(1-3), of "CHR ''1''" p] m(4) by simp
  then show ?thesis using Changed by (simp add: hd_sp)
next
  case (Renamed x y m p q)
  then have m: "list_all clean m" "CHR '' '' \<noteq> x" "CHR '' '' \<noteq> y" "length m = 7"
    using assms by auto
  have "record_fields (sp (''2'' # [x, y] # m) @ p) 10 = Inr (''2'' # [x, y] # m @ [p])"
    using fields_render [OF m(1-3), of "CHR ''2''" p] m(4) by simp
  then show ?thesis using Renamed by (simp add: hd_sp)
next
  case (Unmerged x y m p)
  then have m: "list_all clean m" "CHR '' '' \<noteq> x" "CHR '' '' \<noteq> y" "length m = 8"
    using assms by (auto simp: conflict_codes_def)
  have f: "record_fields (sp (''u'' # [x, y] # m) @ p) 11 = Inr (''u'' # [x, y] # m @ [p])"
    using fields_render [OF m(1-3), of "CHR ''u''" p] m(4) by simp
  have nth: "(''u'' # [x, y] # m @ [p]) ! 3 = m ! 1" "(''u'' # [x, y] # m @ [p]) ! 4 = m ! 2"
    "(''u'' # [x, y] # m @ [p]) ! 5 = m ! 3" "(''u'' # [x, y] # m @ [p]) ! 7 = m ! 5"
    "(''u'' # [x, y] # m @ [p]) ! 8 = m ! 6" "(''u'' # [x, y] # m @ [p]) ! 9 = m ! 7"
    "(''u'' # [x, y] # m @ [p]) ! 10 = p" "(''u'' # [x, y] # m @ [p]) ! 1 = [x, y]"
    using m(4) by (simp_all add: nth_Cons' nth_append)
  show ?thesis
    using Unmerged f
    by (cases "side lb (m ! 1) (m ! 5) p"; cases "side lb (m ! 2) (m ! 6) p";
        cases "side lb (m ! 3) (m ! 7) p") (simp_all add: hd_sp nth del: nth_Cons_numeral)
qed

lemma sp_nul:
  "list_all clean m \<Longrightarrow> CHR 0x00 \<noteq> t \<Longrightarrow> CHR 0x00 \<noteq> x \<Longrightarrow> CHR 0x00 \<noteq> y \<Longrightarrow>
   CHR 0x00 \<notin> set (sp ([t] # [x, y] # m))"
  by (auto simp: sp_def terminate_def list_all_iff clean_def)

fun entry_xy :: "st_entry \<Rightarrow> char \<times> char" where
  "entry_xy (Untracked p) = (CHR ''?'', CHR ''?'')"
| "entry_xy (Changed x y m p) = (x, y)"
| "entry_xy (Renamed x y m p q) = (x, y)"
| "entry_xy (Unmerged x y m p) = (x, y)"

lemma wf_codes:
  assumes "wf_entry e" "entry_xy e = (x, y)"
  shows "CHR 0x00 \<noteq> x" "CHR 0x00 \<noteq> y" "x \<noteq> CHR '' ''" "y \<noteq> CHR '' ''"
  using assms by (cases e; auto simp: conflict_codes_def)+

lemma render_nonempty:
  assumes "wf_entry e" "r \<in> set (render_v2 e)"
  shows "r \<noteq> [] \<and> CHR 0x00 \<notin> set r"
proof (cases e)
  case (Untracked p)
  then show ?thesis using assms by auto
next
  case (Changed x y m p)
  then have "r = sp (''1'' # [x, y] # m) @ p" "p \<noteq> []" "CHR 0x00 \<notin> set p" "list_all clean m"
    using assms by simp_all
  then show ?thesis using sp_nul [of m "CHR ''1''" x y] wf_codes [OF assms(1), of x y] Changed by simp
next
  case (Renamed x y m p q)
  then have "r = sp (''2'' # [x, y] # m) @ p \<or> r = q" "p \<noteq> []" "CHR 0x00 \<notin> set p"
    "list_all clean m" "q \<noteq> []" "CHR 0x00 \<notin> set q"
    using assms by simp_all
  then show ?thesis using sp_nul [of m "CHR ''2''" x y] wf_codes [OF assms(1), of x y] Renamed by auto
next
  case (Unmerged x y m p)
  then have "r = sp (''u'' # [x, y] # m) @ p" "p \<noteq> []" "CHR 0x00 \<notin> set p" "list_all clean m"
    using assms by simp_all
  then show ?thesis using sp_nul [of m "CHR ''u''" x y] wf_codes [OF assms(1), of x y] Unmerged by simp
qed

lemma nul_records_terminate:
  "(\<And>r. r \<in> set rs \<Longrightarrow> r \<noteq> [] \<and> CHR 0x00 \<notin> set r) \<Longrightarrow> nul_records (terminate (CHR 0x00) rs) = rs"
  unfolding nul_records_def by (subst split_on_terminate) (auto simp: filter_id_conv)

text \<open>
  C11: The status parser recovers from \<open>git status --porcelain=v2 -z\<close> exactly the entries Git
  printed, in order, paths with blanks and renames with their source included; a malformed object
  identifier of a conflict is the only error.
\<close>

theorem status_parse_rendered:
  assumes "\<forall>e\<in>set es. wf_entry e"
  shows "parse_entries lb (nul_records (terminate (CHR 0x00) (concat (map render_v2 es))))
       = collectR (expected_entry lb) es"
proof -
  have "parse_entries lb (concat (map render_v2 es)) = collectR (expected_entry lb) es"
    using assms by (induction es) (simp_all add: parse_one)
  then show ?thesis
    using assms render_nonempty by (subst nul_records_terminate) auto
qed

section \<open>The groups of a row\<close>

lemma flags_groups:
  "(flags x y AND 31 \<noteq> 0) = (x \<in> set ''MADRTC'')"
  "(flags x y AND 3840 \<noteq> 0) = (y \<in> set ''MDRTC'')"
  "flags x y AND 128 = 0" "flags x y AND 32768 = 0"
  unfolding flags_def by (simp_all add: bit_simps split: if_splits)

definition entry_bits :: "st_entry \<Rightarrow> u32" where
  "entry_bits e = (case e of Untracked p \<Rightarrow> 128 | Changed x y m p \<Rightarrow> flags x y
     | Renamed x y m p q \<Rightarrow> flags x y | Unmerged x y m p \<Rightarrow> 32768)"

definition tally :: "st_entry list \<Rightarrow> counts" where
  "tally es = \<lparr>n_total = length es,
     n_staged = length (filter (\<lambda>e. entry_bits e AND 31 \<noteq> 0) es),
     n_unstaged = length (filter (\<lambda>e. entry_bits e AND 3840 \<noteq> 0) es),
     n_untracked = length (filter (\<lambda>e. entry_bits e AND 128 \<noteq> 0) es),
     n_conflicted = length (filter (\<lambda>e. entry_bits e AND 32768 \<noteq> 0) es)\<rparr>"

definition add_counts :: "counts \<Rightarrow> counts \<Rightarrow> counts" where
  "add_counts a b = \<lparr>n_total = n_total a + n_total b, n_staged = n_staged a + n_staged b,
     n_unstaged = n_unstaged a + n_unstaged b, n_untracked = n_untracked a + n_untracked b,
     n_conflicted = n_conflicted a + n_conflicted b\<rparr>"

lemma add_counts_eq:
  "add_counts c \<lparr>n_total = a, n_staged = b, n_unstaged = d, n_untracked = e, n_conflicted = f\<rparr> =
   c\<lparr>n_total := n_total c + a, n_staged := n_staged c + b, n_unstaged := n_unstaged c + d,
     n_untracked := n_untracked c + e, n_conflicted := n_conflicted c + f\<rparr>"
  by (cases c) (simp add: add_counts_def)

lemma tally_one:
  "add_counts c (tally [e]) =
   c\<lparr>n_total := n_total c + 1, n_staged := n_staged c + of_bool (entry_bits e AND 31 \<noteq> 0),
     n_unstaged := n_unstaged c + of_bool (entry_bits e AND 3840 \<noteq> 0),
     n_untracked := n_untracked c + of_bool (entry_bits e AND 128 \<noteq> 0),
     n_conflicted := n_conflicted c + of_bool (entry_bits e AND 32768 \<noteq> 0)\<rparr>"
  by (simp add: tally_def add_counts_eq)

lemma conflict_v1:
  "x \<noteq> CHR '' '' \<Longrightarrow> y \<noteq> CHR '' '' \<Longrightarrow>
   [v1 x, v1 y] \<in> set conflict_codes \<longleftrightarrow> [x, y] \<in> set conflict_codes"
  by (auto simp: v1_def conflict_codes_def)

lemma v1_letter:
  "c \<noteq> CHR ''.'' \<Longrightarrow> c \<noteq> CHR '' '' \<Longrightarrow> (c = v1 x) = (c = x)"
  "(v1 x \<in> set ''MADRTC'') = (x \<in> set ''MADRTC'')" "(v1 y \<in> set ''MDRTC'') = (y \<in> set ''MDRTC'')"
  by (auto simp: v1_def)

lemma conflict_no_rename: "[x, y] \<in> set conflict_codes \<Longrightarrow>
  x \<noteq> CHR ''R'' \<and> x \<noteq> CHR ''C'' \<and> y \<noteq> CHR ''R'' \<and> y \<noteq> CHR ''C''"
  by (auto simp: conflict_codes_def)

lemma count_ordinary:
  assumes "[x, y] \<notin> set conflict_codes" "x \<noteq> CHR ''?''" "entry_bits e = flags x y"
    "x \<noteq> CHR '' ''" "y \<noteq> CHR '' ''"
  shows "count_row [v1 x, v1 y] c = add_counts c (tally [e])"
proof -
  have "[v1 x, v1 y] \<notin> set conflict_codes" using assms conflict_v1 by simp
  moreover have "[v1 x, v1 y] \<noteq> ''??''" using assms(2) by (simp add: v1_def)
  ultimately show ?thesis
    using assms(3) v1_letter(2,3)
    by (cases c) (simp add: count_row_def Let_def tally_one flags_groups of_bool_def del: set_simps)
qed

lemma count_one:
  assumes "wf_entry e"
  shows "count_records (render_v1 e @ rest) c = count_records rest (add_counts c (tally [e]))"
proof (cases e)
  case (Untracked p)
  then show ?thesis using assms
    by (cases c) (simp add: count_row_def conflict_codes_def Let_def tally_one entry_bits_def)
next
  case (Changed x y m p)
  have w: "x \<noteq> CHR '' ''" "y \<noteq> CHR '' ''" using wf_codes [OF assms, of x y] Changed by simp_all
  have p: "p \<noteq> []" "[x, y] \<notin> set conflict_codes" "x \<in> set ''.MADT''" "y \<in> set ''.MADT''"
    using assms Changed by simp_all
  have "count_row [v1 x, v1 y] c = add_counts c (tally [e])"
    by (rule count_ordinary [OF p(2) _ _ w]) (use p(3) Changed in \<open>auto simp: entry_bits_def\<close>)
  moreover have "CHR ''R'' \<noteq> v1 x" "CHR ''C'' \<noteq> v1 x" "CHR ''R'' \<noteq> v1 y" "CHR ''C'' \<noteq> v1 y"
    using p(3,4) by (auto simp: v1_def)
  ultimately show ?thesis using p(1) Changed by (cases p) (simp_all add: Let_def)
next
  case (Renamed x y m p q)
  have w: "x \<noteq> CHR '' ''" "y \<noteq> CHR '' ''" using wf_codes [OF assms, of x y] Renamed by simp_all
  have p: "p \<noteq> []" "x \<in> set ''RC'' \<or> y \<in> set ''RC''" "x \<in> set ''.MADRCT''"
    using assms Renamed by simp_all
  have nc: "[x, y] \<notin> set conflict_codes" using p(2) conflict_no_rename by auto
  have "count_row [v1 x, v1 y] c = add_counts c (tally [e])"
    by (rule count_ordinary [OF nc _ _ w]) (use p(3) Renamed in \<open>auto simp: entry_bits_def\<close>)
  moreover have "CHR ''R'' \<in> set [v1 x, v1 y] \<or> CHR ''C'' \<in> set [v1 x, v1 y]"
    using p(2) by (auto simp: v1_letter(1))
  ultimately show ?thesis using p(1) Renamed by (cases p) (auto simp: Let_def)
next
  case (Unmerged x y m p)
  have w: "x \<noteq> CHR '' ''" "y \<noteq> CHR '' ''" using wf_codes [OF assms, of x y] Unmerged by simp_all
  have p: "p \<noteq> []" "[x, y] \<in> set conflict_codes" using assms Unmerged by simp_all
  have "count_row [v1 x, v1 y] c = add_counts c (tally [e])"
    using p(2) conflict_v1 [OF w] Unmerged
    by (cases c) (simp add: count_row_def Let_def tally_one entry_bits_def)
  moreover have "CHR ''R'' \<noteq> v1 x" "CHR ''C'' \<noteq> v1 x" "CHR ''R'' \<noteq> v1 y" "CHR ''C'' \<noteq> v1 y"
    using conflict_no_rename [OF p(2)] by (auto simp: v1_def)
  ultimately show ?thesis using p(1) Unmerged by (cases p) (simp_all add: Let_def)
qed

lemma tally_Cons: "tally (e # es) = add_counts (tally [e]) (tally es)"
  by (simp add: tally_def add_counts_def)

lemma add_counts_assoc: "add_counts (add_counts a b) c = add_counts a (add_counts b c)"
  by (simp add: add_counts_def)

lemma count_all:
  "\<forall>e\<in>set es. wf_entry e \<Longrightarrow>
   count_records (concat (map render_v1 es)) c = Inr (add_counts c (tally es))"
proof (induction es arbitrary: c)
  case Nil
  show ?case by (cases c) (simp add: tally_def add_counts_def)
next
  case (Cons e es)
  then show ?case
    by (simp add: count_one add_counts_assoc tally_Cons [of e es, symmetric] del: count_records.simps)
qed

text \<open>
  The counts of the status summary (parsed from the v1 output) are, group by group, the numbers
  of listing rows (parsed from the v2 output) whose flag word puts them in that group.
\<close>

lemma summary_counts_agree:
  assumes "\<forall>e\<in>set es. wf_entry e" and "collectR (expected_entry lb) es = Inr rows"
  shows "count_records (concat (map render_v1 es)) zero_counts = Inr
    \<lparr>n_total = length rows,
     n_staged = length (filter (\<lambda>(p, old, bits, cf). bits AND 31 \<noteq> 0) rows),
     n_unstaged = length (filter (\<lambda>(p, old, bits, cf). bits AND 3840 \<noteq> 0) rows),
     n_untracked = length (filter (\<lambda>(p, old, bits, cf). bits AND 128 \<noteq> 0) rows),
     n_conflicted = length (filter (\<lambda>(p, old, bits, cf). bits AND 32768 \<noteq> 0) rows)\<rparr>"
proof -
  have bits: "map (\<lambda>(p, old, bits, cf). bits) rows = map entry_bits es"
    using assms(2)
  proof (induction es arbitrary: rows)
    case (Cons e es)
    then show ?case by (cases e) (auto simp: result_simps entry_bits_def)
  qed simp
  have len: "length (filter (\<lambda>(p, old, bits, cf). P bits) rows) = length (filter (\<lambda>e. P (entry_bits e)) es)"
    for P :: "u32 \<Rightarrow> bool"
  proof -
    have "filter (\<lambda>(p, old, bits, cf). P bits) rows = filter (P \<circ> (\<lambda>(p, old, bits, cf). bits)) rows"
      by (rule filter_cong) auto
    then have "length (filter (\<lambda>(p, old, bits, cf). P bits) rows)
        = length (filter P (map (\<lambda>(p, old, bits, cf). bits) rows))"
      by (simp add: filter_map)
    then show ?thesis by (simp add: bits filter_map comp_def)
  qed
  have "length rows = length es" by (rule collectR_Inr_length [OF assms(2)])
  then show ?thesis
    using count_all [OF assms(1), of zero_counts]
    by (simp add: add_counts_def zero_counts_def tally_def len)
qed

definition sample_status :: "st_entry list" where
  "sample_status = [Changed (CHR ''.'') (CHR ''M'') [''N...'', ''100644'', ''100644'', ''100644'', ''aa'', ''aa''] ''a b.txt'',
     Renamed (CHR ''R'') (CHR ''.'') [''N...'', ''100644'', ''100644'', ''100644'', ''bb'', ''bb'', ''R100''] ''new'' ''old'',
     Untracked ''notes'']"

lemma sample_status_wf: "\<forall>e\<in>set sample_status. wf_entry e"
  by (simp add: sample_status_def conflict_codes_def clean_def)

lemma sample_status_rows: "collectR (expected_entry lb) sample_status =
    Inr [(''a b.txt'', Some ''a b.txt'', 256, JNull), (''new'', Some ''old'', 8, JNull),
         (''notes'', None, 128, JNull)]"
  by (simp add: sample_status_def flags_def)

theorem status_parse_rendered_witness:
  "parse_entries sample_libs (nul_records (terminate (CHR 0x00) (concat (map render_v2 sample_status)))) =
     Inr [(''a b.txt'', Some ''a b.txt'', 256, JNull), (''new'', Some ''old'', 8, JNull),
          (''notes'', None, 128, JNull)]"
  using status_parse_rendered [OF sample_status_wf, of sample_libs] sample_status_rows by simp

lemma summary_counts_agree_witness:
  "count_records (concat (map render_v1 sample_status)) zero_counts =
     Inr \<lparr>n_total = 3, n_staged = 1, n_unstaged = 1, n_untracked = 1, n_conflicted = 0\<rparr>"
  using summary_counts_agree [OF sample_status_wf sample_status_rows] by simp

text \<open>
  An intent-to-add entry (codes \<open>.A\<close>) is listed and counted in the total, but it belongs to no
  group of the status: it is neither staged, unstaged, untracked nor conflicted.
\<close>

lemma intent_to_add_ungrouped:
  "flags (CHR ''.'') (CHR ''A'') = 0 \<and>
   count_records ['' A x''] zero_counts = Inr (zero_counts\<lparr>n_total := 1\<rparr>) \<and>
   \<not> is_true (jget (row_json lb (p, q, flags (CHR ''.'') (CHR ''A''), c)) ''unstaged'')"
  by (simp_all add: flags_def count_row_def conflict_codes_def zero_counts_def Let_def row_json_def
      bit_set_def is_true_def)

section \<open>The read budget\<close>

text \<open>The entries below a node that the walk visits.\<close>

fun visited :: "node \<Rightarrow> nat" and visited_children :: "(string \<times> node) list \<Rightarrow> nat" where
  "visited (Directory m (Some cs)) = visited_children cs"
| "visited Missing = 0"
| "visited Unreadable = 0"
| "visited (Symlink m t) = 0"
| "visited (Directory m None) = 0"
| "visited (Regular m c) = 0"
| "visited (Special m) = 0"
| "visited_children [] = 0"
| "visited_children ((n, c) # cs) =
     (if n = ''.git'' then 0 else 1 + visited c) + visited_children cs"

text \<open>The bytes of file contents in the hash, at most one more than the file claims to hold.\<close>

fun content_bytes :: "node \<Rightarrow> nat \<Rightarrow> nat" where
  "content_bytes (Regular m c) b =
     (if SMALL_FILE < unat (fm_len m) \<or> b < unat (fm_len m) then 0 else unat (fm_len m))"
| "content_bytes t b = 0"

text \<open>
  The fingerprint walk stays within its budget: what is left never exceeds what was given, and
  a walk that succeeds has visited at most as many directory entries as the budget it used, so a
  tree with more entries than the budget is refused instead of being read without end.
\<close>

lemma hash_budget:
  "(\<forall>h b'. hash_node t b = Inr (h, b') \<longrightarrow> b' \<le> b \<and> visited t + content_bytes t b \<le> b - b') \<and>
   (b < visited t \<longrightarrow> (\<exists>e. hash_node t b = Inl e))"
proof -
  have main: "hash_node t b = Inr (h, b') \<Longrightarrow> b' \<le> b \<and> visited t + content_bytes t b \<le> b - b'"
    "hash_children cs b = Inr (h, b') \<Longrightarrow> b' \<le> b \<and> visited_children cs \<le> b - b'"
    for t cs b h b'
  proof (induction t b and cs b arbitrary: h b' and h b' rule: hash_node_hash_children.induct)
    case (5 m cs b)
    then show ?case by (auto simp: result_simps)
  next
    case (6 m c b)
    then show ?case by (auto split: if_splits option.splits)
  next
    case (9 n c cs b)
    show ?case
    proof (cases "n = ''.git''")
      case True
      then show ?thesis using 9 by simp
    next
      case False
      then have "b \<noteq> 0" using "9.prems" by (auto split: if_splits)
      then obtain h1 b1 hs where r: "hash_node c (b - 1) = Inr (h1, b1)"
        "hash_children cs b1 = Inr (hs, b')"
        using "9.prems" False by (auto simp: result_simps)
      have "b1 \<le> b - 1 \<and> visited c + content_bytes c (b - 1) \<le> b - 1 - b1"
        using "9.IH"(2) [OF False \<open>b \<noteq> 0\<close> r(1)] .
      moreover have "b' \<le> b1 \<and> visited_children cs \<le> b1 - b'"
        using "9.IH"(3) [OF False \<open>b \<noteq> 0\<close> r(1) refl r(2)] .
      ultimately show ?thesis using False \<open>b \<noteq> 0\<close> by (simp; linarith)
    qed
  qed (auto split: option.splits)
  have "\<exists>e. hash_node t b = Inl e" if "b < visited t"
  proof (cases "hash_node t b")
    case (Inr r)
    then obtain h b' where "hash_node t b = Inr (h, b')" by (cases r) simp
    then show ?thesis using main(1) that by fastforce
  qed simp
  then show ?thesis using main(1) by blast
qed

lemma hash_budget_sample:
  "\<exists>e. hash_node (Directory \<lparr>fm_mode = 0, fm_len = 0, fm_dev = 0, fm_ino = 0, fm_mtime = 0,
       fm_mtime_nsec = 0, fm_ctime = 0, fm_ctime_nsec = 0\<rparr> (Some [(''a'', Missing), (''b'', Missing)])) 1 = Inl e"
  using hash_budget by simp

end
