(* ===== verification/Diff.thy ===== *)
theory Diff
  imports Status
begin

text \<open>
  Diffs of the working tree and partial edits, \<open>git/cli/diff.rs\<close>: the parsers of the raw deltas and
  of the patch text, the read of a changed entry (\<open>working\<close>), and \<open>selection\<close>, which rebuilds a
  patch from the server's own lines for the hunks and lines a client selected. The JSON objects of
  a file, a hunk and a line are records; their identifiers are hashes of the JSON text, given by
  the two hash fields of \<open>diff_lib\<close>.
\<close>

section \<open>Files, hunks, lines\<close>

record dline =
  ln_id :: "string option"
  ln_origin :: char
  ln_old :: "nat option"
  ln_new :: "nat option"
  ln_content :: bytes

record dhunk =
  hk_id :: string
  hk_old_start :: nat
  hk_old_lines :: nat
  hk_new_start :: nat
  hk_new_lines :: nat
  hk_lines :: "dline list"

record dfile =
  df_old_path :: bytes
  df_new_path :: bytes
  df_old_oid :: json
  df_new_oid :: json
  df_old_mode :: nat
  df_new_mode :: nat
  df_status :: string
  df_hunks :: "dhunk list"
  df_binary :: bool
  df_adds :: nat
  df_dels :: nat

record diff_lib =
  hash_hunk :: "dfile \<Rightarrow> dhunk \<Rightarrow> gerror + string"
  hash_line :: "string \<Rightarrow> nat \<Rightarrow> dline \<Rightarrow> gerror + string"

section \<open>Raw deltas\<close>

definition diff_mode :: "bytes \<Rightarrow> gerror + nat" where
  "diff_mode b = ok_or git_failure (parse_octal b)"

definition optional_oid :: "bytes \<Rightarrow> gerror + json" where
  "optional_oid b = (if list_all (\<lambda>c. c = CHR ''0'') b then Inr JNull else oid b)"

definition status_name :: "char \<Rightarrow> string" where
  "status_name c = (if c = CHR ''A'' then ''Added'' else if c = CHR ''D'' then ''Deleted''
     else if c = CHR ''R'' then ''Renamed'' else if c = CHR ''C'' then ''Copied''
     else if c = CHR ''T'' then ''Typechange'' else if c = CHR ''U'' then ''Conflicted''
     else ''Modified'')"

definition new_file :: "bytes \<Rightarrow> bytes \<Rightarrow> json \<Rightarrow> json \<Rightarrow> nat \<Rightarrow> nat \<Rightarrow> string \<Rightarrow> dfile" where
  "new_file old new ooid noid om nm st =
     \<lparr>df_old_path = old, df_new_path = new, df_old_oid = ooid, df_new_oid = noid,
      df_old_mode = om, df_new_mode = nm, df_status = st, df_hunks = [], df_binary = False,
      df_adds = 0, df_dels = 0\<rparr>"

definition delta_row :: "bytes list \<Rightarrow> bytes \<Rightarrow> bytes \<Rightarrow> char \<Rightarrow> gerror + dfile" where
  "delta_row f old new c =
     bindR (optional_oid (f ! 2)) (\<lambda>ooid.
     bindR (optional_oid (f ! 3)) (\<lambda>noid.
     bindR (diff_mode (f ! 0)) (\<lambda>om.
     bindR (diff_mode (f ! 1)) (\<lambda>nm.
       Inr (new_file old new ooid noid om nm (status_name c))))))"

fun deltas :: "bytes list \<Rightarrow> gerror + dfile list" where
  "deltas [] = Inr []"
| "deltas (header # rest) =
     (case strip_prefix '':'' header of
        None \<Rightarrow> Inl git_failure
      | Some h \<Rightarrow>
         (let f = split_on (CHR '' '') h in
          if length f \<noteq> 5 then Inl git_failure
          else (case rest of
                  [] \<Rightarrow> Inl git_failure
                | old # rest1 \<Rightarrow>
                    if f ! 4 = [] then Inl git_failure
                    else if hd (f ! 4) = CHR ''R'' \<or> hd (f ! 4) = CHR ''C''
                    then (case rest1 of
                            [] \<Rightarrow> Inl git_failure
                          | new # rest2 \<Rightarrow>
                              bindR (delta_row f old new (hd (f ! 4))) (\<lambda>r.
                                mapR (\<lambda>rs. r # rs) (deltas rest2)))
                    else bindR (delta_row f old old (hd (f ! 4))) (\<lambda>r.
                           mapR (\<lambda>rs. r # rs) (deltas rest1)))))"

section \<open>Patch text\<close>

definition range :: "bytes \<Rightarrow> gerror + nat \<times> nat" where
  "range v =
     (let start = (if CHR '','' \<in> set v then takeWhile (\<lambda>c. c \<noteq> CHR '','') v else v);
          count = (if CHR '','' \<in> set v then tl (dropWhile (\<lambda>c. c \<noteq> CHR '','') v) else ''1'') in
      bindR (ok_or git_failure (parse_usize start)) (\<lambda>s.
      bindR (ok_or git_failure (parse_usize count)) (\<lambda>n. Inr (s, n))))"

record pstate =
  ps_hunks :: "dhunk list"
  ps_old :: nat
  ps_new :: nat
  ps_adds :: nat
  ps_dels :: nat
  ps_binary :: bool

definition map_last :: "('a \<Rightarrow> 'a) \<Rightarrow> 'a list \<Rightarrow> 'a list" where
  "map_last f xs = (if xs = [] then [] else butlast xs @ [f (last xs)])"

definition chop_newline :: "dline \<Rightarrow> dline" where
  "chop_newline l = l\<lparr>ln_content := trim_line (ln_content l)\<rparr>"

definition push_line :: "dline \<Rightarrow> dhunk \<Rightarrow> dhunk" where
  "push_line l h = h\<lparr>hk_lines := hk_lines h @ [l]\<rparr>"

definition is_binary_line :: "bytes \<Rightarrow> bool" where
  "is_binary_line line \<longleftrightarrow> starts_with ''Binary files '' line \<or> starts_with ''GIT binary patch'' line"

definition hunk_header :: "bytes \<Rightarrow> gerror + dhunk" where
  "hunk_header line =
     (let f = split_on (CHR '' '') line in
      if length f < 4 then Inl git_failure
      else
        bindR (ok_or git_failure (strip_prefix ''-'' (f ! 1))) (\<lambda>a.
        bindR (range a) (\<lambda>(os, oc).
        bindR (ok_or git_failure (strip_prefix ''+'' (f ! 2))) (\<lambda>b.
        bindR (range b) (\<lambda>(ns, nc).
          Inr \<lparr>hk_id = [], hk_old_start = os, hk_old_lines = oc, hk_new_start = ns,
               hk_new_lines = nc, hk_lines = []\<rparr>)))))"

definition body_line :: "char \<Rightarrow> bytes \<Rightarrow> pstate \<Rightarrow> pstate" where
  "body_line c content s =
     (let old = (c \<noteq> CHR ''+''); new = (c \<noteq> CHR ''-'');
          l = \<lparr>ln_id = None, ln_origin = c, ln_old = (if old then Some (ps_old s) else None),
               ln_new = (if new then Some (ps_new s) else None), ln_content = content\<rparr> in
      s\<lparr>ps_hunks := map_last (push_line l) (ps_hunks s),
        ps_old := ps_old s + (if old then 1 else 0),
        ps_new := ps_new s + (if new then 1 else 0),
        ps_adds := ps_adds s + (if c = CHR ''+'' then 1 else 0),
        ps_dels := ps_dels s + (if c = CHR ''-'' then 1 else 0)\<rparr>)"

definition patch_line :: "bytes \<Rightarrow> pstate \<Rightarrow> gerror + pstate" where
  "patch_line line s0 =
     (let s = (if is_binary_line line then s0\<lparr>ps_binary := True\<rparr> else s0) in
      if starts_with ''@@ '' line
      then bindR (hunk_header line) (\<lambda>h.
             Inr (s\<lparr>ps_hunks := ps_hunks s @ [h], ps_old := hk_old_start h, ps_new := hk_new_start h\<rparr>))
      else if ps_hunks s = [] \<or> line = [] then Inr s
      else if hd line = CHR 0x5C
      then Inr (s\<lparr>ps_hunks := map_last (\<lambda>h. h\<lparr>hk_lines := map_last chop_newline (hk_lines h)\<rparr>)
                                (ps_hunks s)\<rparr>)
      else if hd line \<in> set '' +-'' then Inr (body_line (hd line) (tl line) s)
      else Inr s)"

fun patch_lines :: "bytes list \<Rightarrow> pstate \<Rightarrow> gerror + pstate" where
  "patch_lines [] s = Inr s"
| "patch_lines (l # ls) s = bindR (patch_line l s) (patch_lines ls)"

definition changed_line :: "dline \<Rightarrow> bool" where
  "changed_line l \<longleftrightarrow> ln_origin l = CHR ''+'' \<or> ln_origin l = CHR ''-''"

fun name_lines :: "diff_lib \<Rightarrow> string \<Rightarrow> nat \<Rightarrow> dline list \<Rightarrow> gerror + dline list" where
  "name_lines dl hid n [] = Inr []"
| "name_lines dl hid n (l # ls) =
     bindR (if changed_line l then mapR (\<lambda>x. l\<lparr>ln_id := Some x\<rparr>) (hash_line dl hid n l) else Inr l)
       (\<lambda>l'. mapR (\<lambda>r. l' # r) (name_lines dl hid (Suc n) ls))"

definition name_hunk :: "diff_lib \<Rightarrow> dfile \<Rightarrow> dhunk \<Rightarrow> gerror + dhunk" where
  "name_hunk dl f h =
     bindR (hash_hunk dl f h) (\<lambda>hid.
     bindR (name_lines dl hid 0 (hk_lines h)) (\<lambda>ls.
       Inr (h\<lparr>hk_id := hid, hk_lines := ls\<rparr>)))"

definition patch :: "diff_lib \<Rightarrow> dfile \<Rightarrow> bytes \<Rightarrow> gerror + dfile" where
  "patch dl f b =
     bindR (patch_lines (split_incl (CHR 0x0A) b)
              \<lparr>ps_hunks = [], ps_old = 0, ps_new = 0, ps_adds = 0, ps_dels = 0, ps_binary = False\<rparr>)
       (\<lambda>s. bindR (collectR (name_hunk dl f) (ps_hunks s)) (\<lambda>hs.
          Inr (f\<lparr>df_hunks := hs, df_binary := ps_binary s, df_adds := ps_adds s,
                 df_dels := ps_dels s\<rparr>)))"

section \<open>Reading a diff\<close>

definition diff_execute :: "'w os \<Rightarrow> repo \<Rightarrow> string list \<Rightarrow> ('w gst, bytes) step" where
  "diff_execute os repo args = some_or git_failure (run_os os (rp_root repo) args [])"

text \<open>The sections of a patch: text from one \<open>diff --git\<close> line up to the next.\<close>

fun sections :: "bytes list \<Rightarrow> bytes list" where
  "sections [] = []"
| "sections (l # ls) =
     (if starts_with ''diff --git '' l
      then concat (l # takeWhile (\<lambda>x. \<not> starts_with ''diff --git '' x) ls) # sections ls
      else sections ls)"

definition diff_common :: "string list" where
  "diff_common = [''--no-ext-diff'', ''--no-textconv'', ''--no-color'', ''--no-abbrev'',
     ''--full-index'', ''--find-renames'']"

fun patch_all :: "diff_lib \<Rightarrow> dfile list \<Rightarrow> bytes list \<Rightarrow> gerror + dfile list" where
  "patch_all dl (f # fs) (s # ss) =
     bindR (patch dl f s) (\<lambda>f'. mapR (\<lambda>r. f' # r) (patch_all dl fs ss))"
| "patch_all dl fs ss = Inr fs"

definition diff_read ::
  "diff_lib \<Rightarrow> 'w os \<Rightarrow> repo \<Rightarrow> string list \<Rightarrow> bytes list \<Rightarrow> nat \<Rightarrow> ('w gst, dfile list) step" where
  "diff_read dl os repo base paths ctx =
     bindS (guardS (ctx \<le> 100) (gerror_invalid ''contextLines exceeds 100.'')) (\<lambda>_.
     bindS (diff_execute os repo (base @ diff_common @ [''--raw'', ''-z'', ''--''] @ paths)) (\<lambda>raw.
     bindS (liftS (deltas (nul_records raw))) (\<lambda>files.
       if files = [] then retS []
       else
         bindS (diff_execute os repo (base @ diff_common @
                  [''--patch'', ''--src-prefix=a/'', ''--dst-prefix=b/'', ''--unified='' @ show_nat ctx,
                   ''--''] @ paths)) (\<lambda>b.
         let ss = sections (split_incl (CHR 0x0A) b) in
         if length ss \<noteq> length files then failS git_failure
         else liftS (patch_all dl files ss)))))"

datatype side = HeadToIndex | IndexToWorktree | HeadToWorktree

record comparison =
  cm_files :: "dfile list"
  cm_source :: string
  cm_entry :: string
  cm_side :: side
  cm_context :: nat

definition stale_snapshot :: "string \<Rightarrow> gerror" where
  "stale_snapshot m = gerror_new ''STALE_SNAPSHOT'' m"

definition find_row :: "json list \<Rightarrow> string \<Rightarrow> json option" where
  "find_row rows entry = find (\<lambda>r. jget r ''entryId'' = JStr entry) rows"

text \<open>The files of an untracked entry, each compared with \<open>/dev/null\<close>.\<close>

fun untracked_files ::
  "diff_lib \<Rightarrow> 'w os \<Rightarrow> repo \<Rightarrow> nat \<Rightarrow> bytes list \<Rightarrow> dfile list \<Rightarrow> ('w gst, dfile list) step" where
  "untracked_files dl os repo ctx [] files = retS files"
| "untracked_files dl os repo ctx (p # ps) files =
     (if 10000 \<le> length files
      then failS (gerror_new ''LIMIT_EXCEEDED'' ''Too many files in this diff.'')
      else
        bindS (diff_execute os repo ([''diff'', ''--no-index'', ''--no-ext-diff'', ''--no-textconv'',
                 ''--no-color'', ''--src-prefix=a/'', ''--dst-prefix=b/'',
                 ''--unified='' @ show_nat ctx, ''--'', ''/dev/null'', p])) (\<lambda>b.
        bindS (liftS (patch dl (new_file p p JNull JNull 0 33188 ''Untracked'') b)) (\<lambda>f.
          untracked_files dl os repo ctx ps (files @ [f]))))"

definition side_args :: "side \<Rightarrow> bool \<Rightarrow> string list" where
  "side_args sd unborn = (case sd of HeadToIndex \<Rightarrow> [''--cached'']
     | HeadToWorktree \<Rightarrow> if unborn then [] else [''HEAD''] | IndexToWorktree \<Rightarrow> [])"

definition working ::
  "libs \<Rightarrow> diff_lib \<Rightarrow> 'w os \<Rightarrow> repo \<Rightarrow> string \<Rightarrow> string \<Rightarrow> side \<Rightarrow> nat \<Rightarrow> ('w gst, comparison) step"
where
  "working lb dl os repo source entry sd ctx =
     bindS (liftS (snapshot_decode (lb_tk lb) source)) (\<lambda>sn.
     bindS (status_capture lb os repo) (\<lambda>cp.
     bindS (guardS (sn_r sn = rp_id repo \<and> sn_q sn = ''cli.status'' \<and> sn_f sn = cp_fingerprint cp \<and>
              sn_p sn = None) (stale_snapshot ''The file changed. Refresh status.'')) (\<lambda>_.
     bindS (liftS (ok_or (gerror_new ''STALE_ENTRY'' ''The changed file is no longer available.'')
              (find_row (cp_rows cp) entry))) (\<lambda>selected.
     bindS (liftS (bindR (entry_decode (lb_tk lb) entry) (entry_paths (lb_tk lb)))) (\<lambda>paths.
     bindS (diff_read dl os repo ([''--literal-pathspecs'', ''diff''] @
              side_args sd (is_true (jget (jget (cp_metadata cp) ''head'') ''unborn''))) paths ctx) (\<lambda>files.
     bindS (if is_true (jget selected ''untracked'') \<and> sd \<noteq> HeadToIndex
            then bindS (diff_execute os repo ([''--literal-pathspecs'', ''ls-files'', ''--others'',
                          ''--exclude-standard'', ''-z'', ''--''] @ paths)) (\<lambda>b.
                   untracked_files dl os repo ctx (nul_records b) files)
            else retS files) (\<lambda>files.
     bindS (status_capture lb os repo) (\<lambda>cp2.
     bindS (guardS (cp_fingerprint cp2 = sn_f sn)
              (stale_snapshot ''The file changed while reading its diff.'')) (\<lambda>_.
       retS \<lparr>cm_files = files, cm_source = source, cm_entry = entry, cm_side = sd,
             cm_context = ctx\<rparr>)))))))))"

section \<open>Selecting hunks and lines\<close>

record hunk_selection =
  hs_ids :: "string list"
  hs_lines :: "string list option"
  hs_context :: nat

definition wanted :: "string list option \<Rightarrow> dline \<Rightarrow> bool" where
  "wanted req l = (case req of None \<Rightarrow> True
     | Some ids \<Rightarrow> (case ln_id l of None \<Rightarrow> False | Some x \<Rightarrow> x \<in> set ids))"

definition flip_origin :: "bool \<Rightarrow> char \<Rightarrow> char" where
  "flip_origin rv c = (if rv then (if c = CHR ''+'' then CHR ''-''
     else if c = CHR ''-'' then CHR ''+'' else c) else c)"

text \<open>What a line of the diff becomes in the rebuilt patch: an unselected addition is dropped, an
  unselected deletion becomes context.\<close>

definition emit_line :: "bool \<Rightarrow> string list option \<Rightarrow> dline \<Rightarrow> (char \<times> bytes) option" where
  "emit_line rv req l =
     (let c = flip_origin rv (ln_origin l) in
      if \<not> wanted req l \<and> c = CHR ''+'' then None
      else Some (if \<not> wanted req l \<and> c = CHR ''-'' then CHR '' '' else c, ln_content l))"

definition emit_lines :: "bool \<Rightarrow> string list option \<Rightarrow> dline list \<Rightarrow> (char \<times> bytes) list" where
  "emit_lines rv req ls = List.map_filter (emit_line rv req) ls"

definition seen_lines :: "string list option \<Rightarrow> dline list \<Rightarrow> string list" where
  "seen_lines req ls = List.map_filter
     (\<lambda>l. if wanted req l \<and> ln_origin l \<noteq> CHR '' '' then ln_id l else None) ls"

definition line_bytes :: "char \<times> bytes \<Rightarrow> bytes" where
  "line_bytes x = fst x # snd x @
     (if ends_with [CHR 0x0A] (snd x) then []
      else CHR 0x0A # CHR 0x5C # '' No newline at end of file'' @ [CHR 0x0A])"

definition old_count :: "(char \<times> bytes) list \<Rightarrow> nat" where
  "old_count xs = length (filter (\<lambda>x. fst x \<noteq> CHR ''+'') xs)"

definition new_count :: "(char \<times> bytes) list \<Rightarrow> nat" where
  "new_count xs = length (filter (\<lambda>x. fst x \<noteq> CHR ''-'') xs)"

definition hunk_bytes :: "bool \<Rightarrow> string list option \<Rightarrow> dhunk \<Rightarrow> bytes" where
  "hunk_bytes rv req h =
     (let xs = emit_lines rv req (hk_lines h);
          start = (if rv then hk_new_start h else hk_old_start h) in
      ''@@ -'' @ show_nat start @ '','' @ show_nat (old_count xs) @ '' +'' @
      show_nat (if 0 < new_count xs then max start 1 else start) @ '','' @ show_nat (new_count xs) @
      '' @@'' @ [CHR 0x0A] @ concat (map line_bytes xs))"

definition octal3 :: "char \<Rightarrow> string" where
  "octal3 c = (let n = byte c in [dec_digit (n div 64), dec_digit (n div 8 mod 8), dec_digit (n mod 8)])"

definition quote :: "bytes \<Rightarrow> string \<Rightarrow> string" where
  "quote path prefix = [CHR 0x22] @ prefix @ concat (map (\<lambda>c. CHR 0x5C # octal3 c) path) @ [CHR 0x22]"

definition valid_wire :: "bytes \<Rightarrow> bool" where
  "valid_wire b \<longleftrightarrow> b \<noteq> [] \<and> length b \<le> 4096 \<and> CHR 0x00 \<notin> set b"

text \<open>The patch of one file, with the identifiers of the hunks and lines it used.\<close>

definition select_file ::
  "bool \<Rightarrow> hunk_selection \<Rightarrow> dfile \<Rightarrow> gerror + (bytes \<times> string list \<times> string list)" where
  "select_file rv sel f =
     (let req = hs_lines sel in
      if \<not> valid_wire (df_new_path f) then Inl (gerror_invalid ''Invalid path.'')
      else if df_binary f \<or> df_old_path f \<noteq> df_new_path f
      then Inl (gerror_new ''UNSUPPORTED_CAPABILITY''
             ''Partial edits require a text file without a rename.'')
      else
       (let hs = filter (\<lambda>h. hk_id h \<in> set (hs_ids sel)) (df_hunks f);
            body = concat (map (hunk_bytes rv req) hs);
            after = sum_list (map (\<lambda>h. new_count (emit_lines rv req (hk_lines h))) hs);
            om = (if rv then df_new_mode f else df_old_mode f);
            nm0 = (if rv then df_old_mode f else df_new_mode f);
            nm = (if nm0 = 0 \<and> req \<noteq> None \<and> 0 < after then om else nm0);
            seen = (map hk_id hs, concat (map (\<lambda>h. seen_lines req (hk_lines h)) hs)) in
        if hs = [] then Inr ([], seen)
        else Inr (''diff --git '' @ quote (df_new_path f) ''a/'' @ '' '' @ quote (df_new_path f) ''b/'' @
            [CHR 0x0A] @
            (if om = 0 then ''new file mode '' @ show_base 8 nm @ [CHR 0x0A]
             else if nm = 0 then ''deleted file mode '' @ show_base 8 om @ [CHR 0x0A] else []) @
            ''--- '' @ (if om = 0 then ''/dev/null'' else quote (df_new_path f) ''a/'') @ [CHR 0x0A] @
            ''+++ '' @ (if nm = 0 then ''/dev/null'' else quote (df_new_path f) ''b/'') @ [CHR 0x0A] @
            body, seen)))"

definition stale_hunk :: gerror where
  "stale_hunk = gerror_new ''STALE_HUNK'' ''The selected diff lines changed. Reload the diff.''"

definition assemble ::
  "bool \<Rightarrow> hunk_selection \<Rightarrow> dfile list \<Rightarrow> gerror + bytes" where
  "assemble rv sel files =
     bindR (collectR (select_file rv sel) files) (\<lambda>xs.
       let hunks = concat (map (fst \<circ> snd) xs); lines = concat (map (snd \<circ> snd) xs) in
       if card (set hunks) \<noteq> card (set (hs_ids sel)) \<or>
          (case hs_lines sel of None \<Rightarrow> False | Some ids \<Rightarrow> \<exists>x\<in>set ids. x \<notin> set lines)
       then Inl stale_hunk
       else Inr (concat (map fst xs)))"

definition selection ::
  "libs \<Rightarrow> diff_lib \<Rightarrow> 'w os \<Rightarrow> repo \<Rightarrow> string \<Rightarrow> string \<Rightarrow> side \<Rightarrow> hunk_selection \<Rightarrow> bool \<Rightarrow>
   ('w gst, bytes) step" where
  "selection lb dl os repo source entry sd sel rv =
     bindS (guardS (hs_ids sel \<noteq> [] \<and> length (hs_ids sel) \<le> 1024)
              (gerror_invalid ''Select at least one hunk.'')) (\<lambda>_.
     bindS (working lb dl os repo source entry sd (hs_context sel)) (\<lambda>cm.
     bindS (guardS (distinct (hs_ids sel)) (gerror_invalid ''Duplicate hunk selection.'')) (\<lambda>_.
     bindS (guardS (case hs_lines sel of None \<Rightarrow> True | Some v \<Rightarrow> v \<noteq> [] \<and> distinct v)
              (gerror_invalid ''Invalid line selection.'')) (\<lambda>_.
       liftS (assemble rv sel (cm_files cm))))))"

section \<open>The two sides of a patch\<close>

text \<open>Applying a hunk replaces its old side, a run of lines of the target, by its new side.\<close>

definition old_side :: "(char \<times> bytes) list \<Rightarrow> bytes list" where
  "old_side xs = map snd (filter (\<lambda>x. fst x \<noteq> CHR ''+'') xs)"

definition new_side :: "(char \<times> bytes) list \<Rightarrow> bytes list" where
  "new_side xs = map snd (filter (\<lambda>x. fst x \<noteq> CHR ''-'') xs)"

definition before :: "dline list \<Rightarrow> bytes list" where
  "before ls = map ln_content (filter (\<lambda>l. ln_origin l \<noteq> CHR ''+'') ls)"

definition after :: "dline list \<Rightarrow> bytes list" where
  "after ls = map ln_content (filter (\<lambda>l. ln_origin l \<noteq> CHR ''-'') ls)"

text \<open>The lines when only the selected changes are made to \<open>before\<close>, and when only the selected
  changes are undone in \<open>after\<close>.\<close>

definition partly_done :: "string list option \<Rightarrow> dline list \<Rightarrow> bytes list" where
  "partly_done req ls = map ln_content (filter (\<lambda>l.
     if ln_origin l = CHR ''+'' then wanted req l
     else if ln_origin l = CHR ''-'' then \<not> wanted req l else True) ls)"

definition partly_undone :: "string list option \<Rightarrow> dline list \<Rightarrow> bytes list" where
  "partly_undone req ls = map ln_content (filter (\<lambda>l.
     if ln_origin l = CHR ''+'' then \<not> wanted req l
     else if ln_origin l = CHR ''-'' then wanted req l else True) ls)"

lemma emit_Cons:
  "emit_lines rv req (l # ls) = (case emit_line rv req l of None \<Rightarrow> [] | Some x \<Rightarrow> [x]) @
     emit_lines rv req ls"
  by (simp add: emit_lines_def map_filter_simps split: option.splits)

lemma emit_forward:
  "old_side (emit_lines False req ls) = before ls"
  "new_side (emit_lines False req ls) = partly_done req ls"
  by (induction ls)
    (auto simp: emit_lines_def map_filter_simps old_side_def new_side_def before_def partly_done_def
      emit_line_def flip_origin_def Let_def)

lemma emit_reverse:
  "old_side (emit_lines True req ls) = after ls"
  "new_side (emit_lines True req ls) = partly_undone req ls"
  by (induction ls)
    (auto simp: emit_lines_def map_filter_simps old_side_def new_side_def after_def partly_undone_def
      emit_line_def flip_origin_def Let_def)

lemma counts_are_sides:
  "old_count xs = length (old_side xs)" "new_count xs = length (new_side xs)"
  by (simp_all add: old_count_def old_side_def new_count_def new_side_def)

lemma partly_done_all: "partly_done None ls = after ls"
  unfolding partly_done_def after_def wanted_def
  by (rule arg_cong [where f = "map ln_content"], rule filter_cong) auto

lemma partly_undone_all: "partly_undone None ls = before ls"
  unfolding partly_undone_def before_def wanted_def
  by (rule arg_cong [where f = "map ln_content"], rule filter_cong) auto

lemma partly_none: "\<forall>l\<in>set ls. \<not> wanted req l \<Longrightarrow> partly_done req ls = before ls \<and> partly_undone req ls = after ls"
  unfolding partly_done_def partly_undone_def before_def after_def
  by (auto intro!: arg_cong [where f = "map ln_content"] filter_cong)

text \<open>
  C5: The patch rebuilt for a selection changes exactly what was selected. Forward, its old side is
  the file before the hunk, so it applies where the hunk does, and its new side is that text with
  only the selected lines added and removed; in reverse it starts from the file after the hunk and
  undoes only the selected lines. With no line selection it is the whole hunk or its inverse. The
  counts of the hunk header are the lengths of the two sides.
\<close>

theorem selection_changes_selected:
  "old_side (emit_lines rv req ls) = (if rv then after ls else before ls) \<and>
   new_side (emit_lines rv req ls) = (if rv then partly_undone req ls else partly_done req ls) \<and>
   new_side (emit_lines rv None ls) = (if rv then before ls else after ls) \<and>
   old_count (emit_lines rv req ls) = length (if rv then after ls else before ls)"
  by (cases rv)
    (simp_all add: emit_forward emit_reverse partly_done_all partly_undone_all counts_are_sides)

lemma seen_sub: "x \<in> set (seen_lines req ls) \<Longrightarrow>
    \<exists>l\<in>set ls. ln_id l = Some x \<and> wanted req l \<and> ln_origin l \<noteq> CHR '' ''"
  by (induction ls) (auto simp: seen_lines_def map_filter_simps split: if_splits option.splits)

lemma select_file_seen:
  assumes "select_file rv sel f = Inr (b, hs, ls)"
  shows "set hs \<subseteq> set (hs_ids sel) \<inter> hk_id ` set (df_hunks f)"
    "\<And>x. x \<in> set ls \<Longrightarrow> \<exists>h\<in>set (df_hunks f). hk_id h \<in> set (hs_ids sel) \<and>
       (\<exists>l\<in>set (hk_lines h). ln_id l = Some x)"
  using assms seen_sub by (fastforce simp: select_file_def Let_def split: if_splits)+

lemma collectR_mem:
  assumes "collectR f xs = Inr ys" "y \<in> set ys"
  shows "\<exists>x\<in>set xs. f x = Inr y"
  using assms by (induction xs arbitrary: ys) (auto simp: result_simps)

text \<open>
  C15: A partial edit is rebuilt only from lines the server still has: when \<open>selection\<close> produces a
  patch, every requested hunk and every requested line exists in the current diff; otherwise the
  request fails as stale and no patch is produced.
\<close>

theorem selection_not_stale:
  assumes "assemble rv sel files = Inr out"
  shows "set (hs_ids sel) \<subseteq> hk_id ` (\<Union>f\<in>set files. set (df_hunks f)) \<and>
    (\<forall>ids x. hs_lines sel = Some ids \<and> x \<in> set ids \<longrightarrow>
       (\<exists>f\<in>set files. \<exists>h\<in>set (df_hunks f). hk_id h \<in> set (hs_ids sel) \<and>
          (\<exists>l\<in>set (hk_lines h). ln_id l = Some x)))"
proof -
  obtain xs where xs: "collectR (select_file rv sel) files = Inr xs"
    and card: "card (set (concat (map (fst \<circ> snd) xs))) = card (set (hs_ids sel))"
    and lines: "\<And>ids x. hs_lines sel = Some ids \<Longrightarrow> x \<in> set ids \<Longrightarrow>
        x \<in> set (concat (map (snd \<circ> snd) xs))"
    using assms by (auto simp: assemble_def result_simps Let_def split: if_splits option.splits)
  have from_file: "\<exists>f\<in>set files. select_file rv sel f = Inr (fst y, fst (snd y), snd (snd y))"
    if "y \<in> set xs" for y
    using collectR_mem [OF xs that] by simp
  have sub: "set (concat (map (fst \<circ> snd) xs)) \<subseteq>
      set (hs_ids sel) \<inter> hk_id ` (\<Union>f\<in>set files. set (df_hunks f))"
    using from_file select_file_seen(1) by fastforce
  then have "set (concat (map (fst \<circ> snd) xs)) = set (hs_ids sel)"
    by (intro card_subset_eq) (use card in auto)
  then have ids: "set (hs_ids sel) \<subseteq> hk_id ` (\<Union>f\<in>set files. set (df_hunks f))" using sub by blast
  moreover have "\<exists>f\<in>set files. \<exists>h\<in>set (df_hunks f). hk_id h \<in> set (hs_ids sel) \<and>
      (\<exists>l\<in>set (hk_lines h). ln_id l = Some x)" if "hs_lines sel = Some q" "x \<in> set q" for q x
  proof -
    note l = lines [OF that]
    obtain y where y: "y \<in> set xs" "x \<in> set (snd (snd y))" using l by auto
    obtain f where f: "f \<in> set files" "select_file rv sel f = Inr (fst y, fst (snd y), snd (snd y))"
      using from_file [OF y(1)] by blast
    show ?thesis using select_file_seen(2) [OF f(2) y(2)] f(1) by blast
  qed
  ultimately show ?thesis by blast
qed

definition sample_lines :: "dline list" where
  "sample_lines =
    [\<lparr>ln_id = None, ln_origin = CHR '' '', ln_old = Some 1, ln_new = Some 1, ln_content = ''a'' @ [CHR 0x0A]\<rparr>,
     \<lparr>ln_id = Some ''x'', ln_origin = CHR ''-'', ln_old = Some 2, ln_new = None, ln_content = ''b'' @ [CHR 0x0A]\<rparr>,
     \<lparr>ln_id = Some ''y'', ln_origin = CHR ''+'', ln_old = None, ln_new = Some 2, ln_content = ''c'' @ [CHR 0x0A]\<rparr>]"

definition sample_hunk :: dhunk where
  "sample_hunk = \<lparr>hk_id = ''h'', hk_old_start = 1, hk_old_lines = 2, hk_new_start = 1,
     hk_new_lines = 2, hk_lines = sample_lines\<rparr>"

definition sample_file :: dfile where
  "sample_file = (new_file ''f'' ''f'' JNull JNull 33188 33188 ''Modified'')\<lparr>df_hunks := [sample_hunk]\<rparr>"

definition sample_selection :: hunk_selection where
  "sample_selection = \<lparr>hs_ids = [''h''], hs_lines = Some [''y''], hs_context = 3\<rparr>"

lemma sample_assemble: "\<exists>out. assemble False sample_selection [sample_file] = Inr out"
  by (simp add: assemble_def sample_file_def new_file_def select_file_def sample_selection_def
      sample_hunk_def sample_lines_def valid_wire_def seen_lines_def map_filter_simps wanted_def Let_def)

theorem selection_not_stale_witness:
  "set (hs_ids sample_selection) \<subseteq> hk_id ` (\<Union>f\<in>set [sample_file]. set (df_hunks f))"
  using sample_assemble selection_not_stale by blast

section \<open>Lemmas for the callers\<close>

lemma diff_execute_quiet: "preserves same_mutations (diff_execute os repo args)"
  unfolding diff_execute_def by (intro repo_quiets)

lemma diff_read_quiet: "preserves same_mutations (diff_read dl os repo base paths ctx)"
  unfolding diff_read_def Let_def by (intro quiet.pres_rules diff_execute_quiet)

lemma untracked_files_quiet: "preserves same_mutations (untracked_files dl os repo ctx ps files)"
  by (induction ps arbitrary: files)
    (auto intro!: quiet.pres_rules diff_execute_quiet)

lemma working_quiet: "preserves same_mutations (working lb dl os repo source entry sd ctx)"
  unfolding working_def
  by (intro quiet.pres_rules status_capture_quiet diff_read_quiet diff_execute_quiet
      untracked_files_quiet)

lemma selection_quiet: "preserves same_mutations (selection lb dl os repo source entry sd sel rv)"
  unfolding selection_def by (intro quiet.pres_rules working_quiet)

end
