(* ===== verification/Refs.thy ===== *)
theory Refs
  imports Pages
begin

text \<open>
  Branches, remotes and their configuration, \<open>git/cli/refs.rs\<close>, and the URL rules of
  \<open>git/remotes.rs\<close>: the parser of \<open>git config --null --list\<close>, upstream tracking, the tokens that
  make a remote or an upstream configuration stale, and the listings.
\<close>

section \<open>Remote URLs\<close>

text \<open>\<open>char::is_control\<close> on UTF-8: a C0 control or DEL, or a C1 control in its two bytes.\<close>

fun has_control :: "bytes \<Rightarrow> bool" where
  "has_control [] = False"
| "has_control (c # s) =
     (byte c < 32 \<or> byte c = 127 \<or>
      (byte c = 194 \<and> s \<noteq> [] \<and> 128 \<le> byte (hd s) \<and> byte (hd s) \<le> 159) \<or> has_control s)"

definition scp_like :: "bytes \<Rightarrow> bool" where
  "scp_like v \<longleftrightarrow> \<not> contains_sub ''://'' v \<and> CHR '':'' \<in> set v \<and>
     (let host = takeWhile (\<lambda>c. c \<noteq> CHR '':'') v;
          path = tl (dropWhile (\<lambda>c. c \<noteq> CHR '':'') v) in
      host \<noteq> [] \<and> CHR ''/'' \<notin> set host \<and> \<not> starts_with ''-'' host \<and> path \<noteq> [])"

definition allowed_schemes :: "string list" where
  "allowed_schemes = [''ssh'', ''https'', ''git'', ''file'']"

definition validate_url :: "libs \<Rightarrow> bytes \<Rightarrow> gerror + unit" where
  "validate_url lb v =
     (if v = [] \<or> 4096 < length v \<or> has_control v then Inl (gerror_invalid ''Invalid remote URL.'')
      else if starts_with ''/'' v then Inr ()
      else if scp_like v then Inr ()
      else (case url_parse lb v of
              Some u \<Rightarrow>
                if ur_scheme u \<in> set allowed_schemes \<and> ur_password u = None \<and> ur_query u = None \<and>
                   ur_fragment u = None
                then Inr ()
                else Inl (gerror_invalid ''Use SSH, HTTPS, git:// or a local path without embedded passwords, query strings or fragments.'')
            | None \<Rightarrow> Inl (gerror_invalid ''Use SSH, HTTPS, git:// or a local path without embedded passwords, query strings or fragments.'')))"

definition display_url :: "libs \<Rightarrow> bytes option \<Rightarrow> string option" where
  "display_url lb x = map_option (\<lambda>v.
     case url_parse lb v of
       Some u \<Rightarrow> url_redacted lb v (ur_scheme u = ''https'' \<or> ur_scheme u = ''http'')
     | None \<Rightarrow> if validate_url lb v = Inr () then v else ''[unsupported remote URL]'') x"

section \<open>Configuration\<close>

record setting =
  st_value :: "bytes option"
  st_level :: string
  st_depth :: nat

type_synonym config = "(bytes \<times> setting) list"

definition scope_level :: "bytes \<Rightarrow> string" where
  "scope_level s = (if s = ''system'' then ''System'' else if s = ''global'' then ''Global''
     else if s = ''local'' then ''Local'' else if s = ''worktree'' then ''Worktree'' else ''App'')"

definition split_kv :: "bytes \<Rightarrow> bytes \<times> bytes option" where
  "split_kv d = (case splitn 2 (CHR 0x0A) d of
                   [] \<Rightarrow> ([], None) | [k] \<Rightarrow> (k, None) | k # v # _ \<Rightarrow> (k, Some v))"

text \<open>\<open>direct origin\<close>: the origin is the repository's own config file (both canonicalized).\<close>

fun parse_config :: "(bytes \<Rightarrow> bool) \<Rightarrow> bytes list \<Rightarrow> gerror + config" where
  "parse_config direct [] = Inr []"
| "parse_config direct (scope # rest) =
     (if scope = [] then Inr []
      else (case rest of
              origin # data # rest' \<Rightarrow>
                mapR (\<lambda>c. (fst (split_kv data),
                            \<lparr>st_value = snd (split_kv data), st_level = scope_level scope,
                             st_depth = (if direct origin then 0 else 1)\<rparr>) # c)
                  (parse_config direct rest')
            | _ \<Rightarrow> Inl git_failure))"

definition direct_origin :: "'w os \<Rightarrow> repo \<Rightarrow> 'w \<Rightarrow> bytes \<Rightarrow> bool" where
  "direct_origin os repo w origin =
     (case strip_prefix ''file:'' origin of
        None \<Rightarrow> False
      | Some p \<Rightarrow> os_canonical os (path_join (rp_root repo) p) w
                 = os_canonical os (path_join (rp_common repo) ''config'') w)"

definition config_read :: "'w os \<Rightarrow> repo \<Rightarrow> ('w gst, config) step" where
  "config_read os repo =
     bindS (repo_run os repo [''config'', ''--null'', ''--list'', ''--show-scope'', ''--show-origin''])
       (\<lambda>b. readW (\<lambda>w. parse_config (direct_origin os repo w) (split_on (CHR 0x00) b)))"

definition config_get :: "config \<Rightarrow> bytes \<Rightarrow> setting list" where
  "config_get c k = map snd (filter (\<lambda>(k', _). k' = k) c)"

definition config_values :: "config \<Rightarrow> bytes \<Rightarrow> bytes list" where
  "config_values c k = List.map_filter st_value (config_get c k)"

definition setting_json :: "libs \<Rightarrow> setting \<Rightarrow> json" where
  "setting_json lb s = JObj [(''value'', jopt (wpath lb) (st_value s)), (''level'', JStr (st_level s)),
     (''includeDepth'', jnat (st_depth s))]"

definition branch_key :: "string \<Rightarrow> string \<Rightarrow> bytes" where
  "branch_key branch suffix = ''branch.'' @ branch @ ''.'' @ suffix"

definition suffix_editable :: "setting list \<Rightarrow> bool" where
  "suffix_editable vs \<longleftrightarrow> length vs \<le> 1 \<and>
     list_all (\<lambda>s. st_level s = ''Local'' \<and> st_depth s = 0 \<and> st_value s \<noteq> None) vs"

definition config_tracking :: "libs \<Rightarrow> config \<Rightarrow> string \<Rightarrow> gerror + json" where
  "config_tracking lb c branch =
     (let vs = (\<lambda>suffix. config_get c (branch_key branch suffix));
          configuration = JObj (map (\<lambda>x. (x, JArr (map (setting_json lb) (vs x)))) [''remote'', ''merge''])
      in bindR (page_hash lb configuration) (\<lambda>token.
           Inr (JObj [(''token'', JStr token),
             (''editable'', JBool (suffix_editable (vs ''remote'') \<and> suffix_editable (vs ''merge''))),
             (''configuration'', configuration)])))"

definition tracking :: "libs \<Rightarrow> 'w os \<Rightarrow> repo \<Rightarrow> string \<Rightarrow> ('w gst, json) step" where
  "tracking lb os repo branch =
     bindS (config_read os repo) (\<lambda>c. liftS (config_tracking lb c branch))"

section \<open>Branches\<close>

definition utf8_opt :: "libs \<Rightarrow> bytes \<Rightarrow> gerror + string" where
  "utf8_opt lb b = (if utf8 lb b then Inr b else Inl git_failure)"

definition branch_row :: "libs \<Rightarrow> config \<Rightarrow> bytes list \<Rightarrow> bool \<Rightarrow> bytes \<Rightarrow> gerror + json" where
  "branch_row lb c f loc nm =
     bindR (oid (f ! 1)) (\<lambda>oj.
     bindR (if loc
            then (if utf8 lb nm then config_tracking lb c nm
                  else Inl (gerror_new ''UNSUPPORTED_CAPABILITY''
                         ''Non-UTF-8 branch configuration is unsupported.''))
            else Inr JNull) (\<lambda>tr.
       Inr (JObj [(''name'', wpath lb nm), (''reference'', wpath lb (f ! 0)), (''oid'', oj),
         (''remote'', JBool (\<not> loc)), (''current'', JBool (f ! 2 = ''*'')),
         (''upstream'', if f ! 3 = [] then JNull else wpath lb (f ! 3)), (''tracking'', tr)])))"

fun branch_rows :: "libs \<Rightarrow> config \<Rightarrow> string \<Rightarrow> string \<Rightarrow> bytes list \<Rightarrow> gerror + json list" where
  "branch_rows lb c filt kind [] = Inr []"
| "branch_rows lb c filt kind (line # ls) =
     (let f = split_on (CHR 0x00) line in
      if length f \<noteq> 4 then Inl git_failure
      else
        (let loc = starts_with ''refs/heads/'' (f ! 0); nm = drop (if loc then 11 else 13) (f ! 0) in
         if (kind = ''local'' \<and> \<not> loc) \<or> (kind = ''remote'' \<and> loc) \<or>
            \<not> contains_sub (lower lb filt) (lower lb (lossy lb nm))
         then branch_rows lb c filt kind ls
         else bindR (branch_row lb c f loc nm) (\<lambda>r.
              mapR (\<lambda>rs. r # rs) (branch_rows lb c filt kind ls))))"

definition lines_of :: "bytes \<Rightarrow> bytes list" where
  "lines_of b = filter (\<lambda>r. r \<noteq> []) (split_on (CHR 0x0A) b)"

definition branches ::
  "libs \<Rightarrow> 'w os \<Rightarrow> repo \<Rightarrow> string \<Rightarrow> string option \<Rightarrow> nat \<Rightarrow> string option \<Rightarrow> ('w gst, json) step" where
  "branches lb os repo filt kind count cursor =
     (let kd = (case kind of None \<Rightarrow> ''all'' | Some k \<Rightarrow> k) in
      if 1024 < length filt \<or> CHR 0x00 \<in> set filt \<or> kd \<notin> {''all'', ''local'', ''remote''}
      then failS (gerror_invalid ''Invalid branch filter.'')
      else
        bindS (config_read os repo) (\<lambda>c.
        bindS (repo_run os repo [''for-each-ref'', ''--sort=refname'',
                 ''--format=%(refname)%00%(objectname)%00%(HEAD)%00%(upstream)'', ''refs/heads/'',
                 ''refs/remotes/'']) (\<lambda>b.
        bindS (liftS (branch_rows lb c filt kd (lines_of b))) (\<lambda>rows.
        bindS (liftS (page_hash lb (JArr rows))) (\<lambda>fp.
        bindS (liftS (ok_or git_failure (json_vec lb (JArr [JStr filt, JStr kd])))) (\<lambda>q.
          liftS (page lb repo (''cli.branches:'' @ q) fp rows count cursor
            (JObj [(''totalEntries'', jnat (length rows))]))))))))"

section \<open>Remotes\<close>

definition url_display :: "libs \<Rightarrow> bytes list \<Rightarrow> json" where
  "url_display lb vs = jopt JStr (display_url lb (case vs of [] \<Rightarrow> None
     | v # _ \<Rightarrow> if utf8 lb v then Some v else None))"

text \<open>\<open>json!\<close> of a byte vector is an array of numbers.\<close>

definition bytes_json :: "bytes \<Rightarrow> json" where
  "bytes_json b = JArr (map (\<lambda>c. jnat (byte c)) b)"

definition remote_key :: "string \<Rightarrow> string \<Rightarrow> bytes" where
  "remote_key nm suffix = ''remote.'' @ nm @ ''.'' @ suffix"

definition describe :: "libs \<Rightarrow> config \<Rightarrow> string \<Rightarrow> gerror + json" where
  "describe lb c nm =
     (if nm = [] \<or> 1024 < length nm \<or> starts_with ''-'' nm \<or> CHR 0x00 \<in> set nm \<or> CHR 0x0A \<in> set nm
      then Inl (gerror_invalid ''Invalid remote name.'')
      else
       (let vals = (\<lambda>k. config_values c (remote_key nm k));
            arr = (\<lambda>k. JArr (map bytes_json (vals k))) in
        if vals ''url'' = []
        then Inl (gerror_new ''REMOTE_NOT_FOUND'' ''The remote no longer exists.'')
        else
          bindR (page_hash lb (JObj [(''url'', arr ''url''), (''pushUrl'', arr ''pushurl''),
                   (''fetch'', arr ''fetch''), (''push'', arr ''push'')])) (\<lambda>token.
            Inr (JObj [(''name'', JStr nm), (''url'', url_display lb (vals ''url'')),
              (''pushUrl'', url_display lb (vals ''pushurl'')), (''token'', JStr token)]))))"

definition remote_info :: "libs \<Rightarrow> 'w os \<Rightarrow> repo \<Rightarrow> string \<Rightarrow> ('w gst, json) step" where
  "remote_info lb os repo nm = bindS (config_read os repo) (\<lambda>c. liftS (describe lb c nm))"

text \<open>\<open>str::lines\<close>: the final newline is optional, a carriage return before a newline is dropped.\<close>

definition chomp :: "string \<Rightarrow> string" where
  "chomp l = (if l \<noteq> [] \<and> last l = CHR 0x0D then butlast l else l)"

definition str_lines :: "string \<Rightarrow> string list" where
  "str_lines s = map (\<lambda>l. if l \<noteq> [] \<and> last l = CHR 0x0A then chomp (butlast l) else l)
                     (split_incl (CHR 0x0A) s)"

definition remote_names_of :: "libs \<Rightarrow> 'w os \<Rightarrow> repo \<Rightarrow> ('w gst, string list) step" where
  "remote_names_of lb os repo =
     bindS (repo_run os repo [''remote'']) (\<lambda>b. liftS (mapR str_lines (utf8_opt lb b)))"

definition remotes :: "libs \<Rightarrow> 'w os \<Rightarrow> repo \<Rightarrow> ('w gst, json) step" where
  "remotes lb os repo =
     bindS (config_read os repo) (\<lambda>c.
     bindS (remote_names_of lb os repo) (\<lambda>ns.
     bindS (liftS (collectR (describe lb c) ns)) (\<lambda>rows.
       retS (JObj [(''entries'', JArr rows), (''authentication'',
         JObj [(''ssh'', JStr ''server_agent''), (''https'', JStr ''server_helpers'')])]))))"

definition remote_names ::
  "libs \<Rightarrow> 'w os \<Rightarrow> repo \<Rightarrow> string \<Rightarrow> nat \<Rightarrow> string option \<Rightarrow> ('w gst, json) step" where
  "remote_names lb os repo filt count cursor =
     (if 1024 < length filt \<or> CHR 0x00 \<in> set filt
      then failS (gerror_invalid ''Invalid remote filter.'')
      else
        bindS (remote_names_of lb os repo) (\<lambda>ns.
        let rows = map (\<lambda>n. JObj [(''name'', JStr n)])
                     (filter (\<lambda>n. contains_sub (lower lb filt) (lower lb n)) ns) in
        bindS (liftS (page_hash lb (JArr rows))) (\<lambda>fp.
          liftS (page lb repo (''cli.remote_names:'' @ filt) fp rows count cursor
            (JObj [(''totalEntries'', jnat (length rows))])))))"

section \<open>References a remote advertises\<close>

definition ref_kind :: "bytes \<Rightarrow> string" where
  "ref_kind r = (if r = ''HEAD'' then ''head'' else if starts_with ''refs/heads/'' r then ''branch''
     else if ends_with ''^{}'' r then ''peeled_tag'' else if starts_with ''refs/tags/'' r then ''tag''
     else ''other'')"

fun advertised ::
  "libs \<Rightarrow> string \<Rightarrow> (bytes \<times> bytes) list \<Rightarrow> bytes list \<Rightarrow> gerror + json list" where
  "advertised lb filt syms [] = Inr []"
| "advertised lb filt syms (line # ls) =
     (if CHR 0x09 \<notin> set line then Inl git_failure
      else
       (let left = takeWhile (\<lambda>c. c \<noteq> CHR 0x09) line;
            right = tl (dropWhile (\<lambda>c. c \<noteq> CHR 0x09) line) in
        case strip_prefix ''ref: '' left of
          Some target \<Rightarrow> advertised lb filt (aput right target syms) ls
        | None \<Rightarrow>
            if \<not> contains_sub (lower lb filt) (lower lb (lossy lb right))
            then advertised lb filt syms ls
            else bindR (oid left) (\<lambda>oj.
                 mapR (\<lambda>rs. JObj [(''reference'', wpath lb right), (''kind'', JStr (ref_kind right)),
                     (''oid'', oj), (''symbolicTarget'', jopt (wpath lb) (map_of syms right))] # rs)
                   (advertised lb filt syms ls))))"

definition remote_refs ::
  "libs \<Rightarrow> 'w os \<Rightarrow> repo \<Rightarrow> string \<Rightarrow> string \<Rightarrow> bool \<Rightarrow> string \<Rightarrow> nat \<Rightarrow> string option \<Rightarrow>
   ('w gst, json) step" where
  "remote_refs lb os repo nm token push filt count cursor =
     bindS (remote_info lb os repo nm) (\<lambda>info.
     bindS (guardS (jget info ''token'' = JStr token)
              (gerror_new ''STALE_REMOTE'' ''Remote configuration changed.'')) (\<lambda>_.
     bindS (guardS (length filt \<le> 1024 \<and> CHR 0x00 \<notin> set filt)
              (gerror_invalid ''Invalid remote ref filter.'')) (\<lambda>_.
     bindS (if push
            then bindS (repo_run os repo [''remote'', ''get-url'', ''--push'', nm])
                   (\<lambda>u. liftS (utf8_opt lb (trim_line u)))
            else retS nm) (\<lambda>destination.
     bindS (repo_run os repo [''ls-remote'', ''--symref'', ''--'', destination]) (\<lambda>d.
     bindS (liftS (advertised lb filt [] (lines_of d))) (\<lambda>rows.
     bindS (liftS (ok_or git_failure (json_vec lb (JArr [JStr nm, JStr token, JBool push, JStr filt]))))
       (\<lambda>q.
     bindS (liftS (page_hash lb (JArr rows))) (\<lambda>fp.
       liftS (page lb repo (''cli.remote_refs:'' @ q) fp rows count cursor
         (JObj [(''remote'', JStr nm), (''remoteToken'', JStr token), (''forPush'', JBool push),
           (''basis'', JStr ''remote_advertisement''), (''truncated'', JBool False),
           (''totalEntries'', jnat (length rows))]))))))))))"

section \<open>Lemmas\<close>

lemma config_read_quiet: "preserves same_mutations (config_read os repo)"
  unfolding config_read_def by (intro quiet.pres_rules repo_quiets)

lemma tracking_quiet: "preserves same_mutations (tracking lb os repo b)"
  unfolding tracking_def by (intro quiet.pres_rules config_read_quiet)

lemma remote_info_quiet: "preserves same_mutations (remote_info lb os repo nm)"
  unfolding remote_info_def by (intro quiet.pres_rules config_read_quiet)

lemmas refs_quiets = config_read_quiet tracking_quiet remote_info_quiet

text \<open>The configuration parser recovers every setting, values with newlines included.\<close>

definition render_setting :: "bytes \<times> bytes \<times> bytes \<times> bytes \<Rightarrow> bytes list" where
  "render_setting x = (case x of (scope, origin, k, v) \<Rightarrow> [scope, origin, k @ [CHR 0x0A] @ v])"

lemma split_kv_render: "CHR 0x0A \<notin> set k \<Longrightarrow> split_kv (k @ CHR 0x0A # v) = (k, Some v)"
proof -
  assume k: "CHR 0x0A \<notin> set k"
  have "splitn (Suc (length [k])) (CHR 0x0A) (terminate (CHR 0x0A) [k] @ v) = [k] @ [v]"
    by (rule splitn_fields) (use k in simp)
  then show ?thesis
    by (simp add: split_kv_def terminate_def numeral_2_eq_2 del: splitn.simps)
qed

lemma parse_config_render:
  assumes "\<forall>(scope, origin, k, v) \<in> set xs. scope \<noteq> [] \<and> CHR 0x0A \<notin> set k"
  shows "parse_config direct (concat (map render_setting xs) @ [[]]) =
    Inr (map (\<lambda>(scope, origin, k, v). (k, \<lparr>st_value = Some v, st_level = scope_level scope,
        st_depth = (if direct origin then 0 else 1)\<rparr>)) xs)"
  using assms
proof (induction xs)
  case (Cons x xs)
  obtain scope origin k v where x: "x = (scope, origin, k, v)" by (cases x) auto
  then show ?case using Cons split_kv_render [of k v] by (simp add: render_setting_def)
qed simp

text \<open>An accepted URL cannot be mistaken for an option, if the URL library knows its schemes.\<close>

lemma validate_url_not_option:
  assumes "validate_url lb v = Inr ()"
    and "\<And>u. url_parse lb v = Some u \<Longrightarrow> ur_scheme u \<in> set allowed_schemes \<Longrightarrow> hd v \<noteq> CHR ''-''"
  shows "hd v \<noteq> CHR ''-''"
proof -
  have ne: "v \<noteq> []" using assms(1) by (auto simp: validate_url_def)
  have "hd v \<noteq> CHR ''-''" if "scp_like v"
    using that ne by (cases v) (auto simp: scp_like_def Let_def starts_with_def split: if_splits)
  moreover have "hd v \<noteq> CHR ''-''" if "starts_with ''/'' v"
    using that ne by (cases v) (auto simp: starts_with_def)
  ultimately show ?thesis
    using assms by (auto simp: validate_url_def split: if_splits option.splits)
qed

end
