(* ===== verification/Worktrees.thy ===== *)
theory Worktrees
  imports Status Refs
begin

text \<open>
  Linked worktrees, \<open>git/cli/worktrees.rs\<close>, and the stash list, \<open>git/cli/stashes.rs\<close>: the parser of
  \<open>git worktree list --porcelain -z\<close>, the filtered pages, and the worktree actions of a write
  operation. \<open>vname\<close> is the reference-name validation of \<open>writes.rs\<close>, which the actions use too.
\<close>

section \<open>Name validation shared by the writes\<close>

text \<open>\<open>writes.rs\<close>: \<open>text\<close> and \<open>name\<close>.\<close>

definition valid_text :: "string \<Rightarrow> gerror + unit" where
  "valid_text v =
     (if v = [] \<or> 4096 < length v \<or> CHR 0x00 \<in> set v \<or> CHR 0x0A \<in> set v \<or> CHR 0x0D \<in> set v
      then Inl (gerror_invalid ''Invalid Git argument.'') else Inr ())"

definition valid_name :: "'w os \<Rightarrow> repo \<Rightarrow> string \<Rightarrow> string \<Rightarrow> ('w gst, string) step" where
  "valid_name os repo v kind =
     bindS (liftS (valid_text v)) (\<lambda>_.
     bindS (guardS (\<not> starts_with ''-'' v) (gerror_invalid ''Git names cannot begin with '-'.'')) (\<lambda>_.
     let reference = ''refs/'' @ kind @ ''/'' @ v in
     bindS (run os (rp_root repo) [''check-ref-format'', reference]) (\<lambda>found.
       if found = None then failS (gerror_invalid ''Invalid reference name.'') else retS reference)))"

section \<open>The list of worktrees\<close>

definition path_eq :: "bytes \<Rightarrow> bytes \<Rightarrow> bool" where
  "path_eq a b \<longleftrightarrow> is_absolute a = is_absolute b \<and> path_parts a = path_parts b"

definition find_prefix :: "bytes \<Rightarrow> bytes list \<Rightarrow> bytes option" where
  "find_prefix p fs = (case List.map_filter (strip_prefix p) fs of [] \<Rightarrow> None | x # _ \<Rightarrow> Some x)"

text \<open>The records of the listing: runs of nonempty fields closed by an empty one.\<close>

fun worktree_records :: "bytes list \<Rightarrow> bytes list \<Rightarrow> bytes list list" where
  "worktree_records acc [] = []"
| "worktree_records acc (f # fs) =
     (if f \<noteq> [] then worktree_records (acc @ [f]) fs
      else if acc = [] then worktree_records [] fs
      else acc # worktree_records [] fs)"

text \<open>The administrative directory whose \<open>gitdir\<close> file points into the worktree.\<close>

fun find_admin :: "'w os \<Rightarrow> 'w \<Rightarrow> bytes \<Rightarrow> bytes \<Rightarrow> string list \<Rightarrow> (bytes \<times> string) option" where
  "find_admin os w root dir [] = None"
| "find_admin os w root dir (n # ns) =
     (case os_read os (path_join (path_join dir n) ''gitdir'') w of
        Content c \<Rightarrow>
          (case path_parent (trim_line c) of
             Some p \<Rightarrow> if path_eq p root then Some (path_join dir n, n)
                       else find_admin os w root dir ns
           | None \<Rightarrow> find_admin os w root dir ns)
      | _ \<Rightarrow> find_admin os w root dir ns)"

definition worktree_row ::
  "libs \<Rightarrow> 'w os \<Rightarrow> repo \<Rightarrow> 'w \<Rightarrow> bool \<Rightarrow> bytes list \<Rightarrow> gerror + json" where
  "worktree_row lb os repo w main rec =
     bindR (ok_or git_failure (find_prefix ''worktree '' rec)) (\<lambda>path.
     bindR (if main then Inr (rp_common repo, None)
            else bindR (ok_or io_error (os_list os (path_join (rp_common repo) ''worktrees'') w)) (\<lambda>ns.
              Inr (case find_admin os w path (path_join (rp_common repo) ''worktrees'') ns of
                     None \<Rightarrow> (rp_common repo, None) | Some (d, n) \<Rightarrow> (d, Some n)))) (\<lambda>(git_dir, nm).
     let bare = (''bare'' \<in> set rec);
         branch = find_prefix ''branch '' rec;
         ident = (case find_prefix ''HEAD '' rec of None \<Rightarrow> None
                  | Some x \<Rightarrow> if list_all (\<lambda>c. c = CHR ''0'') x then None else Some x);
         reason = find_prefix ''locked '' rec;
         locked = (reason \<noteq> None \<or> ''locked'' \<in> set rec) in
     bindR (case ident of None \<Rightarrow> Inr JNull | Some x \<Rightarrow> oid x) (\<lambda>oj.
       Inr (JObj [(''name'', jopt (wpath lb) nm),
         (''kind'', JStr (if bare then ''bare'' else if main then ''main'' else ''linked'')),
         (''path'', wpath lb path), (''gitDir'', wpath lb git_dir),
         (''current'', JBool (path_eq git_dir (rp_git_dir repo))),
         (''state'', JStr (if os_exists os path w = Some True then ''available'' else ''missing'')),
         (''head'', JObj [(''oid'', oj),
            (''name'', wpath lb (case branch of Some b \<Rightarrow> b | None \<Rightarrow> ''HEAD'')),
            (''detached'', JBool (branch = None)), (''unborn'', JBool (ident = None))]),
         (''locked'', JBool locked),
         (''lockReason'', if locked then wpath lb (case reason of Some r \<Rightarrow> r | None \<Rightarrow> []) else JNull),
         (''prunable'', JBool (\<exists>f\<in>set rec. starts_with ''prunable'' f))]))))"

fun worktree_rows ::
  "libs \<Rightarrow> 'w os \<Rightarrow> repo \<Rightarrow> 'w \<Rightarrow> bool \<Rightarrow> bytes list list \<Rightarrow> gerror + json list" where
  "worktree_rows lb os repo w first [] = Inr []"
| "worktree_rows lb os repo w first (r # rs) =
     bindR (worktree_row lb os repo w first r) (\<lambda>x.
       mapR (\<lambda>xs. x # xs) (worktree_rows lb os repo w False rs))"

definition worktrees :: "libs \<Rightarrow> 'w os \<Rightarrow> repo \<Rightarrow> ('w gst, json list \<times> string) step" where
  "worktrees lb os repo =
     bindS (repo_run os repo [''worktree'', ''list'', ''--porcelain'', ''-z'']) (\<lambda>b.
     bindS (readW (\<lambda>w. worktree_rows lb os repo w True (worktree_records [] (split_on (CHR 0x00) b))))
       (\<lambda>rows.
     bindS (liftS (page_hash lb (JArr rows))) (\<lambda>fp. retS (rows, fp))))"

definition bad_filter :: "string \<Rightarrow> bool" where
  "bad_filter s \<longleftrightarrow> 1024 < length s \<or> CHR 0x00 \<in> set s"

definition bad_filter_opt :: "string option \<Rightarrow> bool" where
  "bad_filter_opt x = (case x of None \<Rightarrow> False | Some s \<Rightarrow> bad_filter s)"

definition worktree_matches ::
  "libs \<Rightarrow> string \<Rightarrow> string option \<Rightarrow> string option \<Rightarrow> json \<Rightarrow> bool" where
  "worktree_matches lb filt branch nm r \<longleftrightarrow>
     (case branch of None \<Rightarrow> True
      | Some b \<Rightarrow> jget (jget (jget r ''head'') ''name'') ''display'' = JStr b) \<and>
     (case nm of None \<Rightarrow> True | Some n \<Rightarrow> jget (jget r ''name'') ''display'' = JStr n) \<and>
     contains_sub (lower lb filt)
       (lower lb (display_path r ''path'' @ '' '' @ display_path r ''name''))"

definition opt_json :: "json option \<Rightarrow> json" where
  "opt_json x = (case x of None \<Rightarrow> JNull | Some v \<Rightarrow> v)"

definition worktrees_page ::
  "libs \<Rightarrow> 'w os \<Rightarrow> repo \<Rightarrow> nat \<Rightarrow> string option \<Rightarrow> string \<Rightarrow> string option \<Rightarrow> string option \<Rightarrow>
   string option \<Rightarrow> ('w gst, json) step" where
  "worktrees_page lb os repo count cursor filt branch nm pin =
     (if bad_filter filt \<or> bad_filter_opt branch \<or> bad_filter_opt nm
      then failS (gerror_invalid ''Invalid worktree filter.'')
      else if pin \<noteq> None \<and> cursor \<noteq> None
      then failS (gerror_invalid ''atSnapshot and cursor cannot be combined.'')
      else
        bindS (worktrees lb os repo) (\<lambda>(all, fp).
        bindS (case pin of None \<Rightarrow> retS ()
               | Some t \<Rightarrow> bindS (liftS (snapshot_decode (lb_tk lb) t)) (\<lambda>sn.
                   guardS (sn_r sn = rp_id repo \<and> sn_q sn = ''cli.worktrees'' \<and> sn_f sn = fp)
                     (gerror_new ''SNAPSHOT_EXPIRED'' ''Worktrees changed. Refresh the listing.''))) (\<lambda>_.
        let current = find (\<lambda>r. is_true (jget r ''current'')) all;
            main = find (\<lambda>r. jget r ''kind'' \<noteq> JStr ''linked'') all;
            rows = filter (worktree_matches lb filt branch nm) all in
        bindS (liftS (ok_or git_failure (json_vec lb (JArr [JStr filt, jopt JStr branch, jopt JStr nm]))))
          (\<lambda>q.
        bindS (liftS (page lb repo (''cli.worktrees:'' @ q) fp rows count cursor
                 (JObj [(''listToken'', JStr fp), (''totalEntries'', jnat (length all)),
                    (''matchingEntries'', jnat (length rows)), (''current'', opt_json current),
                    (''main'', opt_json main)]))) (\<lambda>result.
          retS (jset result ''snapshot'' (JStr (snapshot_encode (lb_tk lb)
                  (page_snapshot repo ''cli.worktrees'' fp)))))))))"

section \<open>Worktree actions\<close>

datatype worktree_action =
    WorktreeAdd string wire_path string string bool bool
  | WorktreeRemove string
  | WorktreeRepair string wire_path
  | WorktreePrune string
  | WorktreeLock string "string option"
  | WorktreeUnlock string

definition worktree_execute :: "'w os \<Rightarrow> repo \<Rightarrow> string list \<Rightarrow> ('w gst, unit) step" where
  "worktree_execute os repo args =
     map_errS (\<lambda>e. if code e = ''TIMEOUT''
                   then gerror_new ''OUTCOME_UNKNOWN''
                          ''The worktree operation timed out. Inspect the saved outcome.'' else e)
       (git_write os (rp_root repo) args [])"

definition valid_worktree_name :: "string \<Rightarrow> bool" where
  "valid_worktree_name n \<longleftrightarrow> n \<noteq> [] \<and> length n \<le> 255 \<and> CHR ''/'' \<notin> set n \<and> CHR 0x00 \<notin> set n \<and>
     n \<noteq> ''.'' \<and> n \<noteq> ''..''"

text \<open>The temporary directory is removed when its handle is dropped, and kept when a command failed.\<close>

definition make_tempdir :: "'w os \<Rightarrow> bytes \<Rightarrow> string \<Rightarrow> ('w gst, bytes) step" where
  "make_tempdir os dir prefix s =
     (case os_tempdir os dir prefix (gw s) of (w, r) \<Rightarrow> (s\<lparr>gw := w\<rparr>, ok_or io_error r))"

definition drop_tempdir :: "'w os \<Rightarrow> bytes \<Rightarrow> ('w gst, 'a) step \<Rightarrow> ('w gst, 'a) step" where
  "drop_tempdir os t m s = (case m s of (s', r) \<Rightarrow> (s'\<lparr>gw := os_remove_tree os t (gw s')\<rparr>, r))"

definition worktree_add ::
  "libs \<Rightarrow> 'w os \<Rightarrow> repo \<Rightarrow> string \<Rightarrow> wire_path \<Rightarrow> string \<Rightarrow> string \<Rightarrow> bool \<Rightarrow> bool \<Rightarrow> ('w gst, json) step"
where
  "worktree_add lb os repo nm path branch expected locked new_branch =
     bindS (guardS (valid_worktree_name nm) (gerror_invalid ''Invalid worktree name.'')) (\<lambda>_.
     bindS (valid_name os repo branch ''heads'') (\<lambda>reference.
     bindS (liftS (oid expected)) (\<lambda>_.
     bindS (if new_branch then retS ()
            else bindS (repo_run os repo [''rev-parse'', ''--verify'', ''--end-of-options'', reference])
                   (\<lambda>actual. guardS (trim_line actual = expected)
                      (gerror_new ''STALE_REFERENCE'' ''The branch changed.''))) (\<lambda>_.
     bindS (liftS (wire_decode lb path)) (\<lambda>destination.
     bindS (guardS (is_absolute destination \<and> \<not> has_parent destination)
              (gerror_invalid ''Choose an absolute worktree destination.'')) (\<lambda>_.
     bindS (readW (\<lambda>w. Inr (os_lstat_ok os destination w \<or>
              os_exists os (path_join (path_join (rp_common repo) ''worktrees'') nm) w = Some True)))
       (\<lambda>exists.
     bindS (guardS (\<not> exists) (gerror_new ''PATH_EXISTS''
              ''The destination or worktree name already exists.'')) (\<lambda>_.
     bindS (liftS (ok_or git_failure (path_parent destination))) (\<lambda>up.
     bindS (canonicalize os up) (\<lambda>parent.
     bindS (make_tempdir os parent ''.newport-cli-worktree-'') (\<lambda>temporary.
     let prepared = path_join temporary nm in
     bindS (worktree_execute os repo ([''worktree'', ''add''] @ (if new_branch then [''-b'', branch] else [])
              @ [''--'', prepared, if new_branch then expected else branch])) (\<lambda>_.
     bindS (worktree_execute os repo [''worktree'', ''move'', ''--'', prepared, destination]) (\<lambda>_.
     drop_tempdir os temporary
       (bindS (if locked then worktree_execute os repo [''worktree'', ''lock'', ''--'', destination]
               else retS ()) (\<lambda>_.
        retS (JObj [(''name'', JStr nm), (''path'', wire_json path), (''openRequired'', JBool True),
          (''branchCreated'', JBool new_branch), (''refreshRequired'', JBool True)]))))))))))))))))"

definition action_name :: "worktree_action \<Rightarrow> string" where
  "action_name a = (case a of WorktreeAdd n p b e l nb \<Rightarrow> n | WorktreeRemove n \<Rightarrow> n
     | WorktreeRepair n p \<Rightarrow> n | WorktreePrune n \<Rightarrow> n | WorktreeLock n r \<Rightarrow> n | WorktreeUnlock n \<Rightarrow> n)"

definition select_worktree :: "libs \<Rightarrow> string \<Rightarrow> json list \<Rightarrow> json option" where
  "select_worktree lb nm rows = find (\<lambda>r. jget r ''kind'' = JStr ''linked'' \<and>
     jget (jget r ''name'') ''bytesB64'' = JStr (wp_b64 (wire_new lb nm))) rows"

definition worktree_repair ::
  "libs \<Rightarrow> 'w os \<Rightarrow> repo \<Rightarrow> string \<Rightarrow> bytes \<Rightarrow> wire_path \<Rightarrow> ('w gst, json) step" where
  "worktree_repair lb os repo nm path new_wire =
     bindS (liftS (wire_decode lb new_wire)) (\<lambda>new_path.
     bindS (guardS (is_absolute new_path) (gerror_invalid ''Choose an absolute repair path.'')) (\<lambda>_.
     bindS (readW (\<lambda>w. case os_read os (path_join new_path ''.git'') w of Content c \<Rightarrow> Inr c
              | _ \<Rightarrow> Inl io_error)) (\<lambda>pointer.
     bindS (liftS (ok_or (gerror_invalid ''The selected path is not a linked worktree.'')
              (strip_prefix ''gitdir: '' (trim_line pointer)))) (\<lambda>admin.
     bindS (canonicalize os (path_join new_path admin)) (\<lambda>target.
     bindS (guardS (path_eq target (path_join (path_join (rp_common repo) ''worktrees'') nm))
              (gerror_new ''WORKTREE_MISMATCH'' ''This checkout belongs to a different worktree.'')) (\<lambda>_.
     bindS (worktree_execute os repo [''worktree'', ''repair'', ''--'', new_path]) (\<lambda>_.
       retS (JObj [(''changed'', JBool (\<not> path_eq path new_path)), (''refreshRequired'', JBool True)]))))))))"

text \<open>The arguments of the remaining actions, after their guards.\<close>

definition worktree_args ::
  "'w os \<Rightarrow> worktree_action \<Rightarrow> json \<Rightarrow> bytes \<Rightarrow> ('w gst, string list) step" where
  "worktree_args os a selected path =
     (case a of
        WorktreeRemove n \<Rightarrow>
          bindS (guardS (\<not> is_true (jget selected ''current''))
                   (gerror_invalid ''Cannot remove the current worktree.'')) (\<lambda>_. retS [''remove''])
      | WorktreePrune n \<Rightarrow>
          bindS (readW (\<lambda>w. ok_or io_error (os_exists os path w))) (\<lambda>there.
          bindS (guardS (\<not> there) (gerror_invalid ''Only missing worktrees can be pruned.'')) (\<lambda>_.
            retS [''remove'']))
      | WorktreeLock n reason \<Rightarrow>
          (case reason of None \<Rightarrow> retS [''lock'']
           | Some r \<Rightarrow>
               bindS (guardS (length r \<le> 4096 \<and> CHR 0x00 \<notin> set r)
                        (gerror_invalid ''Invalid lock reason.'')) (\<lambda>_. retS [''lock'', ''--reason'', r]))
      | WorktreeUnlock n \<Rightarrow> retS [''unlock'']
      | _ \<Rightarrow> failS (gerror_invalid ''Expected worktree action.''))"

definition worktree_apply ::
  "libs \<Rightarrow> 'w os \<Rightarrow> repo \<Rightarrow> worktree_action \<Rightarrow> ('w gst, json) step" where
  "worktree_apply lb os repo a =
     (case a of
        WorktreeAdd nm path branch expected locked new_branch \<Rightarrow>
          worktree_add lb os repo nm path branch expected locked new_branch
      | _ \<Rightarrow>
          bindS (worktrees lb os repo) (\<lambda>(rows, _).
          bindS (liftS (ok_or (gerror_new ''WORKTREE_NOT_FOUND''
                   ''The linked worktree no longer exists.'')
                   (select_worktree lb (action_name a) rows))) (\<lambda>selected.
          bindS (liftS (row_path lb selected)) (\<lambda>path.
            case a of
              WorktreeRepair nm new_wire \<Rightarrow> worktree_repair lb os repo nm path new_wire
            | _ \<Rightarrow>
                bindS (worktree_args os a selected path) (\<lambda>args.
                bindS (worktree_execute os repo (''worktree'' # args @ [''--'', path])) (\<lambda>_.
                  retS (JObj [(''registrationOnly'', JBool (case a of WorktreePrune n \<Rightarrow> True | _ \<Rightarrow> False)),
                    (''refreshRequired'', JBool True)])))))))"

section \<open>Stashes\<close>

text \<open>\<open>parse::<i64>\<close>.\<close>

definition parse_i64 :: "string \<Rightarrow> int option" where
  "parse_i64 s =
     (let neg = starts_with ''-'' s;
          t = (if neg \<or> starts_with ''+'' s then tl s else s);
          v = (if neg then - int (digits_val t) else int (digits_val t)) in
      if t \<noteq> [] \<and> list_all digit t \<and> - (2 ^ 63) \<le> v \<and> v < 2 ^ 63 then Some v else None)"

fun chunks3 :: "bytes list \<Rightarrow> bytes list list" where
  "chunks3 (a # b # c # rest) = [a, b, c] # chunks3 rest"
| "chunks3 [] = []"
| "chunks3 xs = [xs]"

fun stash_rows_from :: "libs \<Rightarrow> nat \<Rightarrow> bytes list list \<Rightarrow> gerror + json list" where
  "stash_rows_from lb n [] = Inr []"
| "stash_rows_from lb n (ch # rest) =
     (if length ch = 1 \<and> ch ! 0 = [] then Inr []
      else if length ch \<noteq> 3 then Inl git_failure
      else
        bindR (utf8_opt lb (ch ! 0)) (\<lambda>ident.
        bindR (oid ident) (\<lambda>_.
        bindR (utf8_opt lb (ch ! 2)) (\<lambda>tm.
        bindR (ok_or git_failure (parse_i64 tm)) (\<lambda>t.
          mapR (\<lambda>rs. JObj [(''index'', jnat n), (''oid'', JStr ident), (''previousOid'', JStr []),
                  (''message'', JStr (lossy lb (take 1024 (ch ! 1)))),
                  (''messageTruncated'', JBool (1024 < length (ch ! 1))), (''time'', JNum t)] # rs)
            (stash_rows_from lb (Suc n) rest))))))"

fun link_previous :: "json list \<Rightarrow> json list" where
  "link_previous [] = []"
| "link_previous [r] = [jset r ''previousOid''
     (JStr (replicate (length (jstr_or_empty (jget r ''oid''))) (CHR ''0'')))]"
| "link_previous (r # r' # rs) = jset r ''previousOid'' (jget r' ''oid'') # link_previous (r' # rs)"

definition stash_rows :: "libs \<Rightarrow> 'w os \<Rightarrow> repo \<Rightarrow> ('w gst, json list \<times> string) step" where
  "stash_rows lb os repo =
     bindS (some_or git_failure (run os (rp_root repo)
              [''for-each-ref'', ''--format=%(objectname)'', ''refs/stash''])) (\<lambda>reference.
     if reference = [] then retS ([], hex (sha256 lb []))
     else
       bindS (some_or git_failure (run os (rp_root repo)
                [''log'', ''-g'', ''-z'', ''--format=%H%x00%gs%x00%ct'', ''refs/stash'', ''--''])) (\<lambda>b.
       bindS (liftS (stash_rows_from lb 0 (chunks3 (split_on (CHR 0x00) b)))) (\<lambda>rows.
         retS (link_previous rows, hex (sha256 lb b)))))"

definition stashes_page ::
  "libs \<Rightarrow> 'w os \<Rightarrow> repo \<Rightarrow> nat \<Rightarrow> string option \<Rightarrow> ('w gst, json) step" where
  "stashes_page lb os repo count cursor =
     bindS (stash_rows lb os repo) (\<lambda>(rows, token).
       liftS (page lb repo ''cli.stashes'' token rows count cursor
         (JObj [(''listToken'', JStr token), (''totalEntries'', jnat (length rows))])))"

section \<open>Lemmas\<close>

lemma valid_name_quiet: "preserves same_mutations (valid_name os repo v kind)"
  unfolding valid_name_def Let_def by (intro quiet.pres_rules repo_quiets)

lemma worktrees_quiet: "preserves same_mutations (worktrees lb os repo)"
  unfolding worktrees_def by (intro quiet.pres_rules repo_quiets)

lemma stash_rows_quiet: "preserves same_mutations (stash_rows lb os repo)"
  unfolding stash_rows_def by (intro quiet.pres_rules repo_quiets)

lemma valid_name_reference:
  "valid_name os repo v kind s = (s', Inr r) \<Longrightarrow>
   r = ''refs/'' @ kind @ ''/'' @ v \<and> v \<noteq> [] \<and> hd v \<noteq> CHR ''-''"
  by (auto simp: valid_name_def valid_text_def bindS_def guardS_def Let_def starts_with_def
      split: if_splits prod.splits sum.splits) (cases v; auto)+

end
