(* ===== verification/Writes.thy ===== *)
theory Writes
  imports Diff Worktrees
begin

text \<open>
  The mutations of \<open>git/cli/writes.rs\<close>: the actions of \<open>protocol.rs\<close> and \<open>apply\<close>, one definition
  per group of actions. An action first validates its arguments and what it expects of the
  repository with queries, then runs its Git commands; the ghost log of \<open>Command\<close> shows which.
\<close>

section \<open>Actions\<close>

record author =
  au_name :: string
  au_email :: string

datatype checkout_target = CheckoutBranch string string | Detached string
datatype reset_mode = Soft | Mixed | Hard
datatype discard_source = FromIndex | FromHead
datatype conflict_side = Base | Ours | Theirs

record annotation =
  an_message :: string
  an_author :: "author option"

datatype index_action =
    ConflictResolve "string list" conflict_side "string option"
  | Discard "string list" discard_source "hunk_selection option"
  | Stage "string list" "hunk_selection option"
  | Unstage "string list" "hunk_selection option"

datatype ref_action =
    BranchCreate string string
  | BranchRename string string string
  | BranchDelete string string bool
  | BranchSetUpstream string string string "string option"
  | Checkout checkout_target
  | TagCreate string string "annotation option"
  | TagDelete string string
  | Reset string string reset_mode

datatype remote_action =
    RemoteAdd string string
  | RemoteRename string string string
  | RemoteSetUrl string string string
  | RemoteRemove string string
  | Fetch string string bool
  | PullFastForward string string string
  | Push string string string string string
  | PushWithLease string string string string string string
  | BranchDeleteRemote string string string string
  | TagDeleteRemote string string string string
  | TagPush string string string string

datatype stash_action =
    StashSave string bool bool "author option"
  | StashApply string "nat option" string bool
  | StashPop string "nat option" string bool
  | StashDrop string "nat option" string

datatype history_action =
    Commit string "author option"
  | Amend string string "author option" "author option"
  | FastForward string
  | Merge string
  | CherryPick string nat "author option"
  | Revert string nat "author option"
  | Rebase string "string option" "author option"
  | MergeAbort
  | IntegrationAbort
  | IntegrationSkip
  | IntegrationContinue "string option" "author option"

datatype action =
    Worktree worktree_action
  | Index index_action
  | Ref ref_action
  | Remote remote_action
  | Stash stash_action
  | Hist history_action

section \<open>Checks\<close>

definition stale :: gerror where
  "stale = gerror_new ''STALE_SNAPSHOT''
     ''The repository changed. Refresh before applying this operation.''"

definition outcome_unknown :: gerror where
  "outcome_unknown = gerror_new ''OUTCOME_UNKNOWN''
     ''Git did not confirm completion. Inspect the repository and saved outcome before repeating this operation.''"

definition full_oid_error :: gerror where
  "full_oid_error = gerror_invalid ''A complete object ID is required.''"

definition expect_ref :: "'w os \<Rightarrow> repo \<Rightarrow> string \<Rightarrow> string \<Rightarrow> ('w gst, unit) step" where
  "expect_ref os repo reference v =
     bindS (liftS (map_errR (\<lambda>_. full_oid_error) (oid v))) (\<lambda>_.
     bindS (run os (rp_root repo) [''rev-parse'', ''--verify'', ''--end-of-options'', reference]) (\<lambda>found.
       guardS (map_option trim_line found = Some v)
         (gerror_new ''STALE_REFERENCE'' ''The reference changed. Refresh before continuing.'')))"

definition commit_target :: "'w os \<Rightarrow> repo \<Rightarrow> string \<Rightarrow> ('w gst, unit) step" where
  "commit_target os repo ident =
     bindS (liftS (map_errR (\<lambda>_. full_oid_error) (oid ident))) (\<lambda>_.
     bindS (run os (rp_root repo) [''cat-file'', ''-e'', ident @ ''^{commit}'']) (\<lambda>found.
       guardS (found \<noteq> None) (gerror_new ''NOT_FOUND'' ''The commit no longer exists.'')))"

definition expect_remote :: "libs \<Rightarrow> 'w os \<Rightarrow> repo \<Rightarrow> string \<Rightarrow> string \<Rightarrow> ('w gst, unit) step" where
  "expect_remote lb os repo nm token =
     bindS (remote_info lb os repo nm) (\<lambda>info.
       guardS (jget info ''token'' = JStr token)
         (gerror_new ''STALE_REMOTE'' ''Remote configuration changed. Refresh before continuing.''))"

text \<open>The object a remote advertises for a reference.\<close>

fun find_advertised :: "string \<Rightarrow> bytes list \<Rightarrow> bytes option" where
  "find_advertised reference [] = None"
| "find_advertised reference (line # ls) =
     (if CHR 0x09 \<in> set line \<and> tl (dropWhile (\<lambda>c. c \<noteq> CHR 0x09) line) = reference
      then Some (takeWhile (\<lambda>c. c \<noteq> CHR 0x09) line)
      else find_advertised reference ls)"

definition lease_holds :: "bytes option \<Rightarrow> string \<Rightarrow> bool" where
  "lease_holds found expected = (case found of Some v \<Rightarrow> v = expected
     | None \<Rightarrow> list_all (\<lambda>c. c = CHR ''0'') expected)"

fun lease_urls ::
  "libs \<Rightarrow> 'w os \<Rightarrow> repo \<Rightarrow> string \<Rightarrow> string \<Rightarrow> bytes list \<Rightarrow> ('w gst, unit) step" where
  "lease_urls lb os repo reference expected [] = retS ()"
| "lease_urls lb os repo reference expected (url # urls) =
     bindS (liftS (utf8_opt lb url)) (\<lambda>u.
     bindS (repo_run os repo [''ls-remote'', ''--refs'', ''--'', u, reference]) (\<lambda>refs.
     bindS (guardS (lease_holds (find_advertised reference (split_on (CHR 0x0A) refs)) expected)
              (gerror_new ''STALE_REMOTE_REFERENCE''
                 ''The remote reference changed. Refresh before continuing.'')) (\<lambda>_.
       lease_urls lb os repo reference expected urls)))"

definition remote_lease ::
  "libs \<Rightarrow> 'w os \<Rightarrow> repo \<Rightarrow> string \<Rightarrow> string \<Rightarrow> string \<Rightarrow> ('w gst, unit) step" where
  "remote_lease lb os repo nm reference expected =
     bindS (repo_run os repo [''remote'', ''get-url'', ''--push'', ''--all'', nm]) (\<lambda>urls.
       lease_urls lb os repo reference expected (lines_of urls))"

definition write_run :: "'w os \<Rightarrow> repo \<Rightarrow> string list \<Rightarrow> bytes \<Rightarrow> ('w gst, unit) step" where
  "write_run os repo args input =
     map_errS (\<lambda>e. if code e = ''TIMEOUT'' \<or> code e = ''IO_ERROR'' \<or> code e = ''LIMIT_EXCEEDED''
                   then outcome_unknown else e)
       (git_write os (rp_root repo) args input)"

definition identity_args :: "author option \<Rightarrow> gerror + string list" where
  "identity_args a =
     (case a of None \<Rightarrow> Inr []
      | Some x \<Rightarrow>
          bindR (valid_text (au_name x)) (\<lambda>_.
          bindR (valid_text (au_email x)) (\<lambda>_.
            Inr [''-c'', ''user.name='' @ au_name x, ''-c'', ''user.email='' @ au_email x])))"

definition valid_message :: "libs \<Rightarrow> string \<Rightarrow> gerror + unit" where
  "valid_message lb v =
     (if utrim lb v = [] \<or> 65536 < length v \<or> CHR 0x00 \<in> set v
      then Inl (gerror_invalid ''Supply a nonempty commit message of at most 64 KiB.'')
      else Inr ())"

text \<open>\<open>paths\<close>: the NUL-terminated paths of the selected entries, sorted and without duplicates.\<close>

definition has_entry :: "capture \<Rightarrow> string \<Rightarrow> bool" where
  "has_entry cp ident \<longleftrightarrow> find_row (cp_rows cp) ident \<noteq> None"

definition entry_input :: "libs \<Rightarrow> capture \<Rightarrow> string list \<Rightarrow> gerror + bytes" where
  "entry_input lb cp ids =
     (if ids = [] \<or> 10000 < length ids
      then Inl (gerror_invalid ''Select between 1 and 10000 files.'')
      else
        bindR (collectR (\<lambda>x. if \<not> has_entry cp x then Inl stale
                             else bindR (entry_decode (lb_tk lb) x) (entry_paths (lb_tk lb))) ids) (\<lambda>ps.
          Inr (terminate (CHR 0x00) (sort (remdups (concat ps))))))"

definition refresh :: json where
  "refresh = JObj [(''refreshRequired'', JBool True)]"

definition head_hex :: "json \<Rightarrow> json" where
  "head_hex h = jget (jget h ''oid'') ''hex''"

definition removeW :: "'w os \<Rightarrow> bytes \<Rightarrow> ('w gst, unit) step" where
  "removeW os p s = (s\<lparr>gw := os_remove os p (gw s)\<rparr>, Inr ())"

definition writeW :: "'w os \<Rightarrow> bytes \<Rightarrow> bytes \<Rightarrow> ('w gst, unit) step" where
  "writeW os p b s = (case os_write os p b (gw s) of
     (w, ok) \<Rightarrow> (s\<lparr>gw := w\<rparr>, if ok then Inr () else Inl io_error))"

section \<open>Index actions\<close>

definition apply_partial ::
  "libs \<Rightarrow> diff_lib \<Rightarrow> 'w os \<Rightarrow> repo \<Rightarrow> string \<Rightarrow> string list \<Rightarrow> hunk_selection \<Rightarrow> bool \<Rightarrow> ('w gst, json) step"
where
  "apply_partial lb dl os repo snapshot ids sel reverse =
     bindS (guardS (length ids = 1) (gerror_invalid ''Partial staging requires one file.'')) (\<lambda>_.
     bindS (selection lb dl os repo snapshot (ids ! 0)
              (if reverse then HeadToIndex else IndexToWorktree) sel reverse) (\<lambda>p.
     bindS (write_run os repo [''apply'', ''--cached'', ''--recount'', ''--whitespace=nowarn'', ''-''] p)
       (\<lambda>_. retS refresh)))"

definition stage_command :: "bool \<Rightarrow> bool \<Rightarrow> string list" where
  "stage_command staging unborn =
     (if staging then [''--literal-pathspecs'', ''add'', ''--all'', ''--pathspec-from-file=-'',
         ''--pathspec-file-nul'']
      else if unborn then [''--literal-pathspecs'', ''rm'', ''--cached'', ''--ignore-unmatch'', ''-r'',
         ''--pathspec-from-file=-'', ''--pathspec-file-nul'']
      else [''--literal-pathspecs'', ''restore'', ''--staged'', ''--pathspec-from-file=-'',
         ''--pathspec-file-nul''])"

definition head_unborn :: "capture \<Rightarrow> bool" where
  "head_unborn cp = is_true (jget (jget (cp_metadata cp) ''head'') ''unborn'')"

definition apply_stage ::
  "libs \<Rightarrow> diff_lib \<Rightarrow> 'w os \<Rightarrow> repo \<Rightarrow> capture \<Rightarrow> string \<Rightarrow> bool \<Rightarrow> string list \<Rightarrow>
   hunk_selection option \<Rightarrow> ('w gst, json) step" where
  "apply_stage lb dl os repo cp snapshot staging ids hunks =
     (case hunks of
        Some sel \<Rightarrow> apply_partial lb dl os repo snapshot ids sel (\<not> staging)
      | None \<Rightarrow>
          bindS (liftS (entry_input lb cp ids)) (\<lambda>input.
          bindS (write_run os repo (stage_command staging (head_unborn cp)) input) (\<lambda>_.
            retS refresh)))"

text \<open>Every selected row is checked before the first mutation; rows split in tracked and untracked.\<close>

fun discard_split :: "libs \<Rightarrow> capture \<Rightarrow> string list \<Rightarrow> gerror + string list \<times> bytes list" where
  "discard_split lb cp [] = Inr ([], [])"
| "discard_split lb cp (x # xs) =
     bindR (ok_or stale (find_row (cp_rows cp) x)) (\<lambda>row.
       if is_true (jget row ''conflicted'')
       then Inl (gerror_new ''UNSUPPORTED_CAPABILITY'' ''Resolve conflicts before discarding files.'')
       else if is_true (jget row ''untracked'')
       then bindR (row_path lb row) (\<lambda>b.
              if ends_with ''/'' b
              then Inl (gerror_new ''UNSUPPORTED_CAPABILITY''
                     ''Discard individual untracked files, not collapsed directories.'')
              else mapR (\<lambda>(ts, us). (ts, b # us)) (discard_split lb cp xs))
       else mapR (\<lambda>(ts, us). (x # ts, us)) (discard_split lb cp xs))"

fun clean_paths :: "'w os \<Rightarrow> repo \<Rightarrow> bytes list \<Rightarrow> ('w gst, unit) step" where
  "clean_paths os repo [] = retS ()"
| "clean_paths os repo (p # ps) =
     bindS (git_write os (rp_root repo) [''--literal-pathspecs'', ''clean'', ''-f'', ''--'', p] []) (\<lambda>_.
       clean_paths os repo ps)"

definition restore_command :: "discard_source \<Rightarrow> string list" where
  "restore_command src = [''--literal-pathspecs'', ''restore'', ''--worktree'',
     ''--pathspec-from-file=-'', ''--pathspec-file-nul''] @
     (if src = FromHead then [''--source=HEAD'', ''--staged''] else [])"

definition apply_discard ::
  "libs \<Rightarrow> diff_lib \<Rightarrow> 'w os \<Rightarrow> repo \<Rightarrow> capture \<Rightarrow> string \<Rightarrow> string list \<Rightarrow> discard_source \<Rightarrow>
   hunk_selection option \<Rightarrow> ('w gst, json) step" where
  "apply_discard lb dl os repo cp snapshot ids src hunks =
     (case hunks of
        Some sel \<Rightarrow>
          bindS (guardS (length ids = 1) (gerror_invalid ''Partial discard requires one file.'')) (\<lambda>_.
          bindS (selection lb dl os repo snapshot (ids ! 0)
                   (if src = FromHead then HeadToWorktree else IndexToWorktree) sel True) (\<lambda>p.
          bindS (write_run os repo [''apply'', ''--recount'', ''--whitespace=nowarn'', ''-''] p) (\<lambda>_.
            retS (JObj [(''indexChanged'', JBool False), (''refreshRequired'', JBool True)]))))
      | None \<Rightarrow>
          bindS (liftS (entry_input lb cp ids)) (\<lambda>_.
          bindS (liftS (discard_split lb cp ids)) (\<lambda>(tracked, untracked).
          bindS (if tracked = [] then retS ()
                 else bindS (liftS (entry_input lb cp tracked)) (\<lambda>input.
                        write_run os repo (restore_command src) input)) (\<lambda>_.
          bindS (clean_paths os repo untracked) (\<lambda>_.
            retS (JObj [(''indexChanged'', JBool (src = FromHead)), (''refreshRequired'', JBool True)]))))))"

definition side_name :: "conflict_side \<Rightarrow> string" where
  "side_name sd = (case sd of Base \<Rightarrow> ''base'' | Ours \<Rightarrow> ''ours'' | Theirs \<Rightarrow> ''theirs'')"

definition stage_arg :: "conflict_side \<Rightarrow> string" where
  "stage_arg sd = (case sd of Base \<Rightarrow> ''--stage=1'' | Ours \<Rightarrow> ''--stage=2'' | Theirs \<Rightarrow> ''--stage=3'')"

definition apply_conflict ::
  "libs \<Rightarrow> 'w os \<Rightarrow> repo \<Rightarrow> capture \<Rightarrow> string list \<Rightarrow> conflict_side \<Rightarrow> string option \<Rightarrow> ('w gst, json) step"
where
  "apply_conflict lb os repo cp ids sd expected =
     bindS (guardS (length ids = 1) (gerror_invalid ''Resolve one conflict at a time.'')) (\<lambda>_.
     bindS (liftS (ok_or stale (find (\<lambda>r. jget r ''entryId'' = JStr (ids ! 0) \<and>
              is_true (jget r ''conflicted'')) (cp_rows cp)))) (\<lambda>row.
     let selected = jget (jget row ''conflict'') (side_name sd) in
     bindS (guardS (jstr (jget (jget selected ''oid'') ''hex'') = expected) stale) (\<lambda>_.
     bindS (liftS (entry_input lb cp ids)) (\<lambda>input.
       if selected = JNull
       then bindS (write_run os repo [''--literal-pathspecs'', ''rm'', ''-f'', ''--ignore-unmatch'',
                     ''--pathspec-from-file=-'', ''--pathspec-file-nul''] input) (\<lambda>_. retS refresh)
       else bindS (write_run os repo [''checkout-index'', ''--force'', stage_arg sd, ''-z'', ''--stdin''] input)
              (\<lambda>_. bindS (write_run os repo [''--literal-pathspecs'', ''add'', ''--pathspec-from-file=-'',
                     ''--pathspec-file-nul''] input) (\<lambda>_. retS refresh))))))"

definition apply_index ::
  "libs \<Rightarrow> diff_lib \<Rightarrow> 'w os \<Rightarrow> repo \<Rightarrow> capture \<Rightarrow> string \<Rightarrow> index_action \<Rightarrow> ('w gst, json) step" where
  "apply_index lb dl os repo cp snapshot a =
     (case a of
        Stage ids hunks \<Rightarrow> apply_stage lb dl os repo cp snapshot True ids hunks
      | Unstage ids hunks \<Rightarrow> apply_stage lb dl os repo cp snapshot False ids hunks
      | Discard ids src hunks \<Rightarrow> apply_discard lb dl os repo cp snapshot ids src hunks
      | ConflictResolve ids sd expected \<Rightarrow> apply_conflict lb os repo cp ids sd expected)"

section \<open>Branches, tags, checkout and reset\<close>

definition reset_flag :: "reset_mode \<Rightarrow> string" where
  "reset_flag m = (case m of Soft \<Rightarrow> ''--soft'' | Mixed \<Rightarrow> ''--mixed'' | Hard \<Rightarrow> ''--hard'')"

definition apply_upstream ::
  "libs \<Rightarrow> 'w os \<Rightarrow> repo \<Rightarrow> string \<Rightarrow> string \<Rightarrow> string \<Rightarrow> string option \<Rightarrow> ('w gst, json) step" where
  "apply_upstream lb os repo n expected token upstream =
     bindS (valid_name os repo n ''heads'') (\<lambda>reference.
     bindS (expect_ref os repo reference expected) (\<lambda>_.
     bindS (tracking lb os repo n) (\<lambda>tr.
     bindS (guardS (jget tr ''token'' = JStr token)
              (gerror_new ''STALE_REFERENCE'' ''Upstream configuration changed.'')) (\<lambda>_.
     bindS (guardS (is_true (jget tr ''editable''))
              (gerror_new ''UNSUPPORTED_CONFIGURATION''
                 ''Inherited upstream configuration is not editable.'')) (\<lambda>_.
     bindS (liftS (case upstream of
              Some u \<Rightarrow> bindR (valid_text u) (\<lambda>_. Inr [''branch'', ''--set-upstream-to='' @ u, n])
            | None \<Rightarrow> Inr [''branch'', ''--unset-upstream'', n])) (\<lambda>command.
     bindS (write_run os repo command []) (\<lambda>_.
     bindS (tracking lb os repo n) (\<lambda>tr2.
       retS (JObj [(''tracking'', tr2), (''upstream'', jopt JStr upstream),
         (''refreshRequired'', JBool True)])))))))))"

definition apply_checkout :: "libs \<Rightarrow> 'w os \<Rightarrow> repo \<Rightarrow> checkout_target \<Rightarrow> ('w gst, json) step" where
  "apply_checkout lb os repo t =
     bindS (case t of
        CheckoutBranch n expected \<Rightarrow>
          bindS (valid_name os repo n ''heads'') (\<lambda>reference.
          bindS (expect_ref os repo reference expected) (\<lambda>_.
            write_run os repo [''switch'', ''--no-guess'', n] []))
      | Detached ident \<Rightarrow>
          bindS (commit_target os repo ident) (\<lambda>_.
            write_run os repo [''switch'', ''--detach'', ident] [])) (\<lambda>_.
     bindS (head lb os repo) (\<lambda>h1.
     bindS (head lb os repo) (\<lambda>h2.
       retS (JObj [(''detached'', jget h1 ''detached''), (''oid'', head_hex h2),
         (''refreshRequired'', JBool True)]))))"

definition apply_tag_create ::
  "libs \<Rightarrow> 'w os \<Rightarrow> repo \<Rightarrow> string \<Rightarrow> string \<Rightarrow> annotation option \<Rightarrow> ('w gst, json) step" where
  "apply_tag_create lb os repo n target ann =
     bindS (valid_name os repo n ''tags'') (\<lambda>_.
     bindS (liftS (oid target)) (\<lambda>_.
     bindS (case ann of
        Some a \<Rightarrow>
          bindS (liftS (valid_message lb (an_message a))) (\<lambda>_.
          bindS (liftS (identity_args (an_author a))) (\<lambda>ident.
            write_run os repo (ident @ [''tag'', ''-a'', n, target, ''--file=-'']) (an_message a)))
      | None \<Rightarrow> write_run os repo [''tag'', n, target] []) (\<lambda>_.
     bindS (repo_run os repo [''rev-parse'', ''--verify'', ''refs/tags/'' @ n]) (\<lambda>b.
       retS (JObj [(''oid'', JStr (lossy lb (trim_line b))), (''targetOid'', JStr target),
         (''refreshRequired'', JBool True)])))))"

definition apply_ref :: "libs \<Rightarrow> 'w os \<Rightarrow> repo \<Rightarrow> ref_action \<Rightarrow> ('w gst, json) step" where
  "apply_ref lb os repo a =
     (case a of
        BranchCreate n start \<Rightarrow>
          bindS (valid_name os repo n ''heads'') (\<lambda>_.
          bindS (commit_target os repo start) (\<lambda>_.
          bindS (write_run os repo [''branch'', n, start] []) (\<lambda>_. retS refresh)))
      | BranchRename n new expected \<Rightarrow>
          bindS (valid_name os repo n ''heads'') (\<lambda>reference.
          bindS (valid_name os repo new ''heads'') (\<lambda>_.
          bindS (expect_ref os repo reference expected) (\<lambda>_.
          bindS (write_run os repo [''branch'', ''-m'', n, new] []) (\<lambda>_. retS refresh))))
      | BranchDelete n expected force \<Rightarrow>
          bindS (valid_name os repo n ''heads'') (\<lambda>reference.
          bindS (expect_ref os repo reference expected) (\<lambda>_.
          bindS (write_run os repo [''branch'', if force then ''-D'' else ''-d'', n] []) (\<lambda>_. retS refresh)))
      | BranchSetUpstream n expected token upstream \<Rightarrow>
          apply_upstream lb os repo n expected token upstream
      | Checkout t \<Rightarrow> apply_checkout lb os repo t
      | TagCreate n target ann \<Rightarrow> apply_tag_create lb os repo n target ann
      | TagDelete n expected \<Rightarrow>
          bindS (valid_name os repo n ''tags'') (\<lambda>reference.
          bindS (expect_ref os repo reference expected) (\<lambda>_.
          bindS (write_run os repo [''update-ref'', ''-d'', reference, expected] []) (\<lambda>_. retS refresh)))
      | Reset target expected m \<Rightarrow>
          bindS (expect_ref os repo ''HEAD'' expected) (\<lambda>_.
          bindS (commit_target os repo target) (\<lambda>_.
          bindS (write_run os repo [''reset'', reset_flag m, target] []) (\<lambda>_.
            retS (JObj [(''previousOid'', JStr expected), (''oid'', JStr target),
              (''refreshRequired'', JBool True)])))))"

end
