(* ===== verification/Operations.thy ===== *)
theory Operations
  imports Writes
begin

text \<open>
  The remaining actions of \<open>git/cli/writes.rs\<close> (remotes and pushes, stashes, commits and
  integrations) and \<open>apply\<close>, which dispatches every action.
\<close>

section \<open>Remotes\<close>

definition lease_arg :: "string \<Rightarrow> string \<Rightarrow> string" where
  "lease_arg reference expected = ''--force-with-lease='' @ reference @ '':'' @ expected"

definition delete_remote ::
  "libs \<Rightarrow> 'w os \<Rightarrow> repo \<Rightarrow> string \<Rightarrow> string \<Rightarrow> string \<Rightarrow> string \<Rightarrow> bool \<Rightarrow> ('w gst, json) step" where
  "delete_remote lb os repo n token branch expected is_tag =
     bindS (expect_remote lb os repo n token) (\<lambda>_.
     bindS (liftS (oid expected)) (\<lambda>_.
     bindS (guardS (\<not> list_all (\<lambda>c. c = CHR ''0'') expected)
              (gerror_invalid ''Deleting a remote reference requires its existing object ID.'')) (\<lambda>_.
     bindS (valid_name os repo branch (if is_tag then ''tags'' else ''heads'')) (\<lambda>reference.
     bindS (remote_lease lb os repo n reference expected) (\<lambda>_.
     bindS (write_run os repo [''push'', ''--porcelain'', lease_arg reference expected, ''--'', n,
              '':'' @ reference] []) (\<lambda>_.
       retS (JObj [(''deleted'', JBool True), (''leaseMatched'', JBool True), (''oid'', JNull),
         (''destinationTag'', if is_tag then JStr branch else JNull),
         (''refreshRequired'', JBool True)])))))))"

definition apply_remote :: "libs \<Rightarrow> 'w os \<Rightarrow> repo \<Rightarrow> remote_action \<Rightarrow> ('w gst, json) step" where
  "apply_remote lb os repo a =
     (case a of
        RemoteAdd n url \<Rightarrow>
          bindS (valid_name os repo n ''remotes'') (\<lambda>_.
          bindS (liftS (validate_url lb url)) (\<lambda>_.
          bindS (write_run os repo [''remote'', ''add'', ''--'', n, url] []) (\<lambda>_. retS refresh)))
      | RemoteRename n new token \<Rightarrow>
          bindS (expect_remote lb os repo n token) (\<lambda>_.
          bindS (valid_name os repo new ''remotes'') (\<lambda>_.
          bindS (repo_run os repo [''for-each-ref'', ''--format=%(refname)'', ''refs/remotes/'' @ n @ ''/''])
            (\<lambda>b.
          bindS (write_run os repo [''remote'', ''rename'', ''--'', n, new] []) (\<lambda>_.
          bindS (remote_info lb os repo new) (\<lambda>info.
            retS (JObj [(''renamedReferences'', jnat (length (lines_of b))),
              (''token'', jget info ''token''), (''refreshRequired'', JBool True)]))))))
      | RemoteSetUrl n url token \<Rightarrow>
          bindS (expect_remote lb os repo n token) (\<lambda>_.
          bindS (liftS (validate_url lb url)) (\<lambda>_.
          bindS (write_run os repo [''remote'', ''set-url'', ''--'', n, url] []) (\<lambda>_. retS refresh)))
      | RemoteRemove n token \<Rightarrow>
          bindS (expect_remote lb os repo n token) (\<lambda>_.
          bindS (write_run os repo [''remote'', ''remove'', ''--'', n] []) (\<lambda>_. retS refresh))
      | Fetch n token prune \<Rightarrow>
          bindS (expect_remote lb os repo n token) (\<lambda>_.
          bindS (write_run os repo ([''fetch'', ''--no-recurse-submodules''] @
                   (if prune then [''--prune''] else []) @ [''--'', n]) []) (\<lambda>_. retS refresh))
      | PullFastForward n token branch \<Rightarrow>
          bindS (expect_remote lb os repo n token) (\<lambda>_.
          bindS (valid_name os repo branch ''heads'') (\<lambda>reference.
          bindS (write_run os repo [''fetch'', ''--no-recurse-submodules'', ''--'', n, reference] []) (\<lambda>_.
          bindS (write_run os repo [''merge'', ''--ff-only'', ''--no-edit'', ''FETCH_HEAD''] []) (\<lambda>_.
            retS refresh))))
      | Push n token branch expected destination \<Rightarrow>
          bindS (expect_remote lb os repo n token) (\<lambda>_.
          bindS (valid_name os repo branch ''heads'') (\<lambda>reference.
          bindS (expect_ref os repo reference expected) (\<lambda>_.
          bindS (valid_name os repo destination ''heads'') (\<lambda>dest.
          bindS (write_run os repo [''push'', ''--porcelain'', ''--'', n, expected @ '':'' @ dest] []) (\<lambda>_.
            retS refresh)))))
      | PushWithLease n token branch expected destination expected_remote \<Rightarrow>
          bindS (expect_remote lb os repo n token) (\<lambda>_.
          bindS (valid_name os repo branch ''heads'') (\<lambda>reference.
          bindS (expect_ref os repo reference expected) (\<lambda>_.
          bindS (liftS (oid expected_remote)) (\<lambda>_.
          bindS (valid_name os repo destination ''heads'') (\<lambda>dest.
          bindS (remote_lease lb os repo n dest expected_remote) (\<lambda>_.
          bindS (write_run os repo [''push'', ''--porcelain'', lease_arg dest expected_remote, ''--'', n,
                   expected @ '':'' @ dest] []) (\<lambda>_.
            retS (JObj [(''leaseMatched'', JBool True), (''refreshRequired'', JBool True)]))))))))
      | BranchDeleteRemote n token branch expected \<Rightarrow> delete_remote lb os repo n token branch expected False
      | TagDeleteRemote n token tag expected \<Rightarrow> delete_remote lb os repo n token tag expected True
      | TagPush n token tag expected \<Rightarrow>
          bindS (expect_remote lb os repo n token) (\<lambda>_.
          bindS (valid_name os repo tag ''tags'') (\<lambda>reference.
          bindS (expect_ref os repo reference expected) (\<lambda>_.
          bindS (write_run os repo [''push'', ''--porcelain'', ''--'', n, expected @ '':'' @ reference] []) (\<lambda>_.
            retS refresh)))))"

section \<open>Stashes\<close>

definition stale_stash :: "string \<Rightarrow> gerror" where
  "stale_stash m = gerror_new ''STALE_STASH'' m"

definition stash_matches :: "json list \<Rightarrow> string \<Rightarrow> nat option \<Rightarrow> nat list" where
  "stash_matches rows ident index =
     filter (\<lambda>k. jget (rows ! k) ''oid'' = JStr ident \<and> (index = None \<or> index = Some k)) [0..<length rows]"

definition stash_selection ::
  "libs \<Rightarrow> 'w os \<Rightarrow> repo \<Rightarrow> string \<Rightarrow> nat option \<Rightarrow> string \<Rightarrow> ('w gst, string) step" where
  "stash_selection lb os repo ident index token =
     bindS (stash_rows lb os repo) (\<lambda>(rows, current).
     bindS (guardS (current = token) (stale_stash ''The stash list changed.'')) (\<lambda>_.
     let ms = stash_matches rows ident index in
     bindS (guardS (length ms = 1) (stale_stash ''Select one current stash entry.'')) (\<lambda>_.
       retS (''stash@'' @ ''{'' @ show_nat (ms ! 0) @ ''}''))))"

definition conflicted_count :: "json \<Rightarrow> bool" where
  "conflicted_count v = (case jget (jget v ''groupCounts'') ''conflicted'' of JNum n \<Rightarrow> 0 < n | _ \<Rightarrow> False)"

definition stash_restore ::
  "libs \<Rightarrow> 'w os \<Rightarrow> repo \<Rightarrow> bool \<Rightarrow> string \<Rightarrow> nat option \<Rightarrow> string \<Rightarrow> bool \<Rightarrow> ('w gst, json) step" where
  "stash_restore lb os repo pop ident index token reinstate =
     bindS (stash_selection lb os repo ident index token) (\<lambda>selected.
     bindS (attemptS (write_run os repo ([''stash'', if pop then ''pop'' else ''apply''] @
              (if reinstate then [''--index''] else []) @ [selected]) [])) (\<lambda>result.
     bindS (summary lb os repo) (\<lambda>v.
     let conflicts = conflicted_count v in
     bindS (if conflicts then retS () else liftS result) (\<lambda>_.
       retS (JObj [(''oid'', JStr ident), (''applied'', JBool True), (''dropped'', JBool (pop \<and> \<not> conflicts)),
         (''needsResolution'', JBool conflicts), (''refreshRequired'', JBool True)])))))"

definition apply_stash :: "libs \<Rightarrow> 'w os \<Rightarrow> repo \<Rightarrow> capture \<Rightarrow> stash_action \<Rightarrow> ('w gst, json) step" where
  "apply_stash lb os repo cp a =
     (case a of
        StashSave msg include keep au \<Rightarrow>
          bindS (guardS (length msg \<le> 65536 \<and> CHR 0x00 \<notin> set msg) (gerror_invalid ''Invalid stash message.''))
            (\<lambda>_.
          bindS (liftS (identity_args au)) (\<lambda>ident.
          bindS (guardS (cp_rows cp \<noteq> []) (gerror_new ''NOTHING_TO_STASH'' ''There are no changes to stash.''))
            (\<lambda>_.
          bindS (write_run os repo (ident @ [''stash'', ''push'', ''--message'', msg] @
                   (if include then [''--include-untracked''] else []) @
                   (if keep then [''--keep-index''] else [])) []) (\<lambda>_.
          bindS (repo_run os repo [''rev-parse'', ''refs/stash'']) (\<lambda>b.
            retS (JObj [(''oid'', JStr (lossy lb (trim_line b))), (''saved'', JBool True),
              (''refreshRequired'', JBool True)]))))))
      | StashApply ident index token reinstate \<Rightarrow> stash_restore lb os repo False ident index token reinstate
      | StashPop ident index token reinstate \<Rightarrow> stash_restore lb os repo True ident index token reinstate
      | StashDrop ident index token \<Rightarrow>
          bindS (stash_selection lb os repo ident index token) (\<lambda>selected.
          bindS (write_run os repo [''stash'', ''drop'', selected] []) (\<lambda>_.
            retS (JObj [(''oid'', JStr ident), (''dropped'', JBool True), (''refreshRequired'', JBool True)]))))"

section \<open>Commits and integrations\<close>

definition apply_commit ::
  "libs \<Rightarrow> 'w os \<Rightarrow> repo \<Rightarrow> capture \<Rightarrow> string \<Rightarrow> author option \<Rightarrow> ('w gst, json) step" where
  "apply_commit lb os repo cp msg au =
     bindS (liftS (valid_message lb msg)) (\<lambda>_.
     bindS (liftS (identity_args au)) (\<lambda>ident.
     bindS (repo_state os repo) (\<lambda>st.
     let merging = (st = ''Merge'') in
     bindS (write_run os repo (ident @ [''commit'', ''--file=-'']) msg) (\<lambda>_.
     bindS (head lb os repo) (\<lambda>h.
     bindS (if merging then removeW os (marker_path repo) else retS ()) (\<lambda>_.
       retS (JObj [(''mergeCompleted'', JBool merging), (''commitOid'', head_hex h),
         (''parentOid'', jget (jget (jget (cp_metadata cp) ''head'') ''oid'') ''hex''),
         (''refreshRequired'', JBool True)])))))))"

definition apply_amend ::
  "libs \<Rightarrow> 'w os \<Rightarrow> repo \<Rightarrow> string \<Rightarrow> string \<Rightarrow> author option \<Rightarrow> author option \<Rightarrow> ('w gst, json) step" where
  "apply_amend lb os repo expected msg committer au =
     bindS (expect_ref os repo ''HEAD'' expected) (\<lambda>_.
     bindS (liftS (valid_message lb msg)) (\<lambda>_.
     bindS (liftS (identity_args committer)) (\<lambda>ident.
     bindS (liftS (case au of None \<Rightarrow> Inr []
              | Some x \<Rightarrow> bindR (valid_text (au_name x)) (\<lambda>_. bindR (valid_text (au_email x)) (\<lambda>_.
                  Inr [''--author='' @ au_name x @ '' <'' @ au_email x @ ''>''])))) (\<lambda>extra.
     bindS (write_run os repo (ident @ [''commit'', ''--amend'', ''--file=-''] @ extra) msg) (\<lambda>_.
     bindS (head lb os repo) (\<lambda>h.
       retS (JObj [(''amended'', JBool True), (''replacedOid'', JStr expected), (''commitOid'', head_hex h),
         (''refreshRequired'', JBool True)])))))))"

definition finish_integration ::
  "libs \<Rightarrow> 'w os \<Rightarrow> repo \<Rightarrow> gerror + unit \<Rightarrow> string \<Rightarrow> bool \<Rightarrow> ('w gst, json) step" where
  "finish_integration lb os repo result kind aborted =
     bindS (repo_state os repo) (\<lambda>st.
       if st \<noteq> ''Clean''
       then bindS (integration os repo) (\<lambda>info.
              if is_true (jget info ''managed'')
              then retS (JObj [(''needsResolution'', JBool True), (''refreshRequired'', JBool True)])
              else liftS (mapR (\<lambda>_. refresh) result))
       else
         bindS (removeW os (marker_path repo)) (\<lambda>_.
         bindS (liftS result) (\<lambda>_.
         bindS (head lb os repo) (\<lambda>h1.
         bindS (head lb os repo) (\<lambda>h2.
           retS (JObj [(''needsResolution'', JBool False), (''aborted'', JBool aborted),
             (''mergeCompleted'', JBool (\<not> aborted \<and> kind = ''merge'')),
             (''integrationCompleted'', if aborted then JNull else JStr kind),
             (''commitOid'', head_hex h1), (''oid'', head_hex h2), (''refreshRequired'', JBool True)]))))))"

definition integrate ::
  "libs \<Rightarrow> 'w os \<Rightarrow> repo \<Rightarrow> string list \<Rightarrow> string \<Rightarrow> ('w gst, json) step" where
  "integrate lb os repo command kind =
     bindS (repo_state os repo) (\<lambda>st.
     bindS (guardS (st = ''Clean'') (gerror_new ''INTEGRATION_IN_PROGRESS''
              ''Finish or abort the active integration first.'')) (\<lambda>_.
     bindS (writeW os (marker_path repo) (''1'' @ [CHR 0x0A])) (\<lambda>_.
     bindS (attemptS (write_run os repo command [])) (\<lambda>result.
       finish_integration lb os repo result kind False))))"

definition pick_args :: "bool \<Rightarrow> string list \<Rightarrow> nat \<Rightarrow> string \<Rightarrow> string list" where
  "pick_args reverting ident mainline target =
     ident @ [if reverting then ''revert'' else ''cherry-pick'', ''--no-edit''] @
     (if 0 < mainline then [''-m'', show_nat mainline] else []) @ [target]"

definition apply_pick ::
  "libs \<Rightarrow> 'w os \<Rightarrow> repo \<Rightarrow> bool \<Rightarrow> string \<Rightarrow> nat \<Rightarrow> author option \<Rightarrow> ('w gst, json) step" where
  "apply_pick lb os repo reverting target mainline au =
     bindS (commit_target os repo target) (\<lambda>_.
     bindS (liftS (identity_args au)) (\<lambda>ident.
       integrate lb os repo (pick_args reverting ident mainline target)
         (if reverting then ''revert'' else ''cherry_pick'')))"

definition apply_rebase ::
  "libs \<Rightarrow> 'w os \<Rightarrow> repo \<Rightarrow> string \<Rightarrow> string option \<Rightarrow> author option \<Rightarrow> ('w gst, json) step" where
  "apply_rebase lb os repo upstream onto committer =
     bindS (commit_target os repo upstream) (\<lambda>_.
     bindS (liftS (identity_args committer)) (\<lambda>ident.
     bindS (case onto of None \<Rightarrow> retS []
            | Some x \<Rightarrow> bindS (commit_target os repo x) (\<lambda>_. retS [''--onto'', x])) (\<lambda>extra.
       integrate lb os repo (ident @ [''rebase'', ''--no-autostash''] @ extra @ [upstream]) ''rebase'')))"

datatype resume = Continue "string option" "author option" | Skip | Abort

definition integration_command :: "json \<Rightarrow> string option" where
  "integration_command info =
     (if jget info ''kind'' = JStr ''merge'' then Some ''merge''
      else if jget info ''kind'' = JStr ''rebase'' then Some ''rebase''
      else if jget info ''kind'' = JStr ''cherry_pick'' then Some ''cherry-pick''
      else if jget info ''kind'' = JStr ''revert'' then Some ''revert'' else None)"

text \<open>The command and its input that continue, skip or abort an integration.\<close>

definition resume_command :: "libs \<Rightarrow> string \<Rightarrow> resume \<Rightarrow> gerror + string list \<times> bytes" where
  "resume_command lb kind r =
     (case r of
        Continue msg au \<Rightarrow>
          bindR (identity_args au) (\<lambda>ident.
            if kind = ''merge''
            then (case msg of
                    Some m \<Rightarrow> bindR (valid_message lb m) (\<lambda>_. Inr (ident @ [''commit'', ''--file=-''], m))
                  | None \<Rightarrow> Inr (ident @ [''commit'', ''--no-edit''], []))
            else Inr (ident @ [kind, ''--continue''], []))
      | Skip \<Rightarrow> if kind = ''merge'' then Inl (gerror_invalid ''Merge cannot be skipped.'')
                else Inr ([kind, ''--skip''], [])
      | Abort \<Rightarrow> Inr ([kind, ''--abort''], []))"

definition apply_resume :: "libs \<Rightarrow> 'w os \<Rightarrow> repo \<Rightarrow> resume \<Rightarrow> ('w gst, json) step" where
  "apply_resume lb os repo r =
     bindS (integration os repo) (\<lambda>info.
     bindS (guardS (is_true (jget info ''managed'')) (gerror_new ''UNMANAGED_INTEGRATION''
              ''This integration was not started by the CLI backend.'')) (\<lambda>_.
     bindS (liftS (ok_or (gerror_new ''NO_INTEGRATION'' ''There is no integration to continue.'')
              (integration_command info))) (\<lambda>kind.
     bindS (liftS (resume_command lb kind r)) (\<lambda>(command, input).
     bindS (attemptS (write_run os repo command input)) (\<lambda>result.
       finish_integration lb os repo result (jstr_or_empty (jget info ''kind'')) (r = Abort))))))"

definition apply_history :: "libs \<Rightarrow> 'w os \<Rightarrow> repo \<Rightarrow> capture \<Rightarrow> history_action \<Rightarrow> ('w gst, json) step" where
  "apply_history lb os repo cp a =
     (case a of
        Commit msg au \<Rightarrow> apply_commit lb os repo cp msg au
      | Amend expected msg committer au \<Rightarrow> apply_amend lb os repo expected msg committer au
      | FastForward target \<Rightarrow>
          bindS (commit_target os repo target) (\<lambda>_.
          bindS (write_run os repo [''merge'', ''--ff-only'', ''--no-edit'', target] []) (\<lambda>_.
          bindS (head lb os repo) (\<lambda>h1.
          bindS (head lb os repo) (\<lambda>h2.
            retS (JObj [(''fastForwarded'', JBool (jget (jget (cp_metadata cp) ''head'') ''oid'' \<noteq> jget h1 ''oid'')),
              (''oid'', head_hex h2), (''refreshRequired'', JBool True)])))))
      | Merge target \<Rightarrow>
          bindS (commit_target os repo target) (\<lambda>_.
            integrate lb os repo [''merge'', ''--no-edit'', target] ''merge'')
      | CherryPick target mainline au \<Rightarrow> apply_pick lb os repo False target mainline au
      | Revert target mainline au \<Rightarrow> apply_pick lb os repo True target mainline au
      | Rebase upstream onto committer \<Rightarrow> apply_rebase lb os repo upstream onto committer
      | MergeAbort \<Rightarrow> apply_resume lb os repo Abort
      | IntegrationAbort \<Rightarrow> apply_resume lb os repo Abort
      | IntegrationSkip \<Rightarrow> apply_resume lb os repo Skip
      | IntegrationContinue msg au \<Rightarrow> apply_resume lb os repo (Continue msg au))"

section \<open>Dispatch\<close>

definition apply_action ::
  "libs \<Rightarrow> diff_lib \<Rightarrow> 'w os \<Rightarrow> repo \<Rightarrow> action \<Rightarrow> capture \<Rightarrow> string \<Rightarrow> ('w gst, json) step" where
  "apply_action lb dl os repo a cp snapshot =
     (case a of
        Worktree w \<Rightarrow> worktree_apply lb os repo w
      | Index x \<Rightarrow> apply_index lb dl os repo cp snapshot x
      | Ref x \<Rightarrow> apply_ref lb os repo x
      | Remote x \<Rightarrow> apply_remote lb os repo x
      | Stash x \<Rightarrow> apply_stash lb os repo cp x
      | Hist x \<Rightarrow> apply_history lb os repo cp x)"

definition is_worktree :: "action \<Rightarrow> bool" where
  "is_worktree a = (case a of Worktree w \<Rightarrow> True | _ \<Rightarrow> False)"

section \<open>What a mutation runs\<close>

text \<open>\<open>writes_one c m\<close>: \<open>m\<close> runs the mutation \<open>c\<close> and no other, and fails if it does not run it.\<close>

definition writes_one :: "string list \<times> bytes \<Rightarrow> ('w gst, 'a) step \<Rightarrow> bool" where
  "writes_one c m \<longleftrightarrow> (\<forall>s. mutations (fst (m s)) = mutations s @ [c] \<or>
     (mutations (fst (m s)) = mutations s \<and> (\<exists>e. snd (m s) = Inl e)))"

lemma git_write_one: "writes_one (args, input) (git_write os root args input)"
  unfolding writes_one_def
proof
  fix s
  obtain s1 r where e: "execute os Mutation root args input s = (s1, r)"
    by (cases "execute os Mutation root args input s")
  have l: "mutations s1 = mutations s @ [(args, input)] \<or> (mutations s1 = mutations s \<and> (\<exists>e. r = Inl e))"
    using e unfolding execute_def execute_capture_def mutations_def log_start_def
    by (auto simp: Let_def split: prod.splits spawned.splits option.splits wait_outcome.splits if_splits)
  have "fst (git_write os root args input s) = s1"
    by (cases r) (auto simp: git_write_def bindS_def map_errS_def e)
  moreover have "\<exists>e. snd (git_write os root args input s) = Inl e" if "\<exists>e. r = Inl e"
    using that by (auto simp: git_write_def bindS_def map_errS_def e)
  ultimately show "mutations (fst (git_write os root args input s)) = mutations s @ [(args, input)] \<or>
      (mutations (fst (git_write os root args input s)) = mutations s \<and>
       (\<exists>e. snd (git_write os root args input s) = Inl e))"
    using l by auto
qed

lemma writes_one_map_err: "writes_one c m \<Longrightarrow> writes_one c (map_errS f m)"
  unfolding writes_one_def
proof
  fix s
  assume m: "\<forall>s. mutations (fst (m s)) = mutations s @ [c] \<or>
     (mutations (fst (m s)) = mutations s \<and> (\<exists>e. snd (m s) = Inl e))"
  obtain s1 r where e: "m s = (s1, r)" by (cases "m s")
  have "mutations s1 = mutations s @ [c] \<or> (mutations s1 = mutations s \<and> (\<exists>e. r = Inl e))"
    using m [rule_format, of s] e by simp
  moreover have "map_errS f m s = (s1, map_errR f r)" by (simp add: map_errS_def e)
  ultimately show "mutations (fst (map_errS f m s)) = mutations s @ [c] \<or>
     (mutations (fst (map_errS f m s)) = mutations s \<and> (\<exists>e. snd (map_errS f m s) = Inl e))"
    by (cases r) auto
qed

lemma write_run_one: "writes_one (args, input) (write_run os repo args input)"
  unfolding write_run_def by (rule writes_one_map_err [OF git_write_one])

lemma wo_before:
  assumes "preserves same_mutations m"
    and "\<And>s s' x. m s = (s', Inr x) \<Longrightarrow> writes_one c (k x)"
  shows "writes_one c (bindS m k)"
  unfolding writes_one_def
proof
  fix s
  obtain s1 r where e: "m s = (s1, r)" by (cases "m s")
  have q: "mutations s1 = mutations s"
    using assms(1) e unfolding preserves_def same_mutations_def by (metis fst_conv)
  show "mutations (fst (bindS m k s)) = mutations s @ [c] \<or>
     (mutations (fst (bindS m k s)) = mutations s \<and> (\<exists>e. snd (bindS m k s) = Inl e))"
  proof (cases r)
    case (Inl a)
    then show ?thesis using e q by (simp add: bindS_def)
  next
    case (Inr x)
    then have "writes_one c (k x)" using assms(2) e by blast
    then have "mutations (fst (k x s1)) = mutations s1 @ [c] \<or>
        (mutations (fst (k x s1)) = mutations s1 \<and> (\<exists>e. snd (k x s1) = Inl e))"
      unfolding writes_one_def by blast
    then show ?thesis using Inr e q by (simp add: bindS_def)
  qed
qed

lemma wo_after:
  assumes "writes_one c m" and "\<And>x. preserves same_mutations (k x)"
  shows "writes_one c (bindS m k)"
  unfolding writes_one_def
proof
  fix s
  obtain s1 r where e: "m s = (s1, r)" by (cases "m s")
  have m: "mutations s1 = mutations s @ [c] \<or> (mutations s1 = mutations s \<and> (\<exists>e. r = Inl e))"
    using assms(1) e unfolding writes_one_def by (metis fst_conv snd_conv)
  show "mutations (fst (bindS m k s)) = mutations s @ [c] \<or>
     (mutations (fst (bindS m k s)) = mutations s \<and> (\<exists>e. snd (bindS m k s) = Inl e))"
  proof (cases r)
    case (Inl a)
    then show ?thesis using e m by (auto simp: bindS_def)
  next
    case (Inr x)
    then have "mutations (fst (k x s1)) = mutations s1"
      using assms(2) unfolding preserves_def same_mutations_def by blast
    then show ?thesis using Inr e m by (simp add: bindS_def)
  qed
qed

lemma wo_fail: "writes_one c (failS e)"
  by (simp add: writes_one_def)

lemma expect_ref_quiet: "preserves same_mutations (expect_ref os repo r v)"
  unfolding expect_ref_def by (intro quiet.pres_rules repo_quiets)

lemma commit_target_quiet: "preserves same_mutations (commit_target os repo v)"
  unfolding commit_target_def by (intro quiet.pres_rules repo_quiets)

lemma expect_remote_quiet: "preserves same_mutations (expect_remote lb os repo n t)"
  unfolding expect_remote_def by (intro quiet.pres_rules refs_quiets)

lemma lease_urls_quiet: "preserves same_mutations (lease_urls lb os repo r e us)"
  by (induction us; unfold lease_urls.simps; intro quiet.pres_rules repo_quiets)

lemma remote_lease_quiet: "preserves same_mutations (remote_lease lb os repo n r e)"
  unfolding remote_lease_def by (intro quiet.pres_rules repo_quiets lease_urls_quiet)

lemmas check_quiets = valid_name_quiet expect_ref_quiet commit_target_quiet expect_remote_quiet
  remote_lease_quiet stash_rows_quiet refs_quiets repo_quiets quiet.pres_lift quiet.pres_guard
  quiet.pres_ret

definition heads :: "string \<Rightarrow> string" where
  "heads b = ''refs/heads/'' @ b"

definition tags :: "string \<Rightarrow> string" where
  "tags t = ''refs/tags/'' @ t"

lemma wo_heads:
  "writes_one c (k (heads v)) \<Longrightarrow> writes_one c (bindS (valid_name os repo v ''heads'') k)"
  by (rule wo_before [OF valid_name_quiet]) (auto dest: valid_name_reference simp: heads_def)

lemma wo_tags:
  "writes_one c (k (tags v)) \<Longrightarrow> writes_one c (bindS (valid_name os repo v ''tags'') k)"
  by (rule wo_before [OF valid_name_quiet]) (auto dest: valid_name_reference simp: tags_def)

lemma wo_name:
  "writes_one c (k (''refs/'' @ kind @ ''/'' @ v)) \<Longrightarrow> writes_one c (bindS (valid_name os repo v kind) k)"
  by (rule wo_before [OF valid_name_quiet]) (auto dest: valid_name_reference)

lemma wo_lift:
  "(\<And>x. r = Inr x \<Longrightarrow> writes_one c (k x)) \<Longrightarrow> writes_one c (bindS (liftS r) k)"
  by (rule wo_before [OF quiet.pres_lift]) auto

lemmas wo_checks = wo_heads wo_tags wo_lift wo_before [OF expect_remote_quiet] wo_before [OF expect_ref_quiet]
  wo_before [OF commit_target_quiet] wo_before [OF quiet.pres_guard] wo_before [OF remote_lease_quiet]
  wo_before [OF repo_run_quiet] wo_before [OF tracking_quiet] wo_before [OF repo_state_quiet]

lemmas wo_end = wo_after [OF write_run_one]

text \<open>The one Git command of an action, as a function of the request.\<close>

definition ident_list :: "author option \<Rightarrow> string list" where
  "ident_list a = (case a of None \<Rightarrow> []
     | Some x \<Rightarrow> [''-c'', ''user.name='' @ au_name x, ''-c'', ''user.email='' @ au_email x])"

fun remote_plan :: "remote_action \<Rightarrow> string list list" where
  "remote_plan (RemoteAdd n url) = [[''remote'', ''add'', ''--'', n, url]]"
| "remote_plan (RemoteRename n new t) = [[''remote'', ''rename'', ''--'', n, new]]"
| "remote_plan (RemoteSetUrl n url t) = [[''remote'', ''set-url'', ''--'', n, url]]"
| "remote_plan (RemoteRemove n t) = [[''remote'', ''remove'', ''--'', n]]"
| "remote_plan (Fetch n t prune) = [[''fetch'', ''--no-recurse-submodules''] @
     (if prune then [''--prune''] else []) @ [''--'', n]]"
| "remote_plan (PullFastForward n t b) = [[''fetch'', ''--no-recurse-submodules'', ''--'', n, heads b],
     [''merge'', ''--ff-only'', ''--no-edit'', ''FETCH_HEAD'']]"
| "remote_plan (Push n t b e d) = [[''push'', ''--porcelain'', ''--'', n, e @ '':'' @ heads d]]"
| "remote_plan (PushWithLease n t b e d er) =
     [[''push'', ''--porcelain'', lease_arg (heads d) er, ''--'', n, e @ '':'' @ heads d]]"
| "remote_plan (BranchDeleteRemote n t b e) =
     [[''push'', ''--porcelain'', lease_arg (heads b) e, ''--'', n, '':'' @ heads b]]"
| "remote_plan (TagDeleteRemote n t g e) =
     [[''push'', ''--porcelain'', lease_arg (tags g) e, ''--'', n, '':'' @ tags g]]"
| "remote_plan (TagPush n t g e) = [[''push'', ''--porcelain'', ''--'', n, e @ '':'' @ tags g]]"

text \<open>\<open>runs_prefix cs m\<close>: \<open>m\<close> runs a prefix of the commands \<open>cs\<close>, and all of them if it succeeds.\<close>

definition runs_prefix :: "(string list \<times> bytes) list \<Rightarrow> ('w gst, 'a) step \<Rightarrow> bool" where
  "runs_prefix cs m \<longleftrightarrow> (\<forall>s. \<exists>k \<le> length cs. mutations (fst (m s)) = mutations s @ take k cs \<and>
     (\<forall>x. snd (m s) = Inr x \<longrightarrow> k = length cs))"

lemma runs_one: "writes_one c m \<Longrightarrow> runs_prefix [c] m"
  unfolding writes_one_def runs_prefix_def
proof
  fix s
  assume "\<forall>s. mutations (fst (m s)) = mutations s @ [c] \<or>
     (mutations (fst (m s)) = mutations s \<and> (\<exists>e. snd (m s) = Inl e))"
  then consider "mutations (fst (m s)) = mutations s @ [c]"
    | e where "mutations (fst (m s)) = mutations s" "snd (m s) = Inl e" by blast
  then show "\<exists>k\<le>length [c]. mutations (fst (m s)) = mutations s @ take k [c] \<and>
     (\<forall>x. snd (m s) = Inr x \<longrightarrow> k = length [c])"
  proof cases
    case 1
    then show ?thesis by (intro exI [of _ 1]) simp
  next
    case 2
    then show ?thesis by (intro exI [of _ 0]) simp
  qed
qed

lemma runs_bind_one:
  assumes "preserves same_mutations m" "\<And>x s s'. m s = (s', Inr x) \<Longrightarrow> runs_prefix cs (k x)"
  shows "runs_prefix cs (bindS m k)"
  unfolding runs_prefix_def
proof
  fix s
  obtain s1 r where e: "m s = (s1, r)" by (cases "m s")
  have q: "mutations s1 = mutations s"
    using assms(1) e unfolding preserves_def same_mutations_def by (metis fst_conv)
  show "\<exists>j\<le>length cs. mutations (fst (bindS m k s)) = mutations s @ take j cs \<and>
     (\<forall>x. snd (bindS m k s) = Inr x \<longrightarrow> j = length cs)"
  proof (cases r)
    case (Inl a)
    then show ?thesis using e q by (intro exI [of _ 0]) (simp add: bindS_def)
  next
    case (Inr x)
    then have b: "bindS m k s = k x s1" using e by (simp add: bindS_def)
    have "runs_prefix cs (k x)" using assms(2) e Inr by blast
    then show ?thesis unfolding runs_prefix_def b using q by metis
  qed
qed

lemma runs_then:
  assumes "writes_one c m" "\<And>x. runs_prefix cs (k x)"
  shows "runs_prefix (c # cs) (bindS m k)"
  unfolding runs_prefix_def
proof
  fix s
  obtain s1 r where e: "m s = (s1, r)" by (cases "m s")
  have m: "mutations s1 = mutations s @ [c] \<or> (mutations s1 = mutations s \<and> (\<exists>e. r = Inl e))"
    using assms(1) e unfolding writes_one_def by (metis fst_conv snd_conv)
  show "\<exists>j\<le>length (c # cs). mutations (fst (bindS m k s)) = mutations s @ take j (c # cs) \<and>
     (\<forall>x. snd (bindS m k s) = Inr x \<longrightarrow> j = length (c # cs))"
  proof (cases r)
    case (Inl a)
    then have "bindS m k s = (s1, Inl a)" using e by (simp add: bindS_def)
    then show ?thesis using m
      by (elim disjE) (rule exI [of _ 1], simp, rule exI [of _ 0], simp)
  next
    case (Inr x)
    then have b: "bindS m k s = k x s1" using e by (simp add: bindS_def)
    obtain j where j: "j \<le> length cs" "mutations (fst (k x s1)) = mutations s1 @ take j cs"
      "\<forall>y. snd (k x s1) = Inr y \<longrightarrow> j = length cs"
      using assms(2) unfolding runs_prefix_def by blast
    have "mutations s1 = mutations s @ [c]" using m Inr by blast
    then show ?thesis unfolding b using j by (intro exI [of _ "Suc j"]) simp
  qed
qed

lemma delete_branch_one:
  "writes_one ([''push'', ''--porcelain'', lease_arg (heads b) e, ''--'', n, '':'' @ heads b], [])
     (delete_remote lb os repo n t b e False)"
  unfolding delete_remote_def if_False by (intro wo_checks wo_end quiet.pres_ret)

lemma delete_tag_one:
  "writes_one ([''push'', ''--porcelain'', lease_arg (tags b) e, ''--'', n, '':'' @ tags b], [])
     (delete_remote lb os repo n t b e True)"
  unfolding delete_remote_def if_True by (intro wo_checks wo_end quiet.pres_ret)

lemma pull_runs:
  "runs_prefix [([''fetch'', ''--no-recurse-submodules'', ''--'', n, heads b], []),
       ([''merge'', ''--ff-only'', ''--no-edit'', ''FETCH_HEAD''], [])]
     (apply_remote lb os repo (PullFastForward n t b))"
  unfolding apply_remote_def remote_action.case
proof (rule runs_bind_one [OF expect_remote_quiet], rule runs_bind_one [OF valid_name_quiet])
  fix u s s' r s1 s2
  assume "valid_name os repo b ''heads'' s1 = (s2, Inr r)"
  then have r: "r = heads b" using valid_name_reference by (fastforce simp: heads_def)
  show "runs_prefix [([''fetch'', ''--no-recurse-submodules'', ''--'', n, heads b], []),
       ([''merge'', ''--ff-only'', ''--no-edit'', ''FETCH_HEAD''], [])]
     (bindS (write_run os repo [''fetch'', ''--no-recurse-submodules'', ''--'', n, r] []) (\<lambda>_.
      bindS (write_run os repo [''merge'', ''--ff-only'', ''--no-edit'', ''FETCH_HEAD''] []) (\<lambda>_.
        retS refresh)))"
    unfolding r by (intro runs_then [OF write_run_one] runs_one wo_end quiet.pres_ret)
qed

lemma rename_one:
  "writes_one ([''remote'', ''rename'', ''--'', n, new], []) (apply_remote lb os repo (RemoteRename n new t))"
  unfolding apply_remote_def remote_action.case
  by (rule wo_before [OF expect_remote_quiet], rule wo_before [OF valid_name_quiet],
      intro wo_checks wo_end quiet.pres_bind remote_info_quiet quiet.pres_ret)

lemma add_one:
  "writes_one ([''remote'', ''add'', ''--'', n, url], []) (apply_remote lb os repo (RemoteAdd n url))"
  unfolding apply_remote_def remote_action.case
  by (rule wo_before [OF valid_name_quiet], intro wo_checks wo_end quiet.pres_ret)

lemma push_ones:
  "writes_one ([''remote'', ''set-url'', ''--'', n, url], []) (apply_remote lb os repo (RemoteSetUrl n url t))"
  "writes_one ([''remote'', ''remove'', ''--'', n], []) (apply_remote lb os repo (RemoteRemove n t))"
  "writes_one ([''fetch'', ''--no-recurse-submodules''] @ (if prune then [''--prune''] else []) @ [''--'', n], [])
     (apply_remote lb os repo (Fetch n t prune))"
  "writes_one ([''push'', ''--porcelain'', ''--'', n, e @ '':'' @ heads d], [])
     (apply_remote lb os repo (Push n t b e d))"
  "writes_one ([''push'', ''--porcelain'', lease_arg (heads d) er, ''--'', n, e @ '':'' @ heads d], [])
     (apply_remote lb os repo (PushWithLease n t b e d er))"
  "writes_one ([''push'', ''--porcelain'', ''--'', n, e @ '':'' @ tags g], [])
     (apply_remote lb os repo (TagPush n t g e))"
  unfolding apply_remote_def remote_action.case
  by (intro wo_checks wo_end quiet.pres_ret)+


end
