(* ===== verification/Journal.thy ===== *)
theory Journal
  imports Prelude
begin

text \<open>
  The durable operation journal of the agent, \<open>tools/agent/src/git/journal.rs\<close>: one file per
  operation in \<open>records/\<close>, advisory file locks in \<open>locks/\<close>, and the rule that a running record
  whose repository lock is free is uncertain and never retried.

  The file system is explicit: \<open>records\<close> is the directory in enumeration order, \<open>held\<close> the names
  of the lock files some open file description holds, and \<open>faults\<close> an oracle that says, for each
  atomic replacement in turn, whether the device fails before or after the rename. The JSON
  encoder, SHA-256 and the UUID parser are third-party and are the fields of \<open>jlib\<close>.
\<close>

section \<open>State\<close>

definition MAX_RECORD :: nat where "MAX_RECORD = 64 * 1024"
definition MAX_RECORDS :: nat where "MAX_RECORDS = 10000"
definition MAX_BYTES :: nat where "MAX_BYTES = 64 * 1024 * 1024"

record 'r op_record =
  r_id :: string
  r_repository :: string
  r_hash :: string
  r_state :: string
  r_seq :: u32
  r_result :: "'r option"
  r_error :: "gerror option"

record jfile =
  jf_regular :: bool
  jf_private :: bool
  jf_content :: bytes

record lockfile =
  lf_regular :: bool
  lf_private :: bool

datatype fault = NoFault | BeforeRename | AfterRename

record journal_fs =
  records :: "(string \<times> jfile) list"
  lock_files :: "(string \<times> lockfile) list"
  held :: "string list"
  faults :: "fault list"

record 'r jlib =
  jl_print :: "'r op_record \<Rightarrow> bytes option"
  jl_parse :: "bytes \<Rightarrow> 'r op_record option"
  jl_parse_envelope :: "bytes \<Rightarrow> unit op_record option"
  jl_uuid :: "string \<Rightarrow> bool"
  jl_sha256 :: "bytes \<Rightarrow> bytes"

record usage =
  u_count :: nat
  u_bytes :: nat

definition usage_default :: usage where
  "usage_default = \<lparr>u_count = 0, u_bytes = 0\<rparr>"

definition failure :: gerror where
  "failure = gerror_new ''JOURNAL_UNAVAILABLE''
     ''Operation records could not be safely read or saved.''"

text \<open>\<open>hash\<close>: lower-case hexadecimal of the digest.\<close>

definition hexdigit :: "nat \<Rightarrow> char" where
  "hexdigit n = (''0123456789abcdef'' ! n)"

definition hexbyte :: "char \<Rightarrow> string" where
  "hexbyte c = [hexdigit (byte c div 16), hexdigit (byte c mod 16)]"

definition hash :: "'r jlib \<Rightarrow> bytes \<Rightarrow> string" where
  "hash lib b = concat (map hexbyte (jl_sha256 lib b))"

definition uuid :: "'r jlib \<Rightarrow> string \<Rightarrow> gerror + unit" where
  "uuid lib s = (if jl_uuid lib s then Inr ()
                 else Inl (gerror_invalid ''Operation and client IDs must be UUIDs.''))"

section \<open>Opening a journal\<close>

record dir_meta =
  d_is_dir :: bool
  d_private :: bool

text \<open>A missing directory is created with mode 0700; what is there must be a private directory.\<close>

definition private_directory ::
  "string \<Rightarrow> (string \<times> dir_meta) list \<Rightarrow> gerror + (string \<times> dir_meta) list" where
  "private_directory p dirs =
     (case map_of dirs p of
        None \<Rightarrow> Inr (aput p \<lparr>d_is_dir = True, d_private = True\<rparr> dirs)
      | Some m \<Rightarrow> if \<not> d_is_dir m \<or> \<not> d_private m then Inl failure else Inr dirs)"

definition open_journal ::
  "'r jlib \<Rightarrow> string \<Rightarrow> string \<Rightarrow> (string \<times> dir_meta) list \<Rightarrow> gerror + (string \<times> dir_meta) list"
where
  "open_journal lib root client dirs =
     bindR (uuid lib client) (\<lambda>_.
     bindR (private_directory root dirs) (\<lambda>d1.
     bindR (private_directory (root @ ''/records'') d1) (\<lambda>d2.
     private_directory (root @ ''/locks'') d2)))"

section \<open>Paths and locks\<close>

definition rec_name :: "string \<Rightarrow> string \<Rightarrow> string" where
  "rec_name client i = client @ ''-'' @ i @ ''.json''"

definition record_path :: "'r jlib \<Rightarrow> string \<Rightarrow> string \<Rightarrow> gerror + string" where
  "record_path lib client i = bindR (uuid lib i) (\<lambda>_. Inr (rec_name client i))"

definition busy :: gerror where
  "busy = gerror_new ''REPOSITORY_BUSY'' ''Another Git operation is running.''"

definition try_lock :: "string \<Rightarrow> journal_fs \<Rightarrow> journal_fs \<times> (gerror + unit)" where
  "try_lock n fs = (if n \<in> set (held fs) then (fs, Inl busy)
                    else (fs\<lparr>held := n # held fs\<rparr>, Inr ()))"

definition lock :: "string \<Rightarrow> journal_fs \<Rightarrow> journal_fs \<times> (gerror + unit)" where
  "lock n fs =
     (case map_of (lock_files fs) n of
        None \<Rightarrow> try_lock n (fs\<lparr>lock_files := aput n \<lparr>lf_regular = True, lf_private = True\<rparr>
                                                (lock_files fs)\<rparr>)
      | Some lf \<Rightarrow>
          if \<not> lf_regular lf \<or> \<not> lf_private lf then (fs, Inl failure) else try_lock n fs)"

text \<open>Dropping the guard releases the lock.\<close>

definition unlock :: "string \<Rightarrow> journal_fs \<Rightarrow> journal_fs" where
  "unlock n fs = fs\<lparr>held := remove1 n (held fs)\<rparr>"

definition lock_name :: "'r jlib \<Rightarrow> string \<Rightarrow> string" where
  "lock_name lib repo = hash lib repo @ ''.lock''"

definition lock_repository ::
  "'r jlib \<Rightarrow> string \<Rightarrow> journal_fs \<Rightarrow> journal_fs \<times> (gerror + unit)" where
  "lock_repository lib repo fs = lock (lock_name lib repo) fs"

definition catalog :: string where
  "catalog = ''catalog.lock''"

section \<open>Reading records\<close>

definition load_sized ::
  "(bytes \<Rightarrow> 'a op_record option) \<Rightarrow> string \<Rightarrow> journal_fs \<Rightarrow> gerror + ('a op_record \<times> nat) option"
where
  "load_sized parse path fs =
     (case map_of (records fs) path of
        None \<Rightarrow> Inr None
      | Some f \<Rightarrow>
          if \<not> jf_regular f \<or> MAX_RECORD < length (jf_content f) \<or> \<not> jf_private f
          then Inl failure
          else (case parse (jf_content f) of
                  None \<Rightarrow> Inl failure
                | Some r \<Rightarrow> Inr (Some (r, length (jf_content f)))))"

definition load :: "'r jlib \<Rightarrow> string \<Rightarrow> journal_fs \<Rightarrow> gerror + 'r op_record option" where
  "load lib path fs = mapR (map_option fst) (load_sized (jl_parse lib) path fs)"

definition existing ::
  "'r jlib \<Rightarrow> string \<Rightarrow> string \<Rightarrow> string \<Rightarrow> journal_fs \<Rightarrow> gerror + 'r op_record option" where
  "existing lib client i h fs =
     bindR (record_path lib client i) (\<lambda>path.
     bindR (load lib path fs) (\<lambda>found.
       case found of
         Some r \<Rightarrow>
           if r_hash r \<noteq> h
           then Inl (gerror_new ''OPERATION_ID_REUSED''
                       ''This operation ID already belongs to a different request.'')
           else Inr found
       | None \<Rightarrow> Inr None))"

text \<open>\<open>record_paths\<close> lists the \<open>.json\<close> files and refuses a directory with too many of them.\<close>

definition json_name :: "string \<Rightarrow> bool" where
  "json_name n = (5 < length n \<and> ends_with ''.json'' n)"

definition journal_full :: gerror where
  "journal_full = gerror_new ''JOURNAL_FULL'' ''Operation journal is full.''"

definition record_paths :: "journal_fs \<Rightarrow> gerror + string list" where
  "record_paths fs =
     (let paths = filter json_name (map fst (records fs)) in
      if MAX_RECORDS < length paths then Inl journal_full else Inr paths)"

section \<open>Writing records\<close>

text \<open>The usage of the catalog without the record about to be written.\<close>

definition other_usage :: "string \<Rightarrow> string list \<Rightarrow> journal_fs \<Rightarrow> usage" where
  "other_usage path paths fs =
     (let others = filter (\<lambda>p. p \<noteq> path) paths in
      \<lparr>u_count = length others,
       u_bytes = sum_list (map (\<lambda>p. case map_of (records fs) p of
                                       None \<Rightarrow> 0 | Some f \<Rightarrow> length (jf_content f)) others)\<rparr>)"

definition persist ::
  "'r jlib \<Rightarrow> string \<Rightarrow> 'r op_record \<Rightarrow> usage option \<Rightarrow> journal_fs \<Rightarrow>
   journal_fs \<times> (gerror + unit)" where
  "persist lib client r known fs =
     (case record_path lib client (r_id r) of
        Inl e \<Rightarrow> (fs, Inl e)
      | Inr path \<Rightarrow>
     (case jl_print lib r of
        None \<Rightarrow> (fs, Inl failure)
      | Some data \<Rightarrow>
        if MAX_RECORD < length data then (fs, Inl failure)
        else
     (case (case known of Some u \<Rightarrow> Inr u
                        | None \<Rightarrow> bindR (record_paths fs) (\<lambda>ps. Inr (other_usage path ps fs))) of
        Inl e \<Rightarrow> (fs, Inl e)
      | Inr u \<Rightarrow>
        if MAX_RECORDS \<le> u_count u \<or> MAX_BYTES < u_bytes u + length data
        then (fs, Inl (gerror_new ''JOURNAL_FULL''
               ''Operation journal is full. No new writes can be accepted.''))
        else
          (let fault = (case faults fs of [] \<Rightarrow> NoFault | f # _ \<Rightarrow> f);
               fs1 = fs\<lparr>faults := tl (faults fs)\<rparr>;
               fs2 = fs1\<lparr>records := aput path \<lparr>jf_regular = True, jf_private = True,
                                              jf_content = data\<rparr> (records fs1)\<rparr>
           in case fault of
                NoFault \<Rightarrow> (fs2, Inr ())
              | BeforeRename \<Rightarrow> (fs1, Inl failure)
              | AfterRename \<Rightarrow> (fs2, Inl failure)))))"

definition save ::
  "'r jlib \<Rightarrow> string \<Rightarrow> 'r op_record \<Rightarrow> journal_fs \<Rightarrow> journal_fs \<times> (gerror + unit)" where
  "save lib client r fs =
     (case lock catalog fs of
        (fs1, Inl e) \<Rightarrow> (fs1, Inl e)
      | (fs1, Inr _) \<Rightarrow>
          (case persist lib client r None fs1 of (fs2, res) \<Rightarrow> (unlock catalog fs2, res)))"

section \<open>The operations\<close>

text \<open>The recovery scan of \<open>begin\<close>: every record is read, and an unresolved one of the repository
  stops it.\<close>

definition unresolved_state :: "string \<Rightarrow> bool" where
  "unresolved_state s = (s = ''running'' \<or> s = ''outcome_unknown'')"

fun scan :: "'r jlib \<Rightarrow> string \<Rightarrow> journal_fs \<Rightarrow> string list \<Rightarrow> usage \<Rightarrow> gerror + usage" where
  "scan lib repo fs [] u = Inr u"
| "scan lib repo fs (p # ps) u =
     (case load_sized (jl_parse_envelope lib) p fs of
        Inl e \<Rightarrow> Inl e
      | Inr None \<Rightarrow> scan lib repo fs ps u
      | Inr (Some (r, n)) \<Rightarrow>
          if r_repository r = repo \<and> unresolved_state (r_state r)
          then Inl (gerror_new ''RECOVERY_REQUIRED''
                 (''Inspect interrupted operation '' @ r_id r @ '' before another write.''))
          else scan lib repo fs ps \<lparr>u_count = u_count u + 1, u_bytes = u_bytes u + n\<rparr>)"

definition new_record :: "string \<Rightarrow> string \<Rightarrow> string \<Rightarrow> 'r op_record" where
  "new_record i h repo =
     \<lparr>r_id = i, r_repository = repo, r_hash = h, r_state = ''running'', r_seq = 1,
      r_result = None, r_error = None\<rparr>"

definition begin_record ::
  "'r jlib \<Rightarrow> string \<Rightarrow> string \<Rightarrow> string \<Rightarrow> string \<Rightarrow> journal_fs \<Rightarrow>
   journal_fs \<times> (gerror + 'r op_record)" where
  "begin_record lib client i h repo fs =
     (case lock catalog fs of
        (fs1, Inl e) \<Rightarrow> (fs1, Inl e)
      | (fs1, Inr _) \<Rightarrow>
          (case existing lib client i h fs1 of
             Inl e \<Rightarrow> (unlock catalog fs1, Inl e)
           | Inr (Some r) \<Rightarrow> (unlock catalog fs1, Inr r)
           | Inr None \<Rightarrow>
               (case bindR (record_paths fs1) (\<lambda>ps. scan lib repo fs1 ps usage_default) of
                  Inl e \<Rightarrow> (unlock catalog fs1, Inl e)
                | Inr u \<Rightarrow>
                    (case persist lib client (new_record i h repo) (Some u) fs1 of
                       (fs2, Inl e) \<Rightarrow> (unlock catalog fs2, Inl e)
                     | (fs2, Inr _) \<Rightarrow> (unlock catalog fs2, Inr (new_record i h repo))))))"

definition mark_unknown :: "'r op_record \<Rightarrow> 'r op_record" where
  "mark_unknown r = r\<lparr>r_state := ''outcome_unknown'', r_seq := r_seq r + 1,
     r_error := Some (gerror_new ''OUTCOME_UNKNOWN''
       ''The operation was interrupted. Inspect repository state before continuing.'')\<rparr>"

definition get_record ::
  "'r jlib \<Rightarrow> string \<Rightarrow> string \<Rightarrow> journal_fs \<Rightarrow> journal_fs \<times> (gerror + 'r op_record)" where
  "get_record lib client i fs =
     (case bindR (record_path lib client i) (\<lambda>p. load lib p fs) of
        Inl e \<Rightarrow> (fs, Inl e)
      | Inr None \<Rightarrow> (fs, Inl (gerror_new ''OPERATION_NOT_FOUND''
            ''No operation record exists. Do not automatically replay a write.''))
      | Inr (Some r) \<Rightarrow>
          if r_state r \<noteq> ''running'' then (fs, Inr r)
          else
            (case lock_repository lib (r_repository r) fs of
               (fs1, Inl e) \<Rightarrow>
                 if code e = ''REPOSITORY_BUSY'' then (fs1, Inr r) else (fs1, Inl e)
             | (fs1, Inr _) \<Rightarrow>
                 (let n = lock_name lib (r_repository r) in
                  case bindR (record_path lib client i) (\<lambda>p. load lib p fs1) of
                    Inl e \<Rightarrow> (unlock n fs1, Inl e)
                  | Inr None \<Rightarrow> (unlock n fs1, Inl failure)
                  | Inr (Some r1) \<Rightarrow>
                      if r_state r1 = ''running''
                      then (case save lib client (mark_unknown r1) fs1 of
                              (fs2, Inl e) \<Rightarrow> (unlock n fs2, Inl e)
                            | (fs2, Inr _) \<Rightarrow> (unlock n fs2, Inr (mark_unknown r1)))
                      else (unlock n fs1, Inr r1))))"

definition not_found :: gerror where
  "not_found = gerror_new ''OPERATION_NOT_FOUND''
     ''No operation record exists for this client.''"

text \<open>\<open>seq.checked_add(1)\<close> fails at the last 32-bit number.\<close>

definition reviewed :: "'r op_record \<Rightarrow> gerror + 'r op_record" where
  "reviewed r = (if r_seq r = - 1 then Inl failure
                 else Inr (r\<lparr>r_state := ''reviewed_unknown'', r_seq := r_seq r + 1\<rparr>))"

definition review_record ::
  "'r jlib \<Rightarrow> string \<Rightarrow> string \<Rightarrow> journal_fs \<Rightarrow> journal_fs \<times> (gerror + 'r op_record)" where
  "review_record lib client i fs =
     (case bindR (record_path lib client i) (\<lambda>p. bindR (load lib p fs) (ok_or not_found)) of
        Inl e \<Rightarrow> (fs, Inl e)
      | Inr before \<Rightarrow>
          (case lock_repository lib (r_repository before) fs of
             (fs1, Inl e) \<Rightarrow> (fs1, Inl e)
           | (fs1, Inr _) \<Rightarrow>
               (let n = lock_name lib (r_repository before) in
                case bindR (record_path lib client i)
                       (\<lambda>p. bindR (load lib p fs1) (ok_or not_found)) of
                  Inl e \<Rightarrow> (unlock n fs1, Inl e)
                | Inr r \<Rightarrow>
                    if r_id r \<noteq> i \<or> r_repository r \<noteq> r_repository before
                    then (unlock n fs1, Inl failure)
                    else if r_state r = ''reviewed_unknown'' then (unlock n fs1, Inr r)
                    else if r_state r \<noteq> ''outcome_unknown''
                    then (unlock n fs1, Inl (gerror_new ''OPERATION_NOT_REVIEWABLE''
                            ''Only an unknown outcome can be reviewed.''))
                    else
                      (case reviewed r of
                         Inl e \<Rightarrow> (unlock n fs1, Inl e)
                       | Inr r1 \<Rightarrow>
                           (case save lib client r1 fs1 of
                              (fs2, Inl e) \<Rightarrow> (unlock n fs2, Inl e)
                            | (fs2, Inr _) \<Rightarrow> (unlock n fs2, Inr r1))))))"

end
