(* ===== verification/JournalSystem.thy ===== *)
theory JournalSystem
  imports Journal
begin

text \<open>
  What the journal guarantees when several agents share it. \<open>view\<close> is the abstract content of the
  record directory; every operation is characterised by its effect on it. The inductive relation
  \<open>jstep\<close> interleaves any number of agent processes that start operations (lock, \<open>begin\<close>, apply,
  \<open>save\<close>), look records up, review them, die at any point or meet a faulty disk.
\<close>

section \<open>The abstract content of the journal\<close>

definition envelope :: "'r op_record \<Rightarrow> unit op_record" where
  "envelope r = \<lparr>r_id = r_id r, r_repository = r_repository r, r_hash = r_hash r,
     r_state = r_state r, r_seq = r_seq r, r_result = map_option (\<lambda>_. ()) (r_result r),
     r_error = r_error r\<rparr>"

lemma envelope_simps [simp]:
  "r_id (envelope r) = r_id r" "r_repository (envelope r) = r_repository r"
  "r_state (envelope r) = r_state r" "r_hash (envelope r) = r_hash r"
  by (simp_all add: envelope_def)

text \<open>
  The documented behaviour of \<open>serde_json\<close> and of the UUID formats: a printed record parses back
  (as a whole and without its result), and a file name determines its two identifiers.
\<close>

definition lib_ok :: "'r jlib \<Rightarrow> bool" where
  "lib_ok lib \<longleftrightarrow>
     (\<forall>r d. jl_print lib r = Some d \<longrightarrow>
        jl_parse lib d = Some r \<and> jl_parse_envelope lib d = Some (envelope r)) \<and>
     (\<forall>c i c' i'. jl_uuid lib c \<and> jl_uuid lib i \<and> jl_uuid lib c' \<and> jl_uuid lib i' \<and>
        rec_name c i = rec_name c' i' \<longrightarrow> c = c' \<and> i = i')"

definition view :: "'r jlib \<Rightarrow> journal_fs \<Rightarrow> string \<Rightarrow> 'r op_record option" where
  "view lib fs p = (case map_of (records fs) p of None \<Rightarrow> None
                    | Some f \<Rightarrow> jl_parse lib (jf_content f))"

definition wf_file :: "'r jlib \<Rightarrow> string \<Rightarrow> jfile \<Rightarrow> bool" where
  "wf_file lib p f \<longleftrightarrow> jf_regular f \<and> jf_private f \<and> length (jf_content f) \<le> MAX_RECORD \<and>
     (\<exists>c r. jl_print lib r = Some (jf_content f) \<and> jl_uuid lib c \<and> jl_uuid lib (r_id r) \<and>
            p = rec_name c (r_id r))"

definition wf_fs :: "'r jlib \<Rightarrow> journal_fs \<Rightarrow> bool" where
  "wf_fs lib fs \<longleftrightarrow> (\<forall>p f. map_of (records fs) p = Some f \<longrightarrow> wf_file lib p f)"

lemma lib_ok_parse:
  assumes "lib_ok lib" "jl_print lib r = Some d"
  shows "jl_parse lib d = Some r" "jl_parse_envelope lib d = Some (envelope r)"
  using assms unfolding lib_ok_def by simp_all

lemma rec_name_inj:
  assumes "lib_ok lib" "jl_uuid lib c" "jl_uuid lib i" "jl_uuid lib c'" "jl_uuid lib i'"
    "rec_name c i = rec_name c' i'"
  shows "c = c'" "i = i'"
  using assms unfolding lib_ok_def by blast+

lemma wf_fileD:
  assumes "lib_ok lib" "wf_file lib p f"
  obtains r c where "jl_parse lib (jf_content f) = Some r"
    "jl_parse_envelope lib (jf_content f) = Some (envelope r)"
    "jf_regular f" "jf_private f" "\<not> MAX_RECORD < length (jf_content f)"
    "p = rec_name c (r_id r)" "jl_uuid lib c" "jl_uuid lib (r_id r)"
proof -
  from assms(2) obtain c r where r: "jl_print lib r = Some (jf_content f)"
    "jl_uuid lib c" "jl_uuid lib (r_id r)" "p = rec_name c (r_id r)"
    and f: "jf_regular f" "jf_private f" "length (jf_content f) \<le> MAX_RECORD"
    unfolding wf_file_def by blast
  from f(3) have f3: "\<not> MAX_RECORD < length (jf_content f)" by simp
  show ?thesis
    by (rule that [OF lib_ok_parse [OF assms(1) r(1)] f(1,2) f3 r(4) r(2,3)])
qed

lemma load_view:
  assumes "lib_ok lib" "wf_fs lib fs"
  shows "load lib p fs = Inr (view lib fs p)"
proof (cases "map_of (records fs) p")
  case None
  then show ?thesis by (simp add: load_def load_sized_def view_def)
next
  case (Some f)
  then have "wf_file lib p f" using assms(2) unfolding wf_fs_def by blast
  then obtain r where "jl_parse lib (jf_content f) = Some r" "jf_regular f" "jf_private f"
    "\<not> MAX_RECORD < length (jf_content f)"
    using wf_fileD [OF assms(1)] by metis
  with Some show ?thesis by (simp add: load_def load_sized_def view_def)
qed

lemma load_envelope_view:
  assumes "lib_ok lib" "wf_fs lib fs"
  shows "\<exists>n. load_sized (jl_parse_envelope lib) p fs
             = Inr (map_option (\<lambda>r. (envelope r, n)) (view lib fs p))"
proof (cases "map_of (records fs) p")
  case None
  then show ?thesis by (simp add: load_sized_def view_def)
next
  case (Some f)
  then have "wf_file lib p f" using assms(2) unfolding wf_fs_def by blast
  then obtain r where "jl_parse lib (jf_content f) = Some r"
    "jl_parse_envelope lib (jf_content f) = Some (envelope r)" "jf_regular f" "jf_private f"
    "\<not> MAX_RECORD < length (jf_content f)"
    using wf_fileD [OF assms(1)] by metis
  with Some show ?thesis by (simp add: load_sized_def view_def)
qed

lemma view_path:
  assumes "lib_ok lib" "wf_fs lib fs" "view lib fs p = Some r"
  obtains c where "p = rec_name c (r_id r)" "jl_uuid lib c" "jl_uuid lib (r_id r)"
proof -
  from assms(3) obtain f where f: "map_of (records fs) p = Some f"
    and parse: "jl_parse lib (jf_content f) = Some r"
    by (auto simp: view_def split: option.splits)
  from f assms(2) have "wf_file lib p f" unfolding wf_fs_def by blast
  then obtain c r' where "jl_parse lib (jf_content f) = Some r'" "jl_uuid lib c"
    "jl_uuid lib (r_id r')" "p = rec_name c (r_id r')"
    using wf_fileD [OF assms(1)] by metis
  with parse that show ?thesis by simp
qed

lemma view_id:
  assumes "lib_ok lib" "wf_fs lib fs" "view lib fs (rec_name c i) = Some r"
    and "jl_uuid lib c" "jl_uuid lib i"
  shows "r_id r = i"
proof -
  obtain c' where "rec_name c i = rec_name c' (r_id r)" "jl_uuid lib c'" "jl_uuid lib (r_id r)"
    using view_path [OF assms(1-3)] by metis
  then show ?thesis using assms(1,4,5) unfolding lib_ok_def by metis
qed

lemma record_path_Inr: "record_path lib c i = Inr p \<longleftrightarrow> jl_uuid lib i \<and> p = rec_name c i"
  by (auto simp: record_path_def uuid_def)

lemma json_rec_name: "json_name (rec_name c i)"
  by (simp add: json_name_def rec_name_def ends_with_def)

section \<open>Effect of the primitive operations\<close>

lemma lock_cases:
  assumes "lock n fs = (fs', res)"
  shows "records fs' = records fs \<and> faults fs' = faults fs \<and>
    (case res of Inr _ \<Rightarrow> n \<notin> set (held fs) \<and> held fs' = n # held fs
               | Inl e \<Rightarrow> held fs' = held fs)"
  using assms by (auto simp: lock_def try_lock_def split: option.splits if_splits)

lemma unlock_simps [simp]:
  "records (unlock n fs) = records fs" "faults (unlock n fs) = faults fs"
  "held (unlock n fs) = remove1 n (held fs)"
  by (simp_all add: unlock_def)

lemma view_cong: "records fs' = records fs \<Longrightarrow> view lib fs' = view lib fs"
  by (simp add: view_def fun_eq_iff)

lemma wf_fs_cong: "records fs' = records fs \<Longrightarrow> wf_fs lib fs' = wf_fs lib fs"
  by (simp add: wf_fs_def)

lemma view_unlock [simp]: "view lib (unlock n fs) = view lib fs"
  by (rule view_cong) simp

lemma wf_fs_unlock [simp]: "wf_fs lib (unlock n fs) = wf_fs lib fs"
  by (rule wf_fs_cong) simp

text \<open>Either the record was stored or nothing changed; success means it was stored.\<close>

definition stored ::
  "'r jlib \<Rightarrow> journal_fs \<Rightarrow> journal_fs \<Rightarrow> string \<Rightarrow> 'r op_record \<Rightarrow> bool" where
  "stored lib fs fs' p r \<longleftrightarrow> view lib fs' = (view lib fs)(p \<mapsto> r)"

definition unchanged :: "'r jlib \<Rightarrow> journal_fs \<Rightarrow> journal_fs \<Rightarrow> bool" where
  "unchanged lib fs fs' \<longleftrightarrow> view lib fs' = view lib fs"

lemma persist_effect:
  assumes ok: "lib_ok lib" "wf_fs lib fs" "jl_uuid lib c"
    and run: "persist lib c r known fs = (fs', res)"
  shows "wf_fs lib fs' \<and> held fs' = held fs \<and>
    (stored lib fs fs' (rec_name c (r_id r)) r \<or> unchanged lib fs fs') \<and>
    (res = Inr () \<longrightarrow> stored lib fs fs' (rec_name c (r_id r)) r) \<and>
    (stored lib fs fs' (rec_name c (r_id r)) r \<longrightarrow> jl_uuid lib (r_id r) \<or> unchanged lib fs fs')"
proof (cases "fs' = fs \<and> res \<noteq> Inr ()")
  case True
  then show ?thesis using ok by (auto simp: unchanged_def)
next
  case False
  with run obtain data where p: "jl_uuid lib (r_id r)" and d: "jl_print lib r = Some data"
    and size: "length data \<le> MAX_RECORD"
    by (auto simp: persist_def record_path_def uuid_def split: option.splits if_splits)
  define f where "f = \<lparr>jf_regular = True, jf_private = True, jf_content = data\<rparr>"
  define path where "path = rec_name c (r_id r)"
  have wf_f: "wf_file lib path f"
    using p d size ok(3) unfolding wf_file_def f_def path_def by auto
  have parse: "jl_parse lib data = Some r" using ok(1) d by (simp add: lib_ok_def)
  have cases: "(records fs' = aput path f (records fs) \<or> (records fs' = records fs \<and> res \<noteq> Inr ()))
      \<and> held fs' = held fs"
    using run p d size False unfolding path_def f_def
    by (auto simp: persist_def record_path_def uuid_def Let_def
        split: option.splits if_splits sum.splits fault.splits list.splits)
  have "wf_fs lib fs' \<and> stored lib fs fs' path r" if "records fs' = aput path f (records fs)"
    using that ok(2) wf_f parse
    by (auto simp: wf_fs_def stored_def view_def fun_eq_iff f_def)
  with cases p wf_fs_cong [of fs' fs lib] view_cong [of fs' fs lib] ok(2) show ?thesis
    unfolding path_def unchanged_def by metis
qed

lemma save_effect:
  assumes ok: "lib_ok lib" "wf_fs lib fs" "jl_uuid lib c"
    and run: "save lib c r fs = (fs', res)"
  shows "wf_fs lib fs' \<and> held fs' = held fs \<and>
    (stored lib fs fs' (rec_name c (r_id r)) r \<or> unchanged lib fs fs') \<and>
    (res = Inr () \<longrightarrow> stored lib fs fs' (rec_name c (r_id r)) r)"
proof -
  obtain fs1 lk where l: "lock catalog fs = (fs1, lk)" by (cases "lock catalog fs")
  note lc = lock_cases [OF l]
  have v1: "view lib fs1 = view lib fs" and w1: "wf_fs lib fs1"
    using lc ok(2) by (auto intro: view_cong simp: wf_fs_cong [of fs1 fs])
  show ?thesis
  proof (cases lk)
    case (Inl e)
    then show ?thesis using run l lc v1 w1 by (auto simp: save_def unchanged_def)
  next
    case (Inr u)
    obtain fs2 r2 where p: "persist lib c r None fs1 = (fs2, r2)"
      by (cases "persist lib c r None fs1")
    note pe = persist_effect [OF ok(1) w1 ok(3) p]
    have "fs' = unlock catalog fs2" "res = r2" using run l Inr p by (auto simp: save_def)
    with pe lc Inr v1 show ?thesis by (auto simp: stored_def unchanged_def)
  qed
qed

section \<open>Effect of the operations\<close>

definition unresolved_in :: "'r jlib \<Rightarrow> string \<Rightarrow> journal_fs \<Rightarrow> bool" where
  "unresolved_in lib repo fs \<longleftrightarrow>
     (\<exists>p r. view lib fs p = Some r \<and> r_repository r = repo \<and> unresolved_state (r_state r))"

lemma view_cong_lock:
  assumes "lock n fs = (fs', res)"
  shows "view lib fs' = view lib fs" "wf_fs lib fs' = wf_fs lib fs"
  using lock_cases [OF assms] view_cong [of fs' fs lib] wf_fs_cong [of fs' fs lib] by simp_all

lemma existing_view:
  assumes "lib_ok lib" "wf_fs lib fs" "jl_uuid lib i"
  shows "existing lib c i h fs =
    (case view lib fs (rec_name c i) of None \<Rightarrow> Inr None
     | Some r \<Rightarrow> if r_hash r \<noteq> h
                 then Inl (gerror_new ''OPERATION_ID_REUSED''
                        ''This operation ID already belongs to a different request.'')
                 else Inr (Some r))"
  using assms
  by (simp add: existing_def record_path_def uuid_def load_view split: option.splits)

lemma existing_uuid: "existing lib c i h fs = Inr x \<Longrightarrow> jl_uuid lib i"
  by (simp add: existing_def record_path_def uuid_def split: if_splits)

lemma scan_none:
  assumes "lib_ok lib" "wf_fs lib fs" "scan lib repo fs ps u = Inr u'"
    "p \<in> set ps" "view lib fs p = Some r" "r_repository r = repo"
  shows "\<not> unresolved_state (r_state r)"
  using assms(3,4)
proof (induction ps arbitrary: u)
  case (Cons a ps)
  obtain n where n: "load_sized (jl_parse_envelope lib) a fs
      = Inr (map_option (\<lambda>r. (envelope r, n)) (view lib fs a))"
    using load_envelope_view [OF assms(1,2)] by blast
  show ?case
  proof (cases "a = p")
    case True
    with Cons.prems(1) n assms(5,6) show ?thesis by (auto split: if_splits)
  next
    case False
    with Cons.prems(2) have p: "p \<in> set ps" by simp
    show ?thesis
      by (cases "view lib fs a") (use Cons.prems(1) Cons.IH n p in \<open>auto split: if_splits\<close>)
  qed
qed simp

lemma view_listed:
  assumes "lib_ok lib" "wf_fs lib fs" "view lib fs p = Some r" "record_paths fs = Inr ps"
  shows "p \<in> set ps"
proof -
  obtain c where "p = rec_name c (r_id r)" using view_path [OF assms(1-3)] by blast
  then have "json_name p" by (simp add: json_rec_name)
  moreover have "p \<in> fst ` set (records fs)"
    using assms(3) by (force simp: view_def split: option.splits dest: map_of_SomeD)
  moreover have "ps = filter json_name (map fst (records fs))"
    using assms(4) by (auto simp: record_paths_def Let_def split: if_splits)
  ultimately show ?thesis by auto
qed

lemma recovery_scan_clear:
  assumes "lib_ok lib" "wf_fs lib fs"
    "bindR (record_paths fs) (\<lambda>ps. scan lib repo fs ps u) = Inr u'"
  shows "\<not> unresolved_in lib repo fs"
proof -
  obtain ps where ps: "record_paths fs = Inr ps" "scan lib repo fs ps u = Inr u'"
    using assms(3) by (auto simp: result_simps)
  show ?thesis
    unfolding unresolved_in_def
    using scan_none [OF assms(1,2) ps(2)] view_listed [OF assms(1,2) _ ps(1)] by blast
qed

text \<open>What \<open>begin\<close> does to the journal, on every branch.\<close>

definition begun ::
  "'r jlib \<Rightarrow> string \<Rightarrow> string \<Rightarrow> string \<Rightarrow> string \<Rightarrow> journal_fs \<Rightarrow> journal_fs \<Rightarrow> bool" where
  "begun lib c i h repo fs fs' \<longleftrightarrow>
     jl_uuid lib i \<and> view lib fs (rec_name c i) = None \<and> \<not> unresolved_in lib repo fs \<and>
     stored lib fs fs' (rec_name c i) (new_record i h repo)"

lemma begin_effect:
  assumes ok: "lib_ok lib" "wf_fs lib fs" "jl_uuid lib c"
    and run: "begin_record lib c i h repo fs = (fs', res)"
  shows "wf_fs lib fs' \<and> held fs' = held fs \<and>
    (unchanged lib fs fs' \<or> begun lib c i h repo fs fs') \<and>
    (\<forall>r. res = Inr r \<longrightarrow>
       (unchanged lib fs fs' \<and> view lib fs (rec_name c i) = Some r \<and> r_hash r = h) \<or>
       (begun lib c i h repo fs fs' \<and> r = new_record i h repo))"
proof -
  obtain fs1 lk where l: "lock catalog fs = (fs1, lk)" by (cases "lock catalog fs")
  note lc = lock_cases [OF l]
  have v1: "view lib fs1 = view lib fs" and w1: "wf_fs lib fs1"
    using view_cong_lock [OF l] ok(2) by auto
  have un: "unresolved_in lib repo fs1 = unresolved_in lib repo fs"
    by (simp add: unresolved_in_def v1)
  consider (nolock) e where "lk = Inl e"
    | (exerr) u e where "lk = Inr u" "existing lib c i h fs1 = Inl e"
    | (found) u r where "lk = Inr u" "existing lib c i h fs1 = Inr (Some r)"
    | (scanerr) u e where "lk = Inr u" "existing lib c i h fs1 = Inr None"
        "bindR (record_paths fs1) (\<lambda>ps. scan lib repo fs1 ps usage_default) = Inl e"
    | (go) u u' where "lk = Inr u" "existing lib c i h fs1 = Inr None"
        "bindR (record_paths fs1) (\<lambda>ps. scan lib repo fs1 ps usage_default) = Inr u'"
    by (metis not_None_eq sum.exhaust)
  then show ?thesis
  proof cases
    case nolock
    then show ?thesis using run l lc v1 w1 by (auto simp: begin_record_def unchanged_def)
  next
    case exerr
    then show ?thesis using run l lc v1 w1
      by (auto simp: begin_record_def unchanged_def)
  next
    case found
    then have "view lib fs1 (rec_name c i) = Some r" "r_hash r = h"
      using existing_view [OF ok(1) w1 existing_uuid [OF found(2)], of c h]
      by (auto split: option.splits if_splits)
    then show ?thesis using found run l lc v1 w1
      by (auto simp: begin_record_def unchanged_def)
  next
    case scanerr
    then show ?thesis using run l lc v1 w1 by (auto simp: begin_record_def unchanged_def)
  next
    case go
    obtain fs2 r2 where p: "persist lib c (new_record i h repo) (Some u') fs1 = (fs2, r2)"
      by (cases "persist lib c (new_record i h repo) (Some u') fs1") blast
    note pe = persist_effect [OF ok(1) w1 ok(3) p]
    have id: "r_id (new_record i h repo) = i" by (simp add: new_record_def)
    have free: "view lib fs1 (rec_name c i) = None" "jl_uuid lib i"
      using existing_view [OF ok(1) w1 existing_uuid [OF go(2)], of c h] go(2)
        existing_uuid [OF go(2)] by (auto split: option.splits if_splits)
    have clear: "\<not> unresolved_in lib repo fs1"
      by (rule recovery_scan_clear [OF ok(1) w1 go(3)])
    have fs': "fs' = unlock catalog fs2"
      and res: "\<And>r. res = Inr r \<Longrightarrow> r2 = Inr () \<and> r = new_record i h repo"
      using run l go p by (auto simp: begin_record_def split: sum.splits)
    have held: "held fs' = held fs" using fs' pe lc go(1) by simp
    have v2: "view lib fs' = view lib fs2" "wf_fs lib fs' = wf_fs lib fs2" using fs' by simp_all
    have st: "stored lib fs1 fs2 (rec_name c i) (new_record i h repo)
        \<Longrightarrow> begun lib c i h repo fs fs'"
      using free clear un v1 v2 by (simp add: begun_def stored_def)
    have un': "unchanged lib fs1 fs2 \<Longrightarrow> unchanged lib fs fs'"
      using v1 v2 by (simp add: unchanged_def)
    show ?thesis using pe held res st un' v2 unfolding id by metis
  qed
qed

text \<open>\<open>get\<close> and \<open>review\<close> read one record and may replace it by \<open>f r\<close> under its repository lock.\<close>

definition replaced ::
  "'r jlib \<Rightarrow> string \<Rightarrow> ('r op_record \<Rightarrow> 'r op_record \<Rightarrow> bool) \<Rightarrow> journal_fs \<Rightarrow> journal_fs \<Rightarrow> bool"
where
  "replaced lib p f fs fs' \<longleftrightarrow>
     (\<exists>r r'. view lib fs p = Some r \<and> f r r' \<and> lock_name lib (r_repository r) \<notin> set (held fs) \<and>
       stored lib fs fs' p r')"

lemma load_path_view:
  assumes "lib_ok lib" "wf_fs lib fs"
  shows "bindR (record_path lib c i) (\<lambda>p. load lib p fs) =
    (if jl_uuid lib i then Inr (view lib fs (rec_name c i))
     else Inl (gerror_invalid ''Operation and client IDs must be UUIDs.''))"
  using assms by (simp add: record_path_def uuid_def load_view)

lemma save_locked_effect:
  assumes ok: "lib_ok lib" "wf_fs lib fs" "jl_uuid lib c"
    and l: "lock n fs = (fs1, Inr u)" and s: "save lib c r' fs1 = (fs2, res)"
  shows "wf_fs lib (unlock n fs2) \<and> held (unlock n fs2) = held fs \<and> n \<notin> set (held fs) \<and>
    (unchanged lib fs (unlock n fs2) \<or> stored lib fs (unlock n fs2) (rec_name c (r_id r')) r') \<and>
    (res = Inr () \<longrightarrow> stored lib fs (unlock n fs2) (rec_name c (r_id r')) r')"
proof -
  note lc = lock_cases [OF l]
  have v: "view lib fs1 = view lib fs" and w: "wf_fs lib fs1"
    using view_cong_lock [OF l] ok(2) by auto
  show ?thesis
    using save_effect [OF ok(1) w ok(3) s] lc v by (auto simp: stored_def unchanged_def)
qed

definition interrupted :: "'r op_record \<Rightarrow> 'r op_record \<Rightarrow> bool" where
  "interrupted r r' \<longleftrightarrow> r_state r = ''running'' \<and> r' = mark_unknown r"

definition acknowledged :: "'r op_record \<Rightarrow> 'r op_record \<Rightarrow> bool" where
  "acknowledged r r' \<longleftrightarrow> r_state r = ''outcome_unknown'' \<and>
     r' = r\<lparr>r_state := ''reviewed_unknown'', r_seq := r_seq r + 1\<rparr>"

lemma mark_unknown_simps [simp]:
  "r_id (mark_unknown r) = r_id r" "r_repository (mark_unknown r) = r_repository r"
  "r_hash (mark_unknown r) = r_hash r" "r_state (mark_unknown r) = ''outcome_unknown''"
  "r_result (mark_unknown r) = r_result r"
  by (simp_all add: mark_unknown_def)

lemma get_effect:
  assumes ok: "lib_ok lib" "wf_fs lib fs" "jl_uuid lib c"
    and run: "get_record lib c i fs = (fs', res)"
  shows "wf_fs lib fs' \<and> held fs' = held fs \<and>
    (unchanged lib fs fs' \<or> replaced lib (rec_name c i) interrupted fs fs')"
proof (cases "jl_uuid lib i \<and> (\<exists>r. view lib fs (rec_name c i) = Some r \<and> r_state r = ''running'')")
  case False
  then have "fs' = fs" using run
    by (auto simp: get_record_def Let_def load_path_view [OF ok(1,2)] split: option.splits if_splits)
  then show ?thesis using ok by (simp add: unchanged_def)
next
  case True
  then obtain r where i: "jl_uuid lib i" and r: "view lib fs (rec_name c i) = Some r"
    and st: "r_state r = ''running''" by blast
  have id: "r_id r = i" by (rule view_id [OF ok(1,2) r ok(3) i])
  let ?n = "lock_name lib (r_repository r)"
  obtain fs1 lk where l: "lock ?n fs = (fs1, lk)" by (cases "lock ?n fs")
  note lc = lock_cases [OF l] and vc = view_cong_lock [OF l]
  show ?thesis
  proof (cases lk)
    case (Inl e)
    with run l i r st vc lc ok(2) show ?thesis
      by (auto simp: get_record_def Let_def load_path_view [OF ok(1,2)] lock_repository_def
          unchanged_def split: if_splits)
  next
    case (Inr u)
    have w1: "wf_fs lib fs1" and v1: "view lib fs1 = view lib fs" using vc ok(2) by auto
    obtain fs2 r2 where s: "save lib c (mark_unknown r) fs1 = (fs2, r2)"
      by (cases "save lib c (mark_unknown r) fs1")
    have fs': "fs' = unlock ?n fs2"
      using run l Inr i r st s v1
      by (auto simp: get_record_def Let_def load_path_view [OF ok(1,2)] load_path_view [OF ok(1) w1]
          lock_repository_def split: sum.splits)
    have "interrupted r (mark_unknown r)" using st by (simp add: interrupted_def)
    then show ?thesis
      using save_locked_effect [OF ok l [unfolded Inr] s] fs' r id
      unfolding replaced_def by auto
  qed
qed

lemma review_effect:
  assumes ok: "lib_ok lib" "wf_fs lib fs" "jl_uuid lib c"
    and run: "review_record lib c i fs = (fs', res)"
  shows "wf_fs lib fs' \<and> held fs' = held fs \<and>
    (unchanged lib fs fs' \<or> replaced lib (rec_name c i) acknowledged fs fs')"
proof -
  have load: "bindR (record_path lib c i) (\<lambda>p. bindR (load lib p s) (ok_or not_found)) =
      (if jl_uuid lib i then ok_or not_found (view lib s (rec_name c i))
       else Inl (gerror_invalid ''Operation and client IDs must be UUIDs.''))"
    if "wf_fs lib s" for s
    using ok(1) that by (simp add: record_path_def uuid_def load_view)
  show ?thesis
  proof (cases "jl_uuid lib i \<and> view lib fs (rec_name c i) \<noteq> None")
    case False
    then have "fs' = fs" using run load [OF ok(2)]
      by (auto simp: review_record_def split: if_splits)
    then show ?thesis using ok by (simp add: unchanged_def)
  next
    case True
    then obtain r where i: "jl_uuid lib i" and r: "view lib fs (rec_name c i) = Some r" by blast
    have id: "r_id r = i" by (rule view_id [OF ok(1,2) r ok(3) i])
    let ?n = "lock_name lib (r_repository r)"
    obtain fs1 lk where l: "lock ?n fs = (fs1, lk)" by (cases "lock ?n fs")
    note lc = lock_cases [OF l] and vc = view_cong_lock [OF l]
    have w1: "wf_fs lib fs1" and v1: "view lib fs1 = view lib fs" using vc ok(2) by auto
    show ?thesis
    proof (cases "lk = Inr () \<and> r_state r = ''outcome_unknown'' \<and> r_seq r \<noteq> - 1")
      case False
      then have "fs' = fs1 \<and> lk \<noteq> Inr () \<or> fs' = unlock ?n fs1 \<and> lk = Inr ()"
        using run l i r id v1 load [OF ok(2)] load [OF w1]
        by (cases lk) (auto simp: review_record_def Let_def lock_repository_def reviewed_def
            split: if_splits)
      then show ?thesis using lc v1 w1 by (cases lk) (auto simp: unchanged_def)
    next
      case True
      let ?r = "r\<lparr>r_state := ''reviewed_unknown'', r_seq := r_seq r + 1\<rparr>"
      obtain fs2 r2 where s: "save lib c ?r fs1 = (fs2, r2)" by (cases "save lib c ?r fs1")
      have fs': "fs' = unlock ?n fs2"
        using run l True i r id s v1 load [OF ok(2)] load [OF w1]
        by (auto simp: review_record_def Let_def lock_repository_def reviewed_def split: sum.splits)
      have "acknowledged r ?r" using True by (simp add: acknowledged_def)
      then show ?thesis
        using save_locked_effect [OF ok _ s] l True fs' r id
        unfolding replaced_def by auto
    qed
  qed
qed

section \<open>Agents sharing the journal\<close>

text \<open>
  The phases of \<open>start\<close> (\<open>writes.rs\<close>): a process that holds the repository lock, one that has
  seen no record of its operation under that lock, and one that is applying the action of the
  record \<open>begin\<close> gave it. \<open>j_applied\<close> logs every application that was started, the latest first.
\<close>

datatype 'r phase =
    Locked string string string string
  | Checked string string string string
  | Applying string string "'r op_record"

record 'r jsys =
  j_fs :: journal_fs
  j_procs :: "nat \<Rightarrow> 'r phase option"
  j_applied :: "(string \<times> string) list"

fun ph_repo :: "'r phase \<Rightarrow> string" where
  "ph_repo (Locked c i h repo) = repo"
| "ph_repo (Checked c i h repo) = repo"
| "ph_repo (Applying c i r) = r_repository r"

text \<open>The states that \<open>start\<close> gives a record when \<open>apply\<close> has returned.\<close>

definition settled_state :: "string \<Rightarrow> bool" where
  "settled_state s \<longleftrightarrow> s = ''succeeded'' \<or> s = ''needs_resolution'' \<or> s = ''failed''"

definition completes :: "'r op_record \<Rightarrow> 'r op_record \<Rightarrow> bool" where
  "completes r r' \<longleftrightarrow> r_id r' = r_id r \<and> r_repository r' = r_repository r \<and>
     r_hash r' = r_hash r \<and> r_seq r' = r_seq r + 1 \<and>
     (settled_state (r_state r') \<or> r_state r' = ''outcome_unknown'')"

text \<open>
  One step of the system. \<open>repo_of\<close> is the repository identity that is part of the payload an
  operation hashes, so a hash belongs to one repository. \<open>stop\<close> is every way to leave before
  \<open>save\<close>: an early return, a panic, or the death of the process; its lock is released.
  \<open>contend\<close> and \<open>release\<close> are another process inside its own catalog section.
\<close>

inductive jstep :: "'r jlib \<Rightarrow> (string \<Rightarrow> string) \<Rightarrow> 'r jsys \<Rightarrow> 'r jsys \<Rightarrow> bool"
  for lib :: "'r jlib" and repo_of :: "string \<Rightarrow> string" where
  acquire: "j_procs s p = None \<Longrightarrow> jl_uuid lib c \<Longrightarrow> repo_of h = repo \<Longrightarrow>
    lock_repository lib repo (j_fs s) = (fs, Inr ()) \<Longrightarrow>
    jstep lib repo_of s (s\<lparr>j_fs := fs, j_procs := (j_procs s)(p \<mapsto> Locked c i h repo)\<rparr>)"
| busy: "lock_repository lib repo (j_fs s) = (fs, Inl e) \<Longrightarrow>
    jstep lib repo_of s (s\<lparr>j_fs := fs\<rparr>)"
| check: "j_procs s p = Some (Locked c i h repo) \<Longrightarrow> existing lib c i h (j_fs s) = Inr None \<Longrightarrow>
    jstep lib repo_of s (s\<lparr>j_procs := (j_procs s)(p \<mapsto> Checked c i h repo)\<rparr>)"
| start: "j_procs s p = Some (Checked c i h repo) \<Longrightarrow>
    begin_record lib c i h repo (j_fs s) = (fs, Inr r) \<Longrightarrow>
    jstep lib repo_of s (s\<lparr>j_fs := fs, j_procs := (j_procs s)(p \<mapsto> Applying c i r),
                           j_applied := (c, i) # j_applied s\<rparr>)"
| refuse: "j_procs s p = Some (Checked c i h repo) \<Longrightarrow>
    begin_record lib c i h repo (j_fs s) = (fs, Inl e) \<Longrightarrow>
    jstep lib repo_of s (s\<lparr>j_fs := unlock (lock_name lib repo) fs,
                           j_procs := (j_procs s)(p := None)\<rparr>)"
| finish: "j_procs s p = Some (Applying c i r) \<Longrightarrow> completes r r' \<Longrightarrow>
    save lib c r' (j_fs s) = (fs, res) \<Longrightarrow>
    jstep lib repo_of s (s\<lparr>j_fs := unlock (lock_name lib (r_repository r)) fs,
                           j_procs := (j_procs s)(p := None)\<rparr>)"
| stop: "j_procs s p = Some ph \<Longrightarrow>
    jstep lib repo_of s (s\<lparr>j_fs := unlock (lock_name lib (ph_repo ph)) (j_fs s),
                           j_procs := (j_procs s)(p := None)\<rparr>)"
| lookup: "jl_uuid lib c \<Longrightarrow> get_record lib c i (j_fs s) = (fs, res) \<Longrightarrow>
    jstep lib repo_of s (s\<lparr>j_fs := fs\<rparr>)"
| review: "jl_uuid lib c \<Longrightarrow> review_record lib c i (j_fs s) = (fs, res) \<Longrightarrow>
    jstep lib repo_of s (s\<lparr>j_fs := fs\<rparr>)"
| contend: "lock catalog (j_fs s) = (fs, res) \<Longrightarrow> jstep lib repo_of s (s\<lparr>j_fs := fs\<rparr>)"
| release: "jstep lib repo_of s (s\<lparr>j_fs := unlock catalog (j_fs s)\<rparr>)"

text \<open>The first agent finds an empty journal; the faults the device will show are arbitrary.\<close>

definition j_initial :: "'r jsys \<Rightarrow> bool" where
  "j_initial s \<longleftrightarrow> records (j_fs s) = [] \<and> held (j_fs s) = [] \<and>
     j_procs s = Map.empty \<and> j_applied s = []"

inductive j_reachable :: "'r jlib \<Rightarrow> (string \<Rightarrow> string) \<Rightarrow> 'r jsys \<Rightarrow> bool"
  for lib :: "'r jlib" and repo_of :: "string \<Rightarrow> string" where
  init: "j_initial s \<Longrightarrow> j_reachable lib repo_of s"
| step: "j_reachable lib repo_of s \<Longrightarrow> jstep lib repo_of s s' \<Longrightarrow> j_reachable lib repo_of s'"

section \<open>The invariant\<close>

fun ph_ok :: "'r jlib \<Rightarrow> (string \<Rightarrow> string) \<Rightarrow> journal_fs \<Rightarrow> 'r phase \<Rightarrow> bool" where
  "ph_ok lib repo_of fs (Locked c i h repo) \<longleftrightarrow> jl_uuid lib c \<and> repo = repo_of h"
| "ph_ok lib repo_of fs (Checked c i h repo) \<longleftrightarrow> jl_uuid lib c \<and> jl_uuid lib i \<and> repo = repo_of h \<and>
     (\<forall>r. view lib fs (rec_name c i) = Some r \<longrightarrow> r_hash r \<noteq> h)"
| "ph_ok lib repo_of fs (Applying c i r) \<longleftrightarrow> jl_uuid lib c \<and> jl_uuid lib i \<and> r_id r = i \<and>
     view lib fs (rec_name c i) = Some r \<and> r_state r = ''running''"

definition vinv :: "'r jlib \<Rightarrow> (string \<Rightarrow> string) \<Rightarrow> journal_fs \<Rightarrow> bool" where
  "vinv lib repo_of fs \<longleftrightarrow>
     (\<forall>x r. view lib fs x = Some r \<longrightarrow> r_repository r = repo_of (r_hash r)) \<and>
     (\<forall>x y r r'. view lib fs x = Some r \<and> view lib fs y = Some r' \<and>
        r_repository r = r_repository r' \<and> unresolved_state (r_state r) \<and>
        unresolved_state (r_state r') \<longrightarrow> x = y)"

definition procs_ok ::
  "'r jlib \<Rightarrow> (string \<Rightarrow> string) \<Rightarrow> journal_fs \<Rightarrow> (nat \<Rightarrow> 'r phase option) \<Rightarrow> bool" where
  "procs_ok lib repo_of fs ps \<longleftrightarrow>
     (\<forall>p ph. ps p = Some ph \<longrightarrow>
        lock_name lib (ph_repo ph) \<in> set (held fs) \<and> ph_ok lib repo_of fs ph)"

definition excl :: "'r jlib \<Rightarrow> (nat \<Rightarrow> 'r phase option) \<Rightarrow> bool" where
  "excl lib ps \<longleftrightarrow> (\<forall>p q ph ph'. ps p = Some ph \<and> ps q = Some ph' \<and> p \<noteq> q \<longrightarrow>
     lock_name lib (ph_repo ph) \<noteq> lock_name lib (ph_repo ph'))"

definition log_ok :: "'r jlib \<Rightarrow> journal_fs \<Rightarrow> (string \<times> string) list \<Rightarrow> bool" where
  "log_ok lib fs l \<longleftrightarrow> distinct l \<and>
     (\<forall>c i. (c, i) \<in> set l \<longrightarrow> view lib fs (rec_name c i) \<noteq> None)"

definition jinv :: "'r jlib \<Rightarrow> (string \<Rightarrow> string) \<Rightarrow> 'r jsys \<Rightarrow> bool" where
  "jinv lib repo_of s \<longleftrightarrow> wf_fs lib (j_fs s) \<and> distinct (held (j_fs s)) \<and>
     procs_ok lib repo_of (j_fs s) (j_procs s) \<and> excl lib (j_procs s) \<and>
     vinv lib repo_of (j_fs s) \<and> log_ok lib (j_fs s) (j_applied s)"

text \<open>A write that keeps the abstract invariant.\<close>

definition legal :: "'r jlib \<Rightarrow> (string \<Rightarrow> string) \<Rightarrow> journal_fs \<Rightarrow> string \<Rightarrow> 'r op_record \<Rightarrow> bool" where
  "legal lib repo_of fs x r' \<longleftrightarrow> r_repository r' = repo_of (r_hash r') \<and>
     (\<forall>r. view lib fs x = Some r \<longrightarrow> r_repository r = r_repository r') \<and>
     (unresolved_state (r_state r') \<longrightarrow>
        (\<exists>r. view lib fs x = Some r \<and> unresolved_state (r_state r)) \<or>
        \<not> unresolved_in lib (r_repository r') fs)"

lemma ph_ok_cong: "view lib fs' = view lib fs \<Longrightarrow> ph_ok lib repo_of fs' ph = ph_ok lib repo_of fs ph"
  by (cases ph) simp_all

lemma vinv_cong: "view lib fs' = view lib fs \<Longrightarrow> vinv lib repo_of fs' = vinv lib repo_of fs"
  by (simp add: vinv_def)

lemma log_ok_cong: "view lib fs' = view lib fs \<Longrightarrow> log_ok lib fs' l = log_ok lib fs l"
  by (simp add: log_ok_def)

lemma vinv_write:
  assumes "vinv lib repo_of fs" "legal lib repo_of fs x r'" "stored lib fs fs' x r'"
  shows "vinv lib repo_of fs'"
proof -
  have v: "view lib fs' = (view lib fs)(x \<mapsto> r')" using assms(3) by (simp add: stored_def)
  have uniq: "y = x" if "view lib fs y = Some r" "r_repository r = r_repository r'"
    "unresolved_state (r_state r)" "unresolved_state (r_state r')" for y r
  proof -
    note t = that
    have "unresolved_in lib (r_repository r') fs" unfolding unresolved_in_def using t by blast
    then obtain r0 where "view lib fs x = Some r0" "unresolved_state (r_state r0)"
      "r_repository r0 = r_repository r'"
      using assms(2) t(4) unfolding legal_def by blast
    then show ?thesis using assms(1) t unfolding vinv_def by metis
  qed
  show ?thesis
    unfolding vinv_def
  proof (intro conjI allI impI)
    fix y r assume "view lib fs' y = Some r"
    then show "r_repository r = repo_of (r_hash r)"
      using assms(1,2) v unfolding vinv_def legal_def by (auto split: if_splits)
  next
    fix y z r s
    assume "view lib fs' y = Some r \<and> view lib fs' z = Some s \<and>
      r_repository r = r_repository s \<and> unresolved_state (r_state r) \<and> unresolved_state (r_state s)"
    then show "y = z"
      using assms(1) v uniq unfolding vinv_def by (metis fun_upd_apply option.inject)
  qed
qed

lemma ph_ok_write:
  assumes "ph_ok lib repo_of fs ph" "legal lib repo_of fs x r'" "stored lib fs fs' x r'"
    "lock_name lib (r_repository r') \<noteq> lock_name lib (ph_repo ph)"
  shows "ph_ok lib repo_of fs' ph"
  using assms by (cases ph) (auto simp: stored_def legal_def)

lemma log_ok_write: "log_ok lib fs l \<Longrightarrow> stored lib fs fs' x r' \<Longrightarrow> log_ok lib fs' l"
  by (auto simp: log_ok_def stored_def)

lemma log_ok_Cons:
  "log_ok lib fs l \<Longrightarrow> (c, i) \<notin> set l \<Longrightarrow> view lib fs (rec_name c i) \<noteq> None \<Longrightarrow>
   log_ok lib fs ((c, i) # l)"
  by (auto simp: log_ok_def)

lemma jinv_quiet:
  assumes "jinv lib repo_of s" "unchanged lib (j_fs s) fs" "wf_fs lib fs" "distinct (held fs)"
    "excl lib ps"
    "\<And>p ph. ps p = Some ph \<Longrightarrow>
       lock_name lib (ph_repo ph) \<in> set (held fs) \<and> ph_ok lib repo_of (j_fs s) ph"
  shows "jinv lib repo_of (s\<lparr>j_fs := fs, j_procs := ps\<rparr>)"
proof -
  have v: "view lib fs = view lib (j_fs s)" using assms(2) by (simp add: unchanged_def)
  show ?thesis
    using assms v
    by (simp add: jinv_def procs_ok_def ph_ok_cong [OF v] vinv_cong [OF v] log_ok_cong [OF v])
qed

lemma jinv_write:
  assumes "jinv lib repo_of s" "legal lib repo_of (j_fs s) x r'" "stored lib (j_fs s) fs x r'"
    "wf_fs lib fs" "distinct (held fs)" "excl lib ps" "log_ok lib fs l"
    "\<And>p ph. ps p = Some ph \<Longrightarrow> lock_name lib (ph_repo ph) \<in> set (held fs) \<and>
       (ph_ok lib repo_of fs ph \<or> ph_ok lib repo_of (j_fs s) ph \<and>
          lock_name lib (r_repository r') \<noteq> lock_name lib (ph_repo ph))"
  shows "jinv lib repo_of (s\<lparr>j_fs := fs, j_procs := ps, j_applied := l\<rparr>)"
  using assms vinv_write [OF _ assms(2,3)] ph_ok_write [OF _ assms(2,3)]
  unfolding jinv_def procs_ok_def by simp blast

lemma excl_update:
  "excl lib ps \<Longrightarrow> ps p = Some ph \<Longrightarrow> ph_repo ph' = ph_repo ph \<Longrightarrow> excl lib (ps(p \<mapsto> ph'))"
  unfolding excl_def by (auto split: if_splits)

lemma excl_remove: "excl lib ps \<Longrightarrow> excl lib (ps(p := None))"
  unfolding excl_def by (auto split: if_splits)

lemma jinvD:
  assumes "jinv lib repo_of s"
  shows "wf_fs lib (j_fs s)" "distinct (held (j_fs s))" "excl lib (j_procs s)"
    "log_ok lib (j_fs s) (j_applied s)" "vinv lib repo_of (j_fs s)"
    "j_procs s p = Some ph \<Longrightarrow> lock_name lib (ph_repo ph) \<in> set (held (j_fs s))"
    "j_procs s p = Some ph \<Longrightarrow> ph_ok lib repo_of (j_fs s) ph"
  using assms by (auto simp: jinv_def procs_ok_def)

lemma jinv_procs:
  assumes "jinv lib repo_of s" "((j_procs s)(p := None)) q = Some ph" "j_procs s p = Some ph0"
    "held fs = held (j_fs s)"
  shows "lock_name lib (ph_repo ph) \<in> set (held (unlock (lock_name lib (ph_repo ph0)) fs)) \<and>
    ph_ok lib repo_of (j_fs s) ph \<and>
    lock_name lib (ph_repo ph0) \<noteq> lock_name lib (ph_repo ph)"
proof -
  have q: "j_procs s q = Some ph" "q \<noteq> p" using assms(2) by (auto split: if_splits)
  have ne: "lock_name lib (ph_repo ph0) \<noteq> lock_name lib (ph_repo ph)"
    using jinvD(3) [OF assms(1)] q assms(3) unfolding excl_def by metis
  have "distinct (held fs)" using jinvD(2) [OF assms(1)] assms(4) by simp
  then show ?thesis
    using ne q(1) jinvD(6,7) [OF assms(1)] assms(4) by (simp add: in_set_remove1)
qed

lemma catalog_not_lock_name: "catalog \<noteq> lock_name lib x"
proof
  have len: "length (concat (map hexbyte d)) = 2 * length d" for d
    by (induction d) (simp_all add: hexbyte_def)
  assume "catalog = lock_name lib x"
  then have "length catalog = length (lock_name lib x)" by simp
  then have "7 = 2 * length (jl_sha256 lib x)"
    by (simp add: catalog_def lock_name_def hash_def len)
  then show False by presburger
qed

text \<open>A replacement of one record under its own lock, with the processes unchanged.\<close>

lemma jinv_replaced:
  assumes "jinv lib repo_of s" "replaced lib x f (j_fs s) fs" "wf_fs lib fs" "held fs = held (j_fs s)"
    "\<And>r r'. f r r' \<Longrightarrow> r_repository r' = r_repository r \<and> r_hash r' = r_hash r \<and>
       (unresolved_state (r_state r') \<longrightarrow> unresolved_state (r_state r))"
  shows "jinv lib repo_of (s\<lparr>j_fs := fs\<rparr>)"
proof -
  obtain r r' where r: "view lib (j_fs s) x = Some r" "f r r'"
    "lock_name lib (r_repository r) \<notin> set (held (j_fs s))" "stored lib (j_fs s) fs x r'"
    using assms(2) unfolding replaced_def by blast
  have l: "legal lib repo_of (j_fs s) x r'"
    using r(1) assms(5) [OF r(2)] jinvD(5) [OF assms(1)] unfolding legal_def vinv_def by auto
  have "jinv lib repo_of (s\<lparr>j_fs := fs, j_procs := j_procs s, j_applied := j_applied s\<rparr>)"
  proof (rule jinv_write [OF assms(1) l r(4) assms(3)])
    show "distinct (held fs)" using assms(4) jinvD(2) [OF assms(1)] by simp
    show "excl lib (j_procs s)" by (rule jinvD(3) [OF assms(1)])
    show "log_ok lib fs (j_applied s)" by (rule log_ok_write [OF jinvD(4) [OF assms(1)] r(4)])
    fix p ph assume p: "j_procs s p = Some ph"
    show "lock_name lib (ph_repo ph) \<in> set (held fs) \<and>
       (ph_ok lib repo_of fs ph \<or> ph_ok lib repo_of (j_fs s) ph \<and>
          lock_name lib (r_repository r') \<noteq> lock_name lib (ph_repo ph))"
      using jinvD(6,7) [OF assms(1) p] r(3) assms(4) assms(5) [OF r(2)] by auto
  qed
  then show ?thesis by simp
qed

lemma jinv_unchanged:
  assumes "jinv lib repo_of s" "unchanged lib (j_fs s) fs" "wf_fs lib fs" "distinct (held fs)"
    "set (held (j_fs s)) \<subseteq> insert catalog (set (held fs))"
  shows "jinv lib repo_of (s\<lparr>j_fs := fs\<rparr>)"
proof -
  have "jinv lib repo_of (s\<lparr>j_fs := fs, j_procs := j_procs s\<rparr>)"
  proof (rule jinv_quiet [OF assms(1-4) jinvD(3) [OF assms(1)]])
    fix p ph assume p: "j_procs s p = Some ph"
    then show "lock_name lib (ph_repo ph) \<in> set (held fs) \<and> ph_ok lib repo_of (j_fs s) ph"
      using jinvD(6,7) [OF assms(1) p] assms(5) catalog_not_lock_name [of lib "ph_repo ph"]
      by (metis insertE subsetD)
  qed
  then show ?thesis by simp
qed

lemma jinv_stop:
  assumes "jinv lib repo_of s" "j_procs s p = Some ph0" "unchanged lib (j_fs s) fs"
    "wf_fs lib fs" "held fs = held (j_fs s)"
  shows "jinv lib repo_of (s\<lparr>j_fs := unlock (lock_name lib (ph_repo ph0)) fs,
                             j_procs := (j_procs s)(p := None)\<rparr>)"
proof (rule jinv_quiet [OF assms(1) _ _ _ excl_remove [OF jinvD(3) [OF assms(1)]]])
  show "unchanged lib (j_fs s) (unlock (lock_name lib (ph_repo ph0)) fs)"
    using assms(3) by (simp add: unchanged_def)
  show "wf_fs lib (unlock (lock_name lib (ph_repo ph0)) fs)" using assms(4) by simp
  show "distinct (held (unlock (lock_name lib (ph_repo ph0)) fs))"
    using jinvD(2) [OF assms(1)] assms(5) by (simp add: distinct_remove1)
  fix q ph assume "((j_procs s)(p := None)) q = Some ph"
  from jinv_procs [OF assms(1) this assms(2,5)]
  show "lock_name lib (ph_repo ph) \<in> set (held (unlock (lock_name lib (ph_repo ph0)) fs)) \<and>
      ph_ok lib repo_of (j_fs s) ph" by simp
qed

lemma jinv_stop_write:
  assumes "jinv lib repo_of s" "j_procs s p = Some ph0" "stored lib (j_fs s) fs x r'"
    "legal lib repo_of (j_fs s) x r'" "wf_fs lib fs" "held fs = held (j_fs s)"
    "r_repository r' = ph_repo ph0"
  shows "jinv lib repo_of (s\<lparr>j_fs := unlock (lock_name lib (ph_repo ph0)) fs,
                             j_procs := (j_procs s)(p := None)\<rparr>)"
proof -
  let ?fs = "unlock (lock_name lib (ph_repo ph0)) fs"
  have st: "stored lib (j_fs s) ?fs x r'" using assms(3) by (simp add: stored_def)
  have "jinv lib repo_of (s\<lparr>j_fs := ?fs, j_procs := (j_procs s)(p := None),
      j_applied := j_applied s\<rparr>)"
  proof (rule jinv_write [OF assms(1,4) st _ _ excl_remove [OF jinvD(3) [OF assms(1)]]])
    show "wf_fs lib ?fs" using assms(5) by simp
    show "distinct (held ?fs)" using jinvD(2) [OF assms(1)] assms(6) by (simp add: distinct_remove1)
    show "log_ok lib ?fs (j_applied s)" by (rule log_ok_write [OF jinvD(4) [OF assms(1)] st])
    fix q ph assume "((j_procs s)(p := None)) q = Some ph"
    from jinv_procs [OF assms(1) this assms(2,6)] assms(7)
    show "lock_name lib (ph_repo ph) \<in> set (held ?fs) \<and>
       (ph_ok lib repo_of ?fs ph \<or> ph_ok lib repo_of (j_fs s) ph \<and>
          lock_name lib (r_repository r') \<noteq> lock_name lib (ph_repo ph))" by simp
  qed
  then show ?thesis by simp
qed

lemma begun_legal:
  assumes "begun lib c i h repo fs fs'" "repo = repo_of h"
  shows "legal lib repo_of fs (rec_name c i) (new_record i h repo)"
  using assms by (simp add: begun_def legal_def new_record_def)

lemma completes_legal:
  assumes "ph_ok lib repo_of fs (Applying c i r)" "completes r r'" "vinv lib repo_of fs"
  shows "legal lib repo_of fs (rec_name c i) r'"
proof -
  have v: "view lib fs (rec_name c i) = Some r" and st: "unresolved_state (r_state r)"
    using assms(1) by (simp_all add: unresolved_state_def)
  have "r_repository r = repo_of (r_hash r)" using assms(3) v unfolding vinv_def by blast
  then show ?thesis using assms(2) v st by (simp add: legal_def completes_def)
qed

lemma jinv_acquire:
  assumes inv: "jinv lib repo_of s" and new: "j_procs s p = None" "jl_uuid lib c" "repo_of h = repo"
    and l: "lock_repository lib repo (j_fs s) = (fs, Inr ())"
  shows "jinv lib repo_of (s\<lparr>j_fs := fs, j_procs := (j_procs s)(p \<mapsto> Locked c i h repo)\<rparr>)"
proof (rule jinv_quiet [OF inv])
  note l' = l [unfolded lock_repository_def]
  note lc = lock_cases [OF l'] and vc = view_cong_lock [OF l', of lib]
  show "unchanged lib (j_fs s) fs" using vc by (simp add: unchanged_def)
  show "wf_fs lib fs" using vc jinvD(1) [OF inv] by simp
  show "distinct (held fs)" using lc jinvD(2) [OF inv] by simp
  have other: "lock_name lib (ph_repo ph) \<noteq> lock_name lib repo" if "j_procs s q = Some ph" for q ph
    using lc jinvD(6) [OF inv that] by auto
  show "excl lib ((j_procs s)(p \<mapsto> Locked c i h repo))"
    using jinvD(3) [OF inv] other unfolding excl_def by (auto split: if_splits) (metis other)+
  fix q ph assume "((j_procs s)(p \<mapsto> Locked c i h repo)) q = Some ph"
  then show "lock_name lib (ph_repo ph) \<in> set (held fs) \<and> ph_ok lib repo_of (j_fs s) ph"
    using new lc jinvD(6,7) [OF inv] by (auto split: if_splits)
qed

lemma jinv_start:
  assumes ok: "lib_ok lib" and inv: "jinv lib repo_of s"
    and p: "j_procs s p = Some (Checked c i h repo)"
    and b: "begin_record lib c i h repo (j_fs s) = (fs, Inr r)"
  shows "jinv lib repo_of (s\<lparr>j_fs := fs, j_procs := (j_procs s)(p \<mapsto> Applying c i r),
                             j_applied := (c, i) # j_applied s\<rparr>)"
proof -
  have ph: "jl_uuid lib c" "jl_uuid lib i" "repo = repo_of h"
    "\<forall>r. view lib (j_fs s) (rec_name c i) = Some r \<longrightarrow> r_hash r \<noteq> h"
    using jinvD(7) [OF inv p] by auto
  note be = begin_effect [OF ok jinvD(1) [OF inv] ph(1) b]
  then have begun: "begun lib c i h repo (j_fs s) fs" and r: "r = new_record i h repo"
    using ph(4) by blast+
  have st: "stored lib (j_fs s) fs (rec_name c i) r" "view lib (j_fs s) (rec_name c i) = None"
    using begun r by (simp_all add: begun_def)
  have leg: "legal lib repo_of (j_fs s) (rec_name c i) r"
    using begun_legal [where repo_of = repo_of, OF begun ph(3)] r by simp
  have rr: "r_repository r = repo" "r_id r = i" "r_state r = ''running''"
    using r by (simp_all add: new_record_def)
  show ?thesis
  proof (rule jinv_write [OF inv leg st(1)])
    show "wf_fs lib fs" "distinct (held fs)" using be jinvD(2) [OF inv] by simp_all
    show "excl lib ((j_procs s)(p \<mapsto> Applying c i r))"
      by (rule excl_update [OF jinvD(3) [OF inv] p]) (simp add: rr)
    have "(c, i) \<notin> set (j_applied s)"
      using jinvD(4) [OF inv] st(2) unfolding log_ok_def by blast
    then show "log_ok lib fs ((c, i) # j_applied s)"
      by (rule log_ok_Cons [OF log_ok_write [OF jinvD(4) [OF inv] st(1)]])
        (use st(1) in \<open>simp add: stored_def\<close>)
    fix q ph assume q: "((j_procs s)(p \<mapsto> Applying c i r)) q = Some ph"
    show "lock_name lib (ph_repo ph) \<in> set (held fs) \<and>
       (ph_ok lib repo_of fs ph \<or> ph_ok lib repo_of (j_fs s) ph \<and>
          lock_name lib (r_repository r) \<noteq> lock_name lib (ph_repo ph))"
    proof (cases "q = p")
      case True
      then have ph': "ph = Applying c i r" using q by simp
      have "ph_ok lib repo_of fs ph" using st(1) ph(1,2) rr by (simp add: ph' stored_def)
      moreover have "lock_name lib (ph_repo ph) \<in> set (held fs)"
        using jinvD(6) [OF inv p] be rr by (simp add: ph')
      ultimately show ?thesis by blast
    next
      case False
      then have q': "j_procs s q = Some ph" using q by simp
      have "lock_name lib repo \<noteq> lock_name lib (ph_repo ph)"
        using jinvD(3) [OF inv] p q' False unfolding excl_def by fastforce
      then show ?thesis using jinvD(6,7) [OF inv q'] be rr by simp
    qed
  qed
qed

lemma jinv_finish:
  assumes ok: "lib_ok lib" and inv: "jinv lib repo_of s"
    and p: "j_procs s p = Some (Applying c i r)" and co: "completes r r'"
    and sv: "save lib c r' (j_fs s) = (fs, res)"
  shows "jinv lib repo_of (s\<lparr>j_fs := unlock (lock_name lib (r_repository r)) fs,
                             j_procs := (j_procs s)(p := None)\<rparr>)"
proof -
  note ph = jinvD(7) [OF inv p]
  have c: "jl_uuid lib c" "r_id r' = i" using ph co by (auto simp: completes_def)
  note se = save_effect [OF ok jinvD(1) [OF inv] c(1) sv]
  have leg: "legal lib repo_of (j_fs s) (rec_name c i) r'"
    by (rule completes_legal [OF ph co jinvD(5) [OF inv]])
  have "unchanged lib (j_fs s) fs \<or> stored lib (j_fs s) fs (rec_name c i) r'"
    using se c(2) by blast
  then show ?thesis
  proof
    assume "unchanged lib (j_fs s) fs"
    then show ?thesis using jinv_stop [OF inv p] se by simp
  next
    assume "stored lib (j_fs s) fs (rec_name c i) r'"
    then show ?thesis
      using jinv_stop_write [OF inv p _ leg] se co by (simp add: completes_def)
  qed
qed

theorem jstep_preserves:
  assumes ok: "lib_ok lib" and st: "jstep lib repo_of s s'" and inv: "jinv lib repo_of s"
  shows "jinv lib repo_of s'"
  using st
proof cases
  case (acquire p c h repo fs i)
  then show ?thesis using jinv_acquire [OF inv] by simp
next
  case (busy repo fs e)
  note l = busy(2) [unfolded lock_repository_def]
  show ?thesis
    unfolding busy(1)
    using jinv_unchanged [OF inv, of fs] lock_cases [OF l] view_cong_lock [OF l, of lib] jinvD(1,2) [OF inv]
    by (auto simp: unchanged_def)
next
  case (check p c i h repo)
  have ph: "ph_ok lib repo_of (j_fs s) (Checked c i h repo)"
    using jinvD(7) [OF inv check(2)] check(3) existing_uuid [OF check(3)]
      existing_view [OF ok jinvD(1) [OF inv] existing_uuid [OF check(3)], of c h]
    by (auto split: option.splits if_splits)
  have "jinv lib repo_of (s\<lparr>j_fs := j_fs s, j_procs := (j_procs s)(p \<mapsto> Checked c i h repo)\<rparr>)"
    by (rule jinv_quiet [OF inv]; (rule excl_update [OF jinvD(3) [OF inv] check(2)])?)
      (use jinvD [OF inv] jinvD(6) [OF inv check(2)] check(2) ph in \<open>auto simp: unchanged_def split: if_splits\<close>)
  then show ?thesis unfolding check(1) by simp
next
  case (start p c i h repo fs r)
  then show ?thesis using jinv_start [OF ok inv] by simp
next
  case (refuse p c i h repo fs e)
  have ph: "jl_uuid lib c" "repo = repo_of h" using jinvD(7) [OF inv refuse(2)] by auto
  note be = begin_effect [OF ok jinvD(1) [OF inv] ph(1) refuse(3)]
  have "unchanged lib (j_fs s) fs \<or> begun lib c i h repo (j_fs s) fs" using be by blast
  then show ?thesis
  proof
    assume "unchanged lib (j_fs s) fs"
    then show ?thesis using jinv_stop [OF inv refuse(2)] be unfolding refuse(1) by simp
  next
    assume b: "begun lib c i h repo (j_fs s) fs"
    then have "stored lib (j_fs s) fs (rec_name c i) (new_record i h repo)"
      by (simp add: begun_def)
    from jinv_stop_write [OF inv refuse(2) this begun_legal [where repo_of = repo_of, OF b ph(2)]]
    show ?thesis using be unfolding refuse(1) by (simp add: new_record_def)
  qed
next
  case (finish p c i r r' fs res)
  then show ?thesis using jinv_finish [OF ok inv] by simp
next
  case (stop p ph)
  show ?thesis unfolding stop(1)
    using jinv_stop [OF inv stop(2), of "j_fs s"] jinvD(1) [OF inv] by (simp add: unchanged_def)
next
  case (lookup c i fs res)
  note ge = get_effect [OF ok jinvD(1) [OF inv] lookup(2,3)]
  show ?thesis
  proof (cases "unchanged lib (j_fs s) fs")
    case True
    then show ?thesis unfolding lookup(1)
      using jinv_unchanged [OF inv True] ge jinvD(2) [OF inv] by auto
  next
    case False
    then have "replaced lib (rec_name c i) interrupted (j_fs s) fs" using ge by blast
    then show ?thesis unfolding lookup(1)
      by (rule jinv_replaced [OF inv])
        (use ge in \<open>auto simp: interrupted_def unresolved_state_def\<close>)
  qed
next
  case (review c i fs res)
  note re = review_effect [OF ok jinvD(1) [OF inv] review(2,3)]
  show ?thesis
  proof (cases "unchanged lib (j_fs s) fs")
    case True
    then show ?thesis unfolding review(1)
      using jinv_unchanged [OF inv True] re jinvD(2) [OF inv] by auto
  next
    case False
    then have "replaced lib (rec_name c i) acknowledged (j_fs s) fs" using re by blast
    then show ?thesis unfolding review(1)
      by (rule jinv_replaced [OF inv])
        (use re in \<open>auto simp: acknowledged_def unresolved_state_def\<close>)
  qed
next
  case (contend fs res)
  note lc = lock_cases [OF contend(2)] and vc = view_cong_lock [OF contend(2), of lib]
  show ?thesis unfolding contend(1)
    by (rule jinv_unchanged [OF inv])
      (use lc vc jinvD(1,2) [OF inv] in \<open>auto simp: unchanged_def split: sum.splits\<close>)
next
  case release
  show ?thesis unfolding release
    by (rule jinv_unchanged [OF inv])
      (use jinvD(1,2) [OF inv] in \<open>auto simp: unchanged_def distinct_remove1\<close>)
qed

theorem reachable_invariant:
  assumes "lib_ok lib" "j_reachable lib repo_of s"
  shows "jinv lib repo_of s"
  using assms(2)
proof induction
  case (init s)
  then have "view lib (j_fs s) = Map.empty" by (simp add: j_initial_def view_def fun_eq_iff)
  with init show ?case
    by (simp add: j_initial_def jinv_def wf_fs_def procs_ok_def excl_def vinv_def log_ok_def)
next
  case (step s s')
  then show ?case using jstep_preserves [OF assms(1)] by blast
qed

section \<open>The life of a record\<close>

text \<open>The state machine of one record: it is created running, and every later version keeps its
  identity and has the next sequence number.\<close>

definition next_state :: "string \<Rightarrow> string \<Rightarrow> bool" where
  "next_state a b \<longleftrightarrow> (a = ''running'' \<and> (settled_state b \<or> b = ''outcome_unknown'')) \<or>
     (a = ''outcome_unknown'' \<and> b = ''reviewed_unknown'')"

definition rec_next :: "'r op_record option \<Rightarrow> 'r op_record \<Rightarrow> bool" where
  "rec_next old r' \<longleftrightarrow>
     (case old of None \<Rightarrow> r_state r' = ''running'' \<and> r_seq r' = 1
      | Some r \<Rightarrow> r_id r' = r_id r \<and> r_repository r' = r_repository r \<and> r_hash r' = r_hash r \<and>
                  r_seq r' = r_seq r + 1 \<and> next_state (r_state r) (r_state r'))"

definition evolves :: "'r jlib \<Rightarrow> journal_fs \<Rightarrow> journal_fs \<Rightarrow> bool" where
  "evolves lib fs fs' \<longleftrightarrow> view lib fs' = view lib fs \<or>
     (\<exists>x r'. view lib fs' = (view lib fs)(x \<mapsto> r') \<and> rec_next (view lib fs x) r')"

lemma evolvesI_replaced:
  assumes "replaced lib x f fs fs'" "\<And>r r'. f r r' \<Longrightarrow> rec_next (Some r) r'"
  shows "evolves lib fs fs'"
  using assms unfolding replaced_def evolves_def stored_def by metis

lemma evolves_unchanged: "unchanged lib fs fs' \<Longrightarrow> evolves lib fs fs'"
  by (simp add: unchanged_def evolves_def)

lemma evolves_begun: "begun lib c i h repo fs fs' \<Longrightarrow> evolves lib fs fs'"
  unfolding begun_def stored_def evolves_def
  by (rule disjI2, rule exI [of _ "rec_name c i"], rule exI [of _ "new_record i h repo"])
    (simp add: rec_next_def new_record_def)

lemma evolves_unlock [simp]: "evolves lib fs (unlock n fs') = evolves lib fs fs'"
  by (simp add: evolves_def)

lemma rec_next_interrupted: "interrupted r r' \<Longrightarrow> rec_next (Some r) r'"
  by (auto simp: interrupted_def rec_next_def next_state_def mark_unknown_def)

lemma rec_next_acknowledged: "acknowledged r r' \<Longrightarrow> rec_next (Some r) r'"
  by (auto simp: acknowledged_def rec_next_def next_state_def)

lemma rec_next_completes:
  "completes r r' \<Longrightarrow> r_state r = ''running'' \<Longrightarrow> rec_next (Some r) r'"
  by (auto simp: completes_def rec_next_def next_state_def)

lemma jstep_evolves:
  assumes ok: "lib_ok lib" and inv: "jinv lib repo_of s" and st: "jstep lib repo_of s s'"
  shows "evolves lib (j_fs s) (j_fs s')"
  using st
proof cases
  case (acquire p c h repo fs i)
  then show ?thesis using view_cong_lock(1) [OF acquire(5) [unfolded lock_repository_def], of lib]
    by (simp add: evolves_def)
next
  case (busy repo fs e)
  then show ?thesis using view_cong_lock(1) [OF busy(2) [unfolded lock_repository_def], of lib]
    by (simp add: evolves_def)
next
  case (check p c i h repo)
  then show ?thesis by (simp add: evolves_def)
next
  case (start p c i h repo fs r)
  have "jl_uuid lib c" using jinvD(7) [OF inv start(2)] by simp
  from begin_effect [OF ok jinvD(1) [OF inv] this start(3)] show ?thesis
    unfolding start(1) using evolves_unchanged evolves_begun by auto
next
  case (refuse p c i h repo fs e)
  have "jl_uuid lib c" using jinvD(7) [OF inv refuse(2)] by simp
  from begin_effect [OF ok jinvD(1) [OF inv] this refuse(3)] show ?thesis
    unfolding refuse(1) using evolves_unchanged evolves_begun by auto
next
  case (finish p c i r r' fs res)
  note ph = jinvD(7) [OF inv finish(2)]
  have c: "jl_uuid lib c" "r_id r' = i" using ph finish(3) by (auto simp: completes_def)
  have "rec_next (view lib (j_fs s) (rec_name c i)) r'"
    using ph rec_next_completes [OF finish(3)] by simp
  then show ?thesis
    using save_effect [OF ok jinvD(1) [OF inv] c(1) finish(4)] c(2) evolves_unchanged
    unfolding finish(1) by (auto simp: stored_def evolves_def)
next
  case (stop p ph)
  then show ?thesis by (simp add: evolves_def)
next
  case (lookup c i fs res)
  from get_effect [OF ok jinvD(1) [OF inv] lookup(2,3)] show ?thesis
    unfolding lookup(1)
    using evolves_unchanged evolvesI_replaced [OF _ rec_next_interrupted] by auto
next
  case (review c i fs res)
  from review_effect [OF ok jinvD(1) [OF inv] review(2,3)] show ?thesis
    unfolding review(1)
    using evolves_unchanged evolvesI_replaced [OF _ rec_next_acknowledged] by auto
next
  case (contend fs res)
  then show ?thesis using view_cong_lock(1) [OF contend(2), of lib] by (simp add: evolves_def)
next
  case release
  then show ?thesis by (simp add: evolves_def)
qed

text \<open>The sequence number is a function of the state, so the unchecked \<open>seq += 1\<close> cannot wrap.\<close>

definition seq_of :: "string \<Rightarrow> u32" where
  "seq_of st = (if st = ''running'' then 1 else if st = ''reviewed_unknown'' then 3 else 2)"

lemma seq_of_next: "next_state a b \<Longrightarrow> seq_of b = seq_of a + 1"
  by (auto simp: next_state_def settled_state_def seq_of_def)

lemma reachable_seq:
  assumes "lib_ok lib" "j_reachable lib repo_of s" "view lib (j_fs s) x = Some r"
  shows "r_seq r = seq_of (r_state r)"
  using assms(2,3)
proof (induction arbitrary: x r)
  case (init s)
  then show ?case by (simp add: j_initial_def view_def)
next
  case (step s s')
  have "evolves lib (j_fs s) (j_fs s')"
    by (rule jstep_evolves [OF assms(1) reachable_invariant [OF assms(1) step(1)] step(2)])
  then show ?case
  proof (unfold evolves_def, elim disjE exE conjE)
    assume "view lib (j_fs s') = view lib (j_fs s)"
    then show ?case using step.IH step.prems by simp
  next
    fix y r'
    assume v: "view lib (j_fs s') = (view lib (j_fs s))(y \<mapsto> r')"
      and n: "rec_next (view lib (j_fs s) y) r'"
    have "r_seq r' = seq_of (r_state r')"
    proof (cases "view lib (j_fs s) y")
      case None
      then show ?thesis using n by (simp add: rec_next_def seq_of_def)
    next
      case (Some r0)
      then show ?thesis using n step.IH [OF Some] seq_of_next [symmetric] by (simp add: rec_next_def)
    qed
    then show ?case using v step.IH step.prems by (auto split: if_splits)
  qed
qed

end
