(* ===== verification/JournalSample.thy ===== *)
theory JournalSample
  imports JournalSystem Sample
begin

text \<open>
  A concrete library for the journal: hyphenated UUIDs and a length-prefixed record encoding that
  satisfies \<open>lib_ok\<close>. It shows that the hypotheses on the third-party encoder can hold and lets
  the properties be evaluated; nothing about the agent depends on it.
\<close>

section \<open>An encoder\<close>

definition enc_err :: "gerror \<Rightarrow> bytes" where
  "enc_err e = enc_str (code e) @ enc_str (message e) @ enc_str (retry e)"

definition dec_err :: "bytes \<Rightarrow> gerror \<times> bytes" where
  "dec_err s = (case dec_str s of (a, s1) \<Rightarrow> case dec_str s1 of (b, s2) \<Rightarrow> case dec_str s2 of (c, s3) \<Rightarrow>
     (\<lparr>code = a, message = b, retry = c\<rparr>, s3))"

definition enc_record :: "string op_record \<Rightarrow> bytes" where
  "enc_record r = enc_str (r_id r) @ enc_str (r_repository r) @ enc_str (r_hash r) @
     enc_str (r_state r) @ enc_nat (unat (r_seq r)) @ enc_opt enc_str (r_result r) @
     enc_opt enc_err (r_error r)"

definition dec_record :: "bytes \<Rightarrow> string op_record" where
  "dec_record s =
     (case dec_str s of (i, s1) \<Rightarrow> case dec_str s1 of (rp, s2) \<Rightarrow> case dec_str s2 of (h, s3) \<Rightarrow>
      case dec_str s3 of (st, s4) \<Rightarrow> case dec_nat s4 of (n, s5) \<Rightarrow>
      case dec_opt dec_str s5 of (res, s6) \<Rightarrow> case dec_opt dec_err s6 of (e, s7) \<Rightarrow>
      \<lparr>r_id = i, r_repository = rp, r_hash = h, r_state = st, r_seq = of_nat n,
       r_result = res, r_error = e\<rparr>)"

definition hex_char :: "char \<Rightarrow> bool" where
  "hex_char c = (c \<in> set ''0123456789abcdef'')"

definition hyphenated :: "string \<Rightarrow> bool" where
  "hyphenated s = (length s = 36 \<and>
     (\<forall>k<36. if k \<in> {8, 13, 18, 23} then s ! k = CHR ''-'' else hex_char (s ! k)))"

definition sample_lib :: "string jlib" where
  "sample_lib = \<lparr>jl_print = (\<lambda>r. Some (enc_record r)),
     jl_parse = (\<lambda>d. if enc_record (dec_record d) = d then Some (dec_record d) else None),
     jl_parse_envelope = (\<lambda>d. if enc_record (dec_record d) = d
                              then Some (envelope (dec_record d)) else None),
     jl_uuid = hyphenated, jl_sha256 = (\<lambda>b. b)\<rparr>"

lemma dec_err_enc [simp]: "dec_err (enc_err e @ s) = (e, s)"
  by (simp add: dec_err_def enc_err_def)

lemma dec_record_enc [simp]: "dec_record (enc_record r) = r"
proof -
  have "dec_record (enc_record r @ []) = r"
    by (simp only: enc_record_def append_assoc)
      (simp add: dec_record_def dec_opt_enc [where g = enc_str and s = "enc_opt enc_err e" for e]
        dec_opt_enc [where g = enc_err and s = "[]", simplified])
  then show ?thesis by simp
qed

lemma sample_lib_ok: "lib_ok sample_lib"
  unfolding lib_ok_def
proof (intro conjI allI impI)
  fix c i c' i'
  assume "jl_uuid sample_lib c \<and> jl_uuid sample_lib i \<and> jl_uuid sample_lib c' \<and>
    jl_uuid sample_lib i' \<and> rec_name c i = rec_name c' i'"
  then have "length c = length c'" "rec_name c i = rec_name c' i'"
    by (auto simp: sample_lib_def hyphenated_def)
  then show "c = c'" "i = i'" by (simp_all add: rec_name_def)
qed (simp_all add: sample_lib_def)

definition uuid_a :: string where "uuid_a = ''00000000-0000-0000-0000-00000000000a''"
definition uuid_b :: string where "uuid_b = ''00000000-0000-0000-0000-00000000000b''"

lemma hyphenated_samples [simp]: "hyphenated uuid_a" "hyphenated uuid_b"
  unfolding hyphenated_def uuid_a_def uuid_b_def by code_simp+

end
