(* ===== verification/JournalProps.thy ===== *)
theory JournalProps
  imports JournalSample
begin

text \<open>
  The properties of the operation journal as seen by agents that share it, and runs of the system
  on the concrete library of \<open>JournalSample\<close> that show the hypotheses hold together.
\<close>

section \<open>A run of the system\<close>

definition repo_x :: "string \<Rightarrow> string" where
  "repo_x h = ''repo-'' @ h"

definition sys0 :: "string jsys" where
  "sys0 = \<lparr>j_fs = \<lparr>records = [], lock_files = [], held = [], faults = []\<rparr>,
           j_procs = Map.empty, j_applied = []\<rparr>"

definition fs_locked :: journal_fs where
  "fs_locked = fst (lock_repository sample_lib (repo_x ''h'') (j_fs sys0))"

definition rec_a :: "string op_record" where
  "rec_a = new_record uuid_b ''h'' (repo_x ''h'')"

definition fs_begun :: journal_fs where
  "fs_begun = fst (begin_record sample_lib uuid_a uuid_b ''h'' (repo_x ''h'') fs_locked)"

definition sys1 :: "string jsys" where
  "sys1 = sys0\<lparr>j_fs := fs_locked,
     j_procs := (j_procs sys0)(0 \<mapsto> Locked uuid_a uuid_b ''h'' (repo_x ''h''))\<rparr>"

definition sys2 :: "string jsys" where
  "sys2 = sys1\<lparr>j_procs := (j_procs sys1)(0 \<mapsto> Checked uuid_a uuid_b ''h'' (repo_x ''h''))\<rparr>"

definition sys3 :: "string jsys" where
  "sys3 = sys2\<lparr>j_fs := fs_begun, j_procs := (j_procs sys2)(0 \<mapsto> Applying uuid_a uuid_b rec_a),
     j_applied := (uuid_a, uuid_b) # j_applied sys2\<rparr>"

lemma locked_run:
  "lock_repository sample_lib (repo_x ''h'') (j_fs sys0) = (fs_locked, Inr ())"
  "records fs_locked = []" "faults fs_locked = []"
  "held fs_locked = [lock_name sample_lib (repo_x ''h'')]"
  "map_of (lock_files fs_locked) catalog = None"
  using catalog_not_lock_name [of sample_lib "repo_x ''h''"]
  by (simp_all add: fs_locked_def lock_repository_def sys0_def lock_def try_lock_def)

lemma begun_run:
  "begin_record sample_lib uuid_a uuid_b ''h'' (repo_x ''h'') fs_locked = (fs_begun, Inr rec_a)"
  "records fs_begun = [(rec_name uuid_a uuid_b,
     \<lparr>jf_regular = True, jf_private = True, jf_content = enc_record rec_a\<rparr>)]"
  "held fs_begun = [lock_name sample_lib (repo_x ''h'')]"
proof -
  have small: "length (enc_record rec_a) \<le> MAX_RECORD" "length (enc_record rec_a) \<le> MAX_BYTES"
    unfolding enc_record_def rec_a_def new_record_def uuid_b_def repo_x_def
    by (simp_all add: MAX_RECORD_def MAX_BYTES_def enc_str_def enc_nat_def enc_opt_def)
  have uu: "jl_uuid sample_lib uuid_b" by (simp add: sample_lib_def)
  have id: "r_id rec_a = uuid_b" by (simp add: rec_a_def new_record_def)
  have lk: "lock catalog fs_locked =
      (fs_locked\<lparr>lock_files := aput catalog \<lparr>lf_regular = True, lf_private = True\<rparr>
         (lock_files fs_locked), held := catalog # held fs_locked\<rparr>, Inr ())"
    using locked_run catalog_not_lock_name [of sample_lib "repo_x ''h''"]
    by (simp add: lock_def try_lock_def)
  have all: "begin_record sample_lib uuid_a uuid_b ''h'' (repo_x ''h'') fs_locked =
    (unlock catalog (fs_locked\<lparr>lock_files := aput catalog \<lparr>lf_regular = True, lf_private = True\<rparr>
         (lock_files fs_locked), held := catalog # held fs_locked, faults := [],
       records := [(rec_name uuid_a uuid_b,
         \<lparr>jf_regular = True, jf_private = True, jf_content = enc_record rec_a\<rparr>)]\<rparr>), Inr rec_a)"
    using small uu id locked_run(2,3)
    by (simp add: begin_record_def lk existing_def record_path_def uuid_def load_def load_sized_def
        record_paths_def MAX_RECORDS_def persist_def usage_default_def MAX_BYTES_def
        sample_lib_def [THEN arg_cong, of jl_print] flip: rec_a_def)
  show "begin_record sample_lib uuid_a uuid_b ''h'' (repo_x ''h'') fs_locked = (fs_begun, Inr rec_a)"
    unfolding fs_begun_def by (subst all) (simp only: all fst_conv)
  show "records fs_begun = [(rec_name uuid_a uuid_b,
     \<lparr>jf_regular = True, jf_private = True, jf_content = enc_record rec_a\<rparr>)]"
    "held fs_begun = [lock_name sample_lib (repo_x ''h'')]"
    by (simp_all add: fs_begun_def all locked_run(4))
qed

lemma sample_checked: "j_reachable sample_lib repo_x sys2"
proof -
  have ids: "jl_uuid sample_lib uuid_a" "jl_uuid sample_lib uuid_b" by (simp_all add: sample_lib_def)
  have r0: "j_reachable sample_lib repo_x sys0"
    by (rule j_reachable.init) (simp add: j_initial_def sys0_def)
  have "jstep sample_lib repo_x sys0 sys1"
    unfolding sys1_def
    by (rule jstep.acquire [where h = "''h''", OF _ ids(1) _ locked_run(1)]) (simp_all add: sys0_def)
  with r0 have r1: "j_reachable sample_lib repo_x sys1" by (rule j_reachable.step)
  have "jstep sample_lib repo_x sys1 sys2"
    unfolding sys2_def
    by (rule jstep.check)
      (simp_all add: sys1_def existing_def record_path_def uuid_def ids load_def load_sized_def
        locked_run)
  with r1 show ?thesis by (rule j_reachable.step)
qed

lemma sample_begin: "jstep sample_lib repo_x sys2 sys3"
  unfolding sys3_def
  by (rule jstep.start [where h = "''h''" and repo = "repo_x ''h''"])
    (simp_all add: sys2_def sys1_def begun_run(1) [simplified])

lemma sample_run: "j_reachable sample_lib repo_x sys3"
  by (rule j_reachable.step [OF sample_checked sample_begin])

lemma sample_view: "view sample_lib (j_fs sys3) (rec_name uuid_a uuid_b) = Some rec_a"
  by (simp add: sys3_def view_def begun_run sample_lib_def)

section \<open>Properties\<close>

lemma journal_write_once_aux:
  "lib_ok lib \<Longrightarrow> j_reachable lib repo_of s \<Longrightarrow> log_ok lib (j_fs s) (j_applied s)"
  using reachable_invariant jinvD(4) by blast

text \<open>
  C2: A journaled operation is applied at most once, whatever the interleaving of processes, the
  crashes and the disk faults; and an operation that was applied has a durable record.
\<close>

theorem journal_at_most_once:
  assumes "lib_ok lib" and "j_reachable lib repo_of s"
  shows "distinct (j_applied s) \<and>
    (\<forall>(c, i) \<in> set (j_applied s). view lib (j_fs s) (rec_name c i) \<noteq> None)"
  using journal_write_once_aux [OF assms] unfolding log_ok_def by blast

theorem journal_at_most_once_witness:
  "j_applied sys3 = [(uuid_a, uuid_b)] \<and>
   view sample_lib (j_fs sys3) (rec_name uuid_a uuid_b) \<noteq> None"
  using journal_at_most_once [OF sample_lib_ok sample_run]
  by (simp add: sys3_def sys2_def sys1_def sys0_def)

text \<open>
  C3: At any moment a repository has at most one record that is running or of unknown outcome.
\<close>

theorem journal_one_unresolved:
  assumes "lib_ok lib" and "j_reachable lib repo_of s"
    and "view lib (j_fs s) x = Some r" and "view lib (j_fs s) y = Some r'"
    and "r_repository r = r_repository r'"
    and "unresolved_state (r_state r)" and "unresolved_state (r_state r')"
  shows "x = y"
  using jinvD(5) [OF reachable_invariant [OF assms(1,2)]] assms(3-7) unfolding vinv_def by blast

theorem journal_one_unresolved_witness:
  "{x. \<exists>r. view sample_lib (j_fs sys3) x = Some r \<and> r_repository r = r_repository rec_a \<and>
      unresolved_state (r_state r)} = {rec_name uuid_a uuid_b}"
proof -
  have u: "unresolved_state (r_state rec_a)"
    by (simp add: rec_a_def new_record_def unresolved_state_def)
  show ?thesis
  proof (intro subset_antisym subsetI)
    fix x
    assume "x \<in> {x. \<exists>r. view sample_lib (j_fs sys3) x = Some r \<and>
      r_repository r = r_repository rec_a \<and> unresolved_state (r_state r)}"
    then obtain r where r: "view sample_lib (j_fs sys3) x = Some r"
      "r_repository r = r_repository rec_a" "unresolved_state (r_state r)" by blast
    then have "rec_name uuid_a uuid_b = x"
      using journal_one_unresolved [OF sample_lib_ok sample_run sample_view r(1) r(2) [symmetric] u r(3)]
      by simp
    then show "x \<in> {rec_name uuid_a uuid_b}" by simp
  qed (use sample_view u in blast)
qed

text \<open>
  C7: While a process applies an operation, its record is durable and running, no other process
  works on the repository, and a lookup by anybody leaves the record running: only a record
  whose owner is gone becomes uncertain.
\<close>

theorem journal_owner_protected:
  assumes ok: "lib_ok lib" and reach: "j_reachable lib repo_of s"
    and p: "j_procs s p = Some (Applying c i r)"
  shows "view lib (j_fs s) (rec_name c i) = Some r \<and> r_state r = ''running'' \<and>
    (\<forall>q ph. j_procs s q = Some ph \<and> q \<noteq> p \<longrightarrow> ph_repo ph \<noteq> r_repository r) \<and>
    (\<forall>c' i' fs res. jl_uuid lib c' \<and> get_record lib c' i' (j_fs s) = (fs, res) \<longrightarrow>
       view lib fs (rec_name c i) = Some r)"
proof (intro conjI allI impI)
  note inv = reachable_invariant [OF ok reach]
  show v: "view lib (j_fs s) (rec_name c i) = Some r" and "r_state r = ''running''"
    using jinvD(7) [OF inv p] by simp_all
  show "ph_repo ph \<noteq> r_repository r" if "j_procs s q = Some ph \<and> q \<noteq> p" for q ph
    using jinvD(3) [OF inv] p that unfolding excl_def by fastforce
  fix c' i' fs res assume g: "jl_uuid lib c' \<and> get_record lib c' i' (j_fs s) = (fs, res)"
  have "lock_name lib (r_repository r) \<in> set (held (j_fs s))" using jinvD(6) [OF inv p] by simp
  then have "view lib fs (rec_name c i) = view lib (j_fs s) (rec_name c i)"
    if "replaced lib (rec_name c' i') interrupted (j_fs s) fs"
    using that v unfolding replaced_def stored_def by (auto split: if_splits)
  then show "view lib fs (rec_name c i) = Some r"
    using get_effect [OF ok jinvD(1) [OF inv], of c' i' fs res] g v unfolding unchanged_def by auto
qed

theorem journal_owner_protected_witness:
  "view sample_lib (j_fs sys3) (rec_name uuid_a uuid_b) = Some rec_a \<and> r_state rec_a = ''running''"
  using journal_owner_protected [OF sample_lib_ok sample_run, of 0 uuid_a uuid_b rec_a]
  by (simp add: sys3_def)

text \<open>
  C8: Every step changes at most one record and moves it along the record's state machine: it is
  created running with number 1, keeps its identity, and each change takes the next number; the
  number is determined by the state, so the unchecked 32-bit increments never wrap.
\<close>

theorem journal_lifecycle:
  assumes "lib_ok lib" and "j_reachable lib repo_of s" and "jstep lib repo_of s s'"
  shows "evolves lib (j_fs s) (j_fs s') \<and>
    (\<forall>x r. view lib (j_fs s') x = Some r \<longrightarrow> r_seq r = seq_of (r_state r))"
  using jstep_evolves [OF assms(1) reachable_invariant [OF assms(1,2)] assms(3)]
    reachable_seq [OF assms(1) j_reachable.step [OF assms(2,3)]] by blast

lemma sample_stop: "jstep sample_lib repo_x sys3
    (sys3\<lparr>j_fs := unlock (lock_name sample_lib (ph_repo (Applying uuid_a uuid_b rec_a))) (j_fs sys3),
      j_procs := (j_procs sys3)(0 := None)\<rparr>)"
  by (rule jstep.stop) (simp add: sys3_def)

theorem journal_lifecycle_witness:
  "\<exists>s'. jstep sample_lib repo_x sys3 s' \<and>
     evolves sample_lib (j_fs sys3) (j_fs s')"
  using journal_lifecycle [OF sample_lib_ok sample_run sample_stop] sample_stop by blast

text \<open>
  A settled or reviewed record never changes again, and no record ever disappears.
\<close>

lemma journal_settled_final:
  assumes "lib_ok lib" and "j_reachable lib repo_of s" and "jstep lib repo_of s s'"
    and "view lib (j_fs s) x = Some r"
  shows "\<exists>r'. view lib (j_fs s') x = Some r' \<and> r_hash r' = r_hash r \<and>
    (\<not> unresolved_state (r_state r) \<longrightarrow> r' = r)"
  using jstep_evolves [OF assms(1) reachable_invariant [OF assms(1,2)] assms(3)] assms(4)
  unfolding evolves_def rec_next_def next_state_def unresolved_state_def
  by (auto split: option.splits)

lemma journal_settled_final_witness:
  "\<exists>s' r'. jstep sample_lib repo_x sys3 s' \<and>
     view sample_lib (j_fs s') (rec_name uuid_a uuid_b) = Some r' \<and> r_hash r' = r_hash rec_a"
  using journal_settled_final [OF sample_lib_ok sample_run sample_stop sample_view] sample_stop
  by blast

text \<open>
  C6: An interrupted operation blocks every new write of its repository: \<open>begin\<close> of an operation
  that has no record fails and changes no record.
\<close>

theorem journal_recovery_gate:
  assumes "lib_ok lib" and "wf_fs lib fs" and "jl_uuid lib c"
    and "unresolved_in lib repo fs" and "view lib fs (rec_name c i) = None"
  shows "\<exists>fs' e. begin_record lib c i h repo fs = (fs', Inl e) \<and> view lib fs' = view lib fs"
proof -
  obtain fs' res where b: "begin_record lib c i h repo fs = (fs', res)"
    by (cases "begin_record lib c i h repo fs") blast
  from begin_effect [OF assms(1-3) b] assms(4,5) show ?thesis
    unfolding begun_def unchanged_def by (cases res) (use b in auto)
qed

theorem journal_recovery_gate_witness:
  "\<exists>fs' e. begin_record sample_lib uuid_a uuid_a ''other'' (repo_x ''h'') (j_fs sys3) = (fs', Inl e)"
proof -
  have "unresolved_in sample_lib (repo_x ''h'') (j_fs sys3)"
    unfolding unresolved_in_def using sample_view
    by (intro exI [of _ "rec_name uuid_a uuid_b"] exI [of _ rec_a])
      (simp add: rec_a_def new_record_def unresolved_state_def)
  moreover have "view sample_lib (j_fs sys3) (rec_name uuid_a uuid_a) = None"
    by (simp add: sys3_def view_def begun_run rec_name_def uuid_a_def uuid_b_def)
  ultimately show ?thesis
    using journal_recovery_gate [OF sample_lib_ok
        jinvD(1) [OF reachable_invariant [OF sample_lib_ok sample_run]],
        of uuid_a "repo_x ''h''" uuid_a "''other''"]
    by (auto simp: sample_lib_def)
qed


end
