(* ===== verification/Start.thy ===== *)
theory Start
  imports Operations JournalProps
begin

text \<open>
  \<open>start\<close> of \<open>git/cli/writes.rs\<close>: the journaled execution of one write. The state joins the world
  the Git processes act on with the journal directory; the repository lock is released on every
  way out, as the guard of the source is. The properties connect the function with the interleaved
  system of \<open>JournalSystem\<close>: every run of \<open>start\<close> is a sequence of its steps, and Git mutates the
  repository only inside the one step that begins a fresh record.
\<close>

section \<open>The operation\<close>

record 'w agent =
  ag_git :: "'w gst"
  ag_journal :: journal_fs

definition on_git :: "('w gst, 'a) step \<Rightarrow> ('w agent, 'a) step" where
  "on_git m s = (case m (ag_git s) of (g, r) \<Rightarrow> (s\<lparr>ag_git := g\<rparr>, r))"

definition on_journal :: "(journal_fs, 'a) step \<Rightarrow> ('w agent, 'a) step" where
  "on_journal m s = (case m (ag_journal s) of (j, r) \<Rightarrow> (s\<lparr>ag_journal := j\<rparr>, r))"

text \<open>The scope of the lock guard: what it encloses runs, then the lock is dropped.\<close>

definition with_lock :: "string \<Rightarrow> ('w agent, 'a) step \<Rightarrow> ('w agent, 'a) step" where
  "with_lock n m s = (case m s of (s', r) \<Rightarrow> (s'\<lparr>ag_journal := unlock n (ag_journal s')\<rparr>, r))"

text \<open>The service keeps the journal it could open; \<open>Action\<close> is encoded by its serde derive.\<close>

record service =
  sv_jlib :: "json jlib"
  sv_client :: "string option"
  sv_action_json :: "action \<Rightarrow> json"

definition journal :: "service \<Rightarrow> gerror + string" where
  "journal sv = ok_or (gerror_new ''JOURNAL_UNAVAILABLE''
     ''No write can run without an operation journal.'') (sv_client sv)"

definition error_json :: "gerror \<Rightarrow> json" where
  "error_json e = JObj [(''code'', JStr (code e)), (''message'', JStr (message e)),
     (''retry'', JStr (retry e))]"

definition record_json :: "json op_record \<Rightarrow> json" where
  "record_json r = JObj [(''operationId'', JStr (r_id r)), (''repository'', JStr (r_repository r)),
     (''payloadHash'', JStr (r_hash r)), (''state'', JStr (r_state r)),
     (''seq'', JNum (uint (r_seq r))), (''result'', jopt id (r_result r)),
     (''error'', jopt error_json (r_error r))]"

text \<open>The identity of the common directory, across agent versions and worktrees.\<close>

definition repo_identity :: "json jlib \<Rightarrow> repo \<Rightarrow> u64 \<times> u64 \<Rightarrow> string" where
  "repo_identity jl repo m =
     hash jl (rp_common repo @ be64 (fst m) @ be64 (snd m))"

definition payload ::
  "libs \<Rightarrow> service \<Rightarrow> repo \<Rightarrow> string \<Rightarrow> string \<Rightarrow> action \<Rightarrow> gerror + string" where
  "payload lb sv repo ident snapshot a =
     page_hash lb (JObj [(''engine'', JStr ''cli''), (''repository'', JStr ident),
       (''worktree'', wpath lb (rp_git_dir repo)), (''snapshot'', JStr snapshot),
       (''action'', sv_action_json sv a)])"

definition stale_snapshot :: gerror where
  "stale_snapshot = gerror_new ''STALE_SNAPSHOT''
     ''The repository changed. Refresh before applying this operation.''"

definition start_capture :: "libs \<Rightarrow> 'w os \<Rightarrow> repo \<Rightarrow> action \<Rightarrow> ('w gst, capture) step" where
  "start_capture lb os repo a =
     (if is_worktree a
      then bindS (worktrees lb os repo) (\<lambda>(_, fingerprint).
             retS \<lparr>cp_rows = [], cp_fingerprint = fingerprint, cp_metadata = JNull\<rparr>)
      else status_capture lb os repo)"

definition lock_paths :: "repo \<Rightarrow> bytes list" where
  "lock_paths repo = [path_join (rp_git_dir repo) ''index.lock'',
     path_join (rp_git_dir repo) ''HEAD.lock'',
     path_join (rp_common repo) ''packed-refs.lock'',
     path_join (rp_git_dir repo) ''FETCH_HEAD.lock'']"

fun no_locks :: "'w os \<Rightarrow> bytes list \<Rightarrow> ('w gst, unit) step" where
  "no_locks os [] = retS ()"
| "no_locks os (p # ps) =
     bindS (readW (\<lambda>w. ok_or io_error (os_exists os p w))) (\<lambda>there.
       if there then failS (gerror_new ''REPOSITORY_BUSY''
                              ''Git has an existing lock. No lock was removed.'')
       else no_locks os ps)"

text \<open>The record after \<open>apply\<close>.\<close>

definition concluded :: "json op_record \<Rightarrow> gerror + json \<Rightarrow> json op_record" where
  "concluded r res =
     (case res of
        Inr v \<Rightarrow> r\<lparr>r_state := (if jget v ''needsResolution'' = JBool True then ''needs_resolution''
                               else ''succeeded''),
                   r_seq := r_seq r + 1, r_result := Some v\<rparr>
      | Inl e \<Rightarrow> r\<lparr>r_state := (if code e = ''OUTCOME_UNKNOWN'' then ''outcome_unknown''
                               else ''failed''),
                   r_seq := r_seq r + 1, r_error := Some e\<rparr>)"

text \<open>What runs under the lock once the snapshot and the lock files have been checked.\<close>

definition start_apply ::
  "libs \<Rightarrow> diff_lib \<Rightarrow> 'w os \<Rightarrow> json jlib \<Rightarrow> string \<Rightarrow> string \<Rightarrow> string \<Rightarrow> string \<Rightarrow> repo \<Rightarrow>
   action \<Rightarrow> capture \<Rightarrow> string \<Rightarrow> ('w agent, json) step" where
  "start_apply lb dl os jl client i h ident repo a cp token =
     bindS (on_journal (begin_record jl client i h ident)) (\<lambda>r.
     bindS (attemptS (on_git (apply_action lb dl os repo a cp token))) (\<lambda>res.
     bindS (map_errS (\<lambda>_. outcome_unknown) (on_journal (save jl client (concluded r res)))) (\<lambda>_.
     retS (record_json (concluded r res)))))"

definition start_checks ::
  "libs \<Rightarrow> 'w os \<Rightarrow> repo \<Rightarrow> string \<Rightarrow> action \<Rightarrow> ('w gst, capture \<times> string) step" where
  "start_checks lb os repo snapshot a =
     bindS (liftS (snapshot_decode (lb_tk lb) snapshot)) (\<lambda>snap.
     bindS (guardS (sn_r snap = rp_id repo \<and>
              sn_q snap = (if is_worktree a then ''cli.worktrees'' else ''cli.status'') \<and>
              sn_p snap = None) stale_snapshot) (\<lambda>_.
     bindS (start_capture lb os repo a) (\<lambda>cp.
     bindS (guardS (cp_fingerprint cp = sn_f snap) stale_snapshot) (\<lambda>_.
     bindS (no_locks os (lock_paths repo)) (\<lambda>_.
     retS (cp, snapshot_encode (lb_tk lb) snap))))))"

definition start_locked ::
  "libs \<Rightarrow> diff_lib \<Rightarrow> 'w os \<Rightarrow> json jlib \<Rightarrow> string \<Rightarrow> string \<Rightarrow> string \<Rightarrow> string \<Rightarrow> repo \<Rightarrow>
   string \<Rightarrow> action \<Rightarrow> ('w agent, json) step" where
  "start_locked lb dl os jl client i h ident repo snapshot a =
     bindS (on_journal (\<lambda>j. (j, existing jl client i h j))) (\<lambda>found.
       case found of Some r \<Rightarrow> retS (record_json r)
       | None \<Rightarrow>
           bindS (on_git (start_checks lb os repo snapshot a)) (\<lambda>(cp, token).
             start_apply lb dl os jl client i h ident repo a cp token))"

text \<open>What follows the computation of the payload: replay, or the lock and the rest.\<close>

definition start_repo ::
  "libs \<Rightarrow> diff_lib \<Rightarrow> 'w os \<Rightarrow> json jlib \<Rightarrow> string \<Rightarrow> string \<Rightarrow> string \<Rightarrow> string \<Rightarrow> repo \<Rightarrow>
   string \<Rightarrow> action \<Rightarrow> ('w agent, json) step" where
  "start_repo lb dl os jl client i h ident repo snapshot a =
     bindS (on_journal (\<lambda>j. (j, existing jl client i h j))) (\<lambda>found.
       case found of
         Some _ \<Rightarrow> bindS (on_journal (get_record jl client i)) (\<lambda>r. retS (record_json r))
       | None \<Rightarrow>
           bindS (on_journal (lock_repository jl ident)) (\<lambda>_.
             with_lock (lock_name jl ident)
               (start_locked lb dl os jl client i h ident repo snapshot a)))"

definition start ::
  "libs \<Rightarrow> diff_lib \<Rightarrow> 'w os \<Rightarrow> service \<Rightarrow> string \<Rightarrow> string \<Rightarrow> string \<Rightarrow> action \<Rightarrow>
   ('w agent, json) step" where
  "start lb dl os sv i repo_id snapshot a =
     bindS (liftS (journal sv)) (\<lambda>client.
     bindS (on_git (from_id lb os repo_id)) (\<lambda>repo.
     bindS (on_git (readW (\<lambda>w. ok_or io_error (os_meta os (rp_common repo) w)))) (\<lambda>m.
     let jl = sv_jlib sv; ident = repo_identity jl repo m in
     bindS (liftS (payload lb sv repo ident snapshot a)) (\<lambda>h.
       start_repo lb dl os jl client i h ident repo snapshot a))))"

section \<open>Runs of \<open>start\<close> as runs of the system\<close>

abbreviation jsteps :: "'r jlib \<Rightarrow> (string \<Rightarrow> string) \<Rightarrow> 'r jsys \<Rightarrow> 'r jsys \<Rightarrow> bool" where
  "jsteps lib repo_of \<equiv> (jstep lib repo_of)\<^sup>*\<^sup>*"

lemma jsteps_reachable:
  "jsteps lib repo_of s s' \<Longrightarrow> j_reachable lib repo_of s \<Longrightarrow> j_reachable lib repo_of s'"
  by (induction rule: rtranclp_induct) (auto intro: j_reachable.step)

text \<open>
  \<open>run_sim\<close>: a run from \<open>g\<close> to \<open>g'\<close> is matched by steps of the system that end with process \<open>p\<close>
  idle; Git mutated nothing, or the operation was logged as applied.
\<close>

definition run_sim ::
  "json jlib \<Rightarrow> (string \<Rightarrow> string) \<Rightarrow> string \<Rightarrow> string \<Rightarrow> nat \<Rightarrow> json jsys \<Rightarrow> 'w gst \<Rightarrow>
   'w agent \<Rightarrow> bool" where
  "run_sim jl repo_of c i p s git g' \<longleftrightarrow>
     (\<exists>s'. jsteps jl repo_of s s' \<and> j_fs s' = ag_journal g' \<and>
        j_procs s' = (j_procs s)(p := None) \<and>
        (same_mutations git (ag_git g') \<and> j_applied s' = j_applied s \<or>
         j_applied s' = (c, i) # j_applied s))"

lemma run_simI:
  assumes "jsteps jl repo_of s s'" "j_fs s' = ag_journal g'" "j_procs s' = (j_procs s)(p := None)"
    and "same_mutations git (ag_git g') \<and> j_applied s' = j_applied s \<or>
         j_applied s' = (c, i) # j_applied s"
  shows "run_sim jl repo_of c i p s git g'"
  using assms unfolding run_sim_def by blast

lemma run_sim_step:
  assumes "jstep jl repo_of s s1" "run_sim jl repo_of c i p s1 git g'"
    and "(j_procs s1)(p := None) = (j_procs s)(p := None)" "j_applied s1 = j_applied s"
  shows "run_sim jl repo_of c i p s git g'"
  using assms unfolding run_sim_def by (metis converse_rtranclp_into_rtranclp)

lemma completes_concluded: "completes r (concluded r res)"
  by (cases res) (auto simp: completes_def concluded_def settled_state_def)

lemma stop_sim:
  assumes "j_procs s p = Some ph" "same_mutations git (ag_git g')"
    and "ag_journal g' = unlock (lock_name jl (ph_repo ph)) (j_fs s)"
  shows "run_sim jl repo_of c i p s git g'"
proof (rule run_simI)
  show "jsteps jl repo_of s (s\<lparr>j_fs := unlock (lock_name jl (ph_repo ph)) (j_fs s),
      j_procs := (j_procs s)(p := None)\<rparr>)"
    by (rule r_into_rtranclp, rule jstep.stop [OF assms(1)])
qed (simp_all add: assms)

text \<open>
  The shape every journaled write has: begin the record, mutate, save the outcome. Whatever the
  mutation is, a run of it under the lock is a run of the system.
\<close>

lemma mutation_sim:
  assumes ok: "lib_ok jl" and inv: "jinv jl repo_of s"
    and ph: "j_procs s p = Some (Checked c i h ident)" and fs: "j_fs s = ag_journal g"
    and git: "same_mutations git (ag_git g)" and k: "\<And>r res. completes r (k r res)"
  shows "run_sim jl repo_of c i p s git
    (fst (with_lock (lock_name jl ident)
      (bindS (on_journal (begin_record jl c i h ident)) (\<lambda>r.
       bindS (attemptS (on_git m)) (\<lambda>res.
       bindS (map_errS err (on_journal (save jl c (k r res)))) (\<lambda>_. retS (out r res))))) g))"
    (is "run_sim _ _ _ _ _ _ _ ?g'")
proof -
  obtain f r where b: "begin_record jl c i h ident (j_fs s) = (f, r)"
    by (cases "begin_record jl c i h ident (j_fs s)")
  note ok_ph = jinvD(7) [OF inv ph]
  show ?thesis
  proof (cases r)
    case (Inl e)
    have g': "?g' = g\<lparr>ag_journal := unlock (lock_name jl ident) f\<rparr>"
      using b Inl fs by (simp add: with_lock_def bindS_def on_journal_def)
    show ?thesis
    proof (rule run_simI)
      show "jsteps jl repo_of s (s\<lparr>j_fs := unlock (lock_name jl ident) f,
          j_procs := (j_procs s)(p := None)\<rparr>)"
        using b Inl ph by (auto intro: jstep.refuse)
    qed (use g' git in simp_all)
  next
    case (Inr r0)
    have r0: "r0 = new_record i h ident"
      using begin_effect [OF ok jinvD(1) [OF inv] _ b] ok_ph Inr by auto
    obtain git1 res where ap: "m (ag_git g) = (git1, res)" by (cases "m (ag_git g)")
    obtain f2 sv where sv: "save jl c (k r0 res) f = (f2, sv)" by (cases "save jl c (k r0 res) f")
    let ?s1 = "s\<lparr>j_fs := f, j_procs := (j_procs s)(p \<mapsto> Applying c i r0),
                 j_applied := (c, i) # j_applied s\<rparr>"
    let ?s2 = "?s1\<lparr>j_fs := unlock (lock_name jl (r_repository r0)) f2,
                   j_procs := (j_procs ?s1)(p := None)\<rparr>"
    have st1: "jstep jl repo_of s ?s1" using b Inr ph by (auto intro: jstep.start)
    have st2: "jstep jl repo_of ?s1 ?s2"
      by (rule jstep.finish [OF _ k]) (use sv in simp_all)
    have g': "?g' = \<lparr>ag_git = git1, ag_journal = unlock (lock_name jl ident) f2\<rparr>"
      using b Inr ap sv fs
      by (cases g, cases sv) (simp_all add: with_lock_def bindS_def on_journal_def
          on_git_def attemptS_def map_errS_def)
    show ?thesis
      by (rule run_simI [of _ _ _ ?s2]) (use st1 st2 g' r0 in \<open>auto simp: new_record_def\<close>)
  qed
qed

lemma no_locks_quiet: "preserves same_mutations (no_locks os ps)"
proof (induction ps)
  case Nil
  show ?case unfolding no_locks.simps by (rule quiet.pres_ret)
next
  case (Cons p ps)
  show ?case unfolding no_locks.simps
    by (rule quiet.pres_bind [OF readW_quiet], rule quiet.pres_if) (auto intro: quiet.pres_fail Cons)
qed

lemma start_checks_quiet: "preserves same_mutations (start_checks lb os repo snapshot a)"
  unfolding start_checks_def start_capture_def case_prod_beta
  by (intro quiet.pres_rules no_locks_quiet worktrees_quiet status_capture_quiet)

lemma locked_sim:
  assumes ok: "lib_ok jl" and reach: "j_reachable jl repo_of s"
    and ph: "j_procs s p = Some (Locked c i h ident)" and fs: "j_fs s = ag_journal g"
    and git: "same_mutations git (ag_git g)" and checks: "preserves same_mutations checks"
    and body: "\<And>x s g. jinv jl repo_of s \<Longrightarrow> j_procs s p = Some (Checked c i h ident) \<Longrightarrow>
      j_fs s = ag_journal g \<Longrightarrow> same_mutations git (ag_git g) \<Longrightarrow>
      run_sim jl repo_of c i p s git (fst (with_lock (lock_name jl ident) (body x) g))"
  shows "run_sim jl repo_of c i p s git
    (fst (with_lock (lock_name jl ident)
      (bindS (on_journal (\<lambda>j. (j, existing jl c i h j))) (\<lambda>found.
         case found of Some r \<Rightarrow> retS (out r) | None \<Rightarrow> bindS (on_git checks) body)) g))"
    (is "run_sim _ _ _ _ _ _ _ ?g'")
proof (cases "existing jl c i h (ag_journal g)")
  case (Inl e)
  show ?thesis
    by (rule stop_sim [OF ph])
      (use Inl git fs in \<open>simp_all add: with_lock_def bindS_def on_journal_def\<close>)
next
  case (Inr found)
  note ex = Inr
  show ?thesis
  proof (cases found)
    case (Some r)
    show ?thesis
      by (rule stop_sim [OF ph])
        (use Inr Some git fs in \<open>simp_all add: with_lock_def bindS_def on_journal_def\<close>)
  next
    case None
    obtain git1 ck where ck: "checks (ag_git g) = (git1, ck)" by (cases "checks (ag_git g)")
    have "same_mutations (ag_git g) git1"
      using checks ck unfolding preserves_def by (metis fst_conv)
    then have git1: "same_mutations git git1" using git by (rule quiet.trans [rotated])
    show ?thesis
    proof (cases ck)
      case (Inl e)
      show ?thesis
        by (rule stop_sim [OF ph])
          (use ex None Inl ck git1 fs in
            \<open>simp_all add: with_lock_def bindS_def on_journal_def on_git_def\<close>)
    next
      case (Inr x)
      let ?s1 = "s\<lparr>j_procs := (j_procs s)(p \<mapsto> Checked c i h ident)\<rparr>"
      let ?g1 = "g\<lparr>ag_git := git1\<rparr>"
      have st: "jstep jl repo_of s ?s1"
        by (rule jstep.check [OF ph]) (use fs None ex in simp)
      have inv1: "jinv jl repo_of ?s1"
        by (rule reachable_invariant [OF ok j_reachable.step [OF reach st]])
      have g': "?g' = fst (with_lock (lock_name jl ident) (body x) ?g1)"
        using ex None Inr ck by (simp add: with_lock_def bindS_def on_journal_def on_git_def)
      show ?thesis unfolding g'
        by (rule run_sim_step [OF st body [OF inv1]]) (use fs git1 in simp_all)
    qed
  qed
qed

text \<open>A run that stops before the lock leaves the system where it was.\<close>

lemma idle_sim:
  "same_mutations git (ag_git g') \<Longrightarrow> j_fs s = ag_journal g' \<Longrightarrow> j_procs s p = None \<Longrightarrow>
   run_sim jl repo_of c i p s git g'"
  by (rule run_simI [of _ _ s]) (auto simp: fun_upd_idem)

lemma one_step_sim:
  assumes "jstep jl repo_of s s'" "same_mutations git (ag_git g')" "j_fs s' = ag_journal g'"
    and "j_procs s' = j_procs s" "j_procs s p = None" "j_applied s' = j_applied s"
  shows "run_sim jl repo_of c i p s git g'"
  by (rule run_simI [of _ _ _ s']) (use assms in \<open>auto simp: fun_upd_idem\<close>)

text \<open>What runs before only reads: Git mutates nothing and the journal stays as it is.\<close>

definition looked :: "'w agent \<Rightarrow> 'w agent \<Rightarrow> bool" where
  "looked g g' \<longleftrightarrow> same_mutations (ag_git g) (ag_git g') \<and> ag_journal g' = ag_journal g"

interpretation looking: effect looked
  by unfold_locales (simp_all add: looked_def same_mutations_def)

lemma on_git_looks: "preserves same_mutations m \<Longrightarrow> preserves looked (on_git m)"
  unfolding preserves_def on_git_def looked_def by (simp add: case_prod_beta)

lemma front_sim:
  assumes "preserves looked m" and idle: "j_procs s p = None" and fs: "j_fs s = ag_journal g"
    and git: "same_mutations git (ag_git g)"
    and rest: "\<And>x g'. m g = (g', Inr x) \<Longrightarrow> j_fs s = ag_journal g' \<Longrightarrow>
      same_mutations git (ag_git g') \<Longrightarrow> run_sim jl repo_of c i p s git (fst (k x g'))"
  shows "run_sim jl repo_of c i p s git (fst (bindS m k g))"
proof -
  obtain g' r where m: "m g = (g', r)" by (cases "m g")
  then have "looked g g'" using assms(1) unfolding preserves_def by (metis fst_conv)
  then have g': "same_mutations git (ag_git g')" "j_fs s = ag_journal g'"
    using git fs unfolding looked_def by (auto intro: quiet.trans)
  show ?thesis
    by (cases r) (use m g' idle_sim [OF g' idle] rest in \<open>auto simp: bindS_def\<close>)
qed

text \<open>Replay of a recorded operation, or the lock and what runs under it.\<close>

lemma replay_sim:
  assumes c: "jl_uuid jl c" and idle: "j_procs s p = None" and fs: "j_fs s = ag_journal g"
    and git: "same_mutations git (ag_git g)"
    and new: "run_sim jl repo_of c i p s git (fst (rest g))"
  shows "run_sim jl repo_of c i p s git
    (fst (bindS (on_journal (\<lambda>j. (j, existing jl c i h j))) (\<lambda>found.
       case found of Some _ \<Rightarrow> bindS (on_journal (get_record jl c i)) (\<lambda>r. retS (out r))
       | None \<Rightarrow> rest) g))"
proof (cases "existing jl c i h (ag_journal g)")
  case (Inl e)
  show ?thesis
    by (rule idle_sim [OF _ _ idle])
      (use Inl git fs in \<open>simp_all add: bindS_def on_journal_def\<close>)
next
  case (Inr found)
  note ex = Inr
  show ?thesis
  proof (cases found)
    case (Some r)
    obtain f gr where gr: "get_record jl c i (ag_journal g) = (f, gr)"
      by (cases "get_record jl c i (ag_journal g)")
    have st: "jstep jl repo_of s (s\<lparr>j_fs := f\<rparr>)"
      by (rule jstep.lookup [OF c]) (use gr fs in simp)
    show ?thesis
      by (rule one_step_sim [OF st])
        (use ex Some gr git idle in \<open>cases gr; simp add: bindS_def on_journal_def\<close>)+
  next
    case None
    then show ?thesis using new ex by (simp add: bindS_def on_journal_def)
  qed
qed

lemma acquire_sim:
  assumes c: "jl_uuid jl c" and reach: "j_reachable jl repo_of s"
    and idle: "j_procs s p = None" and fs: "j_fs s = ag_journal g"
    and git: "same_mutations git (ag_git g)" and rep: "repo_of h = ident"
    and locked: "\<And>s g. j_reachable jl repo_of s \<Longrightarrow> j_procs s p = Some (Locked c i h ident) \<Longrightarrow>
      j_fs s = ag_journal g \<Longrightarrow> same_mutations git (ag_git g) \<Longrightarrow>
      run_sim jl repo_of c i p s git (fst (with_lock (lock_name jl ident) locked g))"
  shows "run_sim jl repo_of c i p s git
    (fst (bindS (on_journal (lock_repository jl ident)) (\<lambda>_.
       with_lock (lock_name jl ident) locked) g))"
proof -
  obtain f lr where lr: "lock_repository jl ident (ag_journal g) = (f, lr)"
    by (cases "lock_repository jl ident (ag_journal g)")
  show ?thesis
  proof (cases lr)
    case (Inl e)
    have st: "jstep jl repo_of s (s\<lparr>j_fs := f\<rparr>)"
      by (rule jstep.busy) (use lr Inl fs in simp)
    show ?thesis
      by (rule one_step_sim [OF st])
        (use lr Inl git idle in \<open>simp_all add: bindS_def on_journal_def\<close>)
  next
    case (Inr u)
    let ?s1 = "s\<lparr>j_fs := f, j_procs := (j_procs s)(p \<mapsto> Locked c i h ident)\<rparr>"
    let ?g1 = "g\<lparr>ag_journal := f\<rparr>"
    have st: "jstep jl repo_of s ?s1"
      by (rule jstep.acquire [where h = h, OF idle c]) (use lr Inr fs rep in simp_all)
    have g': "fst (bindS (on_journal (lock_repository jl ident)) (\<lambda>_.
        with_lock (lock_name jl ident) locked) g) = fst (with_lock (lock_name jl ident) locked ?g1)"
      using lr Inr by (simp add: bindS_def on_journal_def)
    show ?thesis unfolding g'
      by (rule run_sim_step [OF st locked [OF j_reachable.step [OF reach st]]])
        (use git in simp_all)
  qed
qed

lemma start_repo_sim:
  assumes ok: "lib_ok jl" and c: "jl_uuid jl c" and reach: "j_reachable jl repo_of s"
    and idle: "j_procs s p = None" and fs: "j_fs s = ag_journal g"
    and git: "same_mutations git (ag_git g)" and rep: "repo_of h = ident"
  shows "run_sim jl repo_of c i p s git
    (fst (start_repo lb dl os jl c i h ident repo snapshot a g))"
proof -
  have apply_it: "run_sim jl repo_of c i p s git (fst (with_lock (lock_name jl ident)
      (start_apply lb dl os jl c i h ident repo a cp token) g))"
    if "jinv jl repo_of s" "j_procs s p = Some (Checked c i h ident)" "j_fs s = ag_journal g"
      "same_mutations git (ag_git g)" for cp token s g
    unfolding start_apply_def
    by (rule mutation_sim [OF ok that completes_concluded])
  show ?thesis
    unfolding start_repo_def start_locked_def
    by (rule replay_sim [OF c idle fs git], rule acquire_sim [OF c reach idle fs git rep],
        rule locked_sim [OF ok _ _ _ _ start_checks_quiet]) (auto intro: apply_it)
qed

lemma start_sim:
  assumes ok: "lib_ok (sv_jlib sv)" and client: "sv_client sv = Some c"
    and c: "jl_uuid (sv_jlib sv) c" and reach: "j_reachable (sv_jlib sv) repo_of s"
    and idle: "j_procs s p = None" and fs: "j_fs s = ag_journal g"
    and rep: "\<And>git repo m h. from_id lb os repo_id (ag_git g) = (git, Inr repo) \<Longrightarrow>
           os_meta os (rp_common repo) (gw git) = Some m \<Longrightarrow>
           payload lb sv repo (repo_identity (sv_jlib sv) repo m) snapshot a = Inr h \<Longrightarrow>
           repo_of h = repo_identity (sv_jlib sv) repo m"
  shows "run_sim (sv_jlib sv) repo_of c i p s (ag_git g) (fst (start lb dl os sv i repo_id snapshot a g))"
proof -
  have "run_sim (sv_jlib sv) repo_of c i p s (ag_git g)
    (fst (bindS (on_git (from_id lb os repo_id)) (\<lambda>repo.
       bindS (on_git (readW (\<lambda>w. ok_or io_error (os_meta os (rp_common repo) w)))) (\<lambda>m.
       bindS (liftS (payload lb sv repo (repo_identity (sv_jlib sv) repo m) snapshot a)) (\<lambda>h.
         start_repo lb dl os (sv_jlib sv) c i h (repo_identity (sv_jlib sv) repo m) repo snapshot a))) g))"
  proof (rule front_sim [OF on_git_looks [OF from_id_quiet] idle fs])
    show "same_mutations (ag_git g) (ag_git g)" by (simp add: same_mutations_def)
  next
    fix repo g1
    assume f: "on_git (from_id lb os repo_id) g = (g1, Inr repo)" and g1: "j_fs s = ag_journal g1"
      "same_mutations (ag_git g) (ag_git g1)"
    show "run_sim (sv_jlib sv) repo_of c i p s (ag_git g)
      (fst (bindS (on_git (readW (\<lambda>w. ok_or io_error (os_meta os (rp_common repo) w)))) (\<lambda>m.
       bindS (liftS (payload lb sv repo (repo_identity (sv_jlib sv) repo m) snapshot a)) (\<lambda>h.
         start_repo lb dl os (sv_jlib sv) c i h (repo_identity (sv_jlib sv) repo m) repo snapshot a)) g1))"
    proof (rule front_sim [OF on_git_looks [OF readW_quiet] idle g1], rule front_sim [OF looking.pres_lift idle])
      fix m g2 h g3
      assume run: "on_git (readW (\<lambda>w. ok_or io_error (os_meta os (rp_common repo) w))) g1 = (g2, Inr m)"
        "liftS (payload lb sv repo (repo_identity (sv_jlib sv) repo m) snapshot a) g2 = (g3, Inr h)"
        and g3: "j_fs s = ag_journal g3" "same_mutations (ag_git g) (ag_git g3)"
      have "repo_of h = repo_identity (sv_jlib sv) repo m"
        by (rule rep [of "ag_git g1"])
          (use f run in \<open>auto simp: on_git_def readW_def liftS_def ok_or_Inr_iff split: prod.splits\<close>)
      then show "run_sim (sv_jlib sv) repo_of c i p s (ag_git g)
        (fst (start_repo lb dl os (sv_jlib sv) c i h (repo_identity (sv_jlib sv) repo m) repo snapshot a g3))"
        by (rule start_repo_sim [OF ok c reach idle g3])
    qed
  qed
  then show ?thesis by (simp only: start_def journal_def client ok_or_simps bindS_basic Let_def)
qed

text \<open>The operation was logged once at most, so the run of the system applies a new one or nothing.\<close>

lemma run_sim_applied:
  assumes "run_sim jl repo_of c i p s (ag_git g) g'" and "lib_ok jl" and "j_reachable jl repo_of s"
    and "j_procs s p = None"
  shows "\<exists>s'. jsteps jl repo_of s s' \<and> j_fs s' = ag_journal g' \<and> j_procs s' = j_procs s \<and>
    (mutations (ag_git g') = mutations (ag_git g) \<or>
     j_applied s' = (c, i) # j_applied s \<and> (c, i) \<notin> set (j_applied s))"
proof -
  obtain s' where s': "jsteps jl repo_of s s'" "j_fs s' = ag_journal g'"
    "j_procs s' = (j_procs s)(p := None)"
    "same_mutations (ag_git g) (ag_git g') \<or> j_applied s' = (c, i) # j_applied s"
    using assms(1) unfolding run_sim_def by blast
  have "distinct (j_applied s')"
    using journal_write_once_aux [OF assms(2) jsteps_reachable [OF s'(1) assms(3)]]
    by (simp add: log_ok_def)
  moreover have "j_procs s' = j_procs s" using s'(3) assms(4) by (auto simp: fun_upd_idem)
  ultimately show ?thesis
    using s' unfolding same_mutations_def by (intro exI [of _ s']) auto
qed

section \<open>Errors that leave no trace\<close>

text \<open>An error other than an unreadable journal means that the replacement did not take place.\<close>

lemma persist_kept:
  assumes "persist lib client r known fs = (fs', Inl e)" "code e \<noteq> ''JOURNAL_UNAVAILABLE''"
  shows "records fs' = records fs"
  using assms
  by (auto simp: persist_def failure_def Let_def split: sum.splits option.splits if_splits fault.splits)

lemma lock_kept: "records (fst (lock n fs)) = records fs"
  by (simp add: lock_def try_lock_def split: option.split)

lemma save_kept:
  assumes "save lib client r fs = (fs', Inl e)" "code e \<noteq> ''JOURNAL_UNAVAILABLE''"
  shows "records fs' = records fs"
proof -
  obtain fs1 lr where l: "lock catalog fs = (fs1, lr)" by (cases "lock catalog fs")
  have r1: "records fs1 = records fs" using lock_kept [of catalog fs] l by simp
  show ?thesis
  proof (cases lr)
    case (Inl x)
    then show ?thesis using assms l r1 by (simp add: save_def)
  next
    case (Inr u)
    obtain fs2 pr where p: "persist lib client r None fs1 = (fs2, pr)"
      by (cases "persist lib client r None fs1")
    have "pr = Inl e" "fs' = unlock catalog fs2" using assms(1) l Inr p by (simp_all add: save_def)
    then show ?thesis using persist_kept [of lib client r None fs1 fs2 e] p assms(2) r1 by simp
  qed
qed

lemma begin_kept:
  assumes "begin_record lib client i h repo fs = (fs', Inl e)" "code e \<noteq> ''JOURNAL_UNAVAILABLE''"
  shows "records fs' = records fs"
proof -
  obtain fs1 lr where l: "lock catalog fs = (fs1, lr)" by (cases "lock catalog fs")
  have r1: "records fs1 = records fs" using lock_kept [of catalog fs] l by simp
  have p: "records fs2 = records fs1"
    if "persist lib client (new_record i h repo :: 'a op_record) k fs1 = (fs2, Inl e)" for k fs2
    by (rule persist_kept [OF that assms(2)])
  show ?thesis
    using assms(1) l r1 p
    by (auto simp: begin_record_def split: sum.splits option.splits prod.splits)
qed

lemma get_kept:
  assumes "get_record lib client i fs = (fs', Inl e)" "code e \<noteq> ''JOURNAL_UNAVAILABLE''"
  shows "records fs' = records fs"
proof -
  have lk: "records f = records fs" if "lock_repository lib n fs = (f, x)" for n f x
    using lock_kept [of "lock_name lib n" fs] that by (simp add: lock_repository_def)
  have sv: "records f2 = records f1" if "save lib client r f1 = (f2, Inl e)" for r f1 f2
    by (rule save_kept [OF that assms(2)])
  show ?thesis
    using assms(1) lk sv
    by (auto simp: get_record_def Let_def split: sum.splits option.splits prod.splits if_splits)
qed

text \<open>
  \<open>traceless\<close>: when the step fails with a definite error, Git mutated nothing and the records are
  what they were; \<open>silent\<close>: also when it succeeds.
\<close>

definition definite :: "gerror \<Rightarrow> bool" where
  "definite e \<longleftrightarrow> code e \<noteq> ''JOURNAL_UNAVAILABLE'' \<and> code e \<noteq> ''OUTCOME_UNKNOWN''"

definition untouched :: "'w agent \<Rightarrow> 'w agent \<Rightarrow> bool" where
  "untouched g g' \<longleftrightarrow> same_mutations (ag_git g) (ag_git g') \<and>
     records (ag_journal g') = records (ag_journal g)"

definition traceless :: "('w agent, 'a) step \<Rightarrow> bool" where
  "traceless m \<longleftrightarrow> (\<forall>g g' e. m g = (g', Inl e) \<and> definite e \<longrightarrow> untouched g g')"

interpretation undisturbed: effect untouched
  by unfold_locales (simp_all add: untouched_def same_mutations_def)

lemma traceless_silent: "preserves untouched m \<Longrightarrow> traceless m"
  unfolding traceless_def preserves_def by (metis fst_conv)

lemma traceless_bind:
  assumes "preserves untouched m" "\<And>x. traceless (k x)"
  shows "traceless (bindS m k)"
  unfolding traceless_def
proof (intro allI impI, elim conjE)
  fix g g' e
  assume run: "bindS m k g = (g', Inl e)" and e: "definite e"
  obtain g1 r where m: "m g = (g1, r)" by (cases "m g")
  have u: "untouched g g1" using assms(1) m unfolding preserves_def by (metis fst_conv)
  show "untouched g g'"
  proof (cases r)
    case (Inl x)
    then show ?thesis using run m u by (simp add: bindS_def)
  next
    case (Inr x)
    then have "k x g1 = (g', Inl e)" using run m by (simp add: bindS_def)
    then have "untouched g1 g'" using assms(2) e unfolding traceless_def by blast
    with u show ?thesis by (rule undisturbed.trans)
  qed
qed

lemma traceless_fail_first:
  assumes "traceless m" "\<And>x g g' e. k x g = (g', Inl e) \<Longrightarrow> \<not> definite e"
  shows "traceless (bindS m k)"
  using assms unfolding traceless_def bindS_def
  by (auto split: prod.splits sum.splits)

lemma traceless_with_lock: "traceless m \<Longrightarrow> traceless (with_lock n m)"
  unfolding traceless_def with_lock_def untouched_def by (auto split: prod.splits)

lemma on_git_silent: "preserves same_mutations m \<Longrightarrow> preserves untouched (on_git m)"
  unfolding preserves_def on_git_def untouched_def by (simp add: case_prod_beta)

lemma read_journal_silent: "preserves untouched (on_journal (\<lambda>j. (j, f j)))"
  unfolding preserves_def on_journal_def untouched_def by (simp add: same_mutations_def)

lemma lock_silent: "preserves untouched (on_journal (lock_repository jl n))"
  unfolding preserves_def on_journal_def untouched_def lock_repository_def
  by (simp add: same_mutations_def lock_kept case_prod_beta)

lemma start_apply_traceless: "traceless (start_apply lb dl os jl client i h ident repo a cp token)"
  unfolding start_apply_def
proof (rule traceless_fail_first)
  show "traceless (on_journal (begin_record jl client i h ident))"
    unfolding traceless_def on_journal_def untouched_def definite_def
    by (auto simp: same_mutations_def split: prod.splits dest: begin_kept)
qed (auto simp: bindS_def attemptS_def map_errS_def definite_def outcome_unknown_def
    map_errR_Inl_iff split: prod.splits sum.splits)

lemma start_repo_traceless: "traceless (start_repo lb dl os jl client i h ident repo snapshot a)"
proof -
  have replay: "traceless (bindS (on_journal (get_record jl client i)) (\<lambda>r. retS (record_json r)))"
  proof (rule traceless_fail_first)
    show "traceless (on_journal (get_record jl client i))"
      unfolding traceless_def on_journal_def untouched_def definite_def
      by (auto simp: same_mutations_def split: prod.splits dest: get_kept)
  qed simp
  have locked: "traceless (start_locked lb dl os jl client i h ident repo snapshot a)"
    unfolding start_locked_def
    by (rule traceless_bind [OF read_journal_silent])
      (auto split: option.split intro!: traceless_silent [OF undisturbed.pres_ret]
        traceless_bind [OF on_git_silent [OF start_checks_quiet]] start_apply_traceless)
  show ?thesis unfolding start_repo_def
    by (rule traceless_bind [OF read_journal_silent])
      (auto split: option.split intro!: replay traceless_bind [OF lock_silent]
        traceless_with_lock locked)
qed

lemma start_traceless: "traceless (start lb dl os sv i repo_id snapshot a)"
  unfolding start_def Let_def
  by (intro traceless_bind undisturbed.pres_lift on_git_silent from_id_quiet readW_quiet
      start_repo_traceless)

end
