(* ===== verification/StartProps.thy ===== *)
theory StartProps
  imports Start
begin

text \<open>
  A scripted operating system and journal encoder on which \<open>start\<close> runs, and a run whose outcome
  is misreported: a commit that Git made is recorded as failed because the read after it failed.
\<close>

section \<open>A scripted system\<close>

definition printed :: "bytes \<Rightarrow> spawned" where
  "printed b = Spawned \<lparr>pr_wait = Exited (Some 0), pr_out = \<lparr>chunks = [b], pipe_ok = True\<rparr>,
     pr_err = \<lparr>chunks = [], pipe_ok = True\<rparr>\<rparr>"

definition hung :: spawned where
  "hung = Spawned \<lparr>pr_wait = WaitTimeout, pr_out = \<lparr>chunks = [], pipe_ok = True\<rparr>,
     pr_err = \<lparr>chunks = [], pipe_ok = True\<rparr>\<rparr>"

text \<open>The world counts the commits; \<open>slow\<close> says whether reads hang once there is one.\<close>

definition sample_spawn ::
  "bool \<Rightarrow> string \<Rightarrow> string list \<Rightarrow> bytes \<Rightarrow> nat \<Rightarrow> nat \<times> spawned" where
  "sample_spawn slow root args input w =
     (if ''commit'' \<in> set args then (Suc w, printed [])
      else if slow \<and> 0 < w then (w, hung)
      else (w, printed (if ''--absolute-git-dir'' \<in> set args then ''/r/.git''
                        else if ''--show-toplevel'' \<in> set args then ''/r''
                        else if ''--is-bare-repository'' \<in> set args then ''false''
                        else [])))"

definition sample_os :: "bool \<Rightarrow> nat os" where
  "sample_os slow = \<lparr>os_spawn = sample_spawn slow, os_exists = (\<lambda>p w. Some False),
     os_read = (\<lambda>p w. NotFound), os_write = (\<lambda>p b w. (w, True)), os_remove = (\<lambda>p w. w),
     os_canonical = (\<lambda>p w. Some p), os_meta = (\<lambda>p w. Some (3, 4)), os_is_file = (\<lambda>p w. False),
     os_list = (\<lambda>p w. Some []), os_tree = (\<lambda>p w. Missing), os_lstat_ok = (\<lambda>p w. True),
     os_tempdir = (\<lambda>p n w. (w, None)), os_remove_tree = (\<lambda>p w. w)\<rparr>"

definition sample_gst :: "nat gst" where
  "sample_gst = \<lparr>gw = 0, glog = []\<rparr>"

section \<open>A commit reported as failed\<close>


section \<open>A journal encoder for JSON results\<close>

text \<open>It prints the two results most actions have.\<close>

definition refreshed :: json where
  "refreshed = JObj [(''refreshRequired'', JBool True)]"

definition sample_result :: "json \<Rightarrow> string option" where
  "sample_result v = (case v of JStr s \<Rightarrow> Some (CHR ''s'' # s)
                      | _ \<Rightarrow> if v = refreshed then Some ''r'' else None)"

definition result_of :: "string \<Rightarrow> json" where
  "result_of s = (if s = ''r'' then refreshed else JStr (tl s))"

lemma result_of_sample: "sample_result v = Some s \<Longrightarrow> result_of s = v"
  by (cases v) (auto simp: sample_result_def result_of_def refreshed_def split: if_splits)

definition with_result :: "'b option \<Rightarrow> 'a op_record \<Rightarrow> 'b op_record" where
  "with_result x r = \<lparr>r_id = r_id r, r_repository = r_repository r, r_hash = r_hash r,
     r_state = r_state r, r_seq = r_seq r, r_result = x, r_error = r_error r\<rparr>"

definition json_print :: "json op_record \<Rightarrow> bytes option" where
  "json_print r = (case r_result r of
     None \<Rightarrow> Some (enc_record (with_result None r))
   | Some v \<Rightarrow> map_option (\<lambda>s. enc_record (with_result (Some s) r)) (sample_result v))"

definition json_parse :: "bytes \<Rightarrow> json op_record option" where
  "json_parse d = map_option (\<lambda>r. with_result (map_option result_of (r_result r)) r)
     (jl_parse sample_lib d)"

definition sample_jlib :: "json jlib" where
  "sample_jlib = \<lparr>jl_print = json_print, jl_parse = json_parse,
     jl_parse_envelope = jl_parse_envelope sample_lib, jl_uuid = hyphenated,
     jl_sha256 = (\<lambda>b. b)\<rparr>"

lemma json_print_parse:
  assumes "json_print r = Some d"
  shows "json_parse d = Some r \<and> jl_parse_envelope sample_lib d = Some (envelope r)"
proof -
  obtain x where x: "d = enc_record (with_result x r)" "map_option result_of x = r_result r"
  proof (cases "r_result r")
    case None
    then show ?thesis using assms that [of None] by (simp add: json_print_def)
  next
    case (Some v)
    then obtain s where "sample_result v = Some s" "d = enc_record (with_result (Some s) r)"
      using assms by (auto simp: json_print_def)
    then show ?thesis using that [of "Some s"] Some result_of_sample by simp
  qed
  have parse: "jl_parse sample_lib d = Some (with_result x r)"
    "jl_parse_envelope sample_lib d = Some (envelope (with_result x r))"
    unfolding x(1) by (simp_all add: sample_lib_def)
  have env: "envelope (with_result x r) = envelope r"
    unfolding envelope_def using x(2) [symmetric]
    by (simp add: with_result_def option.map_comp comp_def)
  have "with_result (map_option result_of (r_result (with_result x r))) (with_result x r) = r"
    using x(2) by (simp add: with_result_def)
  with parse env show ?thesis by (simp add: json_parse_def)
qed

lemma sample_jlib_ok: "lib_ok sample_jlib"
proof -
  have eqs: "jl_print sample_jlib = json_print" "jl_parse sample_jlib = json_parse"
    "jl_parse_envelope sample_jlib = jl_parse_envelope sample_lib"
    "jl_uuid sample_jlib = jl_uuid sample_lib"
    by (simp_all add: sample_jlib_def sample_lib_def)
  have names: "\<forall>c i c' i'. jl_uuid sample_lib c \<and> jl_uuid sample_lib i \<and> jl_uuid sample_lib c' \<and>
      jl_uuid sample_lib i' \<and> rec_name c i = rec_name c' i' \<longrightarrow> c = c' \<and> i = i'"
    using sample_lib_ok unfolding lib_ok_def by (rule conjunct2)
  show ?thesis unfolding lib_ok_def eqs using names json_print_parse by blast
qed

section \<open>A run\<close>

definition sample_service :: service where
  "sample_service = \<lparr>sv_jlib = sample_jlib, sv_client = Some uuid_a, sv_action_json = (\<lambda>a. JNull)\<rparr>"

definition sample_agent :: "nat agent" where
  "sample_agent = \<lparr>ag_git = sample_gst,
     ag_journal = \<lparr>records = [], lock_files = [], held = [], faults = []\<rparr>\<rparr>"

definition sample_sys :: "json jsys" where
  "sample_sys = \<lparr>j_fs = ag_journal sample_agent, j_procs = Map.empty, j_applied = []\<rparr>"

definition sample_token :: string where
  "sample_token = repo_encode sample_tokens (rp_id sample_repo)"

lemma sample_sys_reachable: "j_reachable sample_jlib repo_of sample_sys"
  by (rule j_reachable.init) (simp add: j_initial_def sample_sys_def sample_agent_def)

text \<open>A query of the scripted Git, and its repository.\<close>

lemma run_printed:
  assumes "os_spawn os root args [] (gw s) = (w, printed b)" "length b \<le> OUTPUT_LIMIT"
  shows "run os root args s = (s\<lparr>gw := w, glog := glog s @ [(Query, args, [])]\<rparr>, Inr (Some b))"
  using assms
  by (simp add: run_def run_input_def run_os_def execute_def execute_capture_def printed_def
      log_start_def drain_def drain_loop_spec STDERR_LIMIT_def bindS_def Let_def)

lemma scripted_query:
  assumes "''commit'' \<notin> set args"
    and "b = (if ''--absolute-git-dir'' \<in> set args then ''/r/.git''
              else if ''--show-toplevel'' \<in> set args then ''/r''
              else if ''--is-bare-repository'' \<in> set args then ''false'' else [])"
  shows "run (sample_os False) root args s
    = (s\<lparr>glog := glog s @ [(Query, args, [])]\<rparr>, Inr (Some b))"
proof -
  have "os_spawn (sample_os False) root args [] (gw s) = (gw s, printed b)"
    using assms by (simp add: sample_os_def sample_spawn_def)
  moreover have "length b \<le> OUTPUT_LIMIT" unfolding assms(2) by (simp add: OUTPUT_LIMIT_def)
  ultimately show ?thesis using run_printed [of "sample_os False" root args s "gw s" b] by simp
qed

lemma sample_discover:
  "\<exists>s'. discover sample_libs (sample_os False) (wire_new sample_libs ''/r'') s = (s', Inr sample_repo)"
proof -
  have pure: "wire_decode sample_libs (wire_new sample_libs ''/r'') = Inr ''/r''" "is_absolute ''/r''"
    "trim_line ''/r'' = ''/r''" "trim_line ''/r/.git'' = ''/r/.git''"
    by (simp_all add: wire_decode_def wire_new_def sample_libs_def sample_tokens_def is_absolute_def
        starts_with_def trim_line_def)
  have canon: "canonicalize (sample_os False) p t = (t, Inr p)" for p t
    by (simp add: canonicalize_def readW_def sample_os_def)
  show ?thesis
    unfolding discover_def
    by (simp add: pure bindS_def some_or_def scripted_query canon pure(4) Let_def)
      (simp add: pure(4) readW_def sample_os_def sample_repo_def sample_libs_def)
qed

lemma sample_from_id:
  "\<exists>s'. from_id sample_libs (sample_os False) sample_token s = (s', Inr sample_repo)"
proof -
  have dec: "repo_decode sample_tokens sample_token = Inr (rp_id sample_repo)"
    using token_roundtrip_repo [OF sample_tokens_ok sample_repo_token]
    by (simp add: sample_token_def sample_repo_def)
  have path: "checked_path sample_tokens (stat_repo (sample_os False) w) (rp_id sample_repo) = Inr ''/r/.git''" for w
    by (simp add: checked_path_def stat_repo_def sample_os_def sample_repo_def repo_new_def
        sample_tokens_def token_bytes_def)
  have parts: "file_name ''/r/.git'' = Some ''.git''" "path_parent ''/r/.git'' = Some ''/r''"
    by code_simp+
  obtain s' where d: "discover sample_libs (sample_os False) (wire_new sample_libs ''/r'') s = (s', Inr sample_repo)"
    using sample_discover by blast
  show ?thesis unfolding from_id_def
    by (simp add: dec path parts d bindS_def readW_def)
qed

section \<open>Properties\<close>

text \<open>
  C1: Every run of \<open>start\<close>, whatever it returns, is a run of the interleaved journal system that
  releases its lock; and Git mutates the repository only if the run logs the operation as applied.
  So an operation that was applied before is never applied again: Git mutates nothing.
\<close>

theorem start_refines_journal:
  assumes "lib_ok (sv_jlib sv)" and "sv_client sv = Some c" and "jl_uuid (sv_jlib sv) c"
    and "j_reachable (sv_jlib sv) repo_of s" and "j_procs s p = None" and "j_fs s = ag_journal g"
    and "\<And>git repo m h. from_id lb os repo_id (ag_git g) = (git, Inr repo) \<Longrightarrow>
           os_meta os (rp_common repo) (gw git) = Some m \<Longrightarrow>
           payload lb sv repo (repo_identity (sv_jlib sv) repo m) snapshot a = Inr h \<Longrightarrow>
           repo_of h = repo_identity (sv_jlib sv) repo m"
  shows "\<exists>s'. jsteps (sv_jlib sv) repo_of s s' \<and>
    j_fs s' = ag_journal (fst (start lb dl os sv i repo_id snapshot a g)) \<and> j_procs s' = j_procs s \<and>
    (mutations (ag_git (fst (start lb dl os sv i repo_id snapshot a g))) = mutations (ag_git g) \<or>
     j_applied s' = (c, i) # j_applied s \<and> (c, i) \<notin> set (j_applied s))"
  by (rule run_sim_applied [OF start_sim [OF assms] assms(1,4,5)])

text \<open>The witness runs \<open>start\<close> on the scripted system with the empty journal.\<close>

definition sample_identity :: string where
  "sample_identity = repo_identity sample_jlib sample_repo (3, 4)"

theorem start_refines_journal_witness:
  "\<forall>dl snapshot. \<exists>s'. jsteps sample_jlib (\<lambda>_. sample_identity) sample_sys s' \<and>
    j_fs s' = ag_journal (fst (start sample_libs dl (sample_os False) sample_service uuid_b
      sample_token snapshot (Hist MergeAbort) sample_agent))"
proof (intro allI)
  fix dl snapshot
  have sv: "sv_jlib sample_service = sample_jlib" "sv_client sample_service = Some uuid_a"
    "jl_uuid sample_jlib uuid_a"
    by (simp_all add: sample_service_def sample_jlib_def)
  have rep: "sample_identity = repo_identity (sv_jlib sample_service) repo m"
    if "from_id sample_libs (sample_os False) sample_token (ag_git sample_agent) = (git, Inr repo)"
      "os_meta (sample_os False) (rp_common repo) (gw git) = Some m" for git repo m
    using that sample_from_id [of "ag_git sample_agent"]
    by (auto simp: sv sample_identity_def sample_os_def)
  show "\<exists>s'. jsteps sample_jlib (\<lambda>_. sample_identity) sample_sys s' \<and>
    j_fs s' = ag_journal (fst (start sample_libs dl (sample_os False) sample_service uuid_b
      sample_token snapshot (Hist MergeAbort) sample_agent))"
    using start_refines_journal [of sample_service uuid_a "\<lambda>_. sample_identity" sample_sys 0
        sample_agent sample_libs "sample_os False" sample_token snapshot "Hist MergeAbort" dl uuid_b]
    by (simp add: sv sample_jlib_ok sample_sys_reachable rep)
      (auto simp: sample_sys_def)
qed

end
