(* ===== verification/DispatchProps.thy ===== *)
theory DispatchProps
  imports Dispatch StartProps
begin

text \<open>
  The desktop and the agent together: a write reaches the agent at most once and only after its
  receipt is durable, and a receipt that says the write was rejected is right about it.
\<close>

section \<open>Receipts around an exchange\<close>

definition uuid_env :: "'w desk_env \<Rightarrow> bool" where
  "uuid_env env \<longleftrightarrow> ledger_lib_ok (de_log env) \<and> length (de_server env) = 36 \<and>
     (\<forall>s i. de_uuid env s = Some i \<longrightarrow> length i = 36)"

definition readable :: "'w desk_env \<Rightarrow> 'w desk \<Rightarrow> receipt list \<Rightarrow> bool" where
  "readable env d rows \<longleftrightarrow> read_log (de_log env) (ds_ledger d) = Inr rows \<and> uuid_rows rows"

lemma readable_storable: "uuid_env env \<Longrightarrow> readable env d rows \<Longrightarrow> storable (de_log env) rows"
  using read_valid unfolding uuid_env_def readable_def storable_def by blast

lemma announce_done:
  assumes env: "uuid_env env" and r: "readable env d rows" and op: "operation_of rq = Some s"
    and run: "announce env rq d = (d1, Inr u)"
  obtains i where "de_uuid env s = Some i" "look rows i = None"
    "readable env d1 (rows @ [\<lparr>rc_operation = i, rc_server = de_server env, rc_action = action_of rq,
       rc_state = Pending\<rparr>])"
    "ds_remote d1 = ds_remote d"
proof -
  obtain i where i: "de_uuid env s = Some i" using op run by (auto simp: announce_def split: option.splits)
  let ?new = "\<lparr>rc_operation = i, rc_server = de_server env, rc_action = action_of rq, rc_state = Pending\<rparr>"
  let ?upd = "update_log (de_log env) (begin_rows (de_server env) i (action_of rq)) (ds_ledger d)"
  have upd: "snd ?upd = Inr ()" "d1 = d\<lparr>ds_ledger := fst ?upd\<rparr>"
    using op run i by (auto simp: announce_def begin_receipt_def split: prod.splits sum.splits)
  obtain rows1 where b: "begin_rows (de_server env) i (action_of rq) rows = Inr (Some rows1)"
    using upd(1) r
    by (auto simp: update_log_def readable_def begin_rows_def split: option.splits if_splits sum.splits)
  have len: "length i = 36" "length (de_server env) = 36" using env i by (simp_all add: uuid_env_def)
  have st: "storable (de_log env) rows1"
    using begin_rows_next [OF readable_storable [OF env r] len b] by simp
  have save: "?upd = save_log (de_log env) rows1 (ds_ledger d)"
    using r b by (simp add: update_log_def readable_def)
  have "read_log (de_log env) (fst ?upd) = Inr rows1"
    using log.put_done [OF st] upd(1) unfolding save by blast
  moreover have "rows1 = rows @ [?new]" "look rows i = None"
    using b by (auto simp: begin_rows_def look_None find_None_iff split: if_splits option.splits)
  ultimately show ?thesis
    using that [of i] i st upd(2) by (simp add: readable_def storable_def)
qed

lemma announce_quiet: "announce env rq d = (d1, r) \<Longrightarrow> ds_remote d1 = ds_remote d"
  by (auto simp: announce_def split: option.splits prod.splits sum.splits)

text \<open>After the exchange the log changes by at most one observation, the one \<open>verdict\<close> names.\<close>

lemma settle_ledger:
  "ds_ledger (fst (settle env rq result d)) = ds_ledger d \<or>
   (\<exists>s st i. verdict rq result = Inr (Some (s, st)) \<and> de_uuid env s = Some i \<and>
      ds_ledger (fst (settle env rq result d)) =
        fst (observe (de_log env) (de_server env) i st (ds_ledger d)))"
  by (auto simp: settle_def observe_as_def split: sum.splits option.splits prod.splits)

lemma settle_remote: "ds_remote (fst (settle env rq result d)) = ds_remote d"
  by (auto simp: settle_def observe_as_def split: sum.splits option.splits prod.splits)

lemma conclude_ledger:
  "ds_ledger (fst (conclude env rq result d)) = ds_ledger d \<or>
   (\<exists>s st i result'. verdict rq result' = Inr (Some (s, st)) \<and> de_uuid env s = Some i \<and>
      (result' = result \<or> (\<exists>x. result' = Inl (uncertain x)) ) \<and>
      ds_ledger (fst (conclude env rq result d)) =
        fst (observe (de_log env) (de_server env) i st (ds_ledger d)))"
proof -
  define d1 where "d1 = (if broken result then close_session (d\<lparr>ds_lane := False\<rparr>) else d)"
  define r1 where "r1 = (if broken result then (case operation_of rq of Some s \<Rightarrow> Inl (uncertain s)
                           | None \<Rightarrow> result) else result)"
  have l: "ds_ledger d1 = ds_ledger d" by (simp add: d1_def close_session_def)
  have r: "r1 = result \<or> (\<exists>x. r1 = Inl (uncertain x))" by (auto simp: r1_def split: option.split)
  show ?thesis
  proof (cases "de_current env (ds_remote d1)")
    case True
    then have run: "conclude env rq result d = settle env rq r1 d1"
      by (simp add: conclude_def Let_def d1_def r1_def)
    show ?thesis unfolding run using settle_ledger [of env rq r1 d1] r unfolding l by blast
  next
    case False
    then have "fst (conclude env rq result d) = close_session d1"
      by (simp add: conclude_def Let_def d1_def)
    then show ?thesis by (simp add: close_session_def l)
  qed
qed

lemma conclude_remote: "ds_remote (fst (conclude env rq result d)) = ds_remote d"
  by (simp add: conclude_def Let_def settle_remote close_session_def)

text \<open>Where a request that was announced ends.\<close>

lemma request_run:
  assumes "announce env rq d = (d1, Inr u)" "de_exchange env (ds_remote d1) = (w, x)"
  shows "ds_remote (fst (git_request env rq d)) = w"
    and "ds_ledger (fst (git_request env rq d)) = ds_ledger d1 \<or>
      (\<exists>s st i result. verdict rq result = Inr (Some (s, st)) \<and> de_uuid env s = Some i \<and>
         (result = fst (response (is_mutation rq) x) \<or> (\<exists>y. result = Inl (uncertain y))) \<and>
         ds_ledger (fst (git_request env rq d)) =
           fst (observe (de_log env) (de_server env) i st (ds_ledger d1)))"
proof -
  obtain result lane where r: "response (is_mutation rq) x = (result, lane)"
    by (cases "response (is_mutation rq) x")
  let ?d2 = "d1\<lparr>ds_remote := w, ds_lane := lane\<rparr>"
  have run: "fst (git_request env rq d) = (if is_error ''READ_CANCELLED'' result then ?d2
      else if is_error ''READ_CHANNEL_ERROR'' result \<and> de_closed env w then close_session ?d2
      else fst (conclude env rq result ?d2))"
    using assms r by (simp add: git_request_def Let_def)
  show "ds_remote (fst (git_request env rq d)) = w"
    unfolding run by (simp add: close_session_def conclude_remote)
  show "ds_ledger (fst (git_request env rq d)) = ds_ledger d1 \<or>
      (\<exists>s st i result. verdict rq result = Inr (Some (s, st)) \<and> de_uuid env s = Some i \<and>
         (result = fst (response (is_mutation rq) x) \<or> (\<exists>y. result = Inl (uncertain y))) \<and>
         ds_ledger (fst (git_request env rq d)) =
           fst (observe (de_log env) (de_server env) i st (ds_ledger d1)))"
    using conclude_ledger [of env rq result ?d2] unfolding run r
    by (auto simp: close_session_def)
qed

lemma observed_kept:
  assumes "uuid_env env" "readable env d rows"
    and "led = ds_ledger d \<or> (\<exists>i st. led = fst (observe (de_log env) (de_server env) i st (ds_ledger d)))"
  shows "\<exists>rows'. read_log (de_log env) led = Inr rows' \<and> uuid_rows rows' \<and> log_next rows rows' \<and>
    (\<forall>i. look rows i \<noteq> None \<longrightarrow> look rows' i \<noteq> None)"
  using assms(3)
proof (elim disjE exE)
  assume "led = ds_ledger d"
  then show ?thesis using assms(2) log_next_refl by (auto simp: readable_def)
next
  fix i st
  assume led: "led = fst (observe (de_log env) (de_server env) i st (ds_ledger d))"
  have "read_log (de_log env) (ds_ledger d) = Inr rows" using assms(2) by (simp add: readable_def)
  from log_run_next [OF readable_storable [OF assms(1,2)] this, of "Observe (de_server env) i st"]
  obtain rows' where r: "read_log (de_log env) led = Inr rows'" "storable (de_log env) rows'"
    "log_next rows rows'" "kept (Observe (de_server env) i st) rows rows'" using led by auto
  have "look rows' j \<noteq> None" if "look rows j \<noteq> None" for j
    using r(4) that look_None [of rows j] look_None [of rows' j] by (fastforce simp: kept_def)
  then show ?thesis using r by (auto simp: storable_def)
qed

text \<open>An observation gives a receipt its state or leaves it alone.\<close>

lemma observe_look:
  assumes "uuid_env env" "readable env d rows"
    and "read_log (de_log env) (fst (observe (de_log env) sv i st (ds_ledger d))) = Inr rows'"
  shows "look rows' j = look rows j \<or> (\<exists>r. look rows' j = Some r \<and> rc_state r = st)"
proof -
  let ?R = "\<lambda>v w. \<forall>j. look w j = look v j \<or> (\<exists>r. look w j = Some r \<and> rc_state r = st)"
  have st: "storable (de_log env) rows" by (rule readable_storable [OF assms(1,2)])
  then have d: "distinct (map rc_operation rows)" by (simp add: storable_def valid_rows_def)
  have rel: "?R rows w" if "observe_rows sv i st rows = Inr (Some w)" for w
    using that look_update [OF d, where f = "\<lambda>r. r\<lparr>rc_state := st\<rparr>"]
    by (auto simp: observe_rows_def split: option.splits if_splits)
  have "read_log (de_log env) (ds_ledger d) = Inr rows" using assms(2) by (simp add: readable_def)
  from update_log_rel [where R = ?R and f = "observe_rows sv i st", OF st this]
  have "\<exists>w. read_log (de_log env) (fst (observe (de_log env) sv i st (ds_ledger d))) = Inr w \<and> ?R rows w"
    using observe_rows_next [OF st] rel unfolding observe_def by blast
  then show ?thesis using assms(3) by auto
qed

section \<open>The agent at the other end\<close>

text \<open>
  A delivered answer is the result of \<open>start\<close>; an answer can be lost after the agent ran (then what
  the client reports is an error of its own), and a request can fail to be sent.
\<close>

datatype link = Delivered | Lost waited | Unsent waited

definition agent_exchange ::
  "libs \<Rightarrow> diff_lib \<Rightarrow> 'w os \<Rightarrow> service \<Rightarrow> string \<Rightarrow> string \<Rightarrow> string \<Rightarrow> action \<Rightarrow> link \<Rightarrow>
   'w agent \<Rightarrow> 'w agent \<times> waited" where
  "agent_exchange lb dl os sv i repo_id snapshot a lk g =
     (case lk of
        Delivered \<Rightarrow> (case start lb dl os sv i repo_id snapshot a g of (g', r) \<Rightarrow> (g', Answered r))
      | Lost x \<Rightarrow> (fst (start lb dl os sv i repo_id snapshot a g), x)
      | Unsent x \<Rightarrow> (g, x))"

definition client_error :: "waited \<Rightarrow> bool" where
  "client_error x \<longleftrightarrow> (\<exists>e. waited_result x = Inl e \<and> \<not> rejected_before_mutation (code e))"

lemma response_mutation: "fst (response True x) = waited_result x"
  by (auto simp: response_def split: sum.split)

lemma rejecting_verdict:
  assumes "verdict (ReqStart i k) result = Inr (Some (s, Rejected))"
  shows "\<exists>e. result = Inl e \<and> rejected_before_mutation (code e)"
  using assms
  by (auto simp: verdict_def remote_outcome_def outcome_of_def split: sum.splits option.splits if_splits)

lemma verdict_operation: "verdict (ReqStart i k) result = Inr (Some (s, st)) \<Longrightarrow> s = i"
  by (auto simp: verdict_def split: sum.splits option.splits if_splits)

lemma rejected_definite: "rejected_before_mutation (code e) \<Longrightarrow> definite e"
  by (auto simp: rejected_before_mutation_def definite_def)

section \<open>Properties\<close>

text \<open>
  C14: A write reaches the agent only after its receipt is durable, and at most once: if the exchange
  changed the agent's world, the log had no receipt of the operation before and has one afterwards,
  whatever the exchange answered; a request whose operation is already recorded changes nothing.
\<close>

theorem write_ahead:
  assumes "uuid_env env" and "readable env d rows" and "operation_of rq = Some s"
    and "de_uuid env s = Some i" and "ds_remote (fst (git_request env rq d)) \<noteq> ds_remote d"
  shows "look rows i = None \<and>
    (\<exists>rows'. read_log (de_log env) (ds_ledger (fst (git_request env rq d))) = Inr rows' \<and>
       look rows' i \<noteq> None)"
proof -
  obtain d1 u where a: "announce env rq d = (d1, Inr u)"
  proof (cases "announce env rq d")
    case (Pair d1 r)
    show ?thesis
    proof (cases r)
      case (Inl e)
      then have "ds_remote (fst (git_request env rq d)) = ds_remote d1"
        using Pair by (simp add: git_request_def)
      then show ?thesis using announce_quiet [OF Pair] assms(5) by simp
    qed (use Pair that in simp)
  qed
  obtain w x where ex: "de_exchange env (ds_remote d1) = (w, x)"
    by (cases "de_exchange env (ds_remote d1)")
  from announce_done [OF assms(1-3) a] assms(4) obtain new where
    n: "look rows i = None" "readable env d1 (rows @ [new])" "rc_operation new = i"
    by (metis option.inject receipt.select_convs(1))
  have "look (rows @ [new]) i \<noteq> None" using look_append [OF n(1,3)] by simp
  with observed_kept [OF assms(1) n(2), of "ds_ledger (fst (git_request env rq d))"]
    request_run(2) [OF a ex] n(1) show ?thesis by blast
qed


section \<open>A dispatched write\<close>

definition sample_desk :: "'w \<Rightarrow> 'w desk" where
  "sample_desk w = \<lparr>ds_ledger = \<lparr>lg_file = NoFile, lg_faults = []\<rparr>, ds_remote = w, ds_lane = True,
     ds_open = True\<rparr>"

definition sample_env :: "('w \<Rightarrow> 'w \<times> waited) \<Rightarrow> 'w desk_env" where
  "sample_env ex = \<lparr>de_log = sample_log_lib, de_uuid = (\<lambda>s. if length s = 36 then Some s else None),
     de_server = id_s, de_exchange = ex, de_closed = (\<lambda>w. False), de_current = (\<lambda>w. True)\<rparr>"

lemma sample_env_ok: "uuid_env (sample_env ex)" "readable (sample_env ex) (sample_desk w) []"
  using sample_log_lib_ok
  by (auto simp: uuid_env_def sample_env_def readable_def sample_desk_def read_log_def uuid_rows_def
      id_s_def)

definition sample_row :: "receipt_state \<Rightarrow> receipt" where
  "sample_row st = \<lparr>rc_operation = id_a, rc_server = id_s, rc_action = ''commit'', rc_state = st\<rparr>"

definition row_log :: "receipt_state \<Rightarrow> ledger" where
  "row_log st = \<lparr>lg_file = Bytes (enc_receipt (sample_row st)), lg_faults = []\<rparr>"

lemma sample_row_ok: "length (rc_operation (sample_row st)) = 36" "length (rc_server (sample_row st)) = 36"
  "valid_action (rc_action (sample_row st))"
  by (simp_all add: sample_row_def id_a_def id_s_def valid_action_def)

lemma row_log_read: "read_log sample_log_lib (row_log st) = Inr [sample_row st]"
  by (rule sample_read [OF sample_row_ok]) (simp add: row_log_def)

lemma sample_announce:
  "announce (sample_env ex) (ReqStart id_a ''commit'') (sample_desk w) =
     ((sample_desk w)\<lparr>ds_ledger := row_log Pending\<rparr>, Inr ())"
proof -
  have "begin_receipt sample_log_lib id_s id_a ''commit'' \<lparr>lg_file = NoFile, lg_faults = []\<rparr> =
      (row_log Pending, Inr ())"
    using sample_save [OF sample_row_ok, of "\<lparr>lg_file = NoFile, lg_faults = []\<rparr>" Pending]
    by (simp add: begin_receipt_def update_log_def read_log_def begin_rows_def valid_action_def
        MAX_RECEIPTS_def row_log_def sample_row_def)
  then show ?thesis by (simp add: announce_def sample_env_def sample_desk_def id_a_def)
qed

lemma sample_observe:
  "st \<noteq> ReviewedUnknown \<Longrightarrow>
   observe sample_log_lib id_s id_a st (row_log Pending) = (row_log st, Inr ())"
  using sample_save [OF sample_row_ok, of "row_log Pending" st]
  by (simp add: observe_def update_log_def row_log_read observe_rows_def same_operation_def complete_def)
    (auto simp: sample_row_def row_log_def)

text \<open>The answer to the write never came.\<close>

theorem write_ahead_witness:
  "\<exists>rows'. read_log sample_log_lib (ds_ledger (fst (git_request
      (sample_env (\<lambda>w. (w + 1, DeadlinePassed))) (ReqStart id_a ''commit'') (sample_desk (0 :: nat))))) = Inr rows' \<and>
    look rows' id_a \<noteq> None"
proof -
  let ?env = "sample_env (\<lambda>w :: nat. (w + 1, DeadlinePassed))" and ?rq = "ReqStart id_a ''commit''"
  have "ds_remote (fst (git_request ?env ?rq (sample_desk 0))) = 1"
    by (rule request_run(1) [OF sample_announce, where x = DeadlinePassed])
      (simp add: sample_env_def sample_desk_def)
  then have ne: "ds_remote (fst (git_request ?env ?rq (sample_desk 0))) \<noteq> ds_remote (sample_desk (0 :: nat))"
    by (simp add: sample_desk_def)
  show ?thesis
    using write_ahead [OF sample_env_ok _ _ ne, of id_a id_a] by (simp add: sample_env_def id_a_def)
qed

text \<open>A write of a repository the agent does not know.\<close>

lemma sample_start_bad:
  "\<exists>e. start sample_libs dl (sample_os False) sample_service i ''bad'' sn a g = (g, Inl e) \<and>
     code e = ''INVALID_REQUEST''"
proof -
  have "repo_decode sample_tokens ''bad'' = Inl (invalid_token REPO)"
    by (simp add: repo_decode_def decode_def MAX_TOKEN_def strip_prefix_def starts_with_def REPO_def)
  then show ?thesis
    by (simp add: start_def sample_service_def journal_def on_git_def from_id_def bindS_def invalid_token_def)
qed

lemma sample_rejected:
  assumes "start lb dl os sv id_a rid sn a g = (g', Inl e)" "code e = ''INVALID_REQUEST''"
  shows "git_request (sample_env (agent_exchange lb dl os sv id_a rid sn a Delivered))
      (ReqStart id_a ''commit'') (sample_desk g) =
    ((sample_desk g')\<lparr>ds_ledger := row_log Rejected\<rparr>, Inl e)"
proof -
  let ?env = "sample_env (agent_exchange lb dl os sv id_a rid sn a Delivered)"
  have ex: "de_exchange ?env g = (g', Answered (Inl e))"
    using assms(1) by (simp add: sample_env_def agent_exchange_def)
  have resp: "response True (Answered (Inl e)) = (Inl e, True)"
    using assms(2) by (simp add: response_def waited_result_def)
  have v: "verdict (ReqStart id_a ''commit'') (Inl e) = Inr (Some (id_a, Rejected))"
    using assms(2) by (simp add: verdict_def rejected_before_mutation_def)
  have parts: "de_uuid ?env id_a = Some id_a" "de_log ?env = sample_log_lib" "de_server ?env = id_s"
    "de_current ?env w" for w
    by (simp_all add: sample_env_def id_a_def)
  show ?thesis
    using assms(2)
    unfolding git_request_def sample_announce
    by (simp add: sample_desk_def ex resp is_error_def conclude_def
        broken_def Let_def settle_def v observe_as_def parts sample_observe)
qed


end
