(* ===== verification/Wire.thy ===== *)
theory Wire
  imports Json
begin

text \<open>
  The wire format of the Git channel, \<open>tools/agent/src/git/msgpack.rs\<close>, \<open>codec_fields.rs\<close> and the
  framing of \<open>protocol.rs\<close>, shared by the agent and the desktop: messages are positional envelopes,
  payload keys are integer field numbers, base64 fields travel as native bytes, and a frame is the
  marker M, the payload length and the payload. The MessagePack byte format (\<open>rmp_serde\<close>) and
  base64 are third-party and stay parameters: \<open>wl_print\<close> and \<open>wl_parse\<close> are between MessagePack
  values and bytes (the parser returns the rest of its input), \<open>wl_str\<close> and \<open>wl_blob\<close> are how serde
  reads a \<open>String\<close> and a \<open>ByteBuf\<close> from a value. Every error of the source is an \<open>io::Error\<close> whose
  text nobody inspects, so it is \<open>None\<close> here. Numbers are integers; floats are not modelled.
\<close>

section \<open>Field numbers\<close>

definition FIELDS :: "string list" where
  "FIELDS = [
    ''type'', ''id'', ''method'', ''params'', ''result'', ''error'', ''code'', ''message'',
    ''retry'', ''repoId'', ''snapshot'', ''entries'', ''nextCursor'', ''path'', ''bytesB64'',
    ''display'', ''kind'', ''operationId'', ''expectedSnapshot'', ''streamId'', ''seq'',
    ''contentBytesB64'', ''action'', ''actions'', ''additions'', ''ahead'', ''algorithm'',
    ''amended'', ''annotated'', ''annotation'', ''applied'', ''atSnapshot'', ''authentication'',
    ''author'', ''backend'', ''bare'', ''base'', ''basis'', ''behind'', ''binary'', ''branch'',
    ''branchKind'', ''byteOffset'', ''bytes'', ''canAbort'', ''canContinue'', ''canSkip'',
    ''capabilities'', ''clientId'', ''clientVersion'', ''clone'', ''cloned'', ''closed'',
    ''command'', ''commandLogs'', ''commitOid'', ''committer'', ''commonRepoId'',
    ''configuration'', ''conflict'', ''conflicted'', ''content'', ''contextLines'', ''current'',
    ''cursor'', ''deletions'', ''destinationBranch'', ''detached'', ''detailsOmitted'',
    ''dropped'', ''durationMs'', ''editable'', ''email'', ''engine'', ''entry'', ''entryId'',
    ''entryIds'', ''exitCode'', ''expectedOid'', ''expectedRemoteOid'', ''expectedToken'',
    ''features'', ''fetch'', ''fileIndex'', ''files'', ''filter'', ''flags'', ''forPush'',
    ''force'', ''format'', ''gitDir'', ''group'', ''groupCounts'', ''hasOmissions'', ''head'',
    ''hex'', ''https'', ''hunks'', ''ids'', ''includeDepth'', ''includeUntracked'', ''index'',
    ''initialBranch'', ''initialized'', ''instanceId'', ''integration'', ''interrupted'',
    ''keepIndex'', ''lastSeq'', ''level'', ''limits'', ''lineComplete'', ''lineEncoding'',
    ''lineIndex'', ''lines'', ''listToken'', ''lockReason'', ''locked'', ''main'', ''mainline'',
    ''managed'', ''matchedEntries'', ''matchingEntries'', ''maxBytes'', ''maxChunkBytes'',
    ''maxFrameBytes'', ''maxInflight'', ''maxPageItems'', ''messageBytes'', ''messageTruncated'',
    ''metadata'', ''methods'', ''mode'', ''name'', ''needsResolution'', ''newBranch'',
    ''newLine'', ''newLines'', ''newMode'', ''newName'', ''newOid'', ''newPath'', ''newStart'',
    ''nonce'', ''objectFormat'', ''objectFormats'', ''objectType'', ''offset'', ''offsetMinutes'',
    ''oid'', ''oldLine'', ''oldLines'', ''oldMode'', ''oldOid'', ''oldPath'', ''oldStart'',
    ''omissionReason'', ''ontoOid'', ''openRequired'', ''operationState'', ''origin'', ''ours'',
    ''output'', ''pageSize'', ''parentIndex'', ''parentOid'', ''parents'', ''peeledOid'',
    ''peeledType'', ''previousOid'', ''protocol'', ''prunable'', ''prune'', ''push'', ''pushUrl'',
    ''rawOid'', ''readOnly'', ''reason'', ''reference'', ''refreshRequired'', ''reinstateIndex'',
    ''remote'', ''remoteBranch'', ''remoteToken'', ''replacedOid'', ''repository'',
    ''resolvedRevision'', ''revision'', ''root'', ''saved'', ''selectedPath'', ''side'', ''size'',
    ''source'', ''sourceSnapshot'', ''ssh'', ''staged'', ''startOid'', ''state'', ''status'',
    ''streamWindow'', ''symbolicTarget'', ''tagger'', ''target'', ''targetOid'', ''text'',
    ''theirs'', ''time'', ''token'', ''totalEntries'', ''totalFiles'', ''totalLines'',
    ''totalUnits'', ''tracking'', ''truncated'', ''tuple_v1'', ''unborn'', ''unstaged'',
    ''untracked'', ''upstream'', ''upstreamOid'', ''upstreamRef'', ''url'', ''value'',
    ''version'', ''versions'', ''workingTree'', ''worktree'', ''diff'', ''merge'', ''payloadHash'']"

definition field_id :: "string \<Rightarrow> nat option" where
  "field_id k = map_of (zip FIELDS [0..<length FIELDS]) k"

definition field_name :: "int \<Rightarrow> string option" where
  "field_name n = (if 0 \<le> n \<and> n < int (length FIELDS) then Some (FIELDS ! nat n) else None)"

lemma field_id_name: "field_id k = Some i \<Longrightarrow> field_name (int i) = Some k"
  by (auto simp: field_id_def field_name_def in_set_zip dest!: map_of_SomeD)

section \<open>MessagePack values and the library\<close>

datatype msgpack =
    MNil
  | MBool bool
  | MInt int
  | MStr string
  | MBin bytes
  | MArr "msgpack list"
  | MMap "(msgpack \<times> msgpack) list"

record wire_lib =
  wl_print :: "msgpack \<Rightarrow> bytes"
  wl_parse :: "bytes \<Rightarrow> (msgpack \<times> bytes) option"
  wl_str :: "msgpack \<Rightarrow> string option"
  wl_blob :: "msgpack \<Rightarrow> bytes option"
  wl_b64 :: "bytes \<Rightarrow> string"
  wl_unb64 :: "string \<Rightarrow> bytes option"

definition VERSION :: u32 where "VERSION = 4"
definition MAX_FRAME :: nat where "MAX_FRAME = 1024 * 1024"
definition MAX_DIFF :: nat where "MAX_DIFF = 20 * 1024 * 1024"
definition CHUNK_SIZE :: nat where "CHUNK_SIZE = 64 * 1024"
definition STREAM_WINDOW :: u32 where "STREAM_WINDOW = 8"
definition MAX_NESTING :: nat where "MAX_NESTING = 32"

section \<open>Payload values\<close>

datatype wire_mode = Normal | Binary | Lines | Line

definition mode_field :: "string \<Rightarrow> wire_mode" where
  "mode_field k =
     (if k = ''bytesB64'' \<or> k = ''contentBytesB64'' then Binary
      else if k = ''lines'' then Lines else Normal)"

definition mode_item :: "wire_mode \<Rightarrow> nat \<Rightarrow> wire_mode" where
  "mode_item m i =
     (case m of Lines \<Rightarrow> Line | Line \<Rightarrow> if i = 7 then Binary else Normal | _ \<Rightarrow> Normal)"

definition key_out :: "string \<Rightarrow> msgpack" where
  "key_out k = (case field_id k of Some i \<Rightarrow> MInt (int i) | None \<Rightarrow> MStr k)"

definition key_in :: "msgpack \<Rightarrow> string option" where
  "key_in m = (case m of MInt n \<Rightarrow> field_name n | MStr s \<Rightarrow> Some s | _ \<Rightarrow> None)"

text \<open>\<open>BodyRef\<close>: a value at a nesting level, its strings as bytes where the mode says so.\<close>

fun body_out :: "wire_lib \<Rightarrow> wire_mode \<Rightarrow> nat \<Rightarrow> json \<Rightarrow> msgpack option"
  and items_out :: "wire_lib \<Rightarrow> wire_mode \<Rightarrow> nat \<Rightarrow> nat \<Rightarrow> json list \<Rightarrow> msgpack list option"
  and fields_out :: "wire_lib \<Rightarrow> nat \<Rightarrow> (string \<times> json) list \<Rightarrow> (msgpack \<times> msgpack) list option"
where
  "body_out lb m d v =
     (if MAX_NESTING < d then None
      else case v of
        JNull \<Rightarrow> Some MNil
      | JBool b \<Rightarrow> Some (MBool b)
      | JNum n \<Rightarrow> Some (MInt n)
      | JStr s \<Rightarrow> if m = Binary then map_option MBin (wl_unb64 lb s) else Some (MStr s)
      | JArr xs \<Rightarrow> map_option MArr (items_out lb m (Suc d) 0 xs)
      | JObj fs \<Rightarrow> map_option MMap (fields_out lb (Suc d) fs))"
| "items_out lb m d i [] = Some []"
| "items_out lb m d i (x # xs) =
     Option.bind (body_out lb (mode_item m i) d x) (\<lambda>y.
     map_option ((#) y) (items_out lb m d (Suc i) xs))"
| "fields_out lb d [] = Some []"
| "fields_out lb d ((k, x) # fs) =
     Option.bind (body_out lb (mode_field k) d x) (\<lambda>y.
     map_option ((#) (key_out k, y)) (fields_out lb d fs))"

text \<open>\<open>BodySeed\<close>: the reverse, refusing unknown numbers, repeated keys and stray bytes.\<close>

fun body_in :: "wire_lib \<Rightarrow> wire_mode \<Rightarrow> nat \<Rightarrow> msgpack \<Rightarrow> json option"
  and items_in :: "wire_lib \<Rightarrow> wire_mode \<Rightarrow> nat \<Rightarrow> nat \<Rightarrow> msgpack list \<Rightarrow> json list option"
  and fields_in ::
    "wire_lib \<Rightarrow> nat \<Rightarrow> string list \<Rightarrow> (msgpack \<times> msgpack) list \<Rightarrow> (string \<times> json) list option"
where
  "body_in lb m d v =
     (if MAX_NESTING < d then None
      else case v of
        MNil \<Rightarrow> Some JNull
      | MBool b \<Rightarrow> Some (JBool b)
      | MInt n \<Rightarrow> Some (JNum n)
      | MStr s \<Rightarrow> Some (JStr s)
      | MBin b \<Rightarrow> if m = Binary then Some (JStr (wl_b64 lb b)) else None
      | MArr xs \<Rightarrow> map_option JArr (items_in lb m (Suc d) 0 xs)
      | MMap fs \<Rightarrow> map_option JObj (fields_in lb (Suc d) [] fs))"
| "items_in lb m d i [] = Some []"
| "items_in lb m d i (x # xs) =
     Option.bind (body_in lb (mode_item m i) d x) (\<lambda>y.
     map_option ((#) y) (items_in lb m d (Suc i) xs))"
| "fields_in lb d ks [] = Some []"
| "fields_in lb d ks ((k, x) # fs) =
     Option.bind (key_in k) (\<lambda>k.
     Option.bind (body_in lb (mode_field k) d x) (\<lambda>y.
     if k \<in> set ks then None
     else map_option ((#) (k, y)) (fields_in lb d (k # ks) fs)))"

declare body_out.simps [simp del] body_in.simps [simp del]

definition serialize :: "wire_lib \<Rightarrow> msgpack \<Rightarrow> bytes option" where
  "serialize lb v =
     (if MAX_DIFF < length (wl_print lb v) then None else Some (wl_print lb v))"

definition deserialize :: "wire_lib \<Rightarrow> (msgpack \<Rightarrow> 'a option) \<Rightarrow> bytes \<Rightarrow> 'a option" where
  "deserialize lb f b =
     (if MAX_DIFF < length b then None
      else case wl_parse lb b of
        Some (v, rest) \<Rightarrow> if rest = [] then f v else None
      | None \<Rightarrow> None)"

definition encode_value :: "wire_lib \<Rightarrow> json \<Rightarrow> bytes option" where
  "encode_value lb v = Option.bind (body_out lb Normal 0 v) (serialize lb)"

definition decode_value :: "wire_lib \<Rightarrow> bytes \<Rightarrow> json option" where
  "decode_value lb b = deserialize lb (body_in lb Normal 0) b"

section \<open>Messages\<close>

record command_log =
  cl_command :: string
  cl_duration :: u64
  cl_exit :: "u32 option"
  cl_output :: string
  cl_interrupted :: bool

datatype wire_message =
    Hello string "u32 list" string json
  | Initialize string u32 string string bool
  | Ready string u32 json
  | Request string string json
  | CommandLog string command_log
  | Response string "json option" "gerror option"
  | Ping string
  | Pong string
  | Begin string string string
  | Chunk string string u32 string
  | Ack string u32

definition success :: "string \<Rightarrow> json \<Rightarrow> wire_message" where
  "success i v = Response i (Some v) None"

definition failure_reply :: "string \<Rightarrow> gerror \<Rightarrow> wire_message" where
  "failure_reply i e = Response i None (Some e)"

definition word_out :: "'a::len word \<Rightarrow> msgpack" where
  "word_out w = MInt (uint w)"

definition exit_out :: "u32 option \<Rightarrow> msgpack" where
  "exit_out x = (case x of None \<Rightarrow> MNil | Some w \<Rightarrow> MInt (sint w))"

definition payload_out :: "wire_lib \<Rightarrow> json \<Rightarrow> msgpack option" where
  "payload_out lb v = body_out lb Normal 0 v"

fun message_out :: "wire_lib \<Rightarrow> wire_message \<Rightarrow> msgpack option" where
  "message_out lb (Hello p vs i l) =
     map_option (\<lambda>l. MArr [MInt 0, MStr p, MArr (map word_out vs), MStr i, l]) (payload_out lb l)"
| "message_out lb (Initialize i v c cv logs) =
     Some (MArr [MInt 1, MStr i, word_out v, MStr c, MStr cv, MBool logs])"
| "message_out lb (Ready i v c) =
     map_option (\<lambda>c. MArr [MInt 2, MStr i, word_out v, c]) (payload_out lb c)"
| "message_out lb (Request i m p) =
     map_option (\<lambda>p. MArr [MInt 3, MStr i, MStr m, p]) (payload_out lb p)"
| "message_out lb (Response i (Some v) None) =
     map_option (\<lambda>v. MArr [MInt 4, MStr i, v]) (payload_out lb v)"
| "message_out lb (Response i None (Some e)) =
     Some (MArr [MInt 5, MStr i, MArr [MStr (code e), MStr (message e), MStr (retry e)]])"
| "message_out lb (Response i _ _) = None"
| "message_out lb (CommandLog i e) =
     Some (MArr [MInt 6, MStr i, MArr [MStr (cl_command e), word_out (cl_duration e),
       exit_out (cl_exit e), MStr (cl_output e), MBool (cl_interrupted e)]])"
| "message_out lb (Ping n) = Some (MArr [MInt 7, MStr n])"
| "message_out lb (Pong n) = Some (MArr [MInt 8, MStr n])"
| "message_out lb (Begin i st sn) = Some (MArr [MInt 9, MStr i, MStr st, MStr sn])"
| "message_out lb (Chunk i st q b) =
     map_option (\<lambda>d. MArr [MInt 10, MStr i, MStr st, word_out q, MBin d]) (wl_unb64 lb b)"
| "message_out lb (Ack st q) = Some (MArr [MInt 11, MStr st, word_out q])"

text \<open>How serde reads a \<open>u32\<close>, \<open>u64\<close>, \<open>i32\<close>, \<open>bool\<close> and an \<open>Option<i32>\<close>.\<close>

definition word_in :: "msgpack \<Rightarrow> 'a::len word option" where
  "word_in m = (case m of
     MInt n \<Rightarrow> if 0 \<le> n \<and> n < 2 ^ LENGTH('a) then Some (word_of_int n) else None | _ \<Rightarrow> None)"

definition bool_in :: "msgpack \<Rightarrow> bool option" where
  "bool_in m = (case m of MBool b \<Rightarrow> Some b | _ \<Rightarrow> None)"

definition exit_in :: "msgpack \<Rightarrow> u32 option option" where
  "exit_in m = (case m of
     MNil \<Rightarrow> Some None
   | MInt n \<Rightarrow> if - (2 ^ 31) \<le> n \<and> n < 2 ^ 31 then Some (Some (word_of_int n)) else None
   | _ \<Rightarrow> None)"

fun word_list :: "msgpack list \<Rightarrow> u32 list option" where
  "word_list [] = Some []"
| "word_list (m # ms) =
     Option.bind (word_in m) (\<lambda>w. map_option ((#) w) (word_list ms))"

definition words_in :: "msgpack \<Rightarrow> u32 list option" where
  "words_in m = (case m of MArr ms \<Rightarrow> word_list ms | _ \<Rightarrow> None)"

definition error_in :: "wire_lib \<Rightarrow> msgpack \<Rightarrow> gerror option" where
  "error_in lb m = (case m of
     MArr [a, b, c] \<Rightarrow>
       Option.bind (wl_str lb a) (\<lambda>a. Option.bind (wl_str lb b) (\<lambda>b.
       map_option (\<lambda>c. \<lparr>code = a, message = b, retry = c\<rparr>) (wl_str lb c)))
   | _ \<Rightarrow> None)"

definition log_in :: "wire_lib \<Rightarrow> msgpack \<Rightarrow> command_log option" where
  "log_in lb m = (case m of
     MArr [a, b, c, d, e] \<Rightarrow>
       Option.bind (wl_str lb a) (\<lambda>a. Option.bind (word_in b) (\<lambda>b.
       Option.bind (exit_in c) (\<lambda>c. Option.bind (wl_str lb d) (\<lambda>d.
       map_option (\<lambda>e. \<lparr>cl_command = a, cl_duration = b, cl_exit = c, cl_output = d,
         cl_interrupted = e\<rparr>) (bool_in e)))))
   | _ \<Rightarrow> None)"

definition payload_in :: "wire_lib \<Rightarrow> msgpack \<Rightarrow> json option" where
  "payload_in lb m = body_in lb Normal 0 m"

text \<open>\<open>next\<close>: the next positional field; an envelope ends with its last one.\<close>

definition next_field ::
  "(msgpack \<Rightarrow> 'a option) \<Rightarrow> ('a \<Rightarrow> msgpack list \<Rightarrow> 'b option) \<Rightarrow> msgpack list \<Rightarrow> 'b option" where
  "next_field f k ms = (case ms of [] \<Rightarrow> None | m # rest \<Rightarrow> Option.bind (f m) (\<lambda>x. k x rest))"

definition no_more :: "'a \<Rightarrow> msgpack list \<Rightarrow> 'a option" where
  "no_more x ms = (if ms = [] then Some x else None)"

definition fields_of :: "wire_lib \<Rightarrow> u8 \<Rightarrow> msgpack list \<Rightarrow> wire_message option" where
  "fields_of lb tag =
     (let str = next_field (wl_str lb); pay = next_field (payload_in lb);
          num = next_field (word_in :: msgpack \<Rightarrow> u32 option)
      in if tag = 0 then str (\<lambda>p. next_field words_in (\<lambda>vs. str (\<lambda>i. pay (\<lambda>l.
           no_more (Hello p vs i l)))))
      else if tag = 1 then str (\<lambda>i. num (\<lambda>v. str (\<lambda>c. str (\<lambda>cv. next_field bool_in (\<lambda>logs.
           no_more (Initialize i v c cv logs))))))
      else if tag = 2 then str (\<lambda>i. num (\<lambda>v. pay (\<lambda>c. no_more (Ready i v c))))
      else if tag = 3 then str (\<lambda>i. str (\<lambda>m. pay (\<lambda>p. no_more (Request i m p))))
      else if tag = 4 then str (\<lambda>i. pay (\<lambda>v. no_more (success i v)))
      else if tag = 5 then str (\<lambda>i. next_field (error_in lb) (\<lambda>e. no_more (failure_reply i e)))
      else if tag = 6 then str (\<lambda>i. next_field (log_in lb) (\<lambda>e. no_more (CommandLog i e)))
      else if tag = 7 then str (\<lambda>n. no_more (Ping n))
      else if tag = 8 then str (\<lambda>n. no_more (Pong n))
      else if tag = 9 then str (\<lambda>i. str (\<lambda>st. str (\<lambda>sn. no_more (Begin i st sn))))
      else if tag = 10 then str (\<lambda>i. str (\<lambda>st. num (\<lambda>q. next_field (wl_blob lb) (\<lambda>d.
           no_more (Chunk i st q (wl_b64 lb d))))))
      else if tag = 11 then str (\<lambda>st. num (\<lambda>q. no_more (Ack st q)))
      else (\<lambda>_. None))"

definition message_in :: "wire_lib \<Rightarrow> msgpack \<Rightarrow> wire_message option" where
  "message_in lb m = (case m of MArr ms \<Rightarrow> next_field word_in (fields_of lb) ms | _ \<Rightarrow> None)"

definition msg_encode :: "wire_lib \<Rightarrow> wire_message \<Rightarrow> bytes option" where
  "msg_encode lb msg = Option.bind (message_out lb msg) (serialize lb)"

definition msg_decode :: "wire_lib \<Rightarrow> bytes \<Rightarrow> wire_message option" where
  "msg_decode lb b = deserialize lb (message_in lb) b"

section \<open>Frames\<close>

definition be32 :: "nat \<Rightarrow> bytes" where
  "be32 n = map char_of [n div 2 ^ 24, n div 2 ^ 16, n div 2 ^ 8, n]"

definition unbe32 :: "bytes \<Rightarrow> nat" where
  "unbe32 b = foldl (\<lambda>n c. n * 256 + byte c) 0 b"

definition payload_length :: "bytes \<Rightarrow> nat option" where
  "payload_length header =
     (let n = unbe32 (drop 1 header) in
      if take 1 header \<noteq> ''M'' \<or> n = 0 \<or> MAX_FRAME < n then None else Some n)"

definition frame_encode :: "wire_lib \<Rightarrow> wire_message \<Rightarrow> bytes option" where
  "frame_encode lb msg =
     Option.bind (msg_encode lb msg) (\<lambda>b.
     if MAX_FRAME < length b then None else Some (''M'' @ be32 (length b) @ b))"

definition frame_decode :: "wire_lib \<Rightarrow> bytes \<Rightarrow> wire_message option" where
  "frame_decode lb b = (if MAX_FRAME < length b then None else msg_decode lb b)"

text \<open>\<open>read_exact\<close> on what the stream holds, and the frame reader: the message and what follows.\<close>

definition read_exact :: "nat \<Rightarrow> bytes \<Rightarrow> (bytes \<times> bytes) option" where
  "read_exact n b = (if length b < n then None else Some (take n b, drop n b))"

definition frame_read :: "wire_lib \<Rightarrow> bytes \<Rightarrow> (wire_message \<times> bytes) option" where
  "frame_read lb b =
     Option.bind (read_exact 5 b) (\<lambda>(header, b1).
     Option.bind (payload_length header) (\<lambda>n.
     Option.bind (read_exact n b1) (\<lambda>(p, rest).
     map_option (\<lambda>msg. (msg, rest)) (frame_decode lb p))))"

end
