(* ===== verification/WireProps.thy ===== *)
theory WireProps
  imports Wire
begin

text \<open>
  Round trips of the wire format: payload values, messages and frames read back as what was written,
  the field table is a bijection, and whatever bytes arrive decode to values the encoder accepts in
  shape (keys never repeated, nesting bounded).
\<close>

section \<open>What is assumed of the libraries\<close>

fun mp_ok :: "nat \<Rightarrow> msgpack \<Rightarrow> bool" where
  "mp_ok n (MInt i) \<longleftrightarrow> - (2 ^ 63) \<le> i \<and> i < 2 ^ 64"
| "mp_ok n (MArr xs) \<longleftrightarrow> 0 < n \<and> (\<forall>x\<in>set xs. mp_ok (n - 1) x)"
| "mp_ok n (MMap fs) \<longleftrightarrow> 0 < n \<and> (\<forall>f\<in>set fs. mp_ok (n - 1) (fst f) \<and> mp_ok (n - 1) (snd f))"
| "mp_ok n _ \<longleftrightarrow> True"

text \<open>
  The MessagePack reader (depth limit 40) reads back what the writer prints, up to the size the
  code allows; the typed readers accept their own kind; base64 is canonical.
\<close>

definition wire_lib_ok :: "wire_lib \<Rightarrow> bool" where
  "wire_lib_ok lb \<longleftrightarrow>
     (\<forall>m rest. mp_ok 39 m \<longrightarrow> length (wl_print lb m) \<le> MAX_DIFF \<longrightarrow>
        wl_parse lb (wl_print lb m @ rest) = Some (m, rest)) \<and>
     (\<forall>m. wl_print lb m \<noteq> []) \<and>
     (\<forall>s. wl_str lb (MStr s) = Some s) \<and>
     (\<forall>b. wl_blob lb (MBin b) = Some b) \<and>
     (\<forall>b. wl_unb64 lb (wl_b64 lb b) = Some b) \<and>
     (\<forall>s b. wl_unb64 lb s = Some b \<longrightarrow> wl_b64 lb b = s)"

lemma wire_lib_okD:
  assumes "wire_lib_ok lb"
  shows "mp_ok 39 m \<Longrightarrow> length (wl_print lb m) \<le> MAX_DIFF \<Longrightarrow>
      wl_parse lb (wl_print lb m @ rest) = Some (m, rest)"
    and "wl_print lb m \<noteq> []"
    and "wl_str lb (MStr s) = Some s" and "wl_blob lb (MBin b) = Some b"
    and "wl_unb64 lb (wl_b64 lb b) = Some b" and "wl_unb64 lb s = Some b \<Longrightarrow> wl_b64 lb b = s"
  using assms unfolding wire_lib_ok_def by blast+

lemma mp_ok_mono: "mp_ok n m \<Longrightarrow> n \<le> k \<Longrightarrow> mp_ok k m"
proof (induction n m arbitrary: k rule: mp_ok.induct)
  case (2 n xs)
  then show ?case by (auto simp: diff_le_mono)
next
  case (3 n fs)
  have "mp_ok (k - 1) (fst f) \<and> mp_ok (k - 1) (snd f)" if "f \<in> set fs" for f
    using 3 that by (auto simp: diff_le_mono)
  with 3 show ?case by auto
qed simp_all

section \<open>Payload values\<close>

text \<open>The values \<open>serde_json\<close> can hold: 64-bit integers, no key twice in an object.\<close>

fun json_ok :: "json \<Rightarrow> bool" where
  "json_ok (JNum n) \<longleftrightarrow> - (2 ^ 63) \<le> n \<and> n < 2 ^ 64"
| "json_ok (JArr xs) \<longleftrightarrow> (\<forall>x\<in>set xs. json_ok x)"
| "json_ok (JObj fs) \<longleftrightarrow> distinct (map fst fs) \<and> (\<forall>f\<in>set fs. json_ok (snd f))"
| "json_ok _ \<longleftrightarrow> True"

lemma length_FIELDS: "length FIELDS = 231"
  by (simp add: FIELDS_def)

lemma field_id_less: "field_id k = Some i \<Longrightarrow> i < 231"
  by (auto simp: field_id_def in_set_zip length_FIELDS dest!: map_of_SomeD)

lemma key_roundtrip: "key_in (key_out k) = Some k"
  by (auto simp: key_in_def key_out_def field_id_name split: option.splits)

lemma body_roundtrip:
  shows "body_out lb m d v = Some w \<Longrightarrow> wire_lib_ok lb \<Longrightarrow> json_ok v \<Longrightarrow> body_in lb m d w = Some v"
    and "items_out lb m d i xs = Some ws \<Longrightarrow> wire_lib_ok lb \<Longrightarrow> \<forall>x\<in>set xs. json_ok x \<Longrightarrow>
      items_in lb m d i ws = Some xs"
    and "fields_out lb d fs = Some us \<Longrightarrow> wire_lib_ok lb \<Longrightarrow> \<forall>f\<in>set fs. json_ok (snd f) \<Longrightarrow>
      distinct (map fst fs) \<Longrightarrow> set ks \<inter> fst ` set fs = {} \<Longrightarrow> fields_in lb d ks us = Some fs"
proof (induction lb m d v and lb m d i xs and lb d fs arbitrary: w and ws and us ks
    rule: body_out_items_out_fields_out.induct)
  case (1 lb m d v)
  then show ?case
    by (auto simp: body_out.simps [of lb m d v] body_in.simps dest: wire_lib_okD(6)
        split: if_splits json.splits)
next
  case (3 lb m d i x xs)
  then show ?case by (auto simp: bind_eq_Some_conv)
next
  case (5 lb d k x fs)
  then show ?case by (auto simp: bind_eq_Some_conv key_roundtrip)
qed simp_all

text \<open>What is written is within the reader's depth limit and number range.\<close>

lemma body_mp_ok:
  shows "body_out lb m d v = Some w \<Longrightarrow> json_ok v \<Longrightarrow> mp_ok (Suc MAX_NESTING - d) w"
    and "items_out lb m d i xs = Some ws \<Longrightarrow> \<forall>x\<in>set xs. json_ok x \<Longrightarrow>
      \<forall>w\<in>set ws. mp_ok (Suc MAX_NESTING - d) w"
    and "fields_out lb d fs = Some us \<Longrightarrow> \<forall>f\<in>set fs. json_ok (snd f) \<Longrightarrow>
      \<forall>u\<in>set us. mp_ok (Suc MAX_NESTING - d) (fst u) \<and> mp_ok (Suc MAX_NESTING - d) (snd u)"
proof (induction lb m d v and lb m d i xs and lb d fs arbitrary: w and ws and us
    rule: body_out_items_out_fields_out.induct)
  case (1 lb m d v)
  then show ?case
    by (auto simp: body_out.simps [of lb m d v] split: if_splits json.splits)
next
  case (3 lb m d i x xs)
  then show ?case by (auto simp: bind_eq_Some_conv)
next
  case (5 lb d k x fs)
  have "mp_ok n (key_out k)" for n
  proof (cases "field_id k")
    case (Some i)
    then have "int i < 2 ^ 64" using field_id_less [OF Some] by simp
    then show ?thesis using Some by (simp add: key_out_def)
  qed (simp add: key_out_def)
  moreover obtain y z where yz: "body_out lb (mode_field k) d x = Some y"
    "fields_out lb d fs = Some z" "us = (key_out k, y) # z"
    using 5 by (auto simp: bind_eq_Some_conv)
  moreover have "mp_ok (Suc MAX_NESTING - d) y" using "5.IH"(1) [OF yz(1)] 5 by simp
  moreover have "\<forall>u\<in>set z. mp_ok (Suc MAX_NESTING - d) (fst u) \<and> mp_ok (Suc MAX_NESTING - d) (snd u)"
    using "5.IH"(2) [OF yz(1,2)] 5 by simp
  ultimately show ?case by simp
qed simp_all

lemma serialize_deserialize:
  assumes "wire_lib_ok lb" "serialize lb m = Some b" "mp_ok 39 m"
  shows "deserialize lb f b = f m"
  using assms wire_lib_okD(1) [OF assms(1,3), of "[]"]
  by (auto simp: serialize_def deserialize_def split: if_splits)

lemma payload_roundtrip:
  assumes "wire_lib_ok lb" "payload_out lb v = Some w" "json_ok v"
  shows "payload_in lb w = Some v" and "mp_ok 33 w"
proof -
  show "payload_in lb w = Some v"
    using assms body_roundtrip(1) by (simp add: payload_out_def payload_in_def)
  show "mp_ok 33 w"
    using assms body_mp_ok(1) [of lb Normal 0 v w] by (simp add: payload_out_def MAX_NESTING_def)
qed

theorem value_roundtrip:
  assumes "wire_lib_ok lb" "json_ok v" "encode_value lb v = Some b"
  shows "decode_value lb b = Some v"
proof -
  obtain w where w: "payload_out lb v = Some w" and b: "serialize lb w = Some b"
    using assms(3) by (auto simp: encode_value_def payload_out_def bind_eq_Some_conv)
  have "mp_ok 39 w" using payload_roundtrip(2) [OF assms(1) w assms(2)] by (rule mp_ok_mono) simp
  from serialize_deserialize [OF assms(1) b this, of "payload_in lb"]
    payload_roundtrip(1) [OF assms(1) w assms(2)]
  show ?thesis by (simp add: decode_value_def payload_in_def [abs_def])
qed

section \<open>Messages and frames\<close>

fun message_ok :: "wire_message \<Rightarrow> bool" where
  "message_ok (Hello p vs i l) \<longleftrightarrow> json_ok l"
| "message_ok (Ready i v c) \<longleftrightarrow> json_ok c"
| "message_ok (Request i m p) \<longleftrightarrow> json_ok p"
| "message_ok (Response i (Some v) e) \<longleftrightarrow> json_ok v"
| "message_ok _ \<longleftrightarrow> True"

lemma word_roundtrip: "word_in (word_out w) = Some w"
  using uint_lt2p [of w] by (simp add: word_in_def word_out_def)

lemma word_list_roundtrip: "word_list (map word_out ws) = Some ws"
  by (induction ws) (simp_all add: word_roundtrip)

lemma exit_roundtrip: "exit_in (exit_out x) = Some x"
  using sint_lt [of "the x"] sint_ge [of "the x"]
  by (cases x) (simp_all add: exit_in_def exit_out_def)

lemma next_field_Cons [simp]: "next_field f k (m # ms) = Option.bind (f m) (\<lambda>x. k x ms)"
  by (simp add: next_field_def)

lemma no_more_Nil [simp]: "no_more x [] = Some x"
  by (simp add: no_more_def)

lemma tag_in [simp]: "word_in (MInt (numeral n)) = (if numeral n < (2 ^ LENGTH('a) :: int)
    then Some (numeral n :: 'a::len word) else None)"
  "word_in (MInt 0) = Some (0 :: 'a word)" "word_in (MInt 1) = Some (1 :: 'a word)"
  by (simp_all add: word_in_def)

lemma message_roundtrip:
  assumes ok: "wire_lib_ok lb" and out: "message_out lb msg = Some m" and "message_ok msg"
  shows "message_in lb m = Some msg"
  using out assms(3)
  by (cases "(lb, msg)" rule: message_out.cases)
    (auto simp: message_in_def fields_of_def Let_def wire_lib_okD [OF ok] word_roundtrip word_list_roundtrip
      words_in_def exit_roundtrip error_in_def log_in_def bool_in_def success_def failure_reply_def
      payload_roundtrip(1) [OF ok])

lemma message_mp_ok:
  assumes "message_out lb msg = Some m" and "message_ok msg" and ok: "wire_lib_ok lb"
  shows "mp_ok 39 m"
proof -
  have w: "mp_ok n (word_out w)" if "LENGTH('a) \<le> 64" for n and w :: "'a::len word"
  proof -
    have "uint w < 2 ^ LENGTH('a)" by (rule uint_lt2p)
    also have "(2 :: int) ^ LENGTH('a) \<le> 2 ^ 64" using that by (intro power_increasing) auto
    finally have "uint w < 2 ^ 64" .
    moreover have "- (2 ^ 63) \<le> uint w" by (rule order_trans [of _ 0]) simp_all
    ultimately show ?thesis by (simp add: word_out_def)
  qed
  have x: "mp_ok n (exit_out x)" for n x
    using sint_lt [of "the x"] sint_ge [of "the x"] by (cases x) (simp_all add: exit_out_def)
  have p: "mp_ok 38 w" if "payload_out lb v = Some w" "json_ok v" for v w
    using payload_roundtrip(2) [OF ok that] by (rule mp_ok_mono) simp
  show ?thesis
    using assms(1,2)
    by (cases "(lb, msg)" rule: message_out.cases) (auto intro: p simp: w x)
qed

theorem message_codec:
  assumes "wire_lib_ok lb" "message_ok msg" "msg_encode lb msg = Some b"
  shows "msg_decode lb b = Some msg"
proof -
  obtain m where m: "message_out lb msg = Some m" and b: "serialize lb m = Some b"
    using assms(3) by (auto simp: msg_encode_def bind_eq_Some_conv)
  from serialize_deserialize [OF assms(1) b message_mp_ok [OF m assms(2,1)], of "message_in lb"]
    message_roundtrip [OF assms(1) m assms(2)]
  show ?thesis by (simp add: msg_decode_def)
qed

lemma be32_roundtrip:
  assumes "n < 2 ^ 32"
  shows "unbe32 (be32 n) = n"
proof -
  define x y z where "x = n div 256" and "y = x div 256" and "z = y div 256"
  have e: "n = x * 256 + n mod 256" "x = y * 256 + x mod 256" "y = z * 256 + y mod 256"
    by (simp_all add: x_def y_def z_def)
  have "z < 256" using assms by (simp add: x_def y_def z_def div_mult2_eq [symmetric])
  moreover have "n div 2 ^ 8 = x" "n div 2 ^ 16 = y" "n div 2 ^ 24 = z"
    by (simp_all add: x_def y_def z_def div_mult2_eq [symmetric])
  ultimately have "unbe32 (be32 n) = ((z * 256 + y mod 256) * 256 + x mod 256) * 256 + n mod 256"
    by (simp only: unbe32_def be32_def byte_def list.map foldl.simps of_char_of) simp
  then show ?thesis by (simp only: e(3) [symmetric] e(2) [symmetric] e(1) [symmetric])
qed

lemma read_exact_Some: "read_exact n b = Some (p, r) \<longleftrightarrow> b = p @ r \<and> length p = n"
  by (auto simp: read_exact_def)

lemma length_be32 [simp]: "length (be32 n) = 4"
  by (simp add: be32_def)

text \<open>
  C20: Framing is lossless on a stream: what \<open>encode\<close> writes is read back as the same message by
  \<open>read\<close>, whatever follows on the stream stays for the next read, and a frame never exceeds the limit.
\<close>

theorem frame_roundtrip:
  assumes "wire_lib_ok lb" "message_ok msg" "frame_encode lb msg = Some b"
  shows "frame_read lb (b @ rest) = Some (msg, rest) \<and> length b \<le> 5 + MAX_FRAME"
proof -
  obtain p where p: "msg_encode lb msg = Some p" "length p \<le> MAX_FRAME"
    and b: "b = ''M'' @ be32 (length p) @ p"
    using assms(3) by (auto simp: frame_encode_def bind_eq_Some_conv split: if_splits)
  have "p \<noteq> []"
    using p(1) wire_lib_okD(2) [OF assms(1)]
    by (auto simp: msg_encode_def serialize_def bind_eq_Some_conv split: if_splits)
  moreover have "unbe32 (be32 (length p)) = length p"
    using p(2) by (intro be32_roundtrip) (simp add: MAX_FRAME_def)
  ultimately have h: "payload_length (''M'' @ be32 (length p)) = Some (length p)"
    using p(2) by (simp add: payload_length_def)
  have r: "read_exact 5 (b @ rest) = Some (''M'' @ be32 (length p), p @ rest)"
    "read_exact (length p) (p @ rest) = Some (p, rest)"
    by (simp_all add: read_exact_def b)
  have "frame_decode lb p = Some msg"
    using message_codec [OF assms(1,2) p(1)] p(2) by (simp add: frame_decode_def)
  then show ?thesis
    using p(2) by (simp only: frame_read_def r(1) bind.bind_lunit prod.case h r(2) option.map) (simp add: b)
qed

section \<open>The field table\<close>

text \<open>Comparing the names as numbers keeps the check of all pairs short.\<close>

fun name_key :: "string \<Rightarrow> nat" where
  "name_key [] = 0"
| "name_key (c # s) = of_char c + 256 * name_key s"

lemma distinct_FIELDS: "distinct FIELDS"
proof -
  have "distinct (map name_key FIELDS)" by (simp add: FIELDS_def)
  then show ?thesis by (simp add: distinct_map)
qed

lemma field_id_None: "field_id k = None \<longleftrightarrow> k \<notin> set FIELDS"
  by (simp add: field_id_def map_of_zip_is_None)

lemma field_id_nth: "i < 231 \<Longrightarrow> field_id (FIELDS ! i) = Some i"
  using distinct_FIELDS by (simp add: field_id_def length_FIELDS map_of_zip_nth)

text \<open>
  The field table is a bijection between its names and the numbers below 231, so a number always
  stands for one name on both sides.
\<close>

theorem field_table:
  "(field_id k = Some i \<longleftrightarrow> field_name (int i) = Some k) \<and>
   (field_id k = None \<longleftrightarrow> k \<notin> set FIELDS) \<and> (field_name n \<noteq> None \<longleftrightarrow> 0 \<le> n \<and> n < 231)"
proof (intro conjI)
  show "field_id k = Some i \<longleftrightarrow> field_name (int i) = Some k"
  proof
    assume "field_name (int i) = Some k"
    then show "field_id k = Some i"
      by (auto simp: field_name_def length_FIELDS field_id_nth split: if_splits)
  qed (rule field_id_name)
qed (simp_all add: field_id_None field_name_def length_FIELDS)

section \<open>What a decoded message holds\<close>

text \<open>Keys are never repeated and the nesting is at most 32, whatever the bytes.\<close>

fun shaped :: "nat \<Rightarrow> json \<Rightarrow> bool" where
  "shaped n (JArr xs) \<longleftrightarrow> (\<forall>x\<in>set xs. 0 < n \<and> shaped (n - 1) x)"
| "shaped n (JObj fs) \<longleftrightarrow> distinct (map fst fs) \<and> (\<forall>f\<in>set fs. 0 < n \<and> shaped (n - 1) (snd f))"
| "shaped n _ \<longleftrightarrow> True"

lemma body_in_shaped:
  shows "body_in lb m d w = Some v \<Longrightarrow> d \<le> MAX_NESTING \<and> shaped (MAX_NESTING - d) v"
    and "items_in lb m d i ws = Some xs \<Longrightarrow>
      \<forall>x\<in>set xs. d \<le> MAX_NESTING \<and> shaped (MAX_NESTING - d) x"
    and "fields_in lb d ks us = Some fs \<Longrightarrow>
      distinct (map fst fs) \<and> set ks \<inter> fst ` set fs = {} \<and>
      (\<forall>f\<in>set fs. d \<le> MAX_NESTING \<and> shaped (MAX_NESTING - d) (snd f))"
proof (induction lb m d w and lb m d i ws and lb d ks us arbitrary: v and xs and fs
    rule: body_in_items_in_fields_in.induct)
  case (1 lb m d w)
  then show ?case
    by (auto simp: body_in.simps [of lb m d w] Suc_le_eq split: if_splits msgpack.splits)
next
  case (3 lb m d i x xs)
  then show ?case by (auto simp: bind_eq_Some_conv)
next
  case (5 lb d ks k x us)
  obtain k' y z where kyz: "key_in k = Some k'" "body_in lb (mode_field k') d x = Some y"
    "k' \<notin> set ks" "fields_in lb d (k' # ks) us = Some z" "fs = (k', y) # z"
    using 5 by (auto simp: bind_eq_Some_conv split: if_splits)
  have "d \<le> MAX_NESTING \<and> shaped (MAX_NESTING - d) y" by (rule "5.IH"(1) [OF kyz(1,2)])
  moreover have "distinct (map fst z) \<and> set (k' # ks) \<inter> fst ` set z = {} \<and>
      (\<forall>f\<in>set z. d \<le> MAX_NESTING \<and> shaped (MAX_NESTING - d) (snd f))"
    by (rule "5.IH"(2) [OF kyz(1,2,3,4)])
  ultimately show ?case using kyz(3) by (simp add: kyz(5))
qed simp_all

fun payloads :: "wire_message \<Rightarrow> json list" where
  "payloads (Hello p vs i l) = [l]"
| "payloads (Ready i v c) = [c]"
| "payloads (Request i m p) = [p]"
| "payloads (Response i (Some v) e) = [v]"
| "payloads _ = []"

definition well_typed :: "wire_message \<Rightarrow> bool" where
  "well_typed msg \<longleftrightarrow> list_all (shaped MAX_NESTING) (payloads msg) \<and>
     (case msg of Response i r e \<Rightarrow> (r = None) \<noteq> (e = None) | _ \<Rightarrow> True)"

lemma next_field_Some:
  "next_field f k ms = Some r \<longleftrightarrow> (\<exists>m rest x. ms = m # rest \<and> f m = Some x \<and> k x rest = Some r)"
  by (auto simp: next_field_def bind_eq_Some_conv split: list.splits)

lemma no_more_Some: "no_more x ms = Some r \<longleftrightarrow> ms = [] \<and> r = x"
  by (auto simp: no_more_def)

lemma payload_in_shaped: "payload_in lb w = Some v \<Longrightarrow> shaped MAX_NESTING v"
  using body_in_shaped(1) [of lb Normal 0 w v] by (simp add: payload_in_def)

lemma fields_of_typed: "fields_of lb tag ms = Some msg \<Longrightarrow> well_typed msg"
  unfolding fields_of_def Let_def
  by (auto simp: next_field_Some no_more_Some success_def failure_reply_def well_typed_def
      dest: payload_in_shaped split: if_splits)

text \<open>
  C21: Whatever bytes arrive on a channel, a message that is read from them is well typed: no object
  of a payload repeats a key, no payload is nested deeper than 32 levels, a response has either a
  result or an error, and reading consumes at most one frame of the allowed size.
\<close>

theorem read_message_typed:
  assumes "frame_read lb b = Some (msg, rest)"
  shows "well_typed msg \<and> (\<exists>p. b = p @ rest \<and> 5 < length p \<and> length p \<le> 5 + MAX_FRAME)"
proof -
  obtain h b1 n p where h: "read_exact 5 b = Some (h, b1)" "payload_length h = Some n"
    and p: "read_exact n b1 = Some (p, rest)" and d: "frame_decode lb p = Some msg"
    using assms by (auto simp: frame_read_def bind_eq_Some_conv)
  have "b = (h @ p) @ rest" "length (h @ p) = 5 + n" using h p by (simp_all add: read_exact_Some)
  moreover have "0 < n" "n \<le> MAX_FRAME"
    using h by (auto simp: payload_length_def Let_def split: if_splits)
  moreover have "well_typed msg"
    using d by (auto simp: frame_decode_def msg_decode_def deserialize_def message_in_def
        next_field_Some intro: fields_of_typed split: if_splits option.splits msgpack.splits)
  ultimately show ?thesis by (intro conjI exI [of _ "h @ p"]) simp_all
qed

end
