(* ===== verification/Stream.thy ===== *)
theory Stream
  imports WireProps
begin

text \<open>
  One request on a Git channel: the desktop's loop over the answers (\<open>Client::request\<close> of
  \<open>src-tauri/src/git/client.rs\<close>) and the agent's windowed stream of a diff (\<open>stream_diff\<close> and the
  reply of \<open>run\<close>, \<open>tools/agent/src/git/mod.rs\<close>). The two run concurrently over one queue of
  messages in each direction; frames are lossless (\<open>frame_roundtrip\<close>), so the queues hold messages.
\<close>

section \<open>The desktop's side\<close>

definition invalid_response :: gerror where
  "invalid_response =
     gerror_new ''PROTOCOL_ERROR'' ''Invalid Git agent response. Reconnect before continuing.''"

definition stream_limit :: gerror where
  "stream_limit = gerror_new ''PROTOCOL_ERROR'' ''Git stream exceeds its limit.''"

definition as_u64 :: "json \<Rightarrow> int option" where
  "as_u64 v = (case v of JNum n \<Rightarrow> if 0 \<le> n then Some n else None | _ \<Rightarrow> None)"

record client_state =
  cs_stream :: "string option"
  cs_data :: bytes
  cs_last :: u32
  cs_logs :: nat

definition client_start :: client_state where
  "client_start = \<lparr>cs_stream = None, cs_data = [], cs_last = 0, cs_logs = 0\<rparr>"

text \<open>One turn of the loop: go on with messages to send, or return.\<close>

datatype client_turn = Continue client_state "wire_message list" | Return "gerror + json"

definition accept_log :: "command_log \<Rightarrow> client_state \<Rightarrow> client_turn" where
  "accept_log e c =
     (if 32 < Suc (cs_logs c) \<or> 256 < length (cl_command e) \<or> 32768 < length (cl_output e)
      then Return (Inl invalid_response) else Continue (c\<lparr>cs_logs := Suc (cs_logs c)\<rparr>) [])"

definition accept_chunk :: "wire_lib \<Rightarrow> string \<Rightarrow> u32 \<Rightarrow> string \<Rightarrow> client_state \<Rightarrow> client_turn" where
  "accept_chunk lb st q b c =
     (case wl_unb64 lb b of
        None \<Rightarrow> Return (Inl invalid_response)
      | Some d \<Rightarrow>
          if d = [] \<or> CHUNK_SIZE < length d \<or> MAX_DIFF < length (cs_data c) + length d
          then Return (Inl stream_limit)
          else Continue (c\<lparr>cs_data := cs_data c @ d, cs_last := q\<rparr>) [Ack st q])"

definition accept_result :: "wire_lib \<Rightarrow> string option \<Rightarrow> json \<Rightarrow> client_state \<Rightarrow> gerror + json" where
  "accept_result lb expected v c =
     (if cs_stream c \<noteq> None then
        (if as_u64 (jget v ''lastSeq'') \<noteq> Some (uint (cs_last c)) \<or>
            as_u64 (jget v ''bytes'') \<noteq> Some (int (length (cs_data c)))
         then Inl invalid_response
         else mapR (\<lambda>d. JObj [(''snapshot'', jopt JStr expected), (''diff'', d)])
                (ok_or invalid_response (decode_value lb (cs_data c))))
      else if expected \<noteq> None then Inl invalid_response
      else Inr v)"

definition client_step ::
  "wire_lib \<Rightarrow> string \<Rightarrow> string option \<Rightarrow> wire_message \<Rightarrow> client_state \<Rightarrow> client_turn" where
  "client_step lb i expected msg c =
     (case msg of
        CommandLog r e \<Rightarrow> if r = i then accept_log e c else Return (Inl invalid_response)
      | Begin r st sn \<Rightarrow>
          if r = i \<and> cs_stream c = None \<and> expected = Some sn
          then Continue (c\<lparr>cs_stream := Some st\<rparr>) [] else Return (Inl invalid_response)
      | Chunk r st q b \<Rightarrow>
          if r = i \<and> cs_stream c = Some st \<and> q = cs_last c + 1 then accept_chunk lb st q b c
          else Return (Inl invalid_response)
      | Response r (Some v) None \<Rightarrow>
          if r = i then Return (accept_result lb expected v c) else Return (Inl invalid_response)
      | Response r None (Some e) \<Rightarrow>
          if r = i then Return (Inl e) else Return (Inl invalid_response)
      | _ \<Rightarrow> Return (Inl invalid_response))"

text \<open>The loop on a list of answers: its result when it returns, and the messages it sent.\<close>

fun client_loop ::
  "wire_lib \<Rightarrow> string \<Rightarrow> string option \<Rightarrow> wire_message list \<Rightarrow> client_state \<Rightarrow>
   wire_message list \<times> (gerror + json) option" where
  "client_loop lb i expected [] c = ([], None)"
| "client_loop lb i expected (m # ms) c =
     (case client_step lb i expected m c of
        Return r \<Rightarrow> ([], Some r)
      | Continue c' out \<Rightarrow>
          (case client_loop lb i expected ms c' of (out', r) \<Rightarrow> (out @ out', r)))"

section \<open>The agent's side\<close>

text \<open>\<open>bytes.chunks(CHUNK_SIZE)\<close>.\<close>

function chunks_of :: "nat \<Rightarrow> bytes \<Rightarrow> bytes list" where
  "chunks_of n b = (if b = [] \<or> n = 0 then [] else take n b # chunks_of n (drop n b))"
  by pat_completeness auto
termination by (relation "measure (\<lambda>(n, b). length b)") auto

declare chunks_of.simps [simp del]

datatype agent_phase = Streaming u32 u32 "bytes list" | Finished | Broken

record stream_job =
  sj_id :: string
  sj_stream :: string
  sj_snapshot :: string
  sj_bytes :: bytes

text \<open>The inner loop: chunks are written while fewer than the window are unacknowledged.\<close>

fun fill_window ::
  "wire_lib \<Rightarrow> stream_job \<Rightarrow> u32 \<Rightarrow> u32 \<Rightarrow> bytes list \<Rightarrow> u32 \<times> bytes list \<times> wire_message list" where
  "fill_window lb j acked sent [] = (sent, [], [])"
| "fill_window lb j acked sent (c # cs) =
     (if sent - acked < STREAM_WINDOW
      then (case fill_window lb j acked (sent + 1) cs of
              (s, r, out) \<Rightarrow> (s, r, Chunk (sj_id j) (sj_stream j) (sent + 1) (wl_b64 lb c) # out))
      else (sent, c # cs, []))"

definition stream_reply :: "stream_job \<Rightarrow> u32 \<Rightarrow> wire_message" where
  "stream_reply j sent =
     success (sj_id j) (JObj [(''lastSeq'', JNum (uint sent)), (''bytes'', jnat (length (sj_bytes j)))])"

text \<open>One turn of the outer loop, up to the next wait for a message.\<close>

definition stream_turn ::
  "wire_lib \<Rightarrow> stream_job \<Rightarrow> u32 \<Rightarrow> u32 \<Rightarrow> bytes list \<Rightarrow> agent_phase \<times> wire_message list" where
  "stream_turn lb j sent acked cs =
     (case fill_window lb j acked sent cs of
        (s, r, out) \<Rightarrow>
          if acked = s then (Finished, out @ [stream_reply j s]) else (Streaming s acked r, out))"

definition stream_begin :: "wire_lib \<Rightarrow> stream_job \<Rightarrow> agent_phase \<times> wire_message list" where
  "stream_begin lb j =
     (case stream_turn lb j 0 0 (chunks_of CHUNK_SIZE (sj_bytes j)) of
        (p, out) \<Rightarrow> (p, Begin (sj_id j) (sj_stream j) (sj_snapshot j) # out))"

definition stream_receive ::
  "wire_lib \<Rightarrow> stream_job \<Rightarrow> wire_message \<Rightarrow> u32 \<Rightarrow> u32 \<Rightarrow> bytes list \<Rightarrow> agent_phase \<times> wire_message list" where
  "stream_receive lb j msg sent acked cs =
     (case msg of
        Ack st q \<Rightarrow>
          if st = sj_stream j \<and> q = acked + 1 then stream_turn lb j sent q cs else (Broken, [])
      | Ping n \<Rightarrow>
          if length n \<le> 128
          then (case stream_turn lb j sent acked cs of (p, out) \<Rightarrow> (p, Pong n # out))
          else (Broken, [])
      | _ \<Rightarrow> (Broken, []))"

section \<open>Both sides\<close>

record exchange =
  ex_agent :: agent_phase
  ex_down :: "wire_message list"
  ex_client :: client_state
  ex_result :: "(gerror + json) option"
  ex_up :: "wire_message list"

definition exchange_start :: "wire_lib \<Rightarrow> stream_job \<Rightarrow> command_log list \<Rightarrow> exchange" where
  "exchange_start lb j logs =
     (case stream_begin lb j of
        (p, out) \<Rightarrow> \<lparr>ex_agent = p, ex_down = map (CommandLog (sj_id j)) logs @ out,
                     ex_client = client_start, ex_result = None, ex_up = []\<rparr>)"

inductive exchange_step :: "wire_lib \<Rightarrow> stream_job \<Rightarrow> exchange \<Rightarrow> exchange \<Rightarrow> bool"
  for lb j where
  client_goes_on:
    "ex_result x = None \<Longrightarrow> ex_down x = m # ms \<Longrightarrow>
     client_step lb (sj_id j) (Some (sj_snapshot j)) m (ex_client x) = Continue c out \<Longrightarrow>
     exchange_step lb j x (x\<lparr>ex_down := ms, ex_client := c, ex_up := ex_up x @ out\<rparr>)"
| client_returns:
    "ex_result x = None \<Longrightarrow> ex_down x = m # ms \<Longrightarrow>
     client_step lb (sj_id j) (Some (sj_snapshot j)) m (ex_client x) = Return r \<Longrightarrow>
     exchange_step lb j x (x\<lparr>ex_down := ms, ex_result := Some r\<rparr>)"
| agent_receives:
    "ex_agent x = Streaming s a cs \<Longrightarrow> ex_up x = m # ms \<Longrightarrow>
     stream_receive lb j m s a cs = (p, out) \<Longrightarrow>
     exchange_step lb j x (x\<lparr>ex_agent := p, ex_down := ex_down x @ out, ex_up := ms\<rparr>)"

code_pred exchange_step .

end
