(* ===== verification/WireSample.thy ===== *)
theory WireSample
  imports WireProps
begin

text \<open>
  A library that satisfies the laws of the wire format, for the witnesses: a self-delimiting text
  format with unary lengths, and the identity for base64.
\<close>

fun unary_read :: "bytes \<Rightarrow> (nat \<times> bytes) option" where
  "unary_read (c # b) =
     (if c = CHR ''0'' then Some (0, b)
      else if c = CHR ''1'' then map_option (\<lambda>(n, r). (Suc n, r)) (unary_read b) else None)"
| "unary_read [] = None"

definition unary :: "nat \<Rightarrow> bytes" where
  "unary n = replicate n CHR ''1'' @ ''0''"

fun mp_print :: "msgpack \<Rightarrow> bytes" where
  "mp_print MNil = ''n''"
| "mp_print (MBool b) = (if b then ''t'' else ''f'')"
| "mp_print (MInt i) = (if 0 \<le> i then ''p'' else ''m'') @ unary (nat \<bar>i\<bar>)"
| "mp_print (MStr s) = ''s'' @ unary (length s) @ s"
| "mp_print (MBin s) = ''b'' @ unary (length s) @ s"
| "mp_print (MArr xs) = ''a'' @ unary (length xs) @ concat (map mp_print xs)"
| "mp_print (MMap fs) = ''o'' @ unary (length fs) @ concat (map (\<lambda>(k, v). mp_print k @ mp_print v) fs)"

definition sized_read :: "bytes \<Rightarrow> (bytes \<times> bytes) option" where
  "sized_read b = Option.bind (unary_read b) (\<lambda>(n, r). read_exact n r)"

fun mp_parse :: "nat \<Rightarrow> bytes \<Rightarrow> (msgpack \<times> bytes) option"
  and mp_items :: "nat \<Rightarrow> nat \<Rightarrow> bytes \<Rightarrow> (msgpack list \<times> bytes) option"
  and mp_pairs :: "nat \<Rightarrow> nat \<Rightarrow> bytes \<Rightarrow> ((msgpack \<times> msgpack) list \<times> bytes) option"
where
  "mp_parse 0 b = None"
| "mp_parse (Suc f) [] = None"
| "mp_parse (Suc f) (c # b) =
     (if c = CHR ''n'' then Some (MNil, b)
      else if c = CHR ''t'' then Some (MBool True, b)
      else if c = CHR ''f'' then Some (MBool False, b)
      else if c = CHR ''p'' then map_option (\<lambda>(n, r). (MInt (int n), r)) (unary_read b)
      else if c = CHR ''m'' then map_option (\<lambda>(n, r). (MInt (- int n), r)) (unary_read b)
      else if c = CHR ''s'' then map_option (\<lambda>(s, r). (MStr s, r)) (sized_read b)
      else if c = CHR ''b'' then map_option (\<lambda>(s, r). (MBin s, r)) (sized_read b)
      else if c = CHR ''a'' then Option.bind (unary_read b) (\<lambda>(n, r).
        map_option (\<lambda>(xs, r). (MArr xs, r)) (mp_items f n r))
      else if c = CHR ''o'' then Option.bind (unary_read b) (\<lambda>(n, r).
        map_option (\<lambda>(xs, r). (MMap xs, r)) (mp_pairs f n r))
      else None)"
| "mp_items f 0 b = Some ([], b)"
| "mp_items 0 (Suc n) b = None"
| "mp_items (Suc f) (Suc n) b =
     Option.bind (mp_parse f b) (\<lambda>(x, r). map_option (\<lambda>(xs, r). (x # xs, r)) (mp_items f n r))"
| "mp_pairs f 0 b = Some ([], b)"
| "mp_pairs 0 (Suc n) b = None"
| "mp_pairs (Suc f) (Suc n) b =
     Option.bind (mp_parse f b) (\<lambda>(k, r). Option.bind (mp_parse f r) (\<lambda>(v, r).
     map_option (\<lambda>(xs, r). ((k, v) # xs, r)) (mp_pairs f n r)))"

lemma unary_read: "unary_read (unary n @ r) = Some (n, r)"
  by (induction n) (simp_all add: unary_def)

lemma sized_read: "sized_read (unary (length s) @ s @ r) = Some (s, r)"
  by (simp add: sized_read_def unary_read read_exact_def)

lemma length_unary [simp]: "length (unary n) = Suc n"
  by (simp add: unary_def)

lemma items_parse:
  "(\<And>x f r. x \<in> set xs \<Longrightarrow> length (mp_print x) \<le> f \<Longrightarrow> mp_parse f (mp_print x @ r) = Some (x, r)) \<Longrightarrow>
   length xs + length (concat (map mp_print xs)) \<le> f \<Longrightarrow>
   mp_items f (length xs) (concat (map mp_print xs) @ r) = Some (xs, r)"
proof (induction xs arbitrary: f)
  case (Cons x xs)
  then obtain g where g: "f = Suc g" by (cases f) auto
  have "mp_parse g (mp_print x @ concat (map mp_print xs) @ r) = Some (x, concat (map mp_print xs) @ r)"
    using Cons.prems g by (intro Cons.prems(1)) simp_all
  then show ?case using Cons g by simp
qed simp

lemma pairs_parse:
  "(\<And>x f r. x \<in> fst ` set fs \<union> snd ` set fs \<Longrightarrow> length (mp_print x) \<le> f \<Longrightarrow>
     mp_parse f (mp_print x @ r) = Some (x, r)) \<Longrightarrow>
   length fs + length (concat (map (\<lambda>(k, v). mp_print k @ mp_print v) fs)) \<le> f \<Longrightarrow>
   mp_pairs f (length fs) (concat (map (\<lambda>(k, v). mp_print k @ mp_print v) fs) @ r) = Some (fs, r)"
proof (induction fs arbitrary: f)
  case (Cons x fs)
  obtain k v where x: "x = (k, v)" by (cases x)
  obtain g where g: "f = Suc g" using Cons.prems(2) by (cases f) auto
  define t where "t = concat (map (\<lambda>(k, v). mp_print k @ mp_print v) fs) @ r"
  have "mp_parse g (mp_print k @ mp_print v @ t) = Some (k, mp_print v @ t)"
    "mp_parse g (mp_print v @ t) = Some (v, t)"
    using Cons.prems g x by (intro Cons.prems(1); simp)+
  moreover have "mp_pairs g (length fs) t = Some (fs, r)"
    unfolding t_def using Cons g x by (intro Cons.IH) simp_all
  ultimately show ?case by (simp add: g x t_def [symmetric])
qed simp

lemma mp_print_nonempty [simp]: "mp_print m \<noteq> []"
  by (cases m) simp_all

lemma mp_print_parse: "length (mp_print m) \<le> f \<Longrightarrow> mp_parse f (mp_print m @ r) = Some (m, r)"
proof (induction m arbitrary: f r)
  case (MArr xs)
  then obtain g where g: "f = Suc g" by (cases f) auto
  have "mp_items g (length xs) (concat (map mp_print xs) @ r) = Some (xs, r)"
    using MArr g by (intro items_parse) simp_all
  then show ?case by (simp add: g unary_read)
next
  case (MMap fs)
  then obtain g where g: "f = Suc g" by (cases f) auto
  have "mp_pairs g (length fs) (concat (map (\<lambda>(k, v). mp_print k @ mp_print v) fs) @ r) = Some (fs, r)"
    using MMap g by (intro pairs_parse) (auto 4 4)
  then show ?case by (simp add: g unary_read)
next
  case (MBool b)
  then obtain g where "f = Suc g" by (cases f; cases b) auto
  then show ?case by simp
next
  case (MInt i)
  then obtain g where "f = Suc g" by (cases f) auto
  then show ?case by (simp add: unary_read)
next
  case (MStr s)
  then obtain g where "f = Suc g" by (cases f) auto
  then show ?case by (simp add: sized_read)
next
  case (MBin s)
  then obtain g where "f = Suc g" by (cases f) auto
  then show ?case by (simp add: sized_read)
next
  case MNil
  then obtain g where "f = Suc g" by (cases f) auto
  then show ?case by simp
qed

definition sample_wire :: wire_lib where
  "sample_wire = \<lparr>wl_print = mp_print, wl_parse = (\<lambda>b. mp_parse (length b) b),
     wl_str = (\<lambda>m. case m of MStr s \<Rightarrow> Some s | _ \<Rightarrow> None),
     wl_blob = (\<lambda>m. case m of MBin b \<Rightarrow> Some b | _ \<Rightarrow> None),
     wl_b64 = (\<lambda>b. b), wl_unb64 = Some\<rparr>"

lemma sample_wire_ok: "wire_lib_ok sample_wire"
  by (simp add: wire_lib_ok_def sample_wire_def mp_print_parse)

section \<open>Witnesses\<close>

definition sample_frame :: bytes where
  "sample_frame = ''M'' @ be32 17 @ ''a110p11111110s10x''"

lemma sample_encoded: "frame_encode sample_wire (Ping ''x'') = Some sample_frame"
proof -
  have p: "mp_print (MArr [MInt 7, MStr ''x'']) = ''a110p11111110s10x''"
    by (simp add: unary_def numeral_eq_Suc)
  have "msg_encode sample_wire (Ping ''x'') = Some ''a110p11111110s10x''"
    by (simp add: msg_encode_def serialize_def sample_wire_def p MAX_DIFF_def del: mp_print.simps)
  moreover have "length ''a110p11111110s10x'' = 17" by simp
  ultimately show ?thesis
    by (simp only: frame_encode_def bind.bind_lunit MAX_FRAME_def sample_frame_def) (simp add: MAX_FRAME_def sample_frame_def)
qed

theorem frame_roundtrip_witness:
  "\<forall>rest. frame_read sample_wire (sample_frame @ rest) = Some (Ping ''x'', rest) \<and>
     length sample_frame \<le> 5 + MAX_FRAME"
  using frame_roundtrip [OF sample_wire_ok _ sample_encoded] by simp

theorem read_message_typed_witness:
  "well_typed (Ping ''x'') \<and>
     (\<exists>p. sample_frame = p @ [] \<and> 5 < length p \<and> length p \<le> 5 + MAX_FRAME)"
  by (rule read_message_typed [of sample_wire sample_frame])
    (use frame_roundtrip_witness [THEN spec, of "[]"] in simp)

end
