(* ===== verification/StreamProps.thy ===== *)
theory StreamProps
  imports Stream WireSample
begin

text \<open>
  The streamed request: a run of both sides is a run of two counters (answers consumed, chunks
  acknowledged), so it never sticks, ends with the value the agent sent and keeps the window; and
  whatever an agent sends, the desktop accepts only a complete, in-order stream within its limit.
\<close>

inductive_cases exchange_stepE: "exchange_step lb j x y"

lemmas exchange_cases = exchange_stepE [consumes 1, case_names client_goes_on client_returns agent_receives]

section \<open>Chunks and the window\<close>

lemma concat_chunks: "0 < n \<Longrightarrow> concat (chunks_of n b) = b"
  by (induction n b rule: chunks_of.induct) (subst chunks_of.simps, simp)

lemma chunk_bounds: "c \<in> set (chunks_of n b) \<Longrightarrow> c \<noteq> [] \<and> length c \<le> n"
proof (induction n b rule: chunks_of.induct)
  case (1 n b)
  then show ?case by (subst (asm) (2) chunks_of.simps) (auto split: if_splits)
qed

lemma length_chunks: "0 < n \<Longrightarrow> length (chunks_of n b) * n < length b + n"
proof (induction n b rule: chunks_of.induct)
  case (1 n b)
  show ?case
  proof (cases "b = []")
    case False
    then have "length (chunks_of n (drop n b)) * n < length (drop n b) + n" using 1 by simp
    moreover have "length (chunks_of n b) = Suc (length (chunks_of n (drop n b)))"
      using False 1 by (subst chunks_of.simps) simp
    moreover have "drop n b = [] \<Longrightarrow> chunks_of n (drop n b) = []" by (simp add: chunks_of.simps)
    ultimately show ?thesis using False by (cases "n \<le> length b") auto
  qed (use 1 in \<open>simp add: chunks_of.simps\<close>)
qed

abbreviation u32_of :: "nat \<Rightarrow> u32" where "u32_of \<equiv> of_nat"

lemma unat_u32: "n < 2 ^ 32 \<Longrightarrow> unat (u32_of n) = n"
  by (simp add: unat_of_nat)

lemma window_open:
  assumes "a \<le> s" "s < 2 ^ 32"
  shows "u32_of s - u32_of a < STREAM_WINDOW \<longleftrightarrow> s < a + 8"
proof -
  have "u32_of s - u32_of a = u32_of (s - a)" using assms by simp
  moreover have "unat (u32_of (s - a)) = s - a" using assms by (intro unat_u32) simp
  ultimately show ?thesis using assms by (auto simp: STREAM_WINDOW_def word_less_nat_alt)
qed

definition chunk_msg :: "wire_lib \<Rightarrow> stream_job \<Rightarrow> bytes list \<Rightarrow> nat \<Rightarrow> wire_message" where
  "chunk_msg lb j cs k = Chunk (sj_id j) (sj_stream j) (u32_of k) (wl_b64 lb (cs ! (k - 1)))"

definition sent_at :: "bytes list \<Rightarrow> nat \<Rightarrow> nat" where
  "sent_at cs a = min (length cs) (a + 8)"

lemma fill_window_at:
  assumes "length cs < 2 ^ 32" "a \<le> s" "s \<le> sent_at cs a"
  shows "fill_window lb j (u32_of a) (u32_of s) (drop s cs)
    = (u32_of (sent_at cs a), drop (sent_at cs a) cs,
       map (chunk_msg lb j cs) [Suc s..<Suc (sent_at cs a)])"
  using assms(2,3)
proof (induction "sent_at cs a - s" arbitrary: s)
  case 0
  then have s: "s = sent_at cs a" by simp
  show ?case
  proof (cases "drop s cs")
    case (Cons c ds)
    then have "s < length cs" by (metis drop_eq_Nil linorder_not_less list.distinct(1))
    then have "s = a + 8" using s by (simp add: sent_at_def)
    then have "\<not> u32_of s - u32_of a < STREAM_WINDOW"
      using window_open [of a s] assms(1) \<open>s < length cs\<close> by simp
    then show ?thesis unfolding s [symmetric] Cons by simp
  qed (use s in simp)
next
  case (Suc n)
  from Suc.hyps(2) have s1: "s < sent_at cs a" by simp
  then have s: "s < sent_at cs a" "s < length cs" "s < a + 8" by (simp_all add: sent_at_def)
  have w: "u32_of s - u32_of a < STREAM_WINDOW"
    using window_open [of a s] assms(1) Suc(3) s by simp
  have "fill_window lb j (u32_of a) (u32_of (Suc s)) (drop (Suc s) cs)
    = (u32_of (sent_at cs a), drop (sent_at cs a) cs,
       map (chunk_msg lb j cs) [Suc (Suc s)..<Suc (sent_at cs a)])"
    using Suc s by (intro Suc.hyps(1)) simp_all
  moreover have "drop s cs = cs ! s # drop (Suc s) cs" using s(2) by (simp add: Cons_nth_drop_Suc)
  moreover have "[Suc s..<Suc (sent_at cs a)] = Suc s # [Suc (Suc s)..<Suc (sent_at cs a)]"
    using s(1) by (simp add: upt_conv_Cons)
  ultimately show ?case using w by (simp add: chunk_msg_def add.commute)
qed

section \<open>The run as two counters\<close>

definition log_ok :: "command_log \<Rightarrow> bool" where
  "log_ok e \<longleftrightarrow> length (cl_command e) \<le> 256 \<and> length (cl_output e) \<le> 32768"

text \<open>A job of the agent: an encoded value, and the logs of the commands it ran.\<close>

definition job_ok :: "wire_lib \<Rightarrow> stream_job \<Rightarrow> command_log list \<Rightarrow> json \<Rightarrow> bool" where
  "job_ok lb j logs v \<longleftrightarrow> wire_lib_ok lb \<and> json_ok v \<and> encode_value lb v = Some (sj_bytes j) \<and>
     length logs \<le> 32 \<and> list_all log_ok logs"

definition job_chunks :: "stream_job \<Rightarrow> bytes list" where
  "job_chunks j = chunks_of CHUNK_SIZE (sj_bytes j)"

definition answers :: "wire_lib \<Rightarrow> stream_job \<Rightarrow> command_log list \<Rightarrow> wire_message list" where
  "answers lb j logs =
     map (CommandLog (sj_id j)) logs @ [Begin (sj_id j) (sj_stream j) (sj_snapshot j)] @
     map (chunk_msg lb j (job_chunks j)) [Suc 0..<Suc (length (job_chunks j))] @
     [stream_reply j (u32_of (length (job_chunks j)))]"

definition emitted :: "stream_job \<Rightarrow> command_log list \<Rightarrow> nat \<Rightarrow> nat" where
  "emitted j logs a =
     Suc (length logs) + sent_at (job_chunks j) a + (if a = length (job_chunks j) then 1 else 0)"

definition got :: "stream_job \<Rightarrow> command_log list \<Rightarrow> nat \<Rightarrow> nat" where
  "got j logs c = min (length (job_chunks j)) (c - Suc (length logs))"

definition client_at :: "stream_job \<Rightarrow> command_log list \<Rightarrow> nat \<Rightarrow> client_state" where
  "client_at j logs c =
     (if c \<le> length logs then client_start\<lparr>cs_logs := c\<rparr>
      else \<lparr>cs_stream = Some (sj_stream j), cs_data = concat (take (got j logs c) (job_chunks j)),
            cs_last = u32_of (got j logs c), cs_logs = length logs\<rparr>)"

definition agent_at :: "stream_job \<Rightarrow> nat \<Rightarrow> agent_phase" where
  "agent_at j a =
     (if a = length (job_chunks j) then Finished
      else Streaming (u32_of (sent_at (job_chunks j) a)) (u32_of a)
             (drop (sent_at (job_chunks j) a) (job_chunks j)))"

definition ack_msg :: "stream_job \<Rightarrow> nat \<Rightarrow> wire_message" where
  "ack_msg j k = Ack (sj_stream j) (u32_of k)"

definition streamed :: "stream_job \<Rightarrow> json \<Rightarrow> gerror + json" where
  "streamed j v = Inr (JObj [(''snapshot'', JStr (sj_snapshot j)), (''diff'', v)])"

definition exchange_at ::
  "wire_lib \<Rightarrow> stream_job \<Rightarrow> command_log list \<Rightarrow> json \<Rightarrow> nat \<Rightarrow> nat \<Rightarrow> exchange" where
  "exchange_at lb j logs v c a =
     (let last_answer = Suc (length logs) + length (job_chunks j) in
      \<lparr>ex_agent = agent_at j a,
       ex_down = drop c (take (emitted j logs a) (answers lb j logs)),
       ex_client = client_at j logs (min c last_answer),
       ex_result = (if last_answer < c then Some (streamed j v) else None),
       ex_up = map (ack_msg j) [Suc a..<Suc (got j logs c)]\<rparr>)"

definition counters_ok :: "stream_job \<Rightarrow> command_log list \<Rightarrow> nat \<Rightarrow> nat \<Rightarrow> bool" where
  "counters_ok j logs c a \<longleftrightarrow> c \<le> emitted j logs a \<and> a \<le> got j logs c"

lemma job_chunk:
  assumes "k < length (job_chunks j)"
  shows "job_chunks j ! k \<noteq> []" "length (job_chunks j ! k) \<le> CHUNK_SIZE"
  using chunk_bounds [of "job_chunks j ! k" CHUNK_SIZE "sj_bytes j"] assms
  by (auto simp: job_chunks_def)

lemma job_bytes:
  assumes "job_ok lb j logs v"
  shows "length (sj_bytes j) \<le> MAX_DIFF" and "concat (job_chunks j) = sj_bytes j"
    and "length (job_chunks j) < 2 ^ 31"
proof -
  show l: "length (sj_bytes j) \<le> MAX_DIFF"
    using assms by (auto simp: job_ok_def encode_value_def serialize_def bind_eq_Some_conv
        split: if_splits)
  show "concat (job_chunks j) = sj_bytes j"
    by (simp add: job_chunks_def concat_chunks CHUNK_SIZE_def)
  have "length (job_chunks j) * CHUNK_SIZE < length (sj_bytes j) + CHUNK_SIZE"
    unfolding job_chunks_def by (rule length_chunks) (simp add: CHUNK_SIZE_def)
  then show "length (job_chunks j) < 2 ^ 31" using l by (simp add: CHUNK_SIZE_def MAX_DIFF_def)
qed

lemma take_concat_bound:
  assumes "k < length xs"
  shows "length (concat (take k xs)) + length (xs ! k) \<le> length (concat xs)"
proof -
  have "concat xs = concat (take k xs) @ xs ! k @ concat (drop (Suc k) xs)"
    using assms by (metis Cons_nth_drop_Suc append_take_drop_id concat.simps(2) concat_append)
  then show ?thesis by simp
qed

section \<open>What each side does at the counters\<close>

lemma length_answers: "length (answers lb j logs) = length logs + length (job_chunks j) + 2"
  by (simp add: answers_def del: upt_Suc)

lemma answers_nth:
  "c < length logs \<Longrightarrow> answers lb j logs ! c = CommandLog (sj_id j) (logs ! c)"
  "answers lb j logs ! length logs = Begin (sj_id j) (sj_stream j) (sj_snapshot j)"
  "k < length (job_chunks j) \<Longrightarrow>
     answers lb j logs ! Suc (length logs + k) = chunk_msg lb j (job_chunks j) (Suc k)"
  "answers lb j logs ! Suc (length logs + length (job_chunks j))
     = stream_reply j (u32_of (length (job_chunks j)))"
  by (simp_all add: answers_def nth_append del: upt_Suc)

lemma answers_slice:
  assumes "s \<le> s'" "s' \<le> length (job_chunks j)"
  shows "drop (Suc (length logs + s)) (take (Suc (length logs + s')) (answers lb j logs))
    = map (chunk_msg lb j (job_chunks j)) [Suc s..<Suc s']"
    (is "?l = ?r")
proof (rule nth_equalityI)
  show "length ?l = length ?r" using assms by (simp add: length_answers del: upt_Suc)
  fix i assume "i < length ?l"
  then have i: "s + i < s'" using assms by (simp add: length_answers)
  then have "?l ! i = answers lb j logs ! Suc (length logs + (s + i))"
    using assms by (simp add: length_answers add.assoc)
  also have "\<dots> = ?r ! i" using i assms by (simp add: answers_nth(3) del: upt_Suc)
  finally show "?l ! i = ?r ! i" .
qed

lemma client_continues:
  assumes ok: "job_ok lb j logs v" and c: "c < Suc (length logs) + length (job_chunks j)"
  shows "client_step lb (sj_id j) (Some (sj_snapshot j)) (answers lb j logs ! c) (client_at j logs c)
    = Continue (client_at j logs (Suc c)) (map (ack_msg j) [Suc (got j logs c)..<Suc (got j logs (Suc c))])"
proof (cases "c < Suc (length logs)")
  case True
  then consider (log) "c < length logs" | (start) "c = length logs" by linarith
  then show ?thesis
  proof cases
    case log
    then have "log_ok (logs ! c)" "c < 32" using ok by (auto simp: job_ok_def list_all_length)
    then show ?thesis
      using log by (simp add: answers_nth client_step_def accept_log_def client_at_def got_def log_ok_def
          client_start_def)
  next
    case start
    then show ?thesis
      by (simp add: answers_nth client_step_def client_at_def got_def client_start_def)
  qed
next
  case False
  then obtain k where k: "c = Suc (length logs + k)" "k < length (job_chunks j)"
    using c by (metis add_Suc less_iff_Suc_add linorder_less_linear nat_add_left_cancel_less
        not_less_eq add.commute le_add1 le_Suc_ex not_le)
  have w: "wl_unb64 lb (wl_b64 lb d) = Some d" for d
    using ok by (auto simp: job_ok_def dest: wire_lib_okD(5))
  have "length (concat (take k (job_chunks j))) + length (job_chunks j ! k) \<le> MAX_DIFF"
    using take_concat_bound [OF k(2)] job_bytes(1,2) [OF ok] by simp
  then show ?thesis
    using k job_chunk [OF k(2)]
    by (simp add: answers_nth client_step_def accept_chunk_def client_at_def got_def w chunk_msg_def
        ack_msg_def take_Suc_conv_app_nth add.commute [of "1 :: u32"])
qed

lemma client_finishes:
  assumes ok: "job_ok lb j logs v" and c: "c = Suc (length logs) + length (job_chunks j)"
  shows "client_step lb (sj_id j) (Some (sj_snapshot j)) (answers lb j logs ! c) (client_at j logs c)
    = Return (streamed j v)"
proof -
  have "decode_value lb (sj_bytes j) = Some v"
    using ok value_roundtrip by (auto simp: job_ok_def)
  then show ?thesis
    using job_bytes(2) [OF ok] c
    by (simp add: answers_nth client_step_def accept_result_def client_at_def got_def stream_reply_def
        success_def as_u64_def jnat_def jopt_def streamed_def)
qed

lemma emitted_slice:
  assumes a: "a \<le> length (job_chunks j)" and s: "s \<le> sent_at (job_chunks j) a"
  shows "drop (Suc (length logs + s)) (take (emitted j logs a) (answers lb j logs))
    = map (chunk_msg lb j (job_chunks j)) [Suc s..<Suc (sent_at (job_chunks j) a)] @
      (if a = length (job_chunks j) then [stream_reply j (u32_of (length (job_chunks j)))] else [])"
proof -
  define t where "t = sent_at (job_chunks j) a"
  have t: "s \<le> t" "t \<le> length (job_chunks j)" using s by (simp_all add: t_def sent_at_def)
  note sl = answers_slice [OF t, of logs lb]
  show ?thesis
  proof (cases "a = length (job_chunks j)")
    case True
    then have tn: "t = length (job_chunks j)" by (simp add: t_def sent_at_def)
    then have "take (Suc (Suc (length logs + t))) (answers lb j logs)
      = take (Suc (length logs + t)) (answers lb j logs) @ [stream_reply j (u32_of t)]"
      by (subst take_Suc_conv_app_nth) (simp_all add: length_answers answers_nth)
    moreover have "emitted j logs a = Suc (Suc (length logs + t))"
      using True by (simp add: emitted_def t_def)
    moreover have "drop (Suc (length logs + s)) (take (Suc (length logs + t)) (answers lb j logs) @ [r])
      = drop (Suc (length logs + s)) (take (Suc (length logs + t)) (answers lb j logs)) @ [r]" for r
      using t(1) tn by (simp add: length_answers)
    ultimately have "drop (Suc (length logs + s)) (take (emitted j logs a) (answers lb j logs))
      = map (chunk_msg lb j (job_chunks j)) [Suc s..<Suc t] @ [stream_reply j (u32_of t)]"
      by (simp only: sl)
    then show ?thesis unfolding t_def [symmetric] using True tn by (simp del: upt_Suc)
  next
    case False
    then have "emitted j logs a = Suc (length logs + t)" by (simp add: emitted_def t_def)
    then show ?thesis unfolding t_def [symmetric] using False sl by (simp del: upt_Suc)
  qed
qed

lemma turn_at:
  assumes ok: "job_ok lb j logs v" and a: "a \<le> s" "s \<le> sent_at (job_chunks j) a"
  shows "stream_turn lb j (u32_of s) (u32_of a) (drop s (job_chunks j))
    = (agent_at j a, drop (Suc (length logs + s)) (take (emitted j logs a) (answers lb j logs)))"
proof -
  define t where "t = sent_at (job_chunks j) a"
  have n: "length (job_chunks j) < 2 ^ 31" using job_bytes(3) [OF ok] .
  have t: "t \<le> length (job_chunks j)" "a \<le> length (job_chunks j)" "a \<le> t"
    using a by (simp_all add: t_def sent_at_def)
  have "u32_of a = u32_of t \<longleftrightarrow> unat (u32_of a) = unat (u32_of t)" by (simp add: word_unat_eq_iff)
  then have e: "u32_of a = u32_of t \<longleftrightarrow> a = length (job_chunks j)"
    and tn: "a = length (job_chunks j) \<Longrightarrow> t = length (job_chunks j)"
    using n t by (auto simp: unat_u32 t_def sent_at_def)
  have "fill_window lb j (u32_of a) (u32_of s) (drop s (job_chunks j))
    = (u32_of t, drop t (job_chunks j), map (chunk_msg lb j (job_chunks j)) [Suc s..<Suc t])"
    unfolding t_def using n a by (intro fill_window_at) simp_all
  then show ?thesis
    using e tn emitted_slice [OF t(2) a(2), of logs lb]
    by (simp add: stream_turn_def agent_at_def t_def [symmetric] del: upt_Suc)
qed

lemma start_at:
  assumes ok: "job_ok lb j logs v"
  shows "exchange_start lb j logs = exchange_at lb j logs v 0 0"
proof -
  define e where "e = emitted j logs 0"
  have le: "Suc (length logs) \<le> e" by (simp add: e_def emitted_def)
  have t: "stream_turn lb j 0 0 (job_chunks j)
    = (agent_at j 0, drop (Suc (length logs)) (take e (answers lb j logs)))"
    using turn_at [OF ok, of 0 0] by (simp add: e_def)
  have "take (Suc (length logs)) (take e (answers lb j logs))
    = map (CommandLog (sj_id j)) logs @ [Begin (sj_id j) (sj_stream j) (sj_snapshot j)]"
    using le by (simp add: answers_def min_absorb1 del: upt_Suc)
  then have "take e (answers lb j logs)
    = map (CommandLog (sj_id j)) logs @ [Begin (sj_id j) (sj_stream j) (sj_snapshot j)] @
      drop (Suc (length logs)) (take e (answers lb j logs))"
    by (metis append.assoc append_take_drop_id)
  then show ?thesis
    by (simp add: exchange_start_def stream_begin_def t [unfolded job_chunks_def] exchange_at_def
        e_def [symmetric] got_def client_at_def client_start_def)
qed

lemma agent_acks:
  assumes ok: "job_ok lb j logs v" and a: "a < length (job_chunks j)"
  shows "stream_receive lb j (ack_msg j (Suc a)) (u32_of (sent_at (job_chunks j) a)) (u32_of a)
      (drop (sent_at (job_chunks j) a) (job_chunks j))
    = (agent_at j (Suc a), drop (emitted j logs a) (take (emitted j logs (Suc a)) (answers lb j logs)))"
  using turn_at [OF ok, of "Suc a" "sent_at (job_chunks j) a"] a
  by (simp add: stream_receive_def ack_msg_def emitted_def sent_at_def add.commute [of "1 :: u32"])

section \<open>The steps are the steps of the counters\<close>

lemma got_mono: "c \<le> c' \<Longrightarrow> got j logs c \<le> got j logs c'"
  by (auto simp: got_def)

lemma got_le: "got j logs c \<le> length (job_chunks j)"
  by (simp add: got_def)

lemma emitted_mono: "a \<le> a' \<Longrightarrow> a' \<le> length (job_chunks j) \<Longrightarrow> emitted j logs a \<le> emitted j logs a'"
  by (auto simp: emitted_def sent_at_def)

lemma emitted_le: "emitted j logs a \<le> length (answers lb j logs)"
  by (auto simp: emitted_def sent_at_def length_answers)

lemma drop_take_Cons:
  assumes "e \<le> length xs"
  shows "drop c (take e xs) = m # ms \<longleftrightarrow> c < e \<and> m = xs ! c \<and> ms = drop (Suc c) (take e xs)"
proof (cases "c < e")
  case True
  then have "drop c (take e xs) = take e xs ! c # drop (Suc c) (take e xs)"
    using assms by (subst Cons_nth_drop_Suc) simp_all
  then show ?thesis using True by auto
qed simp

lemma acks_append:
  "a \<le> g \<Longrightarrow> g \<le> g' \<Longrightarrow>
   map (ack_msg j) [Suc a..<Suc g] @ map (ack_msg j) [Suc g..<Suc g'] = map (ack_msg j) [Suc a..<Suc g']"
  using upt_add_eq_append [of "Suc a" "Suc g" "g' - g"]
  by (simp del: upt_Suc flip: map_append)

lemma acks_Cons:
  "map (ack_msg j) [Suc a..<Suc g] = m # ms \<longleftrightarrow>
   a < g \<and> m = ack_msg j (Suc a) \<and> ms = map (ack_msg j) [Suc (Suc a)..<Suc g]"
  by (cases "a < g") (auto simp: upt_conv_Cons simp del: upt_Suc)

lemma at_simps:
  "ex_agent (exchange_at lb j logs v c a) = agent_at j a"
  "ex_down (exchange_at lb j logs v c a) = drop c (take (emitted j logs a) (answers lb j logs))"
  "ex_client (exchange_at lb j logs v c a)
    = client_at j logs (min c (Suc (length logs) + length (job_chunks j)))"
  "ex_result (exchange_at lb j logs v c a)
    = (if Suc (length logs) + length (job_chunks j) < c then Some (streamed j v) else None)"
  "ex_up (exchange_at lb j logs v c a) = map (ack_msg j) [Suc a..<Suc (got j logs c)]"
  by (simp_all add: exchange_at_def Let_def)

lemma client_next:
  assumes ok: "job_ok lb j logs v" and cnt: "counters_ok j logs c a"
    and c: "c < Suc (length logs) + length (job_chunks j)"
  shows "exchange_at lb j logs v (Suc c) a
    = (exchange_at lb j logs v c a)
        \<lparr>ex_down := drop (Suc c) (take (emitted j logs a) (answers lb j logs)),
         ex_client := client_at j logs (Suc c),
         ex_up := ex_up (exchange_at lb j logs v c a) @
           map (ack_msg j) [Suc (got j logs c)..<Suc (got j logs (Suc c))]\<rparr>"
proof -
  have "map (ack_msg j) [Suc a..<Suc (got j logs c)] @
      map (ack_msg j) [Suc (got j logs c)..<Suc (got j logs (Suc c))]
    = map (ack_msg j) [Suc a..<Suc (got j logs (Suc c))]"
    using cnt got_mono [of c "Suc c" j logs] by (intro acks_append) (simp_all add: counters_ok_def)
  then show ?thesis using c by (simp add: exchange_at_def Let_def del: upt_Suc)
qed

lemma client_last:
  assumes c: "c = Suc (length logs) + length (job_chunks j)"
  shows "exchange_at lb j logs v (Suc c) a
    = (exchange_at lb j logs v c a)
        \<lparr>ex_down := drop (Suc c) (take (emitted j logs a) (answers lb j logs)),
         ex_result := Some (streamed j v)\<rparr>"
  using c by (simp add: exchange_at_def Let_def got_def del: upt_Suc)

lemma agent_next:
  assumes cnt: "counters_ok j logs c a" and a: "a < got j logs c"
  shows "exchange_at lb j logs v c (Suc a)
    = (exchange_at lb j logs v c a)
        \<lparr>ex_agent := agent_at j (Suc a),
         ex_down := ex_down (exchange_at lb j logs v c a) @
           drop (emitted j logs a) (take (emitted j logs (Suc a)) (answers lb j logs)),
         ex_up := map (ack_msg j) [Suc (Suc a)..<Suc (got j logs c)]\<rparr>"
proof -
  define es where "es = emitted j logs"
  have le: "c \<le> es a" using cnt by (simp add: counters_ok_def es_def)
  have "es a \<le> es (Suc a)"
    using a got_le [of j logs c] by (simp add: es_def emitted_mono)
  then obtain d where d: "es (Suc a) = es a + d" by (auto simp: le_iff_add)
  have "drop c (take (es a) xs) @ drop (es a) (take (es (Suc a)) xs) = drop c (take (es (Suc a)) xs)"
    if "es a \<le> length xs" for xs :: "wire_message list"
    using le that by (simp add: d take_add)
  from this [OF emitted_le [of j logs a lb, folded es_def]] show ?thesis
    by (simp add: exchange_at_def Let_def es_def del: upt_Suc)
qed

lemma step_at:
  assumes ok: "job_ok lb j logs v" and cnt: "counters_ok j logs c a"
  shows "exchange_step lb j (exchange_at lb j logs v c a) y \<longleftrightarrow>
    (c < emitted j logs a \<and> y = exchange_at lb j logs v (Suc c) a) \<or>
    (a < got j logs c \<and> y = exchange_at lb j logs v c (Suc a))"
proof
  assume "exchange_step lb j (exchange_at lb j logs v c a) y"
  then show "(c < emitted j logs a \<and> y = exchange_at lb j logs v (Suc c) a) \<or>
    (a < got j logs c \<and> y = exchange_at lb j logs v c (Suc a))"
  proof (cases rule: exchange_cases)
    case (client_goes_on m ms c' out)
    then have m: "c < emitted j logs a" "m = answers lb j logs ! c"
        "ms = drop (Suc c) (take (emitted j logs a) (answers lb j logs))"
      and l: "c \<le> Suc (length logs) + length (job_chunks j)"
      by (auto simp: at_simps drop_take_Cons [OF emitted_le] split: if_splits)
    have n: "c \<noteq> Suc (length logs) + length (job_chunks j)"
      using client_goes_on(4) client_finishes [OF ok, of c] m by (auto simp: at_simps)
    then have lt: "c < Suc (length logs) + length (job_chunks j)" using l by simp
    with client_goes_on(4) client_continues [OF ok lt] m
    have "c' = client_at j logs (Suc c)"
      "out = map (ack_msg j) [Suc (got j logs c)..<Suc (got j logs (Suc c))]"
      by (auto simp: at_simps simp del: upt_Suc)
    then show ?thesis using client_next [OF ok cnt lt] m client_goes_on(1) by simp
  next
    case (client_returns m ms r)
    then have m: "c < emitted j logs a" "m = answers lb j logs ! c"
        "ms = drop (Suc c) (take (emitted j logs a) (answers lb j logs))"
      and l: "c \<le> Suc (length logs) + length (job_chunks j)"
      by (auto simp: at_simps drop_take_Cons [OF emitted_le] split: if_splits)
    have e: "c = Suc (length logs) + length (job_chunks j)"
    proof (rule ccontr)
      assume "c \<noteq> Suc (length logs) + length (job_chunks j)"
      then have "c < Suc (length logs) + length (job_chunks j)" using l by simp
      from client_continues [OF ok this] client_returns(4) m this show False by (simp add: at_simps)
    qed
    have "r = streamed j v"
      using client_finishes [OF ok e] client_returns(4) m by (simp add: at_simps e)
    then show ?thesis using client_last [OF e] m client_returns(1) by simp
  next
    case (agent_receives s a' cs m ms p out)
    then have m: "a < got j logs c" "m = ack_msg j (Suc a)"
        "ms = map (ack_msg j) [Suc (Suc a)..<Suc (got j logs c)]"
      by (simp_all add: at_simps acks_Cons del: upt_Suc)
    then have lt: "a < length (job_chunks j)" using got_le [of j logs c] by simp
    have s: "s = u32_of (sent_at (job_chunks j) a)" "a' = u32_of a"
        "cs = drop (sent_at (job_chunks j) a) (job_chunks j)"
      using agent_receives(2) lt by (simp_all add: at_simps agent_at_def)
    have "(p, out) = (agent_at j (Suc a),
        drop (emitted j logs a) (take (emitted j logs (Suc a)) (answers lb j logs)))"
      using agent_receives(4) agent_acks [OF ok lt] by (simp add: m(2) s)
    then show ?thesis using agent_next [OF cnt m(1)] m agent_receives(1) by simp
  qed
next
  assume "(c < emitted j logs a \<and> y = exchange_at lb j logs v (Suc c) a) \<or>
    (a < got j logs c \<and> y = exchange_at lb j logs v c (Suc a))"
  then show "exchange_step lb j (exchange_at lb j logs v c a) y"
  proof (elim disjE conjE)
    assume m: "c < emitted j logs a" and y: "y = exchange_at lb j logs v (Suc c) a"
    have d: "ex_down (exchange_at lb j logs v c a)
      = answers lb j logs ! c # drop (Suc c) (take (emitted j logs a) (answers lb j logs))"
      using m by (simp add: at_simps drop_take_Cons [OF emitted_le])
    have "c \<le> Suc (length logs) + length (job_chunks j)"
      using m emitted_le [of j logs a lb] by (simp add: length_answers)
    then consider (go) "c < Suc (length logs) + length (job_chunks j)"
      | (fin) "c = Suc (length logs) + length (job_chunks j)" by linarith
    then show ?thesis
    proof cases
      case go
      show ?thesis
        unfolding y client_next [OF ok cnt go]
        by (rule client_goes_on) (use go d client_continues [OF ok go] in \<open>simp_all add: at_simps\<close>)
    next
      case fin
      show ?thesis
        unfolding y client_last [OF fin]
        by (rule client_returns) (use fin d client_finishes [OF ok fin] in \<open>simp_all add: at_simps\<close>)
    qed
  next
    assume m: "a < got j logs c" and y: "y = exchange_at lb j logs v c (Suc a)"
    have lt: "a < length (job_chunks j)" using m got_le [of j logs c] by simp
    show ?thesis
      unfolding y agent_next [OF cnt m]
      by (rule agent_receives [where m = "ack_msg j (Suc a)"])
        (use m lt agent_acks [OF ok lt] in \<open>simp_all add: at_simps agent_at_def acks_Cons del: upt_Suc\<close>)
  qed
qed

lemma run_at:
  assumes ok: "job_ok lb j logs v"
  shows "(exchange_step lb j ^^ n) (exchange_start lb j logs) y \<Longrightarrow>
    \<exists>c a. y = exchange_at lb j logs v c a \<and> counters_ok j logs c a \<and> n = c + a"
proof (induction n arbitrary: y)
  case 0
  then have "y = exchange_at lb j logs v 0 0" using start_at [OF ok] by simp
  moreover have "counters_ok j logs 0 0" by (simp add: counters_ok_def)
  ultimately show ?case by (intro exI [of _ 0]) simp
next
  case (Suc n)
  then obtain x where "(exchange_step lb j ^^ n) (exchange_start lb j logs) x"
    and st: "exchange_step lb j x y" by auto
  with Suc.IH obtain c a where x: "x = exchange_at lb j logs v c a" and cnt: "counters_ok j logs c a"
    and n: "n = c + a" by blast
  have le: "a \<le> got j logs c" "got j logs c \<le> length (job_chunks j)"
    using cnt got_le by (simp_all add: counters_ok_def)
  from st [unfolded x step_at [OF ok cnt]] show ?case
  proof (elim disjE conjE)
    assume "c < emitted j logs a" "y = exchange_at lb j logs v (Suc c) a"
    moreover from this have "counters_ok j logs (Suc c) a"
      using le got_mono [of c "Suc c" j logs] by (simp add: counters_ok_def)
    ultimately show ?thesis using n by (intro exI [of _ "Suc c"] exI [of _ a]) simp
  next
    assume "a < got j logs c" "y = exchange_at lb j logs v c (Suc a)"
    moreover from this have "counters_ok j logs c (Suc a)"
      using cnt le emitted_mono [of a "Suc a" j logs] by (simp add: counters_ok_def)
    ultimately show ?thesis using n by (intro exI [of _ c] exI [of _ "Suc a"]) simp
  qed
qed

text \<open>Every run of the exchange is bounded, and ends with the value delivered to the desktop.\<close>

definition delivers :: "wire_lib \<Rightarrow> stream_job \<Rightarrow> command_log list \<Rightarrow> json \<Rightarrow> bool" where
  "delivers lb j logs v \<longleftrightarrow>
     (\<forall>n y. (exchange_step lb j ^^ n) (exchange_start lb j logs) y \<longrightarrow>
        n \<le> length logs + 2 * length (job_chunks j) + 2 \<and>
        ((\<exists>z. exchange_step lb j y z) \<or>
         ex_result y = Some (streamed j v) \<and> ex_agent y = Finished \<and> ex_down y = [] \<and> ex_up y = []) \<and>
        (ex_result y = None \<or> ex_result y = Some (streamed j v)))"

lemma run_delivers:
  assumes "job_ok lb j logs v" and "(exchange_step lb j ^^ n) (exchange_start lb j logs) y"
  shows "n \<le> length logs + 2 * length (job_chunks j) + 2 \<and>
    ((\<exists>z. exchange_step lb j y z) \<or>
     ex_result y = Some (streamed j v) \<and> ex_agent y = Finished \<and> ex_down y = [] \<and> ex_up y = []) \<and>
    (ex_result y = None \<or> ex_result y = Some (streamed j v))"
proof -
  obtain c a where y: "y = exchange_at lb j logs v c a" and cnt: "counters_ok j logs c a"
    and n: "n = c + a" using run_at [OF assms] by blast
  have le: "c \<le> emitted j logs a" "a \<le> got j logs c" "got j logs c \<le> length (job_chunks j)"
    using cnt got_le by (simp_all add: counters_ok_def)
  have "n \<le> length logs + 2 * length (job_chunks j) + 2"
    using le emitted_le [of j logs a lb] n by (simp add: length_answers)
  moreover have "ex_result y = Some (streamed j v) \<and> ex_agent y = Finished \<and> ex_down y = [] \<and>
    ex_up y = []" if "\<nexists>z. exchange_step lb j y z"
  proof -
    from that have "\<not> c < emitted j logs a" "\<not> a < got j logs c"
      unfolding y step_at [OF assms(1) cnt] by blast+
    then have c: "c = emitted j logs a" and a: "a = got j logs c" using le by simp_all
    have aN: "a = length (job_chunks j)"
    proof (rule ccontr)
      assume "a \<noteq> length (job_chunks j)"
      then have "got j logs c = sent_at (job_chunks j) a" "a < sent_at (job_chunks j) a"
        using c le by (auto simp: got_def emitted_def sent_at_def)
      then show False using a by simp
    qed
    then have cN: "c = length logs + length (job_chunks j) + 2"
      using c by (simp add: emitted_def sent_at_def)
    show ?thesis by (simp add: y aN cN at_simps agent_at_def length_answers got_def)
  qed
  moreover have "ex_result y = None \<or> ex_result y = Some (streamed j v)" by (simp add: y at_simps)
  ultimately show ?thesis by blast
qed

lemma job_delivers: "job_ok lb j logs v \<Longrightarrow> delivers lb j logs v"
  unfolding delivers_def using run_delivers by blast

text \<open>
  C18: A streamed request always completes: with the agent and the desktop taking turns in any order,
  no run is longer than a fixed bound, a state in which neither side can move has the full answer
  delivered with both queues empty, and the desktop never returns anything but the value the agent
  encoded.
\<close>

theorem stream_delivers:
  assumes "job_ok lb j logs v" and "(exchange_step lb j ^^ n) (exchange_start lb j logs) y"
  shows "n \<le> length logs + 2 * length (job_chunks j) + 2 \<and>
    ((\<exists>z. exchange_step lb j y z) \<or>
     ex_result y = Some (streamed j v) \<and> ex_agent y = Finished \<and> ex_down y = [] \<and> ex_up y = []) \<and>
    (ex_result y = None \<or> ex_result y = Some (streamed j v))"
  using assms by (rule run_delivers)

text \<open>The messages of a queue that carry diff data.\<close>

fun is_chunk :: "wire_message \<Rightarrow> bool" where
  "is_chunk (Chunk i st q b) = True"
| "is_chunk _ = False"

lemma chunks_of_answers:
  assumes "a \<le> length (job_chunks j)" "got j logs c \<le> sent_at (job_chunks j) a"
  shows "length (filter is_chunk (drop c (take (emitted j logs a) (answers lb j logs))))
    \<le> sent_at (job_chunks j) a - got j logs c"
proof -
  define A where "A = take (emitted j logs a) (answers lb j logs)"
  have sl: "length (filter is_chunk (drop (Suc (length logs + s)) A)) = sent_at (job_chunks j) a - s"
    if "s \<le> sent_at (job_chunks j) a" for s
    using emitted_slice [OF assms(1) that, of logs lb]
    by (simp add: A_def filter_map comp_def chunk_msg_def stream_reply_def success_def del: upt_Suc)
  show ?thesis
  proof (cases "Suc (length logs) \<le> c")
    case True
    then have "Suc (length logs + got j logs c) \<le> c" by (simp add: got_def)
    then obtain d where "c = d + Suc (length logs + got j logs c)" by (metis le_iff_add add.commute)
    then have "drop c A = drop d (drop (Suc (length logs + got j logs c)) A)" by (metis drop_drop)
    moreover have "length (filter is_chunk (drop d xs)) \<le> length (filter is_chunk xs)" for xs
      by (metis append_take_drop_id filter_append length_append le_add2)
    ultimately have "length (filter is_chunk (drop c A))
      \<le> length (filter is_chunk (drop (Suc (length logs + got j logs c)) A))" by metis
    then show ?thesis using sl [OF assms(2)] by (simp add: A_def [symmetric])
  next
    case False
    then have g: "got j logs c = 0" by (simp add: got_def)
    have "take (Suc (length logs)) A
      = map (CommandLog (sj_id j)) logs @ [Begin (sj_id j) (sj_stream j) (sj_snapshot j)]"
      by (simp add: A_def emitted_def answers_def del: upt_Suc)
    then have "filter is_chunk (take (Suc (length logs)) A) = []" by (simp add: filter_map comp_def)
    then have "filter is_chunk A = filter is_chunk (drop (Suc (length logs)) A)"
      by (metis append_Nil append_take_drop_id filter_append)
    moreover have "length (filter is_chunk (drop c A)) \<le> length (filter is_chunk A)"
      by (metis append_take_drop_id filter_append length_append le_add2)
    ultimately show ?thesis using sl [of 0] g by (simp add: A_def [symmetric])
  qed
qed

text \<open>
  The window holds: at every moment the chunks still on their way and the acknowledgements not
  yet read by the agent are together at most eight, so the data in flight is at most 512 KiB and the
  reverse queue at most eight acknowledgements.
\<close>

lemma stream_window:
  assumes "job_ok lb j logs v" and "(exchange_step lb j)\<^sup>*\<^sup>* (exchange_start lb j logs) y"
  shows "length (filter is_chunk (ex_down y)) + length (ex_up y) \<le> unat STREAM_WINDOW"
proof -
  obtain n where "(exchange_step lb j ^^ n) (exchange_start lb j logs) y"
    using rtranclp_imp_relpowp [OF assms(2)] by blast
  with run_at [OF assms(1)] obtain c a where y: "y = exchange_at lb j logs v c a"
    and cnt: "counters_ok j logs c a" by blast
  have le: "c \<le> emitted j logs a" "a \<le> got j logs c" "got j logs c \<le> length (job_chunks j)"
    using cnt got_le by (simp_all add: counters_ok_def)
  then have g: "got j logs c \<le> sent_at (job_chunks j) a"
    by (auto simp: got_def emitted_def sent_at_def split: if_splits)
  have "length (filter is_chunk (ex_down y)) \<le> sent_at (job_chunks j) a - got j logs c"
    using chunks_of_answers [OF _ g] le by (simp add: y at_simps)
  moreover have "length (ex_up y) = got j logs c - a" by (simp add: y at_simps del: upt_Suc)
  moreover have "sent_at (job_chunks j) a \<le> a + 8" by (simp add: sent_at_def)
  moreover have "unat STREAM_WINDOW = 8" by (simp add: STREAM_WINDOW_def)
  ultimately show ?thesis using le g by linarith
qed

section \<open>Any agent\<close>

text \<open>The decoded data of a list of answers, and the numbers of its chunks.\<close>

fun chunk_data :: "wire_lib \<Rightarrow> wire_message \<Rightarrow> bytes" where
  "chunk_data lb (Chunk i st q b) = (case wl_unb64 lb b of Some d \<Rightarrow> d | None \<Rightarrow> [])"
| "chunk_data lb _ = []"

fun chunk_seq :: "wire_message \<Rightarrow> u32 list" where
  "chunk_seq (Chunk i st q b) = [q]"
| "chunk_seq _ = []"

definition next_seqs :: "u32 \<Rightarrow> u32 list \<Rightarrow> bool" where
  "next_seqs q qs \<longleftrightarrow> qs = map (\<lambda>k. q + of_nat k) [1..<Suc (length qs)]"

lemma next_seqs_simps:
  "next_seqs q []"
  "next_seqs (q + 1) qs \<Longrightarrow> next_seqs q ((q + 1) # qs)"
proof -
  assume a: "next_seqs (q + 1) qs"
  have "map (\<lambda>k. q + of_nat k) [Suc 0..<Suc (Suc (length qs))]
    = map (\<lambda>k. q + of_nat k) (Suc 0 # [Suc (Suc 0)..<Suc (Suc (length qs))])"
    by (simp only: upt_conv_Cons)
  also have "\<dots> = (q + 1) # map (\<lambda>k. q + 1 + of_nat k) [Suc 0..<Suc (length qs)]"
    by (simp add: map_Suc_upt [symmetric] comp_def add.assoc del: upt_Suc)
  finally show "next_seqs q ((q + 1) # qs)"
    using a by (simp add: next_seqs_def del: upt_Suc)
qed (simp add: next_seqs_def)

text \<open>One accepted answer.\<close>

lemma client_step_Continue:
  assumes "client_step lb i e m c = Continue c' out" and "length (cs_data c) \<le> MAX_DIFF"
  shows "cs_data c' = cs_data c @ chunk_data lb m" and "length (cs_data c') \<le> MAX_DIFF"
    and "map (Ack (the (cs_stream c'))) (chunk_seq m) = out"
    and "chunk_seq m = [] \<and> cs_last c' = cs_last c \<or>
      chunk_seq m = [cs_last c + 1] \<and> cs_last c' = cs_last c + 1"
    and "cs_stream c' = cs_stream c \<or>
      cs_stream c = None \<and> (\<exists>st sn. m = Begin i st sn \<and> e = Some sn \<and> cs_stream c' = Some st)"
    and "cs_stream c = None \<Longrightarrow> out = []"
  using assms
  by (auto simp: client_step_def accept_log_def accept_chunk_def
      split: wire_message.splits if_splits option.splits)

lemma client_loop_Inr:
  assumes "client_loop lb i (Some sn) ms c = (out, Some (Inr w))" and "length (cs_data c) \<le> MAX_DIFF"
  shows "\<exists>p r v d st. ms = p @ Response i (Some v) None # r \<and>
    w = JObj [(''snapshot'', JStr sn), (''diff'', d)] \<and>
    decode_value lb (cs_data c @ concat (map (chunk_data lb) p)) = Some d \<and>
    length (cs_data c @ concat (map (chunk_data lb) p)) \<le> MAX_DIFF \<and>
    next_seqs (cs_last c) (concat (map chunk_seq p)) \<and>
    (cs_stream c = Some st \<or> cs_stream c = None \<and> Begin i st sn \<in> set p) \<and>
    out = map (Ack st) (concat (map chunk_seq p))"
  using assms
proof (induction ms arbitrary: c out)
  case Nil
  then show ?case by simp
next
  case (Cons m ms)
  show ?case
  proof (cases "client_step lb i (Some sn) m c")
    case (Return r)
    then have r: "r = Inr w" "out = []" using Cons.prems(1) by simp_all
    with Return obtain v where m: "m = Response i (Some v) None"
      and "accept_result lb (Some sn) v c = Inr w"
      by (auto simp: client_step_def accept_log_def accept_chunk_def
          split: wire_message.splits if_splits option.splits)
    then obtain st d where "cs_stream c = Some st" "decode_value lb (cs_data c) = Some d"
      "w = JObj [(''snapshot'', JStr sn), (''diff'', d)]"
      by (auto simp: accept_result_def jopt_def result_simps split: if_splits)
    then show ?thesis
      using m r Cons.prems(2)
      by (intro exI [of _ "[]"] exI [of _ ms] exI [of _ v] exI [of _ d] exI [of _ st])
        (simp add: next_seqs_simps)
  next
    case (Continue c' o1)
    obtain o2 where rec: "client_loop lb i (Some sn) ms c' = (o2, Some (Inr w))" and o2: "out = o1 @ o2"
      using Cons.prems(1) Continue by (auto split: prod.splits)
    note st = client_step_Continue [OF Continue Cons.prems(2)]
    obtain p r v d st where ms: "ms = p @ Response i (Some v) None # r"
      and w: "w = JObj [(''snapshot'', JStr sn), (''diff'', d)]"
      and d: "decode_value lb (cs_data c' @ concat (map (chunk_data lb) p)) = Some d"
        "length (cs_data c' @ concat (map (chunk_data lb) p)) \<le> MAX_DIFF"
      and q: "next_seqs (cs_last c') (concat (map chunk_seq p))"
      and sid: "cs_stream c' = Some st \<or> cs_stream c' = None \<and> Begin i st sn \<in> set p"
      and o3: "o2 = map (Ack st) (concat (map chunk_seq p))"
      using Cons.IH [OF rec st(2)] by blast
    have "o1 = map (Ack st) (chunk_seq m)"
    proof (cases "cs_stream c' = None")
      case True
      then have "o1 = []" using st(5,6) by auto
      then show ?thesis using st(3) by auto
    qed (use st(3) sid in auto)
    moreover have "next_seqs (cs_last c) (chunk_seq m @ concat (map chunk_seq p))"
      using st(4) q next_seqs_simps(2) [of "cs_last c"] by auto
    moreover have "cs_stream c = Some st \<or> cs_stream c = None \<and> Begin i st sn \<in> set (m # p)"
      using st(5) sid by auto
    ultimately show ?thesis
      using ms w d st(1) o3 o2
      by (intro exI [of _ "m # p"] exI [of _ r] exI [of _ v] exI [of _ d] exI [of _ st])
        (simp add: append_assoc)
  qed
qed


section \<open>Witnesses\<close>

definition sample_job :: stream_job where
  "sample_job = \<lparr>sj_id = ''r'', sj_stream = ''s'', sj_snapshot = ''snap'', sj_bytes = ''n''\<rparr>"

lemma sample_decodes: "decode_value sample_wire ''n'' = Some JNull"
  by (simp add: decode_value_def deserialize_def sample_wire_def MAX_DIFF_def body_in.simps)

lemma sample_job_ok: "job_ok sample_wire sample_job [] JNull"
proof -
  have "wl_print sample_wire MNil = ''n''" by (simp add: sample_wire_def)
  then show ?thesis
    by (simp add: job_ok_def sample_wire_ok encode_value_def body_out.simps serialize_def
        MAX_DIFF_def sample_job_def)
qed

lemma sample_chunks: "job_chunks sample_job = [''n'']"
  by (simp add: job_chunks_def sample_job_def CHUNK_SIZE_def chunks_of.simps)

text \<open>The whole run of a job of one chunk: three answers and one acknowledgement.\<close>

lemma sample_stream_run:
  "(exchange_step sample_wire sample_job ^^ 4) (exchange_start sample_wire sample_job [])
     (exchange_at sample_wire sample_job [] JNull 3 1)"
proof -
  have st: "exchange_step sample_wire sample_job
      (exchange_at sample_wire sample_job [] JNull c a) (exchange_at sample_wire sample_job [] JNull c' a')"
    if "counters_ok sample_job [] c a"
      "c < emitted sample_job [] a \<and> c' = Suc c \<and> a' = a \<or> a < got sample_job [] c \<and> c' = c \<and> a' = Suc a"
    for c a c' a'
    using that step_at [OF sample_job_ok that(1)] by blast
  note ev = counters_ok_def emitted_def got_def sample_chunks sent_at_def
  have "exchange_step sample_wire sample_job
      (exchange_start sample_wire sample_job []) (exchange_at sample_wire sample_job [] JNull 1 0)"
    unfolding start_at [OF sample_job_ok] by (rule st) (simp_all add: ev)
  moreover have "exchange_step sample_wire sample_job
      (exchange_at sample_wire sample_job [] JNull 1 0) (exchange_at sample_wire sample_job [] JNull 2 0)"
    by (rule st) (simp_all add: ev)
  moreover have "exchange_step sample_wire sample_job
      (exchange_at sample_wire sample_job [] JNull 2 0) (exchange_at sample_wire sample_job [] JNull 2 1)"
    by (rule st) (simp_all add: ev)
  moreover have "exchange_step sample_wire sample_job
      (exchange_at sample_wire sample_job [] JNull 2 1) (exchange_at sample_wire sample_job [] JNull 3 1)"
    by (rule st) (simp_all add: ev)
  ultimately show ?thesis by (auto simp: eval_nat_numeral)
qed

theorem stream_delivers_witness:
  "ex_result (exchange_at sample_wire sample_job [] JNull 3 1) = Some (streamed sample_job JNull)"
  using stream_delivers [OF sample_job_ok sample_stream_run] by (simp add: at_simps sample_chunks)

lemma stream_window_witness:
  "length (filter is_chunk (ex_down (exchange_start sample_wire sample_job []))) +
     length (ex_up (exchange_start sample_wire sample_job [])) \<le> unat STREAM_WINDOW"
  by (rule stream_window [OF sample_job_ok rtranclp.rtrancl_refl])

definition sample_answers :: "wire_message list" where
  "sample_answers = [Begin ''r'' ''s'' ''snap'', Chunk ''r'' ''s'' 1 ''n'',
     success ''r'' (JObj [(''lastSeq'', JNum 1), (''bytes'', JNum 1)])]"

lemma sample_loop:
  "client_loop sample_wire ''r'' (Some ''snap'') sample_answers client_start
     = ([Ack ''s'' 1], Some (Inr (JObj [(''snapshot'', JStr ''snap''), (''diff'', JNull)])))"
proof -
  have b: "wl_unb64 sample_wire b = Some b" for b by (simp add: sample_wire_def)
  show ?thesis
    by (simp add: sample_answers_def success_def client_step_def client_start_def accept_chunk_def
        accept_result_def b sample_decodes as_u64_def jopt_def CHUNK_SIZE_def MAX_DIFF_def)
qed


end
