(* ===== verification/Clipboard.thy ===== *)
theory Clipboard
  imports Wire
begin

text \<open>
  The clipboard messages of the integration agent (\<open>clipboard_wire.rs\<close>, the framing of \<open>wire.rs\<close> and
  the bounded decoder of \<open>serialization.rs\<close>) and the agent's cache of clipboard reads
  (\<open>demand.rs\<close>). MessagePack is the parameter \<open>wire_lib\<close> of the Git channel, zlib (\<open>flate2\<close>) is
  \<open>zlib\<close>. An \<open>Instant\<close> is a number of milliseconds. Errors are \<open>io::Error\<close>s whose text nobody
  inspects: \<open>None\<close> here, except those a reader of the cache gets.
\<close>

section \<open>Bounded decoding and frames\<close>

definition bounded_decode :: "wire_lib \<Rightarrow> nat \<Rightarrow> (msgpack \<Rightarrow> 'a option) \<Rightarrow> bytes \<Rightarrow> 'a option" where
  "bounded_decode lb limit f b =
     (if limit < length b then None
      else case wl_parse lb b of
        Some (v, rest) \<Rightarrow> if rest = [] then f v else None
      | None \<Rightarrow> None)"

definition AGENT_FRAME :: nat where "AGENT_FRAME = 33 * 1024 * 1024"
definition OVERHEAD :: nat where "OVERHEAD = 16"

definition byte_in :: "msgpack \<Rightarrow> u8 option" where
  "byte_in = word_in"

definition i64_in :: "msgpack \<Rightarrow> int option" where
  "i64_in m = (case m of
     MInt n \<Rightarrow> if - (2 ^ 63) \<le> n \<and> n < 2 ^ 63 then Some n else None | _ \<Rightarrow> None)"

definition agent_encode :: "wire_lib \<Rightarrow> u8 \<Rightarrow> bytes \<Rightarrow> bytes option" where
  "agent_encode lb kind d =
     (if AGENT_FRAME < length d then None
      else
        (let p = wl_print lb (MArr [word_out kind, MBin d]) in
         Some (''M'' @ be32 (length p) @ p)))"

definition agent_payload_length :: "bytes \<Rightarrow> nat \<Rightarrow> nat option" where
  "agent_payload_length header limit =
     (let n = unbe32 (drop 1 header) in
      if take 1 header \<noteq> ''M'' then None
      else if n = 0 \<or> min limit AGENT_FRAME + OVERHEAD < n then None else Some n)"

definition agent_decode :: "wire_lib \<Rightarrow> nat \<Rightarrow> bytes \<Rightarrow> (u8 \<times> bytes) option" where
  "agent_decode lb limit b =
     Option.bind
       (bounded_decode lb (min limit AGENT_FRAME + OVERHEAD)
          (\<lambda>m. case m of
             MArr [k, d] \<Rightarrow> Option.bind (byte_in k) (\<lambda>k. map_option (\<lambda>d. (k, d)) (wl_blob lb d))
           | _ \<Rightarrow> None) b)
       (\<lambda>(k, d). if min limit AGENT_FRAME < length d then None else Some (k, d))"

definition agent_read :: "wire_lib \<Rightarrow> nat \<Rightarrow> bytes \<Rightarrow> ((u8 \<times> bytes) \<times> bytes) option" where
  "agent_read lb limit b =
     Option.bind (read_exact 5 b) (\<lambda>(header, b1).
     Option.bind (agent_payload_length header limit) (\<lambda>n.
     Option.bind (read_exact n b1) (\<lambda>(p, rest).
     map_option (\<lambda>x. (x, rest)) (agent_decode lb limit p))))"

section \<open>Offers, requests and replies\<close>

definition CHUNK :: nat where "CHUNK = 64 * 1024"
definition LIMIT :: nat where "LIMIT = 32 * 1024 * 1024"

record offer =
  of_revision :: int
  of_formats :: "string list"

record request =
  rq_id :: u64
  rq_revision :: int
  rq_format :: string

text \<open>\<open>char::is_control\<close> on the UTF-8 bytes: C0, DEL and the C1 characters, which UTF-8 spells C2 80 to C2 9F.\<close>

fun has_control :: "string \<Rightarrow> bool" where
  "has_control [] = False"
| "has_control [a] = (byte a < 32 \<or> byte a = 127)"
| "has_control (a # b # s) =
     (byte a < 32 \<or> byte a = 127 \<or> (byte a = 194 \<and> 128 \<le> byte b \<and> byte b < 160) \<or> has_control (b # s))"

definition valid_format :: "string \<Rightarrow> bool" where
  "valid_format s \<longleftrightarrow> s \<noteq> [] \<and> length s \<le> 256 \<and> \<not> has_control s \<and>
     list_all (\<lambda>p. p \<noteq> [] \<and> p \<noteq> ''.'' \<and> p \<noteq> ''..'') (split_on (CHR ''/'') s)"

definition offer_encode :: "wire_lib \<Rightarrow> offer \<Rightarrow> bytes" where
  "offer_encode lb off =
     wl_print lb (MArr [MInt (of_revision off), MArr (map MStr (of_formats off))])"

fun strings_in :: "wire_lib \<Rightarrow> msgpack list \<Rightarrow> string list option" where
  "strings_in lb [] = Some []"
| "strings_in lb (m # ms) =
     Option.bind (wl_str lb m) (\<lambda>s. map_option ((#) s) (strings_in lb ms))"

definition offer_in :: "wire_lib \<Rightarrow> msgpack \<Rightarrow> offer option" where
  "offer_in lb m = (case m of
     MArr [r, MArr fs] \<Rightarrow>
       Option.bind (i64_in r) (\<lambda>r. map_option (\<lambda>fs. \<lparr>of_revision = r, of_formats = fs\<rparr>) (strings_in lb fs))
   | _ \<Rightarrow> None)"

definition offer_decode :: "wire_lib \<Rightarrow> bytes \<Rightarrow> offer option" where
  "offer_decode lb b =
     Option.bind (bounded_decode lb 67000 (offer_in lb) b) (\<lambda>off.
       if 256 < length (of_formats off) \<or> \<not> list_all valid_format (of_formats off) then None
       else if \<not> distinct (of_formats off) then None else Some off)"

definition request_encode :: "wire_lib \<Rightarrow> request \<Rightarrow> bytes" where
  "request_encode lb r =
     wl_print lb (MArr [word_out (rq_id r), MInt (rq_revision r), MStr (rq_format r)])"

definition request_in :: "wire_lib \<Rightarrow> msgpack \<Rightarrow> request option" where
  "request_in lb m = (case m of
     MArr [i, r, f] \<Rightarrow>
       Option.bind (word_in i) (\<lambda>i. Option.bind (i64_in r) (\<lambda>r.
       map_option (\<lambda>f. \<lparr>rq_id = i, rq_revision = r, rq_format = f\<rparr>) (wl_str lb f)))
   | _ \<Rightarrow> None)"

definition request_decode :: "wire_lib \<Rightarrow> bytes \<Rightarrow> request option" where
  "request_decode lb b =
     Option.bind (bounded_decode lb 512 (request_in lb) b) (\<lambda>r.
       if \<not> valid_format (rq_format r) then None else Some r)"

record reply_frame =
  rf_id :: u64
  rf_revision :: int
  rf_status :: u8
  rf_done :: bool
  rf_data :: bytes

definition reply_encode :: "wire_lib \<Rightarrow> request \<Rightarrow> u8 \<Rightarrow> bool \<Rightarrow> bytes \<Rightarrow> bytes" where
  "reply_encode lb r status finished d =
     wl_print lb (MArr [word_out (rq_id r), MInt (rq_revision r), word_out status, MBool finished, MBin d])"

definition reply_in :: "wire_lib \<Rightarrow> msgpack \<Rightarrow> reply_frame option" where
  "reply_in lb m = (case m of
     MArr [i, r, st, dn, d] \<Rightarrow>
       Option.bind (word_in i) (\<lambda>i. Option.bind (i64_in r) (\<lambda>r. Option.bind (byte_in st) (\<lambda>st.
       Option.bind (bool_in dn) (\<lambda>dn. map_option (\<lambda>d.
         \<lparr>rf_id = i, rf_revision = r, rf_status = st, rf_done = dn, rf_data = d\<rparr>) (wl_blob lb d)))))
   | _ \<Rightarrow> None)"

definition parse_reply :: "wire_lib \<Rightarrow> bytes \<Rightarrow> reply_frame option" where
  "parse_reply lb b =
     Option.bind (bounded_decode lb (CHUNK + 32) (reply_in lb) b) (\<lambda>f.
       if 2 < rf_status f \<or> CHUNK < length (rf_data f) then None else Some f)"

section \<open>Compressed chunks\<close>

text \<open>
  \<open>zl_deflate\<close> is the complete zlib stream of its input, \<open>zl_inflate b cap\<close> one call of the
  decompressor with \<open>cap\<close> bytes of room: whether the stream ended, how much input it took and what
  it wrote, or \<open>None\<close> on corrupt data.
\<close>

record zlib =
  zl_deflate :: "bytes \<Rightarrow> bytes"
  zl_inflate :: "bytes \<Rightarrow> nat \<Rightarrow> (bool \<times> nat \<times> bytes) option"

definition compress_chunk :: "zlib \<Rightarrow> bytes \<Rightarrow> (u8 \<times> bytes) option" where
  "compress_chunk z b =
     (if CHUNK < length b then None
      else if 1024 \<le> length b \<and> length (zl_deflate z b) < length b then Some (2, zl_deflate z b)
      else Some (0, b))"

definition decompress_chunk :: "zlib \<Rightarrow> u8 \<Rightarrow> bytes \<Rightarrow> bytes option" where
  "decompress_chunk z status b =
     (if CHUNK < length b then None
      else if status = 0 then Some b
      else if status \<noteq> 2 then None
      else Option.bind (zl_inflate z b (CHUNK + 1)) (\<lambda>(ended, took, out).
             if \<not> ended \<or> took \<noteq> length b \<or> CHUNK < length out then None else Some out))"

section \<open>The cache\<close>

record cache_entry =
  ce_request :: request
  ce_sent :: bool
  ce_started :: nat
  ce_bytes :: bytes
  ce_result :: "(unit + bytes) option"

record cache =
  ca_offer :: offer
  ca_entries :: "(string \<times> cache_entry) list"
  ca_next :: u64
  ca_closed :: bool

definition READ_TIMEOUT :: nat where "READ_TIMEOUT = 15000"

definition cache_new :: cache where
  "cache_new = \<lparr>ca_offer = \<lparr>of_revision = 0, of_formats = []\<rparr>, ca_entries = [], ca_next = 0,
     ca_closed = False\<rparr>"

definition cache_offer :: "cache \<Rightarrow> offer" where
  "cache_offer c = (if ca_closed c then (ca_offer c)\<lparr>of_formats := []\<rparr> else ca_offer c)"

definition cache_update :: "offer \<Rightarrow> cache \<Rightarrow> cache" where
  "cache_update off c =
     (let c1 = (if of_revision (ca_offer c) \<noteq> of_revision off \<or> of_formats (ca_offer c) \<noteq> of_formats off
                then c\<lparr>ca_entries := []\<rparr> else c)
      in c1\<lparr>ca_offer := off\<rparr>)"

definition cache_close :: "cache \<Rightarrow> cache" where
  "cache_close c = c\<lparr>ca_closed := True, ca_entries := []\<rparr>"

text \<open>The entries are a \<open>BTreeMap\<close>: kept in the order of the keys' bytes.\<close>

fun str_less :: "string \<Rightarrow> string \<Rightarrow> bool" where
  "str_less [] [] = False"
| "str_less [] (b # t) = True"
| "str_less (a # s) [] = False"
| "str_less (a # s) (b # t) = (byte a < byte b \<or> (a = b \<and> str_less s t))"

fun bt_insert :: "string \<Rightarrow> 'v \<Rightarrow> (string \<times> 'v) list \<Rightarrow> (string \<times> 'v) list" where
  "bt_insert k v [] = [(k, v)]"
| "bt_insert k v ((k', v') # m) =
     (if k = k' then (k, v) # m
      else if str_less k k' then (k, v) # (k', v') # m else (k', v') # bt_insert k v m)"

definition unanswered :: "cache_entry \<Rightarrow> bool" where
  "unanswered e \<longleftrightarrow> ce_result e = None"

datatype read_error = Unavailable | ReadFailed | TooMany | TimedOut

definition new_entry :: "u64 \<Rightarrow> int \<Rightarrow> string \<Rightarrow> nat \<Rightarrow> cache_entry" where
  "new_entry i rv fmt now =
     \<lparr>ce_request = \<lparr>rq_id = i, rq_revision = rv, rq_format = fmt\<rparr>, ce_sent = False,
      ce_started = now, ce_bytes = [], ce_result = None\<rparr>"

text \<open>
  One turn of the loop of \<open>get\<close> under the lock: the reader's result, or \<open>None\<close> when it waits to be
  notified and looks again.
\<close>

definition cache_look ::
  "int \<Rightarrow> string \<Rightarrow> nat \<Rightarrow> nat \<Rightarrow> cache \<Rightarrow> cache \<times> (read_error + bytes) option" where
  "cache_look rv fmt deadline now c =
     (let wait = (\<lambda>c. (c, if deadline \<le> now then Some (Inl TimedOut) else None)) in
      if ca_closed c \<or> of_revision (ca_offer c) \<noteq> rv \<or> fmt \<notin> set (of_formats (ca_offer c))
      then (c, Some (Inl Unavailable))
      else
        case map_of (ca_entries c) fmt of
          Some e \<Rightarrow>
            (case ce_result e of
               Some (Inr b) \<Rightarrow> (c, Some (Inr b))
             | Some (Inl _) \<Rightarrow> (c, Some (Inl ReadFailed))
             | None \<Rightarrow> wait c)
        | None \<Rightarrow>
            if 8 \<le> length (filter unanswered (map snd (ca_entries c)))
            then (c, Some (Inl TooMany))
            else
              (let i = ca_next c + 1 in
               wait (c\<lparr>ca_next := i, ca_entries := bt_insert fmt (new_entry i rv fmt now) (ca_entries c)\<rparr>)))"

text \<open>\<open>poll\<close>: drop old failures, fail what is overdue, and the requests to send.\<close>

definition keep_entry :: "nat \<Rightarrow> cache_entry \<Rightarrow> bool" where
  "keep_entry now e \<longleftrightarrow> \<not> (ce_result e = Some (Inl ()) \<and> 1000 < now - ce_started e)"

definition fail_entry :: "nat \<Rightarrow> cache_entry \<Rightarrow> cache_entry" where
  "fail_entry now e = e\<lparr>ce_bytes := [], ce_result := Some (Inl ()), ce_started := now\<rparr>"

definition expire_entry :: "nat \<Rightarrow> cache_entry \<Rightarrow> cache_entry" where
  "expire_entry now e =
     (if unanswered e \<and> READ_TIMEOUT \<le> now - ce_started e then fail_entry now e else e)"

definition to_send :: "cache_entry \<Rightarrow> bool" where
  "to_send e \<longleftrightarrow> \<not> ce_sent e \<and> unanswered e"

definition mark_sent :: "cache_entry \<Rightarrow> cache_entry" where
  "mark_sent e = (if to_send e then e\<lparr>ce_sent := True\<rparr> else e)"

definition cache_poll :: "nat \<Rightarrow> cache \<Rightarrow> cache \<times> request list" where
  "cache_poll now c =
     (let es = map (map_prod id (expire_entry now)) (filter (\<lambda>(k, e). keep_entry now e) (ca_entries c)) in
      (c\<lparr>ca_entries := map (map_prod id mark_sent) es\<rparr>,
       map (ce_request \<circ> snd) (filter (\<lambda>(k, e). to_send e) es)))"

text \<open>\<open>reply\<close>.\<close>

definition awaits :: "u64 \<Rightarrow> cache_entry \<Rightarrow> bool" where
  "awaits i e \<longleftrightarrow> rq_id (ce_request e) = i \<and> unanswered e"

definition result_size :: "cache_entry \<Rightarrow> nat" where
  "result_size e = (case ce_result e of Some (Inr b) \<Rightarrow> length b | _ \<Rightarrow> 0)"

definition used_bytes :: "(string \<times> cache_entry) list \<Rightarrow> nat" where
  "used_bytes es = sum_list (map (\<lambda>(k, e). length (ce_bytes e) + result_size e) es)"

definition succeeded :: "cache_entry \<Rightarrow> bool" where
  "succeeded e \<longleftrightarrow> (case ce_result e of Some (Inr b) \<Rightarrow> True | _ \<Rightarrow> False)"

definition accept_bytes :: "bytes \<Rightarrow> bool \<Rightarrow> cache_entry \<Rightarrow> cache_entry" where
  "accept_bytes b finished e =
     (if finished
      then e\<lparr>ce_bytes := [], ce_result := Some (Inr (ce_bytes e @ b))\<rparr>
      else e\<lparr>ce_bytes := ce_bytes e @ b\<rparr>)"

fun update_entry ::
  "(cache_entry \<Rightarrow> bool) \<Rightarrow> (cache_entry \<Rightarrow> cache_entry) \<Rightarrow> (string \<times> cache_entry) list \<Rightarrow>
   (string \<times> cache_entry) list" where
  "update_entry p f [] = []"
| "update_entry p f ((k, e) # es) = (if p e then (k, f e) # es else (k, e) # update_entry p f es)"

definition make_room ::
  "nat \<Rightarrow> (string \<times> cache_entry) list \<Rightarrow> (string \<times> cache_entry) list \<times> nat" where
  "make_room n es =
     (if LIMIT < used_bytes es + n
      then (let kept = filter (\<lambda>(k, e). \<not> succeeded e) es in
            (kept, sum_list (map (\<lambda>(k, e). length (ce_bytes e)) kept)))
      else (es, used_bytes es))"

definition cache_reply :: "wire_lib \<Rightarrow> zlib \<Rightarrow> nat \<Rightarrow> bytes \<Rightarrow> cache \<Rightarrow> cache option" where
  "cache_reply lb z now data c =
     map_option (\<lambda>f.
       if rf_revision f \<noteq> of_revision (ca_offer c) \<or>
          \<not> list_ex (\<lambda>(k, e). awaits (rf_id f) e) (ca_entries c)
       then c
       else
         (let decoded = decompress_chunk z (rf_status f) (rf_data f);
              b = (case decoded of Some b \<Rightarrow> b | None \<Rightarrow> []);
              (es, used) = make_room (length b) (ca_entries c)
          in c\<lparr>ca_entries := update_entry (awaits (rf_id f))
                 (if decoded = None \<or> LIMIT < used + length b then fail_entry now
                  else accept_bytes b (rf_done f)) es\<rparr>))
       (parse_reply lb data)"

end
