(* ===== verification/ClipSync.thy ===== *)
theory ClipSync
  imports Clipboard
begin

text \<open>
  Both ends of a clipboard session: the frames the agent's loop hands to the cache (\<open>agent.rs\<close>), the
  desktop's side of a request (\<open>clipboard.rs\<close>: reads at a revision, replies of one chunk per turn,
  offers) and the two ordered channels between them. Readers of the cache, the polls of the agent's
  loop, changes of the desktop's clipboard and the tasks of the desktop interleave freely.
\<close>

section \<open>The agent's loop\<close>

text \<open>The arms for offers and replies, when the clipboard is enabled; \<open>None\<close> ends the session.\<close>

definition OFFER_KIND :: u8 where "OFFER_KIND = 0x4D"
definition DATA_KIND :: u8 where "DATA_KIND = 0x44"

definition agent_frame :: "wire_lib \<Rightarrow> zlib \<Rightarrow> nat \<Rightarrow> u8 \<times> bytes \<Rightarrow> cache \<Rightarrow> cache option" where
  "agent_frame lb z now frame c =
     (case frame of (kind, d) \<Rightarrow>
        if kind = OFFER_KIND then map_option (\<lambda>off. cache_update off c) (offer_decode lb d)
        else if kind = DATA_KIND then cache_reply lb z now d c
        else None)"

section \<open>The desktop\<close>

text \<open>
  The platform's clipboard: the formats it has at a revision, and the content of a format at a
  revision when it can be read.
\<close>

record pasteboard =
  pb_formats :: "int \<Rightarrow> string list"
  pb_read :: "int \<Rightarrow> string \<Rightarrow> bytes option"

definition MAX_DATA :: nat where "MAX_DATA = 32 * 1024 * 1024"

definition desk_offer :: "pasteboard \<Rightarrow> int \<Rightarrow> offer" where
  "desk_offer pb r =
     \<lparr>of_revision = r,
      of_formats = take 256 (filter (\<lambda>s. valid_format s \<and> s \<noteq> ''TARGETS'') (pb_formats pb r))\<rparr>"

record clip_reply =
  cr_request :: request
  cr_chunks :: "(u8 \<times> bytes) list option"

text \<open>\<open>bytes.chunks(CHUNK)\<close>, each compressed on its own.\<close>

function pieces_of :: "bytes \<Rightarrow> bytes list" where
  "pieces_of b = (if b = [] then [] else take CHUNK b # pieces_of (drop CHUNK b))"
  by pat_completeness auto
termination by (relation "measure length") (auto simp: CHUNK_def)

declare pieces_of.simps [simp del]

fun compress_all :: "zlib \<Rightarrow> bytes list \<Rightarrow> (u8 \<times> bytes) list option" where
  "compress_all z [] = Some []"
| "compress_all z (b # bs) =
     Option.bind (compress_chunk z b) (\<lambda>c. map_option ((#) c) (compress_all z bs))"

definition chunk_queue :: "zlib \<Rightarrow> bytes \<Rightarrow> (u8 \<times> bytes) list option" where
  "chunk_queue z b = (if b = [] then Some [(0, [])] else compress_all z (pieces_of b))"

text \<open>\<open>read_requested\<close> when the clipboard is at revision \<open>current\<close>.\<close>

definition requested_bytes :: "pasteboard \<Rightarrow> int \<Rightarrow> request \<Rightarrow> bytes option" where
  "requested_bytes pb current r =
     (if current \<noteq> rq_revision r \<or> rq_format r \<notin> set (pb_formats pb current) then None
      else Option.bind (pb_read pb current (rq_format r)) (\<lambda>b. if length b \<le> MAX_DATA then Some b else None))"

definition read_requested :: "pasteboard \<Rightarrow> zlib \<Rightarrow> int \<Rightarrow> request \<Rightarrow> clip_reply" where
  "read_requested pb z current r =
     \<lparr>cr_request = r, cr_chunks = Option.bind (requested_bytes pb current r) (chunk_queue z)\<rparr>"

text \<open>
  One turn of the reply queue: the front reply sends its next chunk, or a failure when the clipboard
  has moved on, and goes to the back while it has more.
\<close>

definition reply_turn ::
  "wire_lib \<Rightarrow> int option \<Rightarrow> clip_reply \<Rightarrow> bytes \<times> clip_reply option" where
  "reply_turn lb current r0 =
     (let r = (if current \<noteq> Some (rq_revision (cr_request r0)) then r0\<lparr>cr_chunks := None\<rparr> else r0);
          (status, d) = (case cr_chunks r of Some (c # cs) \<Rightarrow> c | _ \<Rightarrow> (1, []));
          r' = r\<lparr>cr_chunks := map_option tl (cr_chunks r)\<rparr>;
          finished = (case cr_chunks r' of None \<Rightarrow> True | Some cs \<Rightarrow> cs = [])
      in (reply_encode lb (cr_request r') status finished d, if finished then None else Some r'))"

section \<open>The session\<close>

record clip_session =
  cx_cache :: cache
  cx_up :: "bytes list"
  cx_down :: "(u8 \<times> bytes) list"
  cx_revision :: int
  cx_previous :: "int option"
  cx_reads :: "request list"
  cx_read :: "clip_reply list"
  cx_replies :: "clip_reply list"
  cx_answers :: "(int \<times> string \<times> bytes) list"

definition session_start :: "int \<Rightarrow> clip_session" where
  "session_start r =
     \<lparr>cx_cache = cache_new, cx_up = [], cx_down = [], cx_revision = r, cx_previous = None,
      cx_reads = [], cx_read = [], cx_replies = [], cx_answers = []\<rparr>"

text \<open>\<open>cx_answers\<close> records what the readers of the cache were given.\<close>

definition note_answer ::
  "int \<Rightarrow> string \<Rightarrow> (read_error + bytes) option \<Rightarrow> clip_session \<Rightarrow> clip_session" where
  "note_answer rv fmt res x =
     (case res of Some (Inr b) \<Rightarrow> x\<lparr>cx_answers := (rv, fmt, b) # cx_answers x\<rparr> | _ \<Rightarrow> x)"

inductive clip_step :: "wire_lib \<Rightarrow> zlib \<Rightarrow> pasteboard \<Rightarrow> clip_session \<Rightarrow> clip_session \<Rightarrow> bool"
  for lb z pb where
  reader_looks:
    "cache_look rv fmt deadline now (cx_cache x) = (c, res) \<Longrightarrow>
     clip_step lb z pb x (note_answer rv fmt res (x\<lparr>cx_cache := c\<rparr>))"
| agent_polls:
    "cache_poll now (cx_cache x) = (c, rs) \<Longrightarrow>
     clip_step lb z pb x (x\<lparr>cx_cache := c, cx_up := cx_up x @ map (request_encode lb) rs\<rparr>)"
| agent_receives:
    "cx_down x = f # fs \<Longrightarrow> agent_frame lb z now f (cx_cache x) = Some c \<Longrightarrow>
     clip_step lb z pb x (x\<lparr>cx_cache := c, cx_down := fs\<rparr>)"
| agent_closes:
    "clip_step lb z pb x (x\<lparr>cx_cache := cache_close (cx_cache x)\<rparr>)"
| clipboard_changes:
    "clip_step lb z pb x (x\<lparr>cx_revision := r\<rparr>)"
| desktop_offers:
    "cx_reads x = [] \<Longrightarrow> cx_read x = [] \<Longrightarrow> cx_previous x \<noteq> Some (cx_revision x) \<Longrightarrow>
     clip_step lb z pb x (x\<lparr>cx_down := cx_down x @ [(OFFER_KIND, offer_encode lb (desk_offer pb (cx_revision x)))],
       cx_previous := Some (cx_revision x)\<rparr>)"
| desktop_accepts:
    "cx_up x = b # bs \<Longrightarrow> request_decode lb b = Some r \<Longrightarrow>
     length (cx_reads x) + length (cx_read x) + length (cx_replies x) < 8 \<Longrightarrow>
     clip_step lb z pb x (x\<lparr>cx_up := bs, cx_reads := cx_reads x @ [r]\<rparr>)"
| desktop_refuses:
    "cx_up x = b # bs \<Longrightarrow> request_decode lb b = Some r \<Longrightarrow>
     8 \<le> length (cx_reads x) + length (cx_read x) + length (cx_replies x) \<Longrightarrow>
     clip_step lb z pb x (x\<lparr>cx_up := bs, cx_down := cx_down x @ [(DATA_KIND, reply_encode lb r 1 True [])]\<rparr>)"
| read_finishes:
    "cx_reads x = as @ r # bs \<Longrightarrow>
     clip_step lb z pb x (x\<lparr>cx_reads := as @ bs, cx_read := cx_read x @ [read_requested pb z (cx_revision x) r]\<rparr>)"
| read_fails:
    "cx_reads x = as @ r # bs \<Longrightarrow>
     clip_step lb z pb x (x\<lparr>cx_reads := as @ bs, cx_read := cx_read x @ [\<lparr>cr_request = r, cr_chunks = None\<rparr>]\<rparr>)"
| read_joined:
    "cx_read x = as @ r # bs \<Longrightarrow>
     clip_step lb z pb x (x\<lparr>cx_read := as @ bs, cx_replies := cx_replies x @ [r]\<rparr>)"
| desktop_replies:
    "cx_replies x = r # rs \<Longrightarrow> reply_turn lb current r = (d, again) \<Longrightarrow>
     current = None \<or> current = Some (cx_revision x) \<Longrightarrow>
     clip_step lb z pb x (x\<lparr>cx_down := cx_down x @ [(DATA_KIND, d)],
       cx_replies := rs @ (case again of None \<Rightarrow> [] | Some r' \<Rightarrow> [r'])\<rparr>)"

end
