(* ===== verification/ClipProps.thy ===== *)
theory ClipProps
  imports ClipSync WireProps "HOL-Library.Multiset"
begin

text \<open>
  The invariants of a clipboard session: the cache stays within its memory and request bounds, and
  a reader is only ever given the desktop's content of the format it asked for at the revision it
  asked for, however offers, chunks, timeouts and other readers interleave.
\<close>

section \<open>The cache\<close>

definition pending_count :: "(string \<times> cache_entry) list \<Rightarrow> nat" where
  "pending_count es = length (filter unanswered (map snd es))"

definition entry_ok :: "offer \<Rightarrow> string \<times> cache_entry \<Rightarrow> bool" where
  "entry_ok off x \<longleftrightarrow> (case x of (k, e) \<Rightarrow>
     rq_format (ce_request e) = k \<and> rq_revision (ce_request e) = of_revision off \<and>
     k \<in> set (of_formats off))"

definition cache_ok :: "cache \<Rightarrow> bool" where
  "cache_ok c \<longleftrightarrow>
     distinct (map fst (ca_entries c)) \<and> (\<forall>x\<in>set (ca_entries c). entry_ok (ca_offer c) x) \<and>
     used_bytes (ca_entries c) \<le> LIMIT \<and> pending_count (ca_entries c) \<le> 8 \<and>
     (ca_closed c \<longrightarrow> ca_entries c = []) \<and>
     - (2 ^ 63) \<le> of_revision (ca_offer c) \<and> of_revision (ca_offer c) < 2 ^ 63"

lemma used_bytes_simps [simp]:
  "used_bytes [] = 0" "used_bytes ((k, e) # es) = length (ce_bytes e) + result_size e + used_bytes es"
  by (simp_all add: used_bytes_def)

lemma pending_simps [simp]:
  "pending_count [] = 0" "pending_count ((k, e) # es) = of_bool (unanswered e) + pending_count es"
  by (simp_all add: pending_count_def)

lemma bt_insert_mem:
  "map_of m k = None \<Longrightarrow> set (bt_insert k v m) = insert (k, v) (set m)"
  by (induction k v m rule: bt_insert.induct) (auto split: if_splits)

lemma bt_insert_mset:
  "map_of m k = None \<Longrightarrow> mset (bt_insert k v m) = add_mset (k, v) (mset m)"
  by (induction k v m rule: bt_insert.induct) (auto split: if_splits)

lemma distinct_mset: "mset xs = mset ys \<Longrightarrow> distinct xs \<longleftrightarrow> distinct ys"
  by (metis mset_eq_imp_distinct_iff)

lemma bt_insert_keys:
  "map_of m k = None \<Longrightarrow> distinct (map f (bt_insert k v m)) \<longleftrightarrow> distinct (f (k, v) # map f m)"
  by (rule distinct_mset) (simp add: bt_insert_mset)

lemma used_bytes_mset: "used_bytes es = sum_mset (image_mset (\<lambda>(k, e). length (ce_bytes e) + result_size e) (mset es))"
  by (simp add: used_bytes_def sum_mset_sum_list [symmetric] flip: mset_map)

lemma pending_mset: "pending_count es = size (filter_mset (\<lambda>(k, e). unanswered e) (mset es))"
  by (induction es) auto

lemma bt_insert_used:
  "map_of m k = None \<Longrightarrow> used_bytes (bt_insert k e m) = length (ce_bytes e) + result_size e + used_bytes m"
  by (simp add: used_bytes_mset bt_insert_mset)

lemma bt_insert_pending:
  "map_of m k = None \<Longrightarrow> pending_count (bt_insert k e m) = of_bool (unanswered e) + pending_count m"
  by (simp add: pending_mset bt_insert_mset)

lemma cache_new_ok: "cache_ok cache_new"
  by (simp add: cache_ok_def cache_new_def)

lemma cache_update_ok:
  "cache_ok c \<Longrightarrow> - (2 ^ 63) \<le> of_revision off \<Longrightarrow> of_revision off < 2 ^ 63 \<Longrightarrow>
   cache_ok (cache_update off c)"
  by (auto simp: cache_ok_def cache_update_def entry_ok_def Let_def)

lemma cache_close_ok: "cache_ok c \<Longrightarrow> cache_ok (cache_close c)"
  by (simp add: cache_ok_def cache_close_def)

text \<open>What a look does: nothing, or one new entry under a new number.\<close>

lemma cache_look_cases:
  assumes "cache_look rv fmt deadline now c = (c', res)"
  obtains (same) "c' = c" "\<And>b. res = Some (Inr b) \<Longrightarrow> \<exists>e. (fmt, e) \<in> set (ca_entries c) \<and>
      ce_result e = Some (Inr b) \<and> rv = of_revision (ca_offer c)"
  | (added) "c' = c\<lparr>ca_next := ca_next c + 1, ca_entries := bt_insert fmt
        (new_entry (ca_next c + 1) rv fmt now) (ca_entries c)\<rparr>"
      "map_of (ca_entries c) fmt = None" "\<And>b. res \<noteq> Some (Inr b)" "rv = of_revision (ca_offer c)"
      "fmt \<in> set (of_formats (ca_offer c))" "pending_count (ca_entries c) < 8" "\<not> ca_closed c"
proof (cases "ca_closed c \<or> of_revision (ca_offer c) \<noteq> rv \<or> fmt \<notin> set (of_formats (ca_offer c))")
  case True
  then show thesis using assms by (intro same) (auto simp: cache_look_def Let_def)
next
  case open_: False
  show thesis
  proof (cases "map_of (ca_entries c) fmt")
    case None
    show thesis
    proof (cases "8 \<le> pending_count (ca_entries c)")
      case True
      then show thesis using assms open_ None
        by (intro same) (auto simp: cache_look_def Let_def pending_count_def)
    next
      case False
      then show thesis using assms open_ None
        by (intro added) (auto simp: cache_look_def Let_def pending_count_def split: if_splits)
    qed
  next
    case (Some e)
    then show thesis using assms open_
      by (intro same) (auto simp: cache_look_def Let_def dest: map_of_SomeD split: option.splits sum.splits if_splits)
  qed
qed

lemma new_entry_simps [simp]:
  "ce_request (new_entry i rv fmt now) = \<lparr>rq_id = i, rq_revision = rv, rq_format = fmt\<rparr>"
  "ce_sent (new_entry i rv fmt now) = False" "ce_bytes (new_entry i rv fmt now) = []"
  "ce_result (new_entry i rv fmt now) = None" "unanswered (new_entry i rv fmt now)"
  "result_size (new_entry i rv fmt now) = 0"
  by (simp_all add: new_entry_def unanswered_def result_size_def)

lemma cache_look_ok:
  assumes "cache_look rv fmt deadline now c = (c', res)" "cache_ok c"
  shows "cache_ok c'"
  using assms(1)
proof (cases rule: cache_look_cases)
  case same
  then show ?thesis using assms(2) by simp
next
  case added
  have "fmt \<notin> fst ` set (ca_entries c)" using added(2) by (simp add: map_of_eq_None_iff)
  then show ?thesis
    using assms(2) added
    by (auto simp: cache_ok_def bt_insert_keys bt_insert_used bt_insert_pending bt_insert_mem entry_ok_def)
qed

lemma expire_simps [simp]:
  "ce_request (expire_entry now e) = ce_request e" "ce_request (mark_sent e) = ce_request e"
  "ce_request (fail_entry now e) = ce_request e" "ce_request (accept_bytes b d e) = ce_request e"
  "ce_result (mark_sent e) = ce_result e" "ce_bytes (mark_sent e) = ce_bytes e"
  "ce_sent (expire_entry now e) = ce_sent e" "ce_sent (fail_entry now e) = ce_sent e"
  "ce_sent (accept_bytes b d e) = ce_sent e"
  by (simp_all add: expire_entry_def mark_sent_def fail_entry_def accept_bytes_def)

definition polled :: "nat \<Rightarrow> cache_entry \<Rightarrow> cache_entry" where
  "polled now e = mark_sent (expire_entry now e)"

lemma polled_request [simp]: "ce_request (polled now e) = ce_request e"
  by (simp add: polled_def)

lemma polled_props:
  "length (ce_bytes (polled now e)) + result_size (polled now e) \<le> length (ce_bytes e) + result_size e"
  "unanswered (polled now e) \<Longrightarrow> unanswered e"
  "unanswered (polled now e) \<Longrightarrow> ce_bytes (polled now e) = ce_bytes e"
  "ce_result (polled now e) = Some (Inr b) \<Longrightarrow> ce_result e = Some (Inr b)"
  by (auto simp: polled_def expire_entry_def fail_entry_def result_size_def unanswered_def mark_sent_def
      split: if_splits)

lemma cache_poll_entries:
  "cache_poll now c = (c', rs) \<Longrightarrow>
   ca_entries c' = map (map_prod id (polled now)) (filter (\<lambda>(k, e). keep_entry now e) (ca_entries c)) \<and>
   ca_offer c' = ca_offer c \<and> ca_next c' = ca_next c \<and> ca_closed c' = ca_closed c \<and>
   rs = map (ce_request \<circ> snd) (filter (\<lambda>(k, e). keep_entry now e \<and> to_send (expire_entry now e)) (ca_entries c))"
  by (auto simp: cache_poll_def Let_def polled_def comp_def map_prod.comp filter_map case_prod_beta
      prod.map_comp intro!: map_cong filter_cong)

lemma polled_used:
  "used_bytes (map (map_prod id (polled now)) (filter P es)) \<le> used_bytes es"
proof (induction es)
  case (Cons x es)
  then show ?case using polled_props(1) [of now "snd x"] by (cases x) (simp add: add_le_mono)
qed simp

lemma polled_pending:
  "pending_count (map (map_prod id (polled now)) (filter P es)) \<le> pending_count es"
  by (induction es) (auto dest: polled_props(2))

lemma cache_poll_ok:
  assumes "cache_poll now c = (c', rs)" "cache_ok c"
  shows "cache_ok c'"
proof -
  note e = cache_poll_entries [OF assms(1)]
  have "distinct (map fst (filter (\<lambda>(k, e). keep_entry now e) (ca_entries c)))"
    using assms(2) by (simp add: cache_ok_def distinct_map_filter)
  moreover have "used_bytes (ca_entries c') \<le> LIMIT" "pending_count (ca_entries c') \<le> 8"
    using e assms(2) polled_used polled_pending
    unfolding cache_ok_def by (metis le_trans)+
  ultimately show ?thesis
    using assms(2) e by (auto simp: cache_ok_def comp_def entry_ok_def)
qed

text \<open>The effect of a reply.\<close>

lemma update_entry_mem:
  "(k, e') \<in> set (update_entry p f es) \<Longrightarrow> distinct (map (rq_id \<circ> ce_request \<circ> snd) es) \<Longrightarrow>
   (\<And>e. p e \<Longrightarrow> rq_id (ce_request e) = i) \<Longrightarrow>
   (\<exists>e. (k, e) \<in> set es \<and> p e \<and> e' = f e) \<or> ((k, e') \<in> set es \<and> \<not> p e')"
proof (induction es)
  case (Cons x es)
  obtain k0 e0 where x: "x = (k0, e0)" by fastforce
  show ?case
  proof (cases "p e0")
    case True
    then have "\<not> p e'" if "(k, e') \<in> set es"
      using Cons.prems that by (force simp: x)
    then show ?thesis using Cons.prems(1) True by (auto simp: x)
  next
    case False
    then show ?thesis using Cons by (auto simp: x)
  qed
qed simp

lemma update_entry_keys [simp]: "map fst (update_entry p f es) = map fst es"
  by (induction p f es rule: update_entry.induct) auto

lemma update_entry_requests:
  "(\<And>e. ce_request (f e) = ce_request e) \<Longrightarrow>
   map (\<lambda>x. g (fst x) (ce_request (snd x))) (update_entry p f es) = map (\<lambda>x. g (fst x) (ce_request (snd x))) es"
  by (induction p f es rule: update_entry.induct) auto

lemma update_entry_pending:
  "(\<And>e. p e \<Longrightarrow> unanswered e) \<Longrightarrow> pending_count (update_entry p f es) \<le> pending_count es"
  by (induction p f es rule: update_entry.induct) auto

lemma update_entry_used:
  "(\<And>e. p e \<Longrightarrow> length (ce_bytes (f e)) + result_size (f e) \<le> length (ce_bytes e) + result_size e + n) \<Longrightarrow>
   used_bytes (update_entry p f es) \<le> used_bytes es + n"
proof (induction p f es rule: update_entry.induct)
  case (2 p f k e es)
  show ?case
  proof (cases "p e")
    case True
    then show ?thesis using 2(2) [of e] by simp
  next
    case False
    then show ?thesis using 2 by simp
  qed
qed simp

lemma make_room_mset:
  "make_room n es = (es', u) \<Longrightarrow>
   u = used_bytes es' \<and> (\<exists>P. es' = filter P es) \<and> (LIMIT < u + n \<longrightarrow> (\<forall>x\<in>set es'. \<not> succeeded (snd x)))"
proof -
  assume m: "make_room n es = (es', u)"
  show ?thesis
  proof (cases "LIMIT < used_bytes es + n")
    case True
    have "sum_list (map (\<lambda>(k, e). length (ce_bytes e)) (filter (\<lambda>(k, e). \<not> succeeded e) es))
      = used_bytes (filter (\<lambda>(k, e). \<not> succeeded e) es)"
      by (induction es) (auto simp: result_size_def succeeded_def split: option.splits sum.splits)
    then show ?thesis using m True by (auto simp: make_room_def Let_def)
  next
    case False
    then have "es' = filter (\<lambda>_. True) es" "u = used_bytes es" using m by (auto simp: make_room_def)
    then show ?thesis using False by (intro conjI exI [of _ "\<lambda>_. True"]) auto
  qed
qed

lemma filter_used: "used_bytes (filter P es) \<le> used_bytes es"
  by (induction es) auto

lemma filter_pending: "pending_count (filter P es) \<le> pending_count es"
  by (induction es) auto

lemma awaits_request: "awaits i e \<Longrightarrow> rq_id (ce_request e) = i \<and> unanswered e"
  by (simp add: awaits_def)

definition reply_effect :: "zlib \<Rightarrow> nat \<Rightarrow> reply_frame \<Rightarrow> cache \<Rightarrow> cache \<Rightarrow> bool" where
  "reply_effect z now f c c' \<longleftrightarrow>
     (\<exists>P g. c' = c\<lparr>ca_entries := update_entry (awaits (rf_id f)) g (filter P (ca_entries c))\<rparr> \<and>
        (g = fail_entry now \<or>
         (\<exists>b. decompress_chunk z (rf_status f) (rf_data f) = Some b \<and> g = accept_bytes b (rf_done f) \<and>
            used_bytes (filter P (ca_entries c)) + length b \<le> LIMIT)))"

lemma cache_reply_cases:
  assumes "cache_reply lb z now d c = Some c'"
  obtains (same) f where "parse_reply lb d = Some f" "c' = c"
      "rf_revision f \<noteq> of_revision (ca_offer c) \<or> (\<forall>x\<in>set (ca_entries c). \<not> awaits (rf_id f) (snd x))"
  | (effect) f where "parse_reply lb d = Some f" "reply_effect z now f c c'"
proof -
  obtain f where f: "parse_reply lb d = Some f" using assms by (auto simp: cache_reply_def)
  show thesis
  proof (cases "rf_revision f \<noteq> of_revision (ca_offer c) \<or> \<not> list_ex (\<lambda>(k, e). awaits (rf_id f) e) (ca_entries c)")
    case True
    then show thesis using assms f by (intro same [OF f]) (auto simp: cache_reply_def list_ex_iff)
  next
    case False
    let ?dec = "decompress_chunk z (rf_status f) (rf_data f)"
    let ?b = "case ?dec of Some b \<Rightarrow> b | None \<Rightarrow> []"
    obtain es u where r: "make_room (length ?b) (ca_entries c) = (es, u)" by fastforce
    let ?g = "if ?dec = None \<or> LIMIT < u + length ?b then fail_entry now else accept_bytes ?b (rf_done f)"
    have c': "c' = c\<lparr>ca_entries := update_entry (awaits (rf_id f)) ?g es\<rparr>"
      using assms f False r by (auto simp: cache_reply_def Let_def)
    obtain P where P: "es = filter P (ca_entries c)" "u = used_bytes es" using make_room_mset [OF r] by auto
    have "?g = fail_entry now \<or> (\<exists>b. ?dec = Some b \<and> ?g = accept_bytes b (rf_done f) \<and>
        used_bytes (filter P (ca_entries c)) + length b \<le> LIMIT)"
      using P by (cases ?dec) (auto simp: not_less)
    then show thesis
      by (intro effect [OF f], unfold reply_effect_def)
        (rule exI [of _ P], rule exI [of _ ?g], simp only: c' P(1) simp_thms)
  qed
qed

lemma accept_size:
  "length (ce_bytes (accept_bytes b d e)) + result_size (accept_bytes b d e)
     \<le> length (ce_bytes e) + result_size e + length b"
  by (auto simp: accept_bytes_def result_size_def)

lemma fail_size: "length (ce_bytes (fail_entry now e)) + result_size (fail_entry now e) = 0"
  by (simp add: fail_entry_def result_size_def)

lemma reply_effect_ok:
  assumes "reply_effect z now f c c'" "cache_ok c"
  shows "cache_ok c'"
proof -
  obtain P g where c': "c' = c\<lparr>ca_entries := update_entry (awaits (rf_id f)) g (filter P (ca_entries c))\<rparr>"
    and g: "g = fail_entry now \<or> (\<exists>b. decompress_chunk z (rf_status f) (rf_data f) = Some b \<and>
      g = accept_bytes b (rf_done f) \<and> used_bytes (filter P (ca_entries c)) + length b \<le> LIMIT)"
    using assms(1) by (auto simp: reply_effect_def)
  let ?es = "filter P (ca_entries c)"
  have req: "ce_request (g e) = ce_request e" for e using g by auto
  have "used_bytes (update_entry (awaits (rf_id f)) g ?es) \<le> LIMIT"
  proof (cases "g = fail_entry now")
    case True
    have "used_bytes (update_entry (awaits (rf_id f)) g ?es) \<le> used_bytes ?es + 0"
      using True by (intro update_entry_used) (simp add: fail_size)
    then show ?thesis using filter_used [of P "ca_entries c"] assms(2) by (simp add: cache_ok_def)
  next
    case False
    then obtain b where b: "g = accept_bytes b (rf_done f)" "used_bytes ?es + length b \<le> LIMIT"
      using g by auto
    have "used_bytes (update_entry (awaits (rf_id f)) g ?es) \<le> used_bytes ?es + length b"
      using b by (intro update_entry_used) (simp add: accept_size)
    then show ?thesis using b by simp
  qed
  moreover have "pending_count (update_entry (awaits (rf_id f)) g ?es) \<le> 8"
    using update_entry_pending [of "awaits (rf_id f)" g ?es] filter_pending [of P "ca_entries c"] assms(2)
    by (simp add: awaits_def cache_ok_def)
  moreover have "\<forall>x\<in>set (update_entry (awaits (rf_id f)) g ?es). entry_ok (ca_offer c) x"
  proof -
    let ?v = "\<lambda>k r. rq_format r = k \<and> rq_revision r = of_revision (ca_offer c) \<and>
      k \<in> set (of_formats (ca_offer c))"
    have "map (\<lambda>x. ?v (fst x) (ce_request (snd x))) (update_entry (awaits (rf_id f)) g ?es)
      = map (\<lambda>x. ?v (fst x) (ce_request (snd x))) ?es"
      by (rule update_entry_requests) (rule req)
    from arg_cong [OF this, of "list_all (\<lambda>x. x)"] show ?thesis
      using assms(2) by (fastforce simp: list_all_iff cache_ok_def entry_ok_def)
  qed
  ultimately show ?thesis
    using assms(2) by (auto simp: cache_ok_def c' distinct_map_filter)
qed

lemma agent_frame_ok:
  assumes "agent_frame lb z now f c = Some c'" "cache_ok c"
  shows "cache_ok c'"
proof -
  obtain k d where f: "f = (k, d)" by fastforce
  consider (off) off where "offer_decode lb d = Some off" "c' = cache_update off c"
    | (rep) "cache_reply lb z now d c = Some c'"
    using assms(1) by (auto simp: agent_frame_def f split: if_splits)
  then show ?thesis
  proof cases
    case off
    then have "- (2 ^ 63) \<le> of_revision off \<and> of_revision off < 2 ^ 63"
      by (auto simp: offer_decode_def bounded_decode_def offer_in_def i64_in_def bind_eq_Some_conv
          split: if_splits option.splits msgpack.splits list.splits)
    then show ?thesis using assms(2) off by (simp add: cache_update_ok)
  next
    case rep
    then show ?thesis using assms(2) reply_effect_ok by (cases rule: cache_reply_cases) auto
  qed
qed

lemma note_answer_simps [simp]:
  "cx_cache (note_answer rv fmt res x) = cx_cache x" "cx_up (note_answer rv fmt res x) = cx_up x"
  "cx_down (note_answer rv fmt res x) = cx_down x" "cx_reads (note_answer rv fmt res x) = cx_reads x"
  "cx_read (note_answer rv fmt res x) = cx_read x" "cx_replies (note_answer rv fmt res x) = cx_replies x"
  by (simp_all add: note_answer_def split: option.splits sum.splits)

lemma clip_step_cache_ok:
  assumes "clip_step lb z pb x y" "cache_ok (cx_cache x)"
  shows "cache_ok (cx_cache y)"
  using assms
  by (induction rule: clip_step.induct) (auto intro: cache_look_ok cache_poll_ok agent_frame_ok cache_close_ok)

end
