(* ===== verification/ClipFaith.thy ===== *)
theory ClipFaith
  imports ClipProps
begin

text \<open>
  The content part of the session's invariant: what a pending entry has received, the frames still
  on their way and the chunks still queued on the desktop always make up the requested content, or
  the reply ends in a failure. Frames are the \<open>reply_frame\<close>s behind the bytes of the channel.
\<close>

section \<open>What is assumed of zlib, and the messages of a session\<close>

definition zlib_ok :: "zlib \<Rightarrow> bool" where
  "zlib_ok z \<longleftrightarrow>
     (\<forall>b. length b \<le> CHUNK \<longrightarrow>
        zl_inflate z (zl_deflate z b) (CHUNK + 1) = Some (True, length (zl_deflate z b), b))"

definition frame_data :: "zlib \<Rightarrow> reply_frame \<Rightarrow> bytes option" where
  "frame_data z f = decompress_chunk z (rf_status f) (rf_data f)"

definition joined :: "zlib \<Rightarrow> reply_frame list \<Rightarrow> bytes" where
  "joined z fs = concat (map (\<lambda>f. the (frame_data z f)) fs)"

definition intact :: "zlib \<Rightarrow> reply_frame list \<Rightarrow> bool" where
  "intact z fs \<longleftrightarrow> (\<forall>f\<in>set fs. frame_data z f \<noteq> None)"

definition going_on :: "reply_frame list \<Rightarrow> bool" where
  "going_on fs \<longleftrightarrow> (\<forall>f\<in>set fs. \<not> rf_done f)"

definition of_id :: "u64 \<Rightarrow> reply_frame list \<Rightarrow> reply_frame list" where
  "of_id i fs = filter (\<lambda>f. rf_id f = i) fs"

definition frame_bytes :: "wire_lib \<Rightarrow> reply_frame \<Rightarrow> bytes" where
  "frame_bytes lb f =
     wl_print lb (MArr [word_out (rf_id f), MInt (rf_revision f), word_out (rf_status f),
       MBool (rf_done f), MBin (rf_data f)])"

definition frame_of :: "request \<Rightarrow> u8 \<Rightarrow> bool \<Rightarrow> bytes \<Rightarrow> reply_frame" where
  "frame_of r st fin d =
     \<lparr>rf_id = rq_id r, rf_revision = rq_revision r, rf_status = st, rf_done = fin, rf_data = d\<rparr>"

lemma reply_encode_frame: "reply_encode lb r st fin d = frame_bytes lb (frame_of r st fin d)"
  by (simp add: reply_encode_def frame_bytes_def frame_of_def)

lemma frame_of_simps [simp]:
  "rf_id (frame_of r st fin d) = rq_id r" "rf_revision (frame_of r st fin d) = rq_revision r"
  "rf_status (frame_of r st fin d) = st" "rf_done (frame_of r st fin d) = fin"
  "rf_data (frame_of r st fin d) = d"
  by (simp_all add: frame_of_def)

lemma of_id_simps [simp]:
  "of_id i [] = []" "of_id i (fs @ gs) = of_id i fs @ of_id i gs"
  "of_id i (f # fs) = (if rf_id f = i then f # of_id i fs else of_id i fs)"
  by (simp_all add: of_id_def)

lemma joined_simps [simp]:
  "joined z [] = []" "joined z (fs @ gs) = joined z fs @ joined z gs"
  "joined z (f # fs) = the (frame_data z f) @ joined z fs"
  by (simp_all add: joined_def)

lemma intact_simps [simp]:
  "intact z []" "intact z (fs @ gs) \<longleftrightarrow> intact z fs \<and> intact z gs"
  "intact z (f # fs) \<longleftrightarrow> frame_data z f \<noteq> None \<and> intact z fs"
  by (auto simp: intact_def)

lemma going_on_simps [simp]:
  "going_on []" "going_on (fs @ gs) \<longleftrightarrow> going_on fs \<and> going_on gs"
  "going_on (f # fs) \<longleftrightarrow> \<not> rf_done f \<and> going_on fs"
  by (auto simp: going_on_def)

definition in_i64 :: "int \<Rightarrow> bool" where
  "in_i64 n \<longleftrightarrow> - (2 ^ 63) \<le> n \<and> n < 2 ^ 63"

lemma i64_in_MInt [simp]: "in_i64 n \<Longrightarrow> i64_in (MInt n) = Some n"
  by (simp add: i64_in_def in_i64_def)

lemma word_in_u64 [simp]: "word_in (word_out (w :: u64)) = Some w"
  by (rule word_roundtrip)

lemma byte_in_u8 [simp]: "byte_in (word_out (w :: u8)) = Some w"
  by (simp add: byte_in_def word_roundtrip)

lemma bool_in_MBool [simp]: "bool_in (MBool b) = Some b"
  by (simp add: bool_in_def)

lemma mp_ok_word [simp]: "mp_ok n (word_out (w :: u64))" "mp_ok n (word_out (v :: u8))"
  using uint_lt2p [of w] uint_lt2p [of v]
  by (auto simp: word_out_def intro: order_trans [of _ 0])

lemma mp_ok_i64 [simp]: "in_i64 k \<Longrightarrow> mp_ok n (MInt k)"
  by (simp add: in_i64_def)

lemma bounded_decode_print:
  assumes "wire_lib_ok lb" "mp_ok 39 m" "limit \<le> MAX_DIFF" "bounded_decode lb limit f (wl_print lb m) = Some x"
  shows "f m = Some x"
proof -
  have "length (wl_print lb m) \<le> limit" using assms(4) by (auto simp: bounded_decode_def split: if_splits)
  then have "wl_parse lb (wl_print lb m @ []) = Some (m, [])"
    using assms by (intro wire_lib_okD(1)) auto
  then show ?thesis using assms(4) by (auto simp: bounded_decode_def split: if_splits)
qed

lemma parse_frame:
  assumes "wire_lib_ok lb" "in_i64 (rf_revision f)" "parse_reply lb (frame_bytes lb f) = Some g"
  shows "g = f"
proof -
  let ?m = "MArr [word_out (rf_id f), MInt (rf_revision f), word_out (rf_status f),
       MBool (rf_done f), MBin (rf_data f)]"
  obtain h where h: "bounded_decode lb (CHUNK + 32) (reply_in lb) (wl_print lb ?m) = Some h" "g = h"
    using assms(3) by (auto simp: parse_reply_def frame_bytes_def bind_eq_Some_conv split: if_splits)
  have ok: "mp_ok 39 ?m" using assms(2) by (simp add: in_i64_def)
  have le: "CHUNK + 32 \<le> MAX_DIFF" by (simp add: CHUNK_def MAX_DIFF_def)
  have "reply_in lb ?m = Some h" by (rule bounded_decode_print [OF assms(1) ok le h(1)])
  then show ?thesis using assms(2) h(2) wire_lib_okD(4) [OF assms(1)]
    by (cases f) (auto simp: reply_in_def)
qed

lemma decode_request:
  assumes "wire_lib_ok lb" "in_i64 (rq_revision r)" "request_decode lb (request_encode lb r) = Some q"
  shows "q = r"
proof -
  let ?m = "MArr [word_out (rq_id r), MInt (rq_revision r), MStr (rq_format r)]"
  obtain h where h: "bounded_decode lb 512 (request_in lb) (wl_print lb ?m) = Some h" "q = h"
    using assms(3) by (auto simp: request_decode_def request_encode_def bind_eq_Some_conv split: if_splits)
  have ok: "mp_ok 39 ?m" using assms(2) by (simp add: in_i64_def)
  have le: "512 \<le> MAX_DIFF" by (simp add: MAX_DIFF_def)
  have "request_in lb ?m = Some h" by (rule bounded_decode_print [OF assms(1) ok le h(1)])
  then show ?thesis using assms(2) h(2) wire_lib_okD(3) [OF assms(1)]
    by (cases r) (auto simp: request_in_def)
qed

section \<open>The chunks of a content\<close>

definition chunk_data :: "zlib \<Rightarrow> u8 \<times> bytes \<Rightarrow> bytes option" where
  "chunk_data z c = decompress_chunk z (fst c) (snd c)"

lemma compress_roundtrip:
  "zlib_ok z \<Longrightarrow> compress_chunk z b = Some c \<Longrightarrow> chunk_data z c = Some b"
  by (auto simp: compress_chunk_def chunk_data_def decompress_chunk_def zlib_ok_def split: if_splits)

definition chunks_join :: "zlib \<Rightarrow> (u8 \<times> bytes) list \<Rightarrow> bytes option" where
  "chunks_join z cs =
     (if list_all (\<lambda>c. chunk_data z c \<noteq> None) cs then Some (concat (map (\<lambda>c. the (chunk_data z c)) cs))
      else None)"

lemma compress_all_join:
  "zlib_ok z \<Longrightarrow> compress_all z bs = Some cs \<Longrightarrow> chunks_join z cs = Some (concat bs)"
proof (induction bs arbitrary: cs)
  case (Cons b bs)
  then obtain c ds where c: "compress_chunk z b = Some c" "compress_all z bs = Some ds" "cs = c # ds"
    by (auto simp: bind_eq_Some_conv)
  then have "chunks_join z ds = Some (concat bs)" using Cons by blast
  then show ?case using c compress_roundtrip [OF Cons.prems(1) c(1)]
    by (auto simp: chunks_join_def split: if_splits)
qed (simp add: chunks_join_def)

lemma concat_pieces: "concat (pieces_of b) = b"
proof (induction b rule: pieces_of.induct)
  case (1 b)
  then show ?case by (cases "b = []") (simp_all add: pieces_of.simps)
qed

lemma chunk_queue_join:
  assumes "zlib_ok z" "chunk_queue z b = Some cs"
  shows "cs \<noteq> [] \<and> chunks_join z cs = Some b"
proof (cases "b = []")
  case True
  then have "cs = [(0, [])]" using assms(2) by (simp add: chunk_queue_def)
  then show ?thesis using True by (simp add: chunks_join_def chunk_data_def decompress_chunk_def)
next
  case False
  then have "compress_all z (pieces_of b) = Some cs" using assms(2) by (simp add: chunk_queue_def)
  moreover have "cs \<noteq> []"
    using calculation False by (auto simp: pieces_of.simps [of b] bind_eq_Some_conv)
  ultimately show ?thesis using compress_all_join [OF assms(1)] concat_pieces by metis
qed

section \<open>The desktop's side\<close>

type_synonym clip_token = "request \<times> (u8 \<times> bytes) list option option"

text \<open>
  A request on its way to the desktop or being read has no stage yet; a reply has its remaining
  chunks, or is going to fail.
\<close>

definition token_ok :: "zlib \<Rightarrow> pasteboard \<Rightarrow> reply_frame list \<Rightarrow> clip_token \<Rightarrow> bool" where
  "token_ok z pb fs t \<longleftrightarrow>
     (case t of
        (r, None) \<Rightarrow> fs = []
      | (r, Some None) \<Rightarrow> going_on fs
      | (r, Some (Some cs)) \<Rightarrow> going_on fs \<and> intact z fs \<and> cs \<noteq> [] \<and>
          (\<exists>b d. pb_read pb (rq_revision r) (rq_format r) = Some b \<and> chunks_join z cs = Some d \<and>
             joined z fs @ d = b))"

text \<open>Only the last frame of a request ends it, and if none is broken they spell the content.\<close>

definition closed_ok :: "zlib \<Rightarrow> pasteboard \<Rightarrow> request \<Rightarrow> reply_frame list \<Rightarrow> bool" where
  "closed_ok z pb r fs \<longleftrightarrow>
     going_on (butlast fs) \<and>
     (fs \<noteq> [] \<and> rf_done (last fs) \<and> intact z fs \<longrightarrow>
        pb_read pb (rq_revision r) (rq_format r) = Some (joined z fs))"

definition desk_ok ::
  "zlib \<Rightarrow> pasteboard \<Rightarrow> request list \<Rightarrow> clip_token list \<Rightarrow> reply_frame list \<Rightarrow> bool" where
  "desk_ok z pb issued ts fs \<longleftrightarrow>
     distinct (map rq_id issued) \<and> distinct (map (rq_id \<circ> fst) ts) \<and> fst ` set ts \<subseteq> set issued \<and>
     (\<forall>t\<in>set ts. token_ok z pb (of_id (rq_id (fst t)) fs) t) \<and>
     (\<forall>r\<in>set issued. closed_ok z pb r (of_id (rq_id r) fs)) \<and>
     (\<forall>f\<in>set fs. \<exists>r\<in>set issued. rq_id r = rf_id f \<and> rq_revision r = rf_revision f)"

lemma desk_ok_mset:
  assumes "mset ts = mset ts'" "desk_ok z pb issued ts fs"
  shows "desk_ok z pb issued ts' fs"
proof -
  have "set ts = set ts'" "mset (map (rq_id \<circ> fst) ts) = mset (map (rq_id \<circ> fst) ts')"
    using assms(1) by (metis set_mset_mset, simp add: assms(1))
  then show ?thesis using assms(2) distinct_mset unfolding desk_ok_def by metis
qed

lemma desk_frame_ids:
  assumes "desk_ok z pb issued ts fs"
  shows "\<forall>f\<in>set fs. rf_id f \<in> rq_id ` set issued"
proof
  fix f assume "f \<in> set fs"
  then obtain r where "r \<in> set issued" "rq_id r = rf_id f" using assms unfolding desk_ok_def by blast
  then show "rf_id f \<in> rq_id ` set issued" by (metis image_eqI)
qed

lemma token_closed:
  assumes "token_ok z pb fs t"
  shows "going_on fs"
  using assms by (auto simp: token_ok_def split: option.splits prod.splits)

lemma closed_snoc:
  assumes "going_on fs"
  shows "closed_ok z pb r (fs @ [f]) \<longleftrightarrow>
    (rf_done f \<and> intact z fs \<and> frame_data z f \<noteq> None \<longrightarrow>
      pb_read pb (rq_revision r) (rq_format r) = Some (joined z fs @ the (frame_data z f)))"
  using assms by (auto simp: closed_ok_def)

text \<open>A frame for the first token, which moves to another stage or is finished.\<close>

lemma desk_ok_frame:
  assumes d: "desk_ok z pb issued ((r, st) # ts) fs"
    and f: "rf_id f = rq_id r" "rf_revision f = rq_revision r"
    and closed: "closed_ok z pb r (of_id (rq_id r) fs @ [f])"
    and again: "\<And>t. t \<in> set ts' \<Longrightarrow> fst t = r \<and> token_ok z pb (of_id (rq_id r) fs @ [f]) t"
    and one: "length ts' \<le> 1"
  shows "desk_ok z pb issued (ts' @ ts) (fs @ [f])"
proof -
  have r: "r \<in> set issued" "distinct (map rq_id issued)" using d by (auto simp: desk_ok_def)
  have own: "q = r" if "q \<in> set issued" "rq_id q = rq_id r" for q
    using r that by (metis (mono_tags, lifting) distinct_map inj_onD)
  have other: "rq_id (fst t) \<noteq> rq_id r" if "t \<in> set ts" for t
    using d that by (auto simp: desk_ok_def image_iff)
  have "distinct (map (rq_id \<circ> fst) (ts' @ ts))"
  proof (cases ts')
    case (Cons t us)
    then have "ts' = [t]" using one by simp
    then show ?thesis using d again [of t] other by (force simp: desk_ok_def)
  qed (use d in \<open>simp add: desk_ok_def\<close>)
  moreover have "fst ` set (ts' @ ts) \<subseteq> set issued"
    using d again r(1) by (auto simp: desk_ok_def)
  moreover have "\<forall>t\<in>set (ts' @ ts). token_ok z pb (of_id (rq_id (fst t)) (fs @ [f])) t"
    using d again other f(1) by (auto simp: desk_ok_def)
  moreover have "\<forall>q\<in>set issued. closed_ok z pb q (of_id (rq_id q) (fs @ [f]))"
  proof
    fix q assume q: "q \<in> set issued"
    show "closed_ok z pb q (of_id (rq_id q) (fs @ [f]))"
    proof (cases "rq_id q = rq_id r")
      case True
      then have "q = r" using own q by blast
      then show ?thesis using closed f(1) by simp
    next
      case False
      then show ?thesis using d q f(1) by (simp add: desk_ok_def)
    qed
  qed
  moreover have "\<forall>g\<in>set (fs @ [f]). \<exists>q\<in>set issued. rq_id q = rf_id g \<and> rq_revision q = rf_revision g"
    using d r(1) f by (auto simp: desk_ok_def)
  ultimately show ?thesis using r(2) unfolding desk_ok_def by blast
qed

section \<open>The agent's side\<close>

definition entry_faith ::
  "zlib \<Rightarrow> pasteboard \<Rightarrow> request list \<Rightarrow> reply_frame list \<Rightarrow> cache_entry \<Rightarrow> bool" where
  "entry_faith z pb issued rcvd e \<longleftrightarrow>
     (let r = ce_request e; fs = of_id (rq_id r) rcvd in
      (ce_sent e \<longrightarrow> r \<in> set issued) \<and> (\<not> ce_sent e \<longrightarrow> rq_id r \<notin> rq_id ` set issued) \<and>
      (unanswered e \<longrightarrow> ce_bytes e = joined z fs \<and> intact z fs \<and> going_on fs) \<and>
      (\<forall>b. ce_result e = Some (Inr b) \<longrightarrow> pb_read pb (rq_revision r) (rq_format r) = Some b))"

definition cache_inv ::
  "zlib \<Rightarrow> pasteboard \<Rightarrow> request list \<Rightarrow> reply_frame list \<Rightarrow> cache \<Rightarrow> bool" where
  "cache_inv z pb issued rcvd c \<longleftrightarrow>
     cache_ok c \<and> distinct (map rq_id issued) \<and>
     (\<forall>r\<in>set issued. in_i64 (rq_revision r) \<and> unat (rq_id r) \<le> unat (ca_next c)) \<and>
     distinct (map (rq_id \<circ> ce_request \<circ> snd) (ca_entries c)) \<and>
     (\<forall>x\<in>set (ca_entries c). unat (rq_id (ce_request (snd x))) \<le> unat (ca_next c) \<and>
        entry_faith z pb issued rcvd (snd x))"

lemma cache_inv_cut:
  assumes "cache_inv z pb issued rcvd c" "cache_ok c'" "ca_next c' = ca_next c"
    and "ca_entries c' = ca_entries c \<or> ca_entries c' = []"
  shows "cache_inv z pb issued rcvd c'"
  using assms by (auto simp: cache_inv_def)

lemma look_inv:
  assumes inv: "cache_inv z pb issued rcvd c" and n: "unat (ca_next c) \<le> n" "Suc n < 2 ^ 64"
    and frames: "\<forall>f\<in>set rcvd. rf_id f \<in> rq_id ` set issued"
    and look: "cache_look rv fmt deadline now c = (c', res)"
  shows "cache_inv z pb issued rcvd c' \<and> unat (ca_next c') \<le> Suc n \<and>
    (\<forall>b. res = Some (Inr b) \<longrightarrow> pb_read pb rv fmt = Some b)"
  using look
proof (cases rule: cache_look_cases)
  case same
  have "pb_read pb rv fmt = Some b" if r: "res = Some (Inr b)" for b
  proof -
    obtain e where e: "(fmt, e) \<in> set (ca_entries c)" "ce_result e = Some (Inr b)" "rv = of_revision (ca_offer c)"
      using same(2) [OF r] by blast
    moreover have "entry_ok (ca_offer c) (fmt, e)" "entry_faith z pb issued rcvd e"
      using inv e(1) by (auto simp: cache_inv_def cache_ok_def)
    ultimately show ?thesis by (simp add: entry_faith_def entry_ok_def Let_def)
  qed
  then show ?thesis using inv n same(1) by simp
next
  case added
  let ?i = "ca_next c + 1"
  have i: "unat ?i = Suc (unat (ca_next c))"
    using n by (simp add: unat_word_ariths)
  have "rq_id (ce_request (snd x)) \<noteq> ?i" if "x \<in> set (ca_entries c)" for x
    using inv that i by (auto simp: cache_inv_def)
  moreover have new: "?i \<notin> rq_id ` set issued" using inv i by (auto simp: cache_inv_def)
  moreover have "of_id ?i rcvd = []" using frames new unfolding of_id_def filter_empty_conv by metis
  then have "entry_faith z pb issued rcvd (new_entry ?i rv fmt now)"
    using new by (simp add: entry_faith_def Let_def)
  moreover have "cache_ok c'" using cache_look_ok [OF look] inv by (simp add: cache_inv_def)
  moreover have "distinct (map (rq_id \<circ> ce_request \<circ> snd) (ca_entries c'))"
  proof -
    have "?i \<notin> set (map (rq_id \<circ> ce_request \<circ> snd) (ca_entries c))"
      using calculation(1) by (metis (no_types, lifting) comp_apply image_iff list.set_map)
    then show ?thesis using inv added(1,2) by (simp add: cache_inv_def bt_insert_keys)
  qed
  moreover have "\<forall>x\<in>set (ca_entries c'). unat (rq_id (ce_request (snd x))) \<le> unat ?i \<and>
      entry_faith z pb issued rcvd (snd x)"
    using inv calculation(3) i added(1,2) by (auto simp: cache_inv_def bt_insert_mem)
  ultimately show ?thesis using inv n i added(1,3) by (auto simp: cache_inv_def)
qed

lemma polled_faith:
  assumes "entry_faith z pb issued rcvd e" "set issued \<subseteq> set issued'"
    and "to_send (expire_entry now e) \<Longrightarrow> ce_request e \<in> set issued'"
    and "\<not> to_send (expire_entry now e) \<Longrightarrow> \<not> ce_sent e \<Longrightarrow> rq_id (ce_request e) \<notin> rq_id ` set issued'"
  shows "entry_faith z pb issued' rcvd (polled now e)"
proof -
  have "ce_sent (polled now e) \<longleftrightarrow> ce_sent e \<or> to_send (expire_entry now e)"
    by (auto simp: polled_def mark_sent_def)
  then show ?thesis
    using assms polled_props(2-4) [of now e] unfolding entry_faith_def Let_def polled_request
    by (smt (verit) subsetD)
qed

lemma poll_inv:
  assumes inv: "cache_inv z pb issued rcvd c" and poll: "cache_poll now c = (c', rs)"
  shows "cache_inv z pb (issued @ rs) rcvd c'"
    and "distinct (map rq_id rs)" and "rq_id ` set rs \<inter> rq_id ` set issued = {}"
proof -
  let ?K = "\<lambda>(k, e). keep_entry now e"
  let ?S = "\<lambda>(k, e). keep_entry now e \<and> to_send (expire_entry now e)"
  note e = cache_poll_entries [OF poll]
  have rs: "rs = map (ce_request \<circ> snd) (filter ?S (ca_entries c))" using e by simp
  have sub: "distinct (map (rq_id \<circ> ce_request \<circ> snd) (filter P (ca_entries c)))" for P
    using inv by (simp add: cache_inv_def distinct_map_filter)
  show d: "distinct (map rq_id rs)" using sub [of ?S] by (simp add: rs comp_assoc)
  have unsent: "\<not> ce_sent x" if "to_send (expire_entry now x)" for x
    using that by (simp add: to_send_def)
  show fresh: "rq_id ` set rs \<inter> rq_id ` set issued = {}"
    using inv unsent by (fastforce simp: rs cache_inv_def entry_faith_def Let_def)
  have inj: "y = x" if "x \<in> set (ca_entries c)" "y \<in> set (ca_entries c)"
    "rq_id (ce_request (snd x)) = rq_id (ce_request (snd y))" for x y
    using inv that by (auto simp: cache_inv_def distinct_map inj_on_def)
  have faith: "entry_faith z pb (issued @ rs) rcvd (polled now (snd x))" if x: "x \<in> set (filter ?K (ca_entries c))" for x
  proof (rule polled_faith)
    show "entry_faith z pb issued rcvd (snd x)" using inv x by (auto simp: cache_inv_def)
    show "ce_request (snd x) \<in> set (issued @ rs)" if "to_send (expire_entry now (snd x))"
      using that x by (force simp: rs)
    show "rq_id (ce_request (snd x)) \<notin> rq_id ` set (issued @ rs)"
      if "\<not> to_send (expire_entry now (snd x))" "\<not> ce_sent (snd x)"
    proof
      assume "rq_id (ce_request (snd x)) \<in> rq_id ` set (issued @ rs)"
      moreover have "rq_id (ce_request (snd x)) \<notin> rq_id ` set issued"
        using inv x that(2) by (auto simp: cache_inv_def entry_faith_def Let_def)
      ultimately obtain y where "y \<in> set (filter ?S (ca_entries c))"
        "rq_id (ce_request (snd x)) = rq_id (ce_request (snd y))" by (auto simp: rs)
      then show False using inj [of x y] x that(1) by auto
    qed
  qed simp
  have range: "in_i64 (rq_revision r) \<and> unat (rq_id r) \<le> unat (ca_next c)" if r: "r \<in> set rs" for r
  proof -
    obtain k x where x: "(k, x) \<in> set (ca_entries c)" "r = ce_request x" using r by (auto simp: rs)
    then have "rq_revision r = of_revision (ca_offer c)"
      using inv by (auto simp: cache_inv_def cache_ok_def entry_ok_def)
    then show ?thesis using inv x by (auto simp: cache_inv_def cache_ok_def in_i64_def)
  qed
  have ids: "distinct (map (rq_id \<circ> ce_request \<circ> snd) (ca_entries c'))"
    using e sub [of ?K] by (simp add: comp_def case_prod_beta)
  have issued: "distinct (map rq_id (issued @ rs))"
    using inv d fresh unfolding cache_inv_def map_append distinct_append set_map by blast
  have ranges: "\<forall>r\<in>set (issued @ rs). in_i64 (rq_revision r) \<and> unat (rq_id r) \<le> unat (ca_next c')"
    using range inv e by (auto simp: cache_inv_def)
  have entries: "\<forall>x\<in>set (ca_entries c'). unat (rq_id (ce_request (snd x))) \<le> unat (ca_next c') \<and>
      entry_faith z pb (issued @ rs) rcvd (snd x)"
  proof
    fix y assume "y \<in> set (ca_entries c')"
    then obtain x where x: "x \<in> set (filter ?K (ca_entries c))" "y = map_prod id (polled now) x"
      using e by auto
    then have "unat (rq_id (ce_request (snd x))) \<le> unat (ca_next c)" using inv by (auto simp: cache_inv_def)
    then show "unat (rq_id (ce_request (snd y))) \<le> unat (ca_next c') \<and>
      entry_faith z pb (issued @ rs) rcvd (snd y)"
      using faith [OF x(1)] x(2) e by (cases x) simp
  qed
  have "cache_ok c'" using cache_poll_ok [OF poll] inv by (simp add: cache_inv_def)
  then show "cache_inv z pb (issued @ rs) rcvd c'"
    using issued ranges ids entries unfolding cache_inv_def by (intro conjI)
qed

lemma desk_ok_issue:
  assumes "desk_ok z pb issued ts fs" "distinct (map rq_id rs)"
    and "rq_id ` set rs \<inter> rq_id ` set issued = {}"
  shows "desk_ok z pb (issued @ rs) (ts @ map (\<lambda>r. (r, None)) rs) fs"
proof -
  have none: "of_id (rq_id r) fs = []" if r: "r \<in> set rs" for r
  proof -
    have "rq_id r \<notin> rq_id ` set issued" using assms(3) r by auto
    moreover have "\<forall>f\<in>set fs. rf_id f \<in> rq_id ` set issued"
      using desk_frame_ids [OF assms(1)] .
    ultimately show ?thesis unfolding of_id_def filter_empty_conv by metis
  qed
  have ids: "rq_id (fst t) \<in> rq_id ` set issued" if "t \<in> set ts" for t
    using assms(1) that by (auto simp: desk_ok_def)
  have "map (rq_id \<circ> fst) (ts @ map (\<lambda>r. (r, None)) rs) = map (rq_id \<circ> fst) ts @ map rq_id rs"
    by simp
  moreover have "set (map (rq_id \<circ> fst) ts) \<inter> set (map rq_id rs) = {}"
    using ids assms(3) by auto
  ultimately have "distinct (map (rq_id \<circ> fst) (ts @ map (\<lambda>r. (r, None)) rs))"
    using assms(1) [unfolded desk_ok_def] assms(2) by (simp only: distinct_append simp_thms)
  moreover have "distinct (map rq_id (issued @ rs))"
    using assms unfolding desk_ok_def map_append distinct_append set_map by blast
  moreover have "fst ` set (ts @ map (\<lambda>r. (r, None)) rs) \<subseteq> set (issued @ rs)"
    using assms(1) by (auto simp: desk_ok_def)
  moreover have "token_ok z pb (of_id (rq_id (fst t)) fs) t"
    if "t \<in> set (ts @ map (\<lambda>r. (r, None)) rs)" for t
    using that assms(1) none by (auto simp: desk_ok_def token_ok_def)
  moreover have "closed_ok z pb r (of_id (rq_id r) fs)" if "r \<in> set (issued @ rs)" for r
    using that assms(1) none by (auto simp: desk_ok_def closed_ok_def)
  moreover have "\<forall>f\<in>set fs. \<exists>r\<in>set (issued @ rs). rq_id r = rf_id f \<and> rq_revision r = rf_revision f"
    using assms(1) by (auto simp: desk_ok_def)
  ultimately show ?thesis unfolding desk_ok_def by blast
qed

text \<open>A frame arrives.\<close>

lemma accept_faith:
  assumes e: "entry_faith z pb issued rcvd e" and aw: "awaits (rf_id f) e" and b: "frame_data z f = Some b"
    and desk: "desk_ok z pb issued ts (rcvd @ f # pend)"
  shows "entry_faith z pb issued (rcvd @ [f]) (accept_bytes b (rf_done f) e)"
proof -
  let ?r = "ce_request e"
  let ?fs = "of_id (rq_id ?r) rcvd"
  have i: "rf_id f = rq_id ?r" "unanswered e" using aw by (auto simp: awaits_def)
  have "rf_id f \<in> rq_id ` set issued" using desk by (auto simp: desk_ok_def image_iff) metis
  then have sent: "ce_sent e" using e i(1) by (auto simp: entry_faith_def Let_def)
  then have r: "?r \<in> set issued" using e by (simp add: entry_faith_def Let_def)
  have got: "ce_bytes e = joined z ?fs" "intact z ?fs" "going_on ?fs"
    using e i(2) by (simp_all add: entry_faith_def Let_def)
  show ?thesis
  proof (cases "rf_done f")
    case False
    then show ?thesis using sent r got b i(1)
      by (simp add: entry_faith_def Let_def accept_bytes_def unanswered_def i(2) [unfolded unanswered_def])
  next
    case True
    have c: "closed_ok z pb ?r (?fs @ f # of_id (rq_id ?r) pend)"
      using desk r i(1) by (auto simp: desk_ok_def)
    have "of_id (rq_id ?r) pend = []"
    proof (rule ccontr)
      assume "of_id (rq_id ?r) pend \<noteq> []"
      then have "f \<in> set (butlast (?fs @ f # of_id (rq_id ?r) pend))" by (simp add: butlast_append)
      then show False using c True by (auto simp: closed_ok_def going_on_def)
    qed
    then have "pb_read pb (rq_revision ?r) (rq_format ?r) = Some (joined z ?fs @ b)"
      using c closed_snoc [OF got(3)] True got(2) b by auto
    then show ?thesis using sent r got(1) True
      by (simp add: entry_faith_def Let_def accept_bytes_def unanswered_def)
  qed
qed

lemma fail_faith:
  "entry_faith z pb issued rcvd e \<Longrightarrow> entry_faith z pb issued rcvd' (fail_entry now e)"
  by (auto simp: entry_faith_def Let_def fail_entry_def unanswered_def)

lemma other_faith:
  "entry_faith z pb issued rcvd e \<Longrightarrow> \<not> awaits (rf_id f) e \<Longrightarrow> entry_faith z pb issued (rcvd @ [f]) e"
  by (auto simp: entry_faith_def Let_def awaits_def)

lemma receive_inv:
  assumes lb: "wire_lib_ok lb" and inv: "cache_inv z pb issued rcvd c"
    and desk: "desk_ok z pb issued ts (rcvd @ f # pend)"
    and reply: "cache_reply lb z now (frame_bytes lb f) c = Some c'"
  shows "cache_inv z pb issued (rcvd @ [f]) c' \<and> ca_next c' = ca_next c"
proof -
  obtain r where r: "r \<in> set issued" "rq_id r = rf_id f" "rq_revision r = rf_revision f"
    using desk by (auto simp: desk_ok_def)
  then have "in_i64 (rf_revision f)" using inv by (auto simp: cache_inv_def)
  note parse = parse_frame [OF lb this]
  have own: "q = r" if "q \<in> set issued" "rq_id q = rf_id f" for q
    using inv r that by (metis (mono_tags, lifting) cache_inv_def distinct_map inj_onD)
  from reply show ?thesis
  proof (cases rule: cache_reply_cases)
    case (same g)
    then have g: "g = f" using parse by simp
    have "\<not> awaits (rf_id f) (snd x)" if x: "x \<in> set (ca_entries c)" for x
    proof
      assume a: "awaits (rf_id f) (snd x)"
      have "entry_faith z pb issued rcvd (snd x)" "entry_ok (ca_offer c) x"
        using inv x by (auto simp: cache_inv_def cache_ok_def)
      moreover have "rf_id f \<in> rq_id ` set issued" using r by (metis image_eqI)
      ultimately have "ce_request (snd x) \<in> set issued" "rq_revision (ce_request (snd x)) = of_revision (ca_offer c)"
        using a by (auto simp: entry_faith_def entry_ok_def Let_def awaits_def split: prod.splits)
      then have "rf_revision f = of_revision (ca_offer c)" using own r(3) a by (auto simp: awaits_def)
      then show False using same(3) a x by (auto simp: g)
    qed
    then show ?thesis using inv same(2) other_faith by (auto simp: cache_inv_def)
  next
    case (effect g)
    then have "g = f" using parse by simp
    then obtain P h where c': "c' = c\<lparr>ca_entries := update_entry (awaits (rf_id f)) h (filter P (ca_entries c))\<rparr>"
      and h: "h = fail_entry now \<or> (\<exists>b. frame_data z f = Some b \<and> h = accept_bytes b (rf_done f))"
      using effect(2) by (auto simp: reply_effect_def frame_data_def)
    let ?es = "update_entry (awaits (rf_id f)) h (filter P (ca_entries c))"
    have ids: "distinct (map (rq_id \<circ> ce_request \<circ> snd) (filter P (ca_entries c)))"
      using inv by (simp add: cache_inv_def distinct_map_filter)
    have req: "ce_request (h e) = ce_request e" for e using h by auto
    have eq: "map (rq_id \<circ> ce_request \<circ> snd) ?es = map (rq_id \<circ> ce_request \<circ> snd) (filter P (ca_entries c))"
      using update_entry_requests [of h "\<lambda>k r. rq_id r", OF req] by (simp add: comp_def)
    have "unat (rq_id (ce_request (snd x))) \<le> unat (ca_next c) \<and> entry_faith z pb issued (rcvd @ [f]) (snd x)"
      if x: "x \<in> set ?es" for x
    proof -
      obtain k e' where k: "x = (k, e')" by fastforce
      consider (hit) e where "(k, e) \<in> set (ca_entries c)" "awaits (rf_id f) e" "e' = h e"
        | (miss) "(k, e') \<in> set (ca_entries c)" "\<not> awaits (rf_id f) e'"
        using update_entry_mem [OF x [unfolded k] ids] awaits_request by auto
      then show ?thesis
      proof cases
        case hit
        have "entry_faith z pb issued rcvd e" "unat (rq_id (ce_request e)) \<le> unat (ca_next c)"
          using inv hit(1) by (auto simp: cache_inv_def)
        then show ?thesis using h hit fail_faith accept_faith [OF _ hit(2) _ desk] by (auto simp: k)
      next
        case miss
        then show ?thesis using inv other_faith [of z pb issued rcvd e' f] by (auto simp: cache_inv_def k)
      qed
    qed
    moreover have "cache_ok c'" using reply_effect_ok [OF effect(2)] inv by (simp add: cache_inv_def)
    ultimately show ?thesis using inv eq ids by (simp add: cache_inv_def c')
  qed
qed

section \<open>The session\<close>

definition tokens :: "request list \<Rightarrow> clip_session \<Rightarrow> clip_token list" where
  "tokens ups x =
     map (\<lambda>r. (r, None)) (ups @ cx_reads x) @
     map (\<lambda>p. (cr_request p, Some (cr_chunks p))) (cx_read x @ cx_replies x)"

definition answers_ok :: "pasteboard \<Rightarrow> clip_session \<Rightarrow> bool" where
  "answers_ok pb x \<longleftrightarrow> (\<forall>(rv, fmt, b)\<in>set (cx_answers x). pb_read pb rv fmt = Some b)"

text \<open>The invariant, for the requests issued, those on their way, and the frames received and not.\<close>

definition session_at ::
  "wire_lib \<Rightarrow> zlib \<Rightarrow> pasteboard \<Rightarrow> nat \<Rightarrow> request list \<Rightarrow> request list \<Rightarrow> reply_frame list \<Rightarrow>
   reply_frame list \<Rightarrow> clip_session \<Rightarrow> bool" where
  "session_at lb z pb n issued ups rcvd pend x \<longleftrightarrow>
     cache_inv z pb issued rcvd (cx_cache x) \<and> unat (ca_next (cx_cache x)) \<le> n \<and>
     desk_ok z pb issued (tokens ups x) (rcvd @ pend) \<and>
     cx_up x = map (request_encode lb) ups \<and>
     map snd (filter (\<lambda>f. fst f = DATA_KIND) (cx_down x)) = map (frame_bytes lb) pend \<and>
     answers_ok pb x"

definition session_inv :: "wire_lib \<Rightarrow> zlib \<Rightarrow> pasteboard \<Rightarrow> nat \<Rightarrow> clip_session \<Rightarrow> bool" where
  "session_inv lb z pb n x \<longleftrightarrow>
     (\<exists>issued ups rcvd pend. session_at lb z pb n issued ups rcvd pend x)"

lemma session_start_inv: "session_inv lb z pb 0 (session_start r)"
proof -
  have "session_at lb z pb 0 [] [] [] [] (session_start r)"
    using cache_new_ok
    by (simp add: session_at_def session_start_def cache_inv_def desk_ok_def tokens_def answers_ok_def)
      (simp add: cache_new_def)
  then show ?thesis unfolding session_inv_def by blast
qed

lemma session_at_mono: "session_at lb z pb n issued ups rcvd pend x \<Longrightarrow> n \<le> m \<Longrightarrow> session_at lb z pb m issued ups rcvd pend x"
  by (simp add: session_at_def)

lemma tokens_simps [simp]:
  "tokens ups (x\<lparr>cx_cache := c\<rparr>) = tokens ups x" "tokens ups (x\<lparr>cx_up := u\<rparr>) = tokens ups x"
  "tokens ups (x\<lparr>cx_down := dn\<rparr>) = tokens ups x" "tokens ups (x\<lparr>cx_revision := r\<rparr>) = tokens ups x"
  "tokens ups (x\<lparr>cx_previous := p\<rparr>) = tokens ups x" "tokens ups (x\<lparr>cx_answers := a\<rparr>) = tokens ups x"
  by (simp_all add: tokens_def)

text \<open>What a turn of the reply queue sends and keeps.\<close>

lemma turn_token:
  assumes tok: "token_ok z pb fs (cr_request p, Some (cr_chunks p))"
    and turn: "reply_turn lb current p = (d, again)"
  shows "\<exists>f. d = frame_bytes lb f \<and> rf_id f = rq_id (cr_request p) \<and>
    rf_revision f = rq_revision (cr_request p) \<and> closed_ok z pb (cr_request p) (fs @ [f]) \<and>
    (\<forall>q. again = Some q \<longrightarrow> cr_request q = cr_request p \<and>
       token_ok z pb (fs @ [f]) (cr_request p, Some (cr_chunks q)))"
proof -
  let ?r = "cr_request p"
  have on: "going_on fs" by (rule token_closed [OF tok])
  show ?thesis
  proof (cases "current = Some (rq_revision ?r) \<and> cr_chunks p \<noteq> None")
    case False
    let ?f = "frame_of ?r 1 True []"
    have "d = frame_bytes lb ?f" "again = None"
      using turn False by (auto simp: reply_turn_def Let_def reply_encode_frame split: if_splits option.splits)
    moreover have "frame_data z ?f = None" by (simp add: frame_data_def decompress_chunk_def)
    ultimately show ?thesis using on by (intro exI [of _ ?f]) (simp add: closed_snoc)
  next
    case True
    then obtain c cs where cs: "cr_chunks p = Some (c # cs)"
      using tok by (auto simp: token_ok_def neq_Nil_conv split: option.splits)
    then obtain b e where b: "pb_read pb (rq_revision ?r) (rq_format ?r) = Some b"
      "chunks_join z (c # cs) = Some e" "joined z fs @ e = b" "intact z fs"
      using tok by (auto simp: token_ok_def)
    let ?f = "frame_of ?r (fst c) (cs = []) (snd c)"
    have fd: "frame_data z ?f = chunk_data z c" by (simp add: frame_data_def chunk_data_def)
    obtain b1 e' where j: "chunk_data z c = Some b1" "chunks_join z cs = Some e'" "e = b1 @ e'"
      using b(2) by (auto simp: chunks_join_def split: if_splits)
    have d: "d = frame_bytes lb ?f"
      using turn True cs by (cases c) (auto simp: reply_turn_def Let_def reply_encode_frame split: if_splits)
    have again: "again = (if cs = [] then None else Some (p\<lparr>cr_chunks := Some cs\<rparr>))"
      using turn True cs by (cases c) (auto simp: reply_turn_def Let_def split: if_splits)
    have "closed_ok z pb ?r (fs @ [?f])"
      using b j fd by (auto simp: closed_snoc [OF on] chunks_join_def)
    moreover have "token_ok z pb (fs @ [?f]) (?r, Some (Some cs))" if "cs \<noteq> []"
      using that b j fd on by (simp add: token_ok_def)
    ultimately show ?thesis using d again by (intro exI [of _ ?f]) simp
  qed
qed

lemma read_token:
  assumes "zlib_ok z"
  shows "token_ok z pb [] (r, Some (cr_chunks (read_requested pb z current r)))"
proof (cases "cr_chunks (read_requested pb z current r)")
  case None
  then show ?thesis by (simp add: token_ok_def)
next
  case (Some cs)
  then obtain b where "requested_bytes pb current r = Some b" "chunk_queue z b = Some cs"
    by (auto simp: read_requested_def bind_eq_Some_conv)
  moreover from this(1) have "pb_read pb (rq_revision r) (rq_format r) = Some b"
    by (auto simp: requested_bytes_def bind_eq_Some_conv split: if_splits)
  ultimately show ?thesis using Some chunk_queue_join [OF assms] by (simp add: token_ok_def)
qed

lemma tokens_move:
  assumes "desk_ok z pb issued (tokens ups x) fs" "mset (tokens ups' y) = mset (tokens ups x)"
  shows "desk_ok z pb issued (tokens ups' y) fs"
  using desk_ok_mset [OF _ assms(1)] assms(2) by simp

text \<open>A request that is read moves to another stage; no frame was sent for it yet.\<close>

lemma desk_ok_stage:
  assumes "desk_ok z pb issued ((r, None) # ts) fs"
    and "\<And>gs. gs = [] \<Longrightarrow> token_ok z pb gs (r, st)"
  shows "desk_ok z pb issued ((r, st) # ts) fs"
proof -
  have "of_id (rq_id r) fs = []" using assms(1) by (simp add: desk_ok_def token_ok_def)
  then show ?thesis using assms by (simp add: desk_ok_def)
qed

lemma refuse_closed:
  "closed_ok z pb r ([] @ [frame_of r 1 True []])"
  by (simp add: closed_ok_def intact_def frame_data_def decompress_chunk_def)

text \<open>One lemma per kind of step.\<close>

lemma session_at_inv: "session_at lb z pb n issued ups rcvd pend x \<Longrightarrow> session_inv lb z pb n x"
  unfolding session_inv_def by blast

lemma look_step:
  assumes inv: "session_at lb z pb n issued ups rcvd pend x" and n: "Suc n < 2 ^ 64"
    and look: "cache_look rv fmt deadline now (cx_cache x) = (c, res)"
  shows "session_inv lb z pb (Suc n) (note_answer rv fmt res (x\<lparr>cx_cache := c\<rparr>))"
proof (rule session_at_inv)
  have "\<forall>f\<in>set rcvd. rf_id f \<in> rq_id ` set issued"
    using inv desk_frame_ids unfolding session_at_def by (metis Un_iff set_append)
  then have "cache_inv z pb issued rcvd c \<and> unat (ca_next c) \<le> Suc n \<and>
      (\<forall>b. res = Some (Inr b) \<longrightarrow> pb_read pb rv fmt = Some b)"
    by (intro look_inv [OF _ _ n _ look]) (use inv in \<open>simp_all add: session_at_def\<close>)
  then show "session_at lb z pb (Suc n) issued ups rcvd pend (note_answer rv fmt res (x\<lparr>cx_cache := c\<rparr>))"
    using inv by (auto simp: session_at_def note_answer_def answers_ok_def split: option.splits sum.splits)
qed

lemma poll_step:
  assumes inv: "session_at lb z pb n issued ups rcvd pend x"
    and poll: "cache_poll now (cx_cache x) = (c, rs)"
  shows "session_inv lb z pb (Suc n) (x\<lparr>cx_cache := c, cx_up := cx_up x @ map (request_encode lb) rs\<rparr>)"
proof (rule session_at_inv)
  have ci: "cache_inv z pb issued rcvd (cx_cache x)" using inv by (simp add: session_at_def)
  note p = poll_inv [OF ci poll]
  have "desk_ok z pb (issued @ rs) (tokens ups x @ map (\<lambda>r. (r, None)) rs) (rcvd @ pend)"
    by (rule desk_ok_issue) (use inv p in \<open>simp_all add: session_at_def\<close>)
  then have "desk_ok z pb (issued @ rs) (tokens (ups @ rs) x) (rcvd @ pend)"
    by (rule desk_ok_mset [rotated]) (simp add: tokens_def)
  moreover have "ca_next c = ca_next (cx_cache x)" using cache_poll_entries [OF poll] by simp
  ultimately show "session_at lb z pb (Suc n) (issued @ rs) (ups @ rs) rcvd pend
      (x\<lparr>cx_cache := c, cx_up := cx_up x @ map (request_encode lb) rs\<rparr>)"
    using inv p(1) by (auto simp: session_at_def answers_ok_def)
qed

lemma offer_step:
  assumes inv: "session_at lb z pb n issued ups rcvd pend x"
    and down: "cx_down x = (OFFER_KIND, d) # fs"
    and frame: "agent_frame lb z now (OFFER_KIND, d) (cx_cache x) = Some c"
  shows "session_inv lb z pb (Suc n) (x\<lparr>cx_cache := c, cx_down := fs\<rparr>)"
proof (rule session_at_inv)
  have ci: "cache_inv z pb issued rcvd (cx_cache x)" using inv by (simp add: session_at_def)
  have ok: "cache_ok c" using agent_frame_ok [OF frame] ci by (simp add: cache_inv_def)
  have cut: "ca_next c = ca_next (cx_cache x) \<and> (ca_entries c = ca_entries (cx_cache x) \<or> ca_entries c = [])"
    using frame by (auto simp: agent_frame_def cache_update_def Let_def)
  then have "cache_inv z pb issued rcvd c" using cache_inv_cut [OF ci ok] by blast
  moreover have "OFFER_KIND \<noteq> DATA_KIND" by (simp add: OFFER_KIND_def DATA_KIND_def)
  ultimately show "session_at lb z pb (Suc n) issued ups rcvd pend (x\<lparr>cx_cache := c, cx_down := fs\<rparr>)"
    using inv cut down by (auto simp: session_at_def answers_ok_def)
qed

lemma data_step:
  assumes inv: "session_at lb z pb n issued ups rcvd pend x" and lb: "wire_lib_ok lb"
    and down: "cx_down x = (DATA_KIND, d) # fs"
    and reply: "cache_reply lb z now d (cx_cache x) = Some c"
  shows "session_inv lb z pb (Suc n) (x\<lparr>cx_cache := c, cx_down := fs\<rparr>)"
proof -
  obtain g pend' where p: "pend = g # pend'" "d = frame_bytes lb g"
    "map snd (filter (\<lambda>f. fst f = DATA_KIND) fs) = map (frame_bytes lb) pend'"
    using inv down by (auto simp: session_at_def)
  have desk: "desk_ok z pb issued (tokens ups x) (rcvd @ g # pend')"
    and ci: "cache_inv z pb issued rcvd (cx_cache x)"
    using inv p(1) by (simp_all add: session_at_def)
  note r = receive_inv [OF lb ci desk reply [unfolded p(2)]]
  have "session_at lb z pb (Suc n) issued ups (rcvd @ [g]) pend' (x\<lparr>cx_cache := c, cx_down := fs\<rparr>)"
    using inv r p desk by (auto simp: session_at_def answers_ok_def)
  then show ?thesis by (rule session_at_inv)
qed

lemma up_request:
  assumes inv: "session_at lb z pb n issued ups rcvd pend x" and lb: "wire_lib_ok lb"
    and up: "cx_up x = b # bs" "request_decode lb b = Some r"
  obtains ups' where "ups = r # ups'" "bs = map (request_encode lb) ups'"
proof -
  obtain q ups' where q: "ups = q # ups'" "b = request_encode lb q" "bs = map (request_encode lb) ups'"
    using inv up(1) by (auto simp: session_at_def)
  have "q \<in> set issued" using inv q(1) by (auto simp: session_at_def desk_ok_def tokens_def)
  then have "r = q" using inv decode_request [OF lb] up(2) q(2)
    by (auto simp: session_at_def cache_inv_def)
  then show thesis using that q by simp
qed

lemma accept_step:
  assumes inv: "session_at lb z pb n issued ups rcvd pend x" and lb: "wire_lib_ok lb"
    and up: "cx_up x = b # bs" "request_decode lb b = Some r"
  shows "session_inv lb z pb (Suc n) (x\<lparr>cx_up := bs, cx_reads := cx_reads x @ [r]\<rparr>)"
proof -
  obtain ups' where q: "ups = r # ups'" "bs = map (request_encode lb) ups'"
    by (rule up_request [OF inv lb up])
  have "desk_ok z pb issued (tokens ups' (x\<lparr>cx_up := bs, cx_reads := cx_reads x @ [r]\<rparr>)) (rcvd @ pend)"
    by (rule tokens_move [of z pb issued ups x])
      (use inv in \<open>simp_all add: session_at_def, simp add: tokens_def q(1)\<close>)
  then have "session_at lb z pb (Suc n) issued ups' rcvd pend (x\<lparr>cx_up := bs, cx_reads := cx_reads x @ [r]\<rparr>)"
    using inv q by (auto simp: session_at_def answers_ok_def)
  then show ?thesis by (rule session_at_inv)
qed

lemma refuse_step:
  assumes inv: "session_at lb z pb n issued ups rcvd pend x" and lb: "wire_lib_ok lb"
    and up: "cx_up x = b # bs" "request_decode lb b = Some r"
  shows "session_inv lb z pb (Suc n)
    (x\<lparr>cx_up := bs, cx_down := cx_down x @ [(DATA_KIND, reply_encode lb r 1 True [])]\<rparr>)"
proof -
  obtain ups' where q: "ups = r # ups'" "bs = map (request_encode lb) ups'"
    by (rule up_request [OF inv lb up])
  have d: "desk_ok z pb issued ((r, None) # tokens ups' x) (rcvd @ pend)"
    by (rule desk_ok_mset [of "tokens ups x"])
      (use inv in \<open>simp_all add: session_at_def, simp add: tokens_def q(1)\<close>)
  then have none: "of_id (rq_id r) (rcvd @ pend) = []" by (simp add: desk_ok_def token_ok_def)
  have "desk_ok z pb issued ([] @ tokens ups' x) ((rcvd @ pend) @ [frame_of r 1 True []])"
    by (rule desk_ok_frame [OF d]) (simp_all only: frame_of_simps none refuse_closed, simp_all)
  then have "session_at lb z pb (Suc n) issued ups' rcvd (pend @ [frame_of r 1 True []])
      (x\<lparr>cx_up := bs, cx_down := cx_down x @ [(DATA_KIND, reply_encode lb r 1 True [])]\<rparr>)"
    using inv q by (auto simp: session_at_def answers_ok_def reply_encode_frame)
  then show ?thesis by (rule session_at_inv)
qed

lemma read_step:
  assumes inv: "session_at lb z pb n issued ups rcvd pend x" and reads: "cx_reads x = as @ r # bs"
    and tok: "token_ok z pb [] (r, Some (cr_chunks p))" and p: "cr_request p = r"
  shows "session_inv lb z pb (Suc n) (x\<lparr>cx_reads := as @ bs, cx_read := cx_read x @ [p]\<rparr>)"
proof (rule session_at_inv)
  let ?x = "x\<lparr>cx_reads := as @ bs\<rparr>" and ?y = "x\<lparr>cx_reads := as @ bs, cx_read := cx_read x @ [p]\<rparr>"
  have d: "desk_ok z pb issued ((r, None) # tokens ups ?x) (rcvd @ pend)"
    by (rule desk_ok_mset [of "tokens ups x"])
      (use inv in \<open>simp_all add: session_at_def, simp add: tokens_def reads\<close>)
  have "desk_ok z pb issued ((r, Some (cr_chunks p)) # tokens ups ?x) (rcvd @ pend)"
    by (rule desk_ok_stage [OF d]) (use tok in simp)
  then have "desk_ok z pb issued (tokens ups ?y) (rcvd @ pend)"
    by (rule desk_ok_mset [rotated]) (simp add: tokens_def p)
  then show "session_at lb z pb (Suc n) issued ups rcvd pend ?y"
    using inv by (auto simp: session_at_def answers_ok_def)
qed

lemma turn_step:
  assumes inv: "session_at lb z pb n issued ups rcvd pend x" and replies: "cx_replies x = p # ps"
    and turn: "reply_turn lb current p = (d, again)"
  shows "session_inv lb z pb (Suc n) (x\<lparr>cx_down := cx_down x @ [(DATA_KIND, d)],
    cx_replies := ps @ (case again of None \<Rightarrow> [] | Some q \<Rightarrow> [q])\<rparr>)"
proof -
  let ?x = "x\<lparr>cx_replies := ps\<rparr>" and ?r = "cr_request p"
  let ?y = "x\<lparr>cx_down := cx_down x @ [(DATA_KIND, d)],
    cx_replies := ps @ (case again of None \<Rightarrow> [] | Some q \<Rightarrow> [q])\<rparr>"
  have dk: "desk_ok z pb issued ((?r, Some (cr_chunks p)) # tokens ups ?x) (rcvd @ pend)"
    by (rule desk_ok_mset [of "tokens ups x"])
      (use inv in \<open>simp_all add: session_at_def, simp add: tokens_def replies\<close>)
  then have "token_ok z pb (of_id (rq_id ?r) (rcvd @ pend)) (?r, Some (cr_chunks p))"
    by (simp add: desk_ok_def)
  from turn_token [OF this turn] obtain f where f: "d = frame_bytes lb f"
    "rf_id f = rq_id ?r" "rf_revision f = rq_revision ?r"
    "closed_ok z pb ?r (of_id (rq_id ?r) (rcvd @ pend) @ [f])"
    "\<And>q. again = Some q \<Longrightarrow> cr_request q = ?r \<and>
       token_ok z pb (of_id (rq_id ?r) (rcvd @ pend) @ [f]) (?r, Some (cr_chunks q))" by blast
  define ts where "ts = (case again of None \<Rightarrow> [] | Some q \<Rightarrow> [(?r, Some (cr_chunks q))])"
  have ts: "fst t = ?r \<and> token_ok z pb (of_id (rq_id ?r) (rcvd @ pend) @ [f]) t" if t: "t \<in> set ts" for t
  proof -
    obtain q where "again = Some q" "t = (?r, Some (cr_chunks q))"
      using t by (cases again) (simp_all add: ts_def)
    then show ?thesis using f(5) [of q] by simp
  qed
  have one: "length ts \<le> 1" by (cases again) (simp_all add: ts_def)
  have kept: "tokens ups ?y = tokens ups ?x @ ts"
  proof (cases again)
    case (Some q)
    then show ?thesis using f(5) [OF Some] by (simp add: tokens_def ts_def)
  qed (simp add: tokens_def ts_def)
  have "desk_ok z pb issued (ts @ tokens ups ?x) ((rcvd @ pend) @ [f])"
    by (rule desk_ok_frame [OF dk f(2,3,4) ts one])
  then have "desk_ok z pb issued (tokens ups ?y) ((rcvd @ pend) @ [f])"
    unfolding kept by (rule desk_ok_mset [rotated]) simp
  then have "session_at lb z pb (Suc n) issued ups rcvd (pend @ [f]) ?y"
    using inv f(1) by (auto simp: session_at_def answers_ok_def)
  then show ?thesis by (rule session_at_inv)
qed

lemma session_step:
  assumes "clip_step lb z pb x y" and lb: "wire_lib_ok lb" and z: "zlib_ok z"
    and "session_inv lb z pb n x" and n: "Suc n < 2 ^ 64"
  shows "session_inv lb z pb (Suc n) y"
proof -
  obtain issued ups rcvd pend where inv: "session_at lb z pb n issued ups rcvd pend x"
    using assms(4) by (auto simp: session_inv_def)
  have same: "session_inv lb z pb (Suc n) y" if "session_at lb z pb n issued ups rcvd pend y" for y
    by (rule session_at_inv [OF session_at_mono [OF that]]) simp
  have ci: "cache_inv z pb issued rcvd (cx_cache x)" using inv by (simp add: session_at_def)
  have close: "cache_inv z pb issued rcvd (cache_close (cx_cache x))"
    by (rule cache_inv_cut [OF ci]) (use ci cache_close_ok in \<open>auto simp: cache_inv_def cache_close_def\<close>)
  have kinds: "OFFER_KIND \<noteq> DATA_KIND" by (simp add: OFFER_KIND_def DATA_KIND_def)
  show ?thesis using assms(1)
  proof cases
    case (agent_receives f fs now c)
    then obtain k d where f: "f = (k, d)" "k = OFFER_KIND \<or> k = DATA_KIND"
      by (cases f) (auto simp: agent_frame_def split: if_splits)
    then show ?thesis
      using agent_receives offer_step [OF inv] data_step [OF inv lb] kinds
      by (auto simp: agent_frame_def split: if_splits)
  next
    case (read_joined as r bs)
    have "desk_ok z pb issued (tokens ups y) (rcvd @ pend)"
      by (rule tokens_move [of z pb issued ups x])
        (use inv read_joined in \<open>simp_all add: session_at_def tokens_def\<close>)
    then show ?thesis using inv read_joined by (intro same) (auto simp: session_at_def answers_ok_def)
  next
    case (read_finishes as r bs)
    then show ?thesis using read_step [OF inv] read_token [OF z] by (auto simp: read_requested_def)
  next
    case (read_fails as r bs)
    then show ?thesis using read_step [OF inv] by (auto simp: token_ok_def)
  next
    case agent_closes
    then show ?thesis using inv close
      by (intro same) (auto simp: session_at_def answers_ok_def cache_close_def)
  next
    case (reader_looks rv fmt deadline now c res)
    then show ?thesis using look_step [OF inv n] by simp
  next
    case (agent_polls now c rs)
    then show ?thesis using poll_step [OF inv] by simp
  next
    case (desktop_accepts b bs r)
    then show ?thesis using accept_step [OF inv lb] by simp
  next
    case (desktop_refuses b bs r)
    then show ?thesis using refuse_step [OF inv lb] by simp
  next
    case (desktop_replies p ps current d again)
    then show ?thesis using turn_step [OF inv] by simp
  qed (use inv kinds in \<open>auto intro!: same simp: session_at_def answers_ok_def\<close>)
qed

lemma session_run:
  assumes "(clip_step lb z pb ^^ n) (session_start r) x" "wire_lib_ok lb" "zlib_ok z" "n < 2 ^ 64"
  shows "session_inv lb z pb n x"
  using assms(1,4)
proof (induction n arbitrary: x)
  case 0
  then show ?case using session_start_inv by auto
next
  case (Suc n)
  then obtain y where "(clip_step lb z pb ^^ n) (session_start r) y" "clip_step lb z pb y x" by auto
  then show ?case using Suc session_step assms(2,3) by simp
qed

end
