(* ===== verification/ClipClaims.thy ===== *)
theory ClipClaims
  imports ClipFaith WireSample
begin

text \<open>
  The properties of a clipboard session, with a complete session as their witness: the desktop
  offers a revision, a reader asks for a format, and gets its content.
\<close>

section \<open>A concrete session\<close>

definition sample_zlib :: zlib where
  "sample_zlib = \<lparr>zl_deflate = (\<lambda>b. b), zl_inflate = (\<lambda>b cap. Some (True, length b, b))\<rparr>"

lemma sample_zlib_ok: "zlib_ok sample_zlib"
  by (simp add: zlib_ok_def sample_zlib_def)

definition sample_board :: pasteboard where
  "sample_board = \<lparr>pb_formats = (\<lambda>r. [''t'']), pb_read = (\<lambda>r f. if r = 1 then Some ''hi'' else None)\<rparr>"

definition sample_offer :: offer where
  "sample_offer = \<lparr>of_revision = 1, of_formats = [''t'']\<rparr>"

definition sample_request :: request where
  "sample_request = \<lparr>rq_id = 1, rq_revision = 1, rq_format = ''t''\<rparr>"

definition sample_reply :: clip_reply where
  "sample_reply = \<lparr>cr_request = sample_request, cr_chunks = Some [(0, ''hi'')]\<rparr>"

definition sample_data :: bytes where
  "sample_data = reply_encode sample_wire sample_request 0 True ''hi''"

definition sample_cache :: "bool \<Rightarrow> (unit + bytes) option \<Rightarrow> cache" where
  "sample_cache sent res = \<lparr>ca_offer = sample_offer,
     ca_entries = [(''t'', \<lparr>ce_request = sample_request, ce_sent = sent, ce_started = 0, ce_bytes = [],
       ce_result = res\<rparr>)], ca_next = 1, ca_closed = False\<rparr>"

text \<open>A message the writer printed is decoded when it is small.\<close>

lemma small_message:
  assumes "mp_ok 39 m" "length (wl_print sample_wire m) \<le> 100" "100 \<le> limit"
  shows "bounded_decode sample_wire limit f (wl_print sample_wire m) = f m"
proof -
  have "100 \<le> MAX_DIFF" by (simp add: MAX_DIFF_def)
  then have "wl_parse sample_wire (wl_print sample_wire m @ []) = Some (m, [])"
    using assms by (intro wire_lib_okD(1) [OF sample_wire_ok]) simp_all
  then show ?thesis using assms(2,3) by (simp add: bounded_decode_def)
qed

lemma sample_texts [simp]:
  "wl_str sample_wire (MStr s) = Some s" "wl_blob sample_wire (MBin b) = Some b"
  using wire_lib_okD(3,4) [OF sample_wire_ok] by simp_all

lemma sample_i64 [simp]: "in_i64 1" "mp_ok n (MInt 1)"
  by (simp_all add: in_i64_def)

lemma sample_offer_read:
  "offer_decode sample_wire (offer_encode sample_wire (desk_offer sample_board 1)) = Some sample_offer"
proof -
  have o: "desk_offer sample_board 1 = sample_offer" by code_simp
  have "length (offer_encode sample_wire sample_offer) \<le> 100" by code_simp
  then have "bounded_decode sample_wire 67000 (offer_in sample_wire) (offer_encode sample_wire sample_offer)
    = Some sample_offer"
    by (simp add: offer_encode_def small_message sample_offer_def offer_in_def)
  moreover have "list_all valid_format (of_formats sample_offer)" by code_simp
  ultimately show ?thesis by (simp add: o offer_decode_def) (simp add: sample_offer_def)
qed

lemma sample_request_read:
  "request_decode sample_wire (request_encode sample_wire sample_request) = Some sample_request"
proof -
  have "length (request_encode sample_wire sample_request) \<le> 100" by code_simp
  then have "bounded_decode sample_wire 512 (request_in sample_wire) (request_encode sample_wire sample_request)
    = Some sample_request"
    by (simp add: request_encode_def small_message sample_request_def request_in_def)
  moreover have "valid_format (rq_format sample_request)" by code_simp
  ultimately show ?thesis by (simp add: request_decode_def)
qed

lemma sample_reply_read:
  "parse_reply sample_wire sample_data = Some (frame_of sample_request 0 True ''hi'')"
proof -
  have "length sample_data \<le> 100" by code_simp
  then have "bounded_decode sample_wire (CHUNK + 32) (reply_in sample_wire) sample_data
    = Some (frame_of sample_request 0 True ''hi'')"
    by (simp add: sample_data_def reply_encode_def small_message sample_request_def reply_in_def CHUNK_def
        frame_of_def)
  then show ?thesis by (simp add: parse_reply_def CHUNK_def)
qed

lemma sample_looks:
  "cache_look 1 ''t'' 9 0 (cache_update sample_offer cache_new) = (sample_cache False None, None)"
  "cache_look 1 ''t'' 9 3 (sample_cache True (Some (Inr ''hi'')))
     = (sample_cache True (Some (Inr ''hi'')), Some (Inr ''hi''))"
  by code_simp+

lemma sample_poll: "cache_poll 1 (sample_cache False None) = (sample_cache True None, [sample_request])"
  by code_simp

lemma sample_board_read: "read_requested sample_board sample_zlib 1 sample_request = sample_reply"
proof -
  have "pieces_of ''hi'' = [''hi'']" by (simp add: pieces_of.simps CHUNK_def)
  then have "chunk_queue sample_zlib ''hi'' = Some [(0, ''hi'')]"
    by (simp add: chunk_queue_def compress_chunk_def CHUNK_def)
  then show ?thesis
    by (simp add: read_requested_def requested_bytes_def sample_board_def sample_request_def
        sample_reply_def MAX_DATA_def)
qed

lemma sample_turn: "reply_turn sample_wire (Some 1) sample_reply = (sample_data, None)"
  by (simp add: reply_turn_def sample_reply_def sample_request_def sample_data_def)

lemma sample_received:
  "cache_reply sample_wire sample_zlib 2 sample_data (sample_cache True None)
     = Some (sample_cache True (Some (Inr ''hi'')))"
  by (simp add: cache_reply_def sample_reply_read sample_cache_def sample_offer_def sample_request_def
      awaits_def unanswered_def decompress_chunk_def CHUNK_def make_room_def used_bytes_def
      result_size_def LIMIT_def accept_bytes_def)

text \<open>The session from its start to the answer.\<close>

definition at_point ::
  "cache \<Rightarrow> bytes list \<Rightarrow> (u8 \<times> bytes) list \<Rightarrow> int option \<Rightarrow> request list \<Rightarrow> clip_reply list \<Rightarrow>
   clip_reply list \<Rightarrow> (int \<times> string \<times> bytes) list \<Rightarrow> clip_session" where
  "at_point c up dn prev rds rd rp an =
     \<lparr>cx_cache = c, cx_up = up, cx_down = dn, cx_revision = 1, cx_previous = prev, cx_reads = rds,
      cx_read = rd, cx_replies = rp, cx_answers = an\<rparr>"

abbreviation sample_clip_step :: "clip_session \<Rightarrow> clip_session \<Rightarrow> bool" where
  "sample_clip_step \<equiv> clip_step sample_wire sample_zlib sample_board"

definition offer_frame :: "u8 \<times> bytes" where
  "offer_frame = (OFFER_KIND, offer_encode sample_wire (desk_offer sample_board 1))"

lemmas first_step = relpowp_0_I [where P = sample_clip_step]

lemmas next_step = relpowp_Suc_I [where P = sample_clip_step]

lemma sample_asks:
  "(sample_clip_step ^^ 3) (session_start 1)
     (at_point (sample_cache False None) [] [] (Some 1) [] [] [] [])"
proof -
  let ?c = "cache_update sample_offer cache_new"
  have s1: "sample_clip_step (session_start 1) (at_point cache_new [] [offer_frame] (Some 1) [] [] [] [])"
    using clip_step.desktop_offers [of "session_start 1" sample_wire sample_zlib sample_board]
    by (simp add: session_start_def at_point_def offer_frame_def)
  have s2: "sample_clip_step (at_point cache_new [] [offer_frame] (Some 1) [] [] [] [])
      (at_point ?c [] [] (Some 1) [] [] [] [])"
    using clip_step.agent_receives [of "at_point cache_new [] [offer_frame] (Some 1) [] [] [] []"
        offer_frame "[]" sample_wire sample_zlib 0 ?c sample_board] sample_offer_read
    by (simp add: at_point_def agent_frame_def offer_frame_def)
  have s3: "sample_clip_step (at_point ?c [] [] (Some 1) [] [] [] [])
      (at_point (sample_cache False None) [] [] (Some 1) [] [] [] [])"
    using clip_step.reader_looks [of 1 "''t''" 9 0 "at_point ?c [] [] (Some 1) [] [] [] []"
        "sample_cache False None" None sample_wire sample_zlib sample_board] sample_looks(1)
    by (simp add: at_point_def note_answer_def)
  have "(sample_clip_step ^^ Suc (Suc (Suc 0))) (session_start 1)
     (at_point (sample_cache False None) [] [] (Some 1) [] [] [] [])"
    by (rule next_step [OF next_step [OF next_step [OF first_step s1] s2] s3])
  then show ?thesis by (simp add: numeral_3_eq_3)
qed

lemma sample_serves:
  "(sample_clip_step ^^ 5) (at_point (sample_cache False None) [] [] (Some 1) [] [] [] [])
     (at_point (sample_cache True None) [] [(DATA_KIND, sample_data)] (Some 1) [] [] [] [])"
proof -
  let ?p = "at_point (sample_cache True None)" and ?q = "request_encode sample_wire sample_request"
  have s1: "sample_clip_step (at_point (sample_cache False None) [] [] (Some 1) [] [] [] [])
      (?p [?q] [] (Some 1) [] [] [] [])"
    using clip_step.agent_polls [of 1 "at_point (sample_cache False None) [] [] (Some 1) [] [] [] []"
        _ _ sample_wire sample_zlib sample_board] sample_poll
    by (simp add: at_point_def)
  have s2: "sample_clip_step (?p [?q] [] (Some 1) [] [] [] []) (?p [] [] (Some 1) [sample_request] [] [] [])"
    using clip_step.desktop_accepts [of "?p [?q] [] (Some 1) [] [] [] []" ?q "[]" sample_wire
        sample_request sample_zlib sample_board] sample_request_read
    by (simp add: at_point_def)
  have s3: "sample_clip_step (?p [] [] (Some 1) [sample_request] [] [] []) (?p [] [] (Some 1) [] [sample_reply] [] [])"
    using clip_step.read_finishes [of "?p [] [] (Some 1) [sample_request] [] [] []" "[]" sample_request "[]"
        sample_wire sample_zlib sample_board] sample_board_read
    by (simp add: at_point_def)
  have s4: "sample_clip_step (?p [] [] (Some 1) [] [sample_reply] [] []) (?p [] [] (Some 1) [] [] [sample_reply] [])"
    using clip_step.read_joined [of "?p [] [] (Some 1) [] [sample_reply] [] []" "[]" sample_reply "[]"
        sample_wire sample_zlib sample_board]
    by (simp add: at_point_def)
  have s5: "sample_clip_step (?p [] [] (Some 1) [] [] [sample_reply] [])
      (?p [] [(DATA_KIND, sample_data)] (Some 1) [] [] [] [])"
    using clip_step.desktop_replies [of "?p [] [] (Some 1) [] [] [sample_reply] []" sample_reply "[]"
        sample_wire "Some 1" sample_data None sample_zlib sample_board] sample_turn
    by (simp add: at_point_def)
  have "(sample_clip_step ^^ Suc (Suc (Suc (Suc (Suc 0)))))
      (at_point (sample_cache False None) [] [] (Some 1) [] [] [] [])
      (?p [] [(DATA_KIND, sample_data)] (Some 1) [] [] [] [])"
    by (rule next_step [OF next_step [OF next_step [OF next_step [OF
          next_step [OF first_step s1] s2] s3] s4] s5])
  then show ?thesis by (simp add: eval_nat_numeral)
qed

definition sample_answered :: clip_session where
  "sample_answered =
     at_point (sample_cache True (Some (Inr ''hi''))) [] [] (Some 1) [] [] [] [(1, ''t'', ''hi'')]"

lemma sample_answers:
  "(sample_clip_step ^^ 2) (at_point (sample_cache True None) [] [(DATA_KIND, sample_data)] (Some 1) [] [] [] [])
     sample_answered"
proof -
  let ?c = "sample_cache True (Some (Inr ''hi''))"
  have k: "DATA_KIND \<noteq> OFFER_KIND" by (simp add: DATA_KIND_def OFFER_KIND_def)
  have s1: "sample_clip_step (at_point (sample_cache True None) [] [(DATA_KIND, sample_data)] (Some 1) [] [] [] [])
      (at_point ?c [] [] (Some 1) [] [] [] [])"
    using clip_step.agent_receives [of
        "at_point (sample_cache True None) [] [(DATA_KIND, sample_data)] (Some 1) [] [] [] []"
        "(DATA_KIND, sample_data)" "[]" sample_wire sample_zlib 2 ?c sample_board] sample_received k
    by (simp add: at_point_def agent_frame_def)
  have s2: "sample_clip_step (at_point ?c [] [] (Some 1) [] [] [] []) sample_answered"
    using clip_step.reader_looks [of 1 "''t''" 9 3 "at_point ?c [] [] (Some 1) [] [] [] []"
        ?c "Some (Inr ''hi'')" sample_wire sample_zlib sample_board] sample_looks(2)
    by (simp add: at_point_def note_answer_def sample_answered_def)
  have "(sample_clip_step ^^ Suc (Suc 0))
      (at_point (sample_cache True None) [] [(DATA_KIND, sample_data)] (Some 1) [] [] [] []) sample_answered"
    by (rule next_step [OF next_step [OF first_step s1] s2])
  then show ?thesis by (simp add: numeral_2_eq_2)
qed

lemma sample_clip_run: "(sample_clip_step ^^ 10) (session_start 1) sample_answered"
proof -
  have "(sample_clip_step ^^ (3 + (5 + 2))) (session_start 1) sample_answered"
    unfolding relpowp_add using sample_asks sample_serves sample_answers by blast
  then show ?thesis by simp
qed

section \<open>Properties\<close>

text \<open>
  C25: A reader of the remote clipboard is given the desktop's content of exactly the format and
  revision it asked for, or an error: never stale, mixed, truncated or reordered data, however
  clipboard changes, offers, timeouts, refusals, other readers and compressed chunks interleave.
\<close>

theorem clipboard_faithful:
  assumes "wire_lib_ok lb" and "zlib_ok z"
    and "(clip_step lb z pb ^^ n) (session_start r) x" and "n < 2 ^ 64"
    and "(rv, fmt, b) \<in> set (cx_answers x)"
  shows "pb_read pb rv fmt = Some b"
  using session_run [OF assms(3,1,2,4)] assms(5)
  by (auto simp: session_inv_def session_at_def answers_ok_def)

theorem clipboard_faithful_witness:
  "pb_read sample_board 1 ''t'' = Some ''hi'' \<and> (1, ''t'', ''hi'') \<in> set (cx_answers sample_answered)"
proof -
  have a: "(1, ''t'', ''hi'') \<in> set (cx_answers sample_answered)"
    by (simp add: sample_answered_def at_point_def)
  show ?thesis
    using clipboard_faithful [OF sample_wire_ok sample_zlib_ok sample_clip_run _ a] a by simp
qed

text \<open>
  C26: Whatever a desktop sends, the cache of clipboard reads holds at most 32 MiB of chunks and
  contents, at most eight unanswered requests, only entries of the current offer, and none once the
  session is closed.
\<close>

theorem clipboard_bounded:
  assumes "(clip_step lb z pb)\<^sup>*\<^sup>* (session_start r) x"
  shows "used_bytes (ca_entries (cx_cache x)) \<le> 32 * 1024 * 1024 \<and>
    length (filter unanswered (map snd (ca_entries (cx_cache x)))) \<le> 8 \<and>
    (\<forall>(k, e)\<in>set (ca_entries (cx_cache x)). k \<in> set (of_formats (ca_offer (cx_cache x))) \<and>
       rq_format (ce_request e) = k \<and> rq_revision (ce_request e) = of_revision (ca_offer (cx_cache x))) \<and>
    (ca_closed (cx_cache x) \<longrightarrow> ca_entries (cx_cache x) = [])"
proof -
  have "cache_ok (cx_cache x)" using assms
    by (induction rule: rtranclp_induct) (auto simp: session_start_def cache_new_ok clip_step_cache_ok)
  then show ?thesis by (auto simp: cache_ok_def entry_ok_def pending_count_def LIMIT_def)
qed

theorem clipboard_bounded_witness:
  "used_bytes (ca_entries (cx_cache sample_answered)) \<le> 32 * 1024 * 1024 \<and>
   ca_entries (cx_cache sample_answered) \<noteq> []"
proof -
  have "sample_clip_step\<^sup>*\<^sup>* (session_start 1) sample_answered"
    using relpowp_imp_rtranclp [OF sample_clip_run] .
  from clipboard_bounded [OF this] show ?thesis
    by (simp add: sample_answered_def at_point_def sample_cache_def)
qed

end
