(* ===== verification/Create.thy ===== *)
theory Create
  imports Start
begin

text \<open>
  Creating and cloning repositories: \<open>git/cli/create.rs\<close> with the publication primitives of
  \<open>git/bootstrap.rs\<close> and \<open>git/cloning.rs\<close>. Git prepares the repository in a temporary directory next
  to the destination, everything is flushed, and one rename that never replaces an entry publishes
  it. The rename is the only mutation a creation makes: a successful one is entered into the log of
  \<open>Command\<close> as \<open>publication\<close>, so the properties can count it.
\<close>

section \<open>Directories held open\<close>

text \<open>A directory opened with \<open>O_DIRECTORY\<close> and \<open>O_NOFOLLOW\<close> is a descriptor of the process.\<close>

datatype rename_result = Renamed | AlreadyExists | RenameFailed

record 'w disk =
  dk_open :: "bytes \<Rightarrow> 'w \<Rightarrow> 'w \<times> nat option"
  dk_fstat :: "nat \<Rightarrow> 'w \<Rightarrow> (u64 \<times> u64) option"
  dk_rename :: "nat \<Rightarrow> bytes \<Rightarrow> bytes \<Rightarrow> 'w \<Rightarrow> 'w \<times> rename_result"
  dk_sync_dir :: "nat \<Rightarrow> 'w \<Rightarrow> 'w \<times> bool"
  dk_sync_file :: "bytes \<Rightarrow> 'w \<Rightarrow> 'w \<times> bool"

definition act :: "('w \<Rightarrow> 'w \<times> 'a) \<Rightarrow> ('w gst, 'a) step" where
  "act f s = (case f (gw s) of (w, x) \<Rightarrow> (s\<lparr>gw := w\<rparr>, Inr x))"

definition directory_error :: gerror where
  "directory_error = gerror_new ''IO_ERROR'' ''Cannot prepare the repository directory.''"

definition unknown :: gerror where
  "unknown = gerror_new ''OUTCOME_UNKNOWN'' ''Repository metadata may have been published. Query the operation and inspect the directory before retrying.''"

definition directory_required :: "string \<Rightarrow> gerror" where
  "directory_required m = gerror_new ''DIRECTORY_REQUIRED'' m"

definition path_changed :: "string \<Rightarrow> gerror" where
  "path_changed m = gerror_new ''PATH_CHANGED'' m"

text \<open>\<open>components().collect()\<close> of an absolute path.\<close>

definition normalized :: "bytes \<Rightarrow> bytes" where
  "normalized p = (if is_absolute p then ''/'' else []) @ join_parts (path_parts p)"

definition node_meta :: "node \<Rightarrow> fmeta option" where
  "node_meta t = (case t of Missing \<Rightarrow> None | Unreadable \<Rightarrow> None | Symlink m _ \<Rightarrow> Some m
     | Directory m _ \<Rightarrow> Some m | Regular m _ \<Rightarrow> Some m | Special m \<Rightarrow> Some m)"

definition node_is_dir :: "node \<Rightarrow> bool" where
  "node_is_dir t = (case t of Directory _ _ \<Rightarrow> True | _ \<Rightarrow> False)"

text \<open>\<open>bootstrap::root\<close>: the canonical path, the descriptor and the identity of the directory.\<close>

definition root_identity :: "json jlib \<Rightarrow> bytes \<Rightarrow> u64 \<Rightarrow> u64 \<Rightarrow> string" where
  "root_identity jl canonical dev ino =
     hash jl (''bootstrap:'' @ canonical @ be64 dev @ be64 ino)"

definition bootstrap_root ::
  "libs \<Rightarrow> json jlib \<Rightarrow> 'w os \<Rightarrow> 'w disk \<Rightarrow> wire_path \<Rightarrow> ('w gst, bytes \<times> nat \<times> string) step" where
  "bootstrap_root lb jl os dk wp =
     bindS (liftS (wire_decode lb wp)) (\<lambda>b.
     let path = normalized b in
     bindS (guardS (is_absolute path) (gerror_invalid ''Choose an absolute directory path.'')) (\<lambda>_.
     bindS (readW (\<lambda>w. Inr (os_tree os path w))) (\<lambda>t.
     bindS (liftS (ok_or (directory_required ''Choose an existing directory.'') (node_meta t))) (\<lambda>meta.
     bindS (guardS (node_is_dir t)
       (directory_required ''Choose a directory, not a file or symbolic link.'')) (\<lambda>_.
     bindS (readW (\<lambda>w. ok_or directory_error (os_canonical os path w))) (\<lambda>canonical.
     bindS (act (dk_open dk canonical)) (\<lambda>opened.
     bindS (liftS (ok_or directory_error opened)) (\<lambda>fd.
     bindS (readW (\<lambda>w. ok_or directory_error (dk_fstat dk fd w))) (\<lambda>(dev, ino).
     bindS (guardS (dev = fm_dev meta \<and> ino = fm_ino meta)
       (path_changed ''The selected directory changed.'')) (\<lambda>_.
       retS (canonical, fd, root_identity jl canonical dev ino)))))))))))"

section \<open>Publication\<close>

definition publication :: "bytes \<Rightarrow> bytes \<Rightarrow> string list" where
  "publication source destination = [''renameat2'', source, destination]"

text \<open>\<open>publish_to\<close>: a rename within the held directory that replaces nothing, then its flush.\<close>

definition rename_noreplace :: "'w disk \<Rightarrow> nat \<Rightarrow> bytes \<Rightarrow> bytes \<Rightarrow> ('w gst, unit) step" where
  "rename_noreplace dk fd source destination s =
     (case dk_rename dk fd source destination (gw s) of
        (w, Renamed) \<Rightarrow> (log_start Mutation (publication source destination) [] (s\<lparr>gw := w\<rparr>), Inr ())
      | (w, AlreadyExists) \<Rightarrow> (s\<lparr>gw := w\<rparr>, Inl (gerror_new ''ALREADY_REPOSITORY''
          ''Git metadata appeared during initialization; it was not replaced.''))
      | (w, RenameFailed) \<Rightarrow> (s\<lparr>gw := w\<rparr>, Inl directory_error))"

definition publish_to :: "'w disk \<Rightarrow> nat \<Rightarrow> bytes \<Rightarrow> bytes \<Rightarrow> ('w gst, unit) step" where
  "publish_to dk fd source destination =
     bindS (guardS (CHR 0x00 \<notin> set source) (gerror_invalid ''Invalid metadata path.'')) (\<lambda>_.
     bindS (guardS (CHR 0x00 \<notin> set destination) (gerror_invalid ''Invalid destination path.'')) (\<lambda>_.
     bindS (rename_noreplace dk fd source destination) (\<lambda>_.
     bindS (act (dk_sync_dir dk fd)) (\<lambda>synced. guardS synced unknown))))"

definition clone_error :: gerror where
  "clone_error = gerror_new ''IO_ERROR'' ''Cannot prepare the clone destination.''"

definition PUBLICATION_ENTRIES :: nat where "PUBLICATION_ENTRIES = 250000"

text \<open>\<open>sync_tree\<close> flushes the children of a directory before the directory; links are skipped.\<close>

definition sync_entry :: "'w disk \<Rightarrow> bytes \<Rightarrow> nat \<Rightarrow> ('w gst, nat) step" where
  "sync_entry dk path count =
     bindS (act (dk_sync_file dk path)) (\<lambda>synced.
     bindS (guardS synced clone_error) (\<lambda>_. retS count))"

fun sync_tree :: "'w disk \<Rightarrow> bytes \<Rightarrow> node \<Rightarrow> nat \<Rightarrow> ('w gst, nat) step"
  and sync_children :: "'w disk \<Rightarrow> bytes \<Rightarrow> (string \<times> node) list \<Rightarrow> nat \<Rightarrow> ('w gst, nat) step" where
  "sync_tree dk path t count =
     (if PUBLICATION_ENTRIES < count + 1
      then failS (gerror_new ''LIMIT_EXCEEDED'' ''The clone exceeds the publication entry limit.'')
      else case t of
          Missing \<Rightarrow> failS clone_error
        | Unreadable \<Rightarrow> failS clone_error
        | Symlink _ _ \<Rightarrow> retS (count + 1)
        | Directory _ None \<Rightarrow> failS clone_error
        | Directory _ (Some cs) \<Rightarrow>
            bindS (sync_children dk path cs (count + 1)) (sync_entry dk path)
        | Regular _ _ \<Rightarrow> sync_entry dk path (count + 1)
        | Special _ \<Rightarrow> failS (gerror_new ''UNSUPPORTED_CAPABILITY''
                         ''The clone contains an unsupported special file.''))"
| "sync_children dk path [] count = retS count"
| "sync_children dk path ((n, c) # cs) count =
     bindS (sync_tree dk (path_join path n) c count) (sync_children dk path cs)"

section \<open>Creation\<close>

text \<open>The request: an initial branch without a clone, or a clone URL with its \<open>bare\<close> flag.\<close>

definition initial_branch :: "'w os \<Rightarrow> string option \<Rightarrow> ('w gst, unit) step" where
  "initial_branch os branch =
     bindS (liftS (ok_or git_failure branch)) (\<lambda>b.
     bindS (if starts_with ''-'' b then retS None
            else run os ''/'' [''check-ref-format'', ''refs/heads/'' @ b]) (\<lambda>valid.
       guardS (valid \<noteq> None) (gerror_invalid ''Invalid initial branch.'')))"

definition create_payload ::
  "libs \<Rightarrow> wire_path \<Rightarrow> string option \<Rightarrow> (string \<times> bool) option \<Rightarrow> gerror + string" where
  "create_payload lb path branch cl =
     page_hash lb (JObj [(''engine'', JStr ''cli''), (''path'', wire_json path),
       (''branch'', jopt JStr branch),
       (''clone'', jopt (\<lambda>(url, bare). JArr [JStr url, JBool bare]) cl)])"

text \<open>The directory that will hold the new entry, and the entry's name.\<close>

definition destination :: "bytes \<Rightarrow> bool \<Rightarrow> gerror + bytes \<times> bytes" where
  "destination p cloning =
     (if \<not> is_absolute p \<or> has_parent p
      then Inl (gerror_invalid ''Choose an absolute destination without parent traversal.'')
      else if cloning
      then bindR (ok_or git_failure (path_parent p)) (\<lambda>r.
           bindR (ok_or git_failure (file_name p)) (\<lambda>leaf. Inr (r, leaf)))
      else Inr (p, ''.git''))"

definition create_identity :: "json jlib \<Rightarrow> bool \<Rightarrow> string \<Rightarrow> bytes \<Rightarrow> string" where
  "create_identity jl cloning parent leaf =
     hash jl ((if cloning then ''clone:'' else ''init:'') @ parent @ leaf)"

definition create_checks ::
  "'w os \<Rightarrow> bytes \<Rightarrow> bytes \<Rightarrow> bool \<Rightarrow> ('w gst, unit) step" where
  "create_checks os dir leaf cloning =
     bindS (readW (\<lambda>w. Inr (os_lstat_ok os (path_join dir leaf) w))) (\<lambda>there.
     bindS (guardS (\<not> there) (gerror_new (if cloning then ''PATH_EXISTS'' else ''ALREADY_REPOSITORY'')
       ''The destination already exists and will not be replaced.'')) (\<lambda>_.
     if cloning then retS ()
     else bindS (run os dir [''rev-parse'', ''--git-dir'']) (\<lambda>inside.
       guardS (inside = None) (gerror_new ''ALREADY_REPOSITORY''
         ''The selected directory is already inside a repository.''))))"

definition prepare_args ::
  "bytes \<Rightarrow> string option \<Rightarrow> (string \<times> bool) option \<Rightarrow> gerror + string list" where
  "prepare_args prepared branch cl =
     (case cl of
        Some (url, bare) \<Rightarrow>
          if url = [] \<or> 8192 < length url \<or> CHR 0x00 \<in> set url \<or> CHR 0x0A \<in> set url \<or> CHR 0x0D \<in> set url
          then Inl (gerror_invalid ''Invalid clone URL.'')
          else Inr ([''clone'', ''--no-recurse-submodules''] @ (if bare then [''--bare''] else []) @
                 (case branch of Some b \<Rightarrow> [''--branch='' @ b] | None \<Rightarrow> []) @ [''--'', url, prepared])
      | None \<Rightarrow> bindR (ok_or git_failure branch) (\<lambda>b.
          Inr [''init'', ''--template='', ''--initial-branch='' @ b, ''--'', prepared]))"

text \<open>\<open>strip_prefix\<close> compares whole components.\<close>

definition strip_dir :: "bytes \<Rightarrow> bytes \<Rightarrow> gerror + bytes" where
  "strip_dir dir p =
     (let k = length (path_parts dir) in
      if is_absolute dir = is_absolute p \<and> take k (path_parts p) = path_parts dir
      then Inr (join_parts (drop k (path_parts p))) else Inl git_failure)"

definition created_json ::
  "wire_path \<Rightarrow> string option \<Rightarrow> (string \<times> bool) option \<Rightarrow> string option \<Rightarrow> json" where
  "created_json path branch cl cloned_oid =
     (case cl of
        Some (_, bare) \<Rightarrow> JObj [(''cloned'', JBool True), (''path'', wire_json path),
          (''bare'', JBool bare), (''oid'', jopt JStr cloned_oid), (''openRequired'', JBool True)]
      | None \<Rightarrow> JObj [(''initialized'', JBool True), (''path'', wire_json path),
          (''initialBranch'', jopt JStr branch), (''bare'', JBool False),
          (''openRequired'', JBool True)])"

text \<open>What happens inside the temporary directory, up to the publication.\<close>

definition prepare_repository ::
  "libs \<Rightarrow> 'w os \<Rightarrow> 'w disk \<Rightarrow> bytes \<Rightarrow> nat \<Rightarrow> bytes \<Rightarrow> string option \<Rightarrow> (string \<times> bool) option \<Rightarrow>
   ('w gst, bytes \<times> string option) step" where
  "prepare_repository lb os dk dir fd temp branch cl =
     (let prepared = path_join temp ''repository'';
          source = (if cl = None then path_join prepared ''.git'' else prepared) in
      bindS (liftS (prepare_args prepared branch cl)) (\<lambda>args.
      bindS (run_os os dir args []) (\<lambda>made.
      bindS (guardS (made \<noteq> None) (gerror_new ''GIT_ERROR''
        ''Git could not prepare the repository. The destination was not published.'')) (\<lambda>_.
      bindS (if cl = None then retS None
             else bindS (run os prepared [''rev-parse'', ''--verify'', ''HEAD''])
                    (\<lambda>b. retS (map_option (\<lambda>b. lossy lb (trim_line b)) b))) (\<lambda>cloned_oid.
      bindS (readW (\<lambda>w. Inr (os_tree os source w))) (\<lambda>t.
      bindS (sync_tree dk source t 0) (\<lambda>_.
      bindS (readW (\<lambda>w. ok_or io_error (dk_fstat dk fd w))) (\<lambda>previous.
      bindS (readW (\<lambda>w. ok_or io_error (os_meta os dir w))) (\<lambda>current.
      bindS (guardS (previous = current) (path_changed ''The destination directory changed.'')) (\<lambda>_.
      bindS (liftS (strip_dir dir source)) (\<lambda>relative.
        retS (relative, cloned_oid))))))))))))"

definition build_repository ::
  "libs \<Rightarrow> 'w os \<Rightarrow> 'w disk \<Rightarrow> bytes \<Rightarrow> nat \<Rightarrow> bytes \<Rightarrow> wire_path \<Rightarrow> string option \<Rightarrow>
   (string \<times> bool) option \<Rightarrow> ('w gst, json) step" where
  "build_repository lb os dk dir fd leaf path branch cl =
     bindS (make_tempdir os dir ''.newport-cli-create-'') (\<lambda>temp.
     drop_tempdir os temp
       (bindS (prepare_repository lb os dk dir fd temp branch cl) (\<lambda>(source, cloned_oid).
        bindS (publish_to dk fd source leaf) (\<lambda>_.
          retS (created_json path branch cl cloned_oid)))))"

definition creation_recorded :: "json op_record \<Rightarrow> gerror + json \<Rightarrow> json op_record" where
  "creation_recorded r res =
     (case res of
        Inr v \<Rightarrow> r\<lparr>r_state := ''succeeded'', r_seq := r_seq r + 1, r_result := Some v\<rparr>
      | Inl e \<Rightarrow> r\<lparr>r_state := (if code e = ''OUTCOME_UNKNOWN'' then ''outcome_unknown'' else ''failed''),
                   r_seq := r_seq r + 1, r_error := Some e\<rparr>)"

definition unsaved_creation :: gerror where
  "unsaved_creation = gerror_new ''OUTCOME_UNKNOWN''
     ''Creation completed but its outcome could not be saved.''"

definition create_locked ::
  "libs \<Rightarrow> 'w os \<Rightarrow> 'w disk \<Rightarrow> json jlib \<Rightarrow> string \<Rightarrow> string \<Rightarrow> string \<Rightarrow> string \<Rightarrow> bytes \<Rightarrow> nat \<Rightarrow>
   bytes \<Rightarrow> wire_path \<Rightarrow> string option \<Rightarrow> (string \<times> bool) option \<Rightarrow> ('w agent, json) step" where
  "create_locked lb os dk jl client i h ident dir fd leaf path branch cl =
     bindS (on_journal (\<lambda>j. (j, existing jl client i h j))) (\<lambda>found.
       case found of Some r \<Rightarrow> retS (record_json r)
       | None \<Rightarrow>
           bindS (on_git (create_checks os dir leaf (cl \<noteq> None))) (\<lambda>_.
           bindS (on_journal (begin_record jl client i h ident)) (\<lambda>r.
           bindS (attemptS (on_git (build_repository lb os dk dir fd leaf path branch cl))) (\<lambda>res.
           bindS (map_errS (\<lambda>_. unsaved_creation)
             (on_journal (save jl client (creation_recorded r res)))) (\<lambda>_.
           retS (record_json (creation_recorded r res)))))))"

definition create_place ::
  "libs \<Rightarrow> json jlib \<Rightarrow> 'w os \<Rightarrow> 'w disk \<Rightarrow> wire_path \<Rightarrow> bool \<Rightarrow>
   ('w gst, bytes \<times> nat \<times> bytes \<times> string) step" where
  "create_place lb jl os dk path cloning =
     bindS (liftS (wire_decode lb path)) (\<lambda>b.
     bindS (liftS (destination b cloning)) (\<lambda>(parent, leaf).
     bindS (bootstrap_root lb jl os dk (wire_new lb parent)) (\<lambda>(dir, fd, parent_identity).
       retS (dir, fd, leaf, create_identity jl cloning parent_identity leaf))))"

definition create ::
  "libs \<Rightarrow> 'w os \<Rightarrow> 'w disk \<Rightarrow> service \<Rightarrow> string \<Rightarrow> wire_path \<Rightarrow> string option \<Rightarrow>
   (string \<times> bool) option \<Rightarrow> ('w agent, json) step" where
  "create lb os dk sv i path branch cl =
     bindS (liftS (journal sv)) (\<lambda>client.
     let jl = sv_jlib sv in
     bindS (case cl of Some (url, _) \<Rightarrow> liftS (validate_url lb url)
            | None \<Rightarrow> on_git (initial_branch os branch)) (\<lambda>_.
     bindS (liftS (create_payload lb path branch cl)) (\<lambda>h.
     bindS (on_journal (\<lambda>j. (j, existing jl client i h j))) (\<lambda>found.
       case found of
         Some _ \<Rightarrow> bindS (on_journal (get_record jl client i)) (\<lambda>r. retS (record_json r))
       | None \<Rightarrow>
           bindS (on_git (create_place lb jl os dk path (cl \<noteq> None))) (\<lambda>(dir, fd, leaf, ident).
           bindS (on_journal (lock_repository jl ident)) (\<lambda>_.
             with_lock (lock_name jl ident)
               (create_locked lb os dk jl client i h ident dir fd leaf path branch cl)))))))"

end
