(* ===== verification/CreateProps.thy ===== *)
theory CreateProps
  imports Create StartProps
begin

text \<open>
  What a creation guarantees: its runs are runs of the journal system, it publishes at most once,
  and the recorded state says whether it did.
\<close>

section \<open>Steps that publish nothing\<close>

lemma act_quiet: "preserves same_mutations (act f)"
  unfolding preserves_def act_def same_mutations_def mutations_def
  by (simp add: case_prod_beta)

lemma initial_branch_quiet: "preserves same_mutations (initial_branch os branch)"
  unfolding initial_branch_def by (intro quiet.pres_rules run_quiet)

lemma root_quiet: "preserves same_mutations (bootstrap_root lb jl os dk wp)"
  unfolding bootstrap_root_def Let_def case_prod_beta by (intro quiet.pres_rules readW_quiet act_quiet)

lemma create_place_quiet: "preserves same_mutations (create_place lb jl os dk path cloning)"
  unfolding create_place_def case_prod_beta by (intro quiet.pres_rules root_quiet)

lemma create_checks_quiet: "preserves same_mutations (create_checks os dir leaf cloning)"
  unfolding create_checks_def by (intro quiet.pres_rules readW_quiet run_quiet)

section \<open>The refinement\<close>

lemma completes_creation: "completes r (creation_recorded r res)"
  by (cases res) (auto simp: completes_def creation_recorded_def settled_state_def)

lemma create_sim:
  assumes ok: "lib_ok (sv_jlib sv)" and client: "sv_client sv = Some c" and c: "jl_uuid (sv_jlib sv) c"
    and reach: "j_reachable (sv_jlib sv) repo_of s" and idle: "j_procs s p = None"
    and fs: "j_fs s = ag_journal g"
    and rep: "\<And>git dir fd leaf ident h t. create_payload lb path branch cl = Inr h \<Longrightarrow>
      create_place lb (sv_jlib sv) os dk path (cl \<noteq> None) git = (t, Inr (dir, fd, leaf, ident)) \<Longrightarrow>
      repo_of h = ident"
  shows "run_sim (sv_jlib sv) repo_of c i p s (ag_git g) (fst (create lb os dk sv i path branch cl g))"
    (is "run_sim ?jl _ _ _ _ _ ?git _")
proof -
  have front: "preserves looked (case cl of Some (url, _) \<Rightarrow> liftS (validate_url lb url)
    | None \<Rightarrow> on_git (initial_branch os branch))"
    by (auto intro: looking.pres_lift on_git_looks [OF initial_branch_quiet] split: option.split)
  have locked: "run_sim ?jl repo_of c i p s ?git
      (fst (with_lock (lock_name ?jl ident)
        (create_locked lb os dk ?jl c i h ident dir fd leaf path branch cl) g))"
    if "j_reachable ?jl repo_of s" "j_procs s p = Some (Locked c i h ident)"
      "j_fs s = ag_journal g" "same_mutations ?git (ag_git g)" for s g ident h dir fd leaf
    unfolding create_locked_def
    by (rule locked_sim [OF ok that create_checks_quiet])
      (rule mutation_sim [OF ok _ _ _ _ completes_creation])
  have git: "same_mutations ?git ?git" by (simp add: same_mutations_def)
  show ?thesis
    unfolding create_def journal_def client Let_def
  proof (simp only: ok_or_simps bindS_basic, rule front_sim [OF front idle fs git],
      rule front_sim [OF looking.pres_lift idle], assumption+, rule replay_sim [OF c idle],
      assumption+, rule front_sim [OF on_git_looks [OF create_place_quiet] idle], assumption+)
    fix g1 h g2 x g3
    assume h: "liftS (create_payload lb path branch cl) g1 = (g2, Inr h)"
      and x: "on_git (create_place lb ?jl os dk path (cl \<noteq> None)) g2 = (g3, Inr x)"
      and g3: "j_fs s = ag_journal g3" "same_mutations ?git (ag_git g3)"
    obtain dir fd leaf ident where x': "x = (dir, fd, leaf, ident)" by (cases x)
    have "repo_of h = ident"
      by (rule rep [of h "ag_git g2" "ag_git g3"])
        (use h x x' in \<open>auto simp: liftS_def on_git_def split: prod.splits\<close>)
    then show "run_sim ?jl repo_of c i p s ?git
      (fst ((case x of (dir, fd, leaf, ident) \<Rightarrow>
         bindS (on_journal (lock_repository ?jl ident)) (\<lambda>_.
           with_lock (lock_name ?jl ident)
             (create_locked lb os dk ?jl c i h ident dir fd leaf path branch cl))) g3))"
      unfolding x' by (auto intro: acquire_sim [OF c reach idle g3] locked)
  qed
qed

section \<open>What is reported\<close>

text \<open>\<open>harmless\<close>: the step mutates nothing and never fails with an unknown outcome.\<close>

definition harmless :: "('w gst, 'a) step \<Rightarrow> bool" where
  "harmless m \<longleftrightarrow> (\<forall>s s' r. m s = (s', r) \<longrightarrow> mutations s' = mutations s \<and>
     (\<forall>e. r = Inl e \<longrightarrow> code e \<noteq> ''OUTCOME_UNKNOWN''))"

lemma harmlessI:
  assumes "preserves same_mutations m" "\<And>s e. snd (m s) = Inl e \<Longrightarrow> code e \<noteq> ''OUTCOME_UNKNOWN''"
  shows "harmless m"
  using assms unfolding harmless_def preserves_def same_mutations_def by (metis fst_conv snd_conv)

lemma harmless_ret: "harmless (retS x)"
  by (simp add: harmless_def)

lemma harmless_lift: "(\<And>e. r = Inl e \<Longrightarrow> code e \<noteq> ''OUTCOME_UNKNOWN'') \<Longrightarrow> harmless (liftS r)"
  by (simp add: harmless_def)

lemma harmless_fail: "code e \<noteq> ''OUTCOME_UNKNOWN'' \<Longrightarrow> harmless (failS e)"
  by (simp add: harmless_def)

lemma harmless_guard: "code e \<noteq> ''OUTCOME_UNKNOWN'' \<Longrightarrow> harmless (guardS b e)"
  by (simp add: guardS_def harmless_ret harmless_fail)

lemma harmless_bind:
  assumes "harmless m" "\<And>x. harmless (k x)"
  shows "harmless (bindS m k)"
  using assms unfolding harmless_def bindS_def by (fastforce split: prod.splits sum.splits)

lemma harmless_read: "(\<And>w e. f w = Inl e \<Longrightarrow> code e \<noteq> ''OUTCOME_UNKNOWN'') \<Longrightarrow> harmless (readW f)"
  by (rule harmlessI [OF readW_quiet]) (auto simp: readW_def)

lemma harmless_act: "harmless (act f)"
  by (rule harmlessI [OF act_quiet]) (auto simp: act_def split: prod.splits)

lemma harmless_run_os: "harmless (run_os os root args input)"
  by (rule harmlessI [OF run_os_quiet])
    (auto simp: run_os_def execute_def execute_capture_def bindS_def Let_def git_failure_def
      timeout_error_def limit_error_def
      split: prod.splits sum.splits spawned.splits option.splits wait_outcome.splits if_splits)

lemma harmless_run: "harmless (run os root args)"
  unfolding run_def run_input_def by (rule harmless_run_os)

lemma harmless_if: "harmless m \<Longrightarrow> harmless n \<Longrightarrow> harmless (if b then m else n)"
  by simp

lemmas harmless_rules = harmless_ret harmless_fail harmless_guard harmless_bind harmless_if
  harmless_act harmless_run_os harmless_run

lemma harmless_sync_entry: "harmless (sync_entry dk path count)"
  unfolding sync_entry_def by (intro harmless_rules) (simp add: clone_error_def)

lemma harmless_sync:
  "harmless (sync_tree dk path t count)"
  "harmless (sync_children dk path cs count)"
proof (induction dk path t count and dk path cs count rule: sync_tree_sync_children.induct)
  case (1 dk path t count)
  have errs: "harmless (failS clone_error)" by (rule harmless_fail) (simp add: clone_error_def)
  show ?case
  proof (cases "PUBLICATION_ENTRIES < count + 1")
    case True
    then show ?thesis by (simp add: harmless_def)
  next
    case False
    then show ?thesis
    proof (cases t)
      case (Directory m cs)
      then show ?thesis
        by (cases cs) (use False 1 errs in \<open>auto intro: harmless_bind harmless_sync_entry
            simp del: step_simps\<close>)
    qed (use errs in \<open>auto intro: harmless_ret harmless_sync_entry simp del: step_simps
          intro!: harmless_fail\<close>)
  qed
qed (auto simp del: sync_tree.simps step_simps intro: harmless_ret harmless_bind)

lemma harmless_prepare:
  "harmless (prepare_repository lb os dk dir fd temp branch cl)"
  unfolding prepare_repository_def Let_def
  by (intro harmless_rules harmless_lift harmless_read harmless_sync)
    (auto simp: prepare_args_def git_failure_def io_error_def path_changed_def strip_dir_def Let_def
      bindR_def ok_or_def split: if_splits option.splits sum.splits)

text \<open>\<open>published n s s' r\<close>: nothing was published and the error is definite, or one rename to the
  name \<open>n\<close> was and the step succeeded or does not know.\<close>

definition published :: "bytes \<Rightarrow> 'w gst \<Rightarrow> 'w gst \<Rightarrow> bool" where
  "published n s s' \<longleftrightarrow> (\<exists>source. mutations s' = mutations s @ [(publication source n, [])])"

lemma publish_reports:
  assumes "publish_to dk fd source n s = (s', r)"
  shows "mutations s' = mutations s \<and> (\<exists>e. r = Inl e \<and> code e \<noteq> ''OUTCOME_UNKNOWN'') \<or>
    published n s s' \<and> (r = Inr () \<or> r = Inl unknown)"
  using assms
  by (auto simp: publish_to_def guardS_def rename_noreplace_def bindS_def act_def log_start_def
      mutations_def published_def directory_error_def
      split: prod.splits sum.splits rename_result.splits if_splits)

lemma build_reports:
  assumes "build_repository lb os dk dir fd leaf path branch cl s = (s', r)"
  shows "mutations s' = mutations s \<and> (\<exists>e. r = Inl e \<and> code e \<noteq> ''OUTCOME_UNKNOWN'') \<or>
    published leaf s s' \<and> ((\<exists>v. r = Inr v) \<or> r = Inl unknown)"
proof -
  obtain s1 t where mk: "make_tempdir os dir ''.newport-cli-create-'' s = (s1, t)"
    by (cases "make_tempdir os dir ''.newport-cli-create-'' s")
  then have s1: "mutations s1 = mutations s" "t = Inl e \<Longrightarrow> e = io_error" for e
    by (auto simp: make_tempdir_def mutations_def ok_or_def split: prod.splits option.splits)
  show ?thesis
  proof (cases t)
    case (Inl e)
    then show ?thesis using assms mk s1 by (auto simp: build_repository_def bindS_def io_error_def)
  next
    case (Inr temp)
    obtain s2 p where prep: "prepare_repository lb os dk dir fd temp branch cl s1 = (s2, p)"
      by (cases "prepare_repository lb os dk dir fd temp branch cl s1")
    have s2: "mutations s2 = mutations s1" "p = Inl e \<Longrightarrow> code e \<noteq> ''OUTCOME_UNKNOWN''" for e
      using harmless_prepare prep unfolding harmless_def by blast+
    have drop: "mutations (s\<lparr>gw := w\<rparr>) = mutations s" for s :: "'a gst" and w
      by (simp add: mutations_def)
    show ?thesis
    proof (cases p)
      case (Inl e)
      then show ?thesis using assms mk Inr prep s1 s2
        by (auto simp: build_repository_def bindS_def drop_tempdir_def drop)
    next
      case (Inr x)
      obtain source cloned where x: "x = (source, cloned)" by (cases x)
      obtain s3 q where pub: "publish_to dk fd source leaf s2 = (s3, q)"
        by (cases "publish_to dk fd source leaf s2")
      have r: "s' = s3\<lparr>gw := os_remove_tree os temp (gw s3)\<rparr> \<and>
          r = (case q of Inl e \<Rightarrow> Inl e | Inr _ \<Rightarrow> Inr (created_json path branch cl cloned))"
        using assms mk \<open>t = Inr temp\<close> prep Inr x pub
        by (cases q) (auto simp: build_repository_def bindS_def drop_tempdir_def)
      show ?thesis
        using publish_reports [OF pub] r s1 s2 by (auto simp: drop published_def)
    qed
  qed
qed

text \<open>\<open>reported N known g (g', r)\<close>: a run from \<open>g\<close> that ends in \<open>g'\<close> with \<open>r\<close> says what it did;
  the entry it published has a name in \<open>N\<close>,   \<open>known\<close> is whether the operation had a record before.\<close>

definition reported :: "(bytes \<Rightarrow> bool) \<Rightarrow> bool \<Rightarrow> 'w agent \<Rightarrow> 'w agent \<times> (gerror + json) \<Rightarrow> bool" where
  "reported N known g out \<longleftrightarrow> (case out of (g', r) \<Rightarrow>
     mutations (ag_git g') = mutations (ag_git g) \<and>
       (\<forall>v. r = Inr v \<and> jget v ''state'' = JStr ''succeeded'' \<longrightarrow> known) \<or>
     (\<exists>n. N n \<and> published n (ag_git g) (ag_git g')) \<and>
       (case r of Inl e \<Rightarrow> code e = ''OUTCOME_UNKNOWN''
        | Inr v \<Rightarrow> jget v ''state'' \<in> {JStr ''succeeded'', JStr ''outcome_unknown''}))"

lemma reported_bind:
  assumes "\<And>s. mutations (ag_git (fst (m s))) = mutations (ag_git s)"
    and "\<And>x g1. m g = (g1, Inr x) \<Longrightarrow> reported N known g1 (k x g1)"
  shows "reported N known g (bindS m k g)"
proof -
  obtain g1 r where m: "m g = (g1, r)" by (cases "m g")
  then have "mutations (ag_git g1) = mutations (ag_git g)" using assms(1) [of g] by simp
  then show ?thesis
    by (cases r) (use m assms(2) in \<open>auto simp: bindS_def reported_def published_def split: prod.splits\<close>)
qed

lemma reported_weaken:
  "reported N known g out \<Longrightarrow> (known \<Longrightarrow> known') \<Longrightarrow> reported N known' g out"
  unfolding reported_def by (auto split: prod.splits)

lemma journal_step_mutations: "mutations (ag_git (fst (on_journal f s))) = mutations (ag_git s)"
  by (simp add: on_journal_def case_prod_beta)

lemma looked_mutations:
  "preserves looked m \<Longrightarrow> mutations (ag_git (fst (m s))) = mutations (ag_git s)"
  unfolding preserves_def looked_def same_mutations_def by blast

lemma reported_replay:
  "reported N True g (bindS (on_journal f) (\<lambda>r. retS (out r)) g)"
  by (rule reported_bind [OF journal_step_mutations]) (simp add: reported_def)

lemma reported_unlock:
  "reported N known g (with_lock n m g) = reported N known g (m g)"
  by (simp add: with_lock_def reported_def case_prod_beta)

lemma record_state: "jget (record_json r) ''state'' = JStr (r_state r)"
  by (simp add: record_json_def jget_def)

lemma existing_records:
  "records fs = records fs' \<Longrightarrow> existing jl c i h fs = existing jl c i h fs'"
  by (simp add: existing_def load_def load_sized_def)

lemma reported_mutation:
  "N leaf \<Longrightarrow> reported N known (g :: 'a agent)
    (bindS (on_journal (begin_record jl client i h ident)) (\<lambda>r.
     bindS (attemptS (on_git (build_repository lb os dk dir fd leaf path branch cl))) (\<lambda>res.
     bindS (map_errS (\<lambda>_. unsaved_creation)
       (on_journal (save jl client (creation_recorded r res)))) (\<lambda>_.
     retS (record_json (creation_recorded r res))))) g)"
proof (rule reported_bind [OF journal_step_mutations])
  assume n: "N leaf"
  fix r and g1 :: "'a agent"
  obtain git2 res where b: "build_repository lb os dk dir fd leaf path branch cl (ag_git g1) = (git2, res)"
    by (cases "build_repository lb os dk dir fd leaf path branch cl (ag_git g1)")
  obtain f sv where sv: "save jl client (creation_recorded r res) (ag_journal g1) = (f, sv)"
    by (cases "save jl client (creation_recorded r res) (ag_journal g1)")
  show "reported N known g1
    (bindS (attemptS (on_git (build_repository lb os dk dir fd leaf path branch cl))) (\<lambda>res.
     bindS (map_errS (\<lambda>_. unsaved_creation)
       (on_journal (save jl client (creation_recorded r res)))) (\<lambda>_.
     retS (record_json (creation_recorded r res)))) g1)"
    using n build_reports [OF b] b sv
    by (cases sv; cases res)
      (auto simp: reported_def bindS_def attemptS_def map_errS_def on_git_def on_journal_def
        record_state creation_recorded_def unsaved_creation_def unknown_def)
qed

lemma reported_locked:
  "N leaf \<Longrightarrow> reported N (\<exists>r. existing jl client i h (ag_journal g) = Inr (Some r)) (g :: 'a agent)
     (create_locked lb os dk jl client i h ident dir fd leaf path branch cl g)"
  unfolding create_locked_def
proof (rule reported_bind [OF journal_step_mutations])
  assume n: "N leaf"
  fix found and g1 :: "'a agent"
  assume found: "on_journal (\<lambda>j. (j, existing jl client i h j)) g = (g1, Inr found)"
  then have "found = Some r \<Longrightarrow> existing jl client i h (ag_journal g) = Inr (Some r)" for r
    by (auto simp: on_journal_def)
  then show "reported N (\<exists>r. existing jl client i h (ag_journal g) = Inr (Some r)) g1
    ((case found of Some r \<Rightarrow> retS (record_json r)
      | None \<Rightarrow>
           bindS (on_git (create_checks os dir leaf (cl \<noteq> None))) (\<lambda>_.
           bindS (on_journal (begin_record jl client i h ident)) (\<lambda>r.
           bindS (attemptS (on_git (build_repository lb os dk dir fd leaf path branch cl))) (\<lambda>res.
           bindS (map_errS (\<lambda>_. unsaved_creation)
             (on_journal (save jl client (creation_recorded r res)))) (\<lambda>_.
           retS (record_json (creation_recorded r res))))))) g1)"
    by (cases found)
      (auto intro: reported_bind [OF looked_mutations [OF on_git_looks [OF create_checks_quiet]]]
        reported_mutation [where N = N, OF n] simp: reported_def [of _ _ _ "(_, Inr _)"] simp del: bindS_basic)
qed

definition named :: "libs \<Rightarrow> wire_path \<Rightarrow> bool \<Rightarrow> bytes \<Rightarrow> bool" where
  "named lb path cloning n \<longleftrightarrow>
     (\<exists>b parent. wire_decode lb path = Inr b \<and> destination b cloning = Inr (parent, n))"

definition recorded ::
  "libs \<Rightarrow> service \<Rightarrow> string \<Rightarrow> wire_path \<Rightarrow> string option \<Rightarrow> (string \<times> bool) option \<Rightarrow> journal_fs \<Rightarrow> bool"
where
  "recorded lb sv i path branch cl fs \<longleftrightarrow>
     (\<exists>c h r. sv_client sv = Some c \<and> create_payload lb path branch cl = Inr h \<and>
        existing (sv_jlib sv) c i h fs = Inr (Some r))"

lemma place_named:
  "create_place lb jl os dk path cloning s = (s', Inr (dir, fd, leaf, ident)) \<Longrightarrow> named lb path cloning leaf"
  by (auto simp: create_place_def named_def bindS_Inr_iff liftS_def retS_def split: prod.splits)

lemma lock_repository_records: "records (fst (lock_repository jl n fs)) = records fs"
  by (simp add: lock_repository_def lock_kept)

lemma reported_look:
  assumes "preserves looked m"
    and "\<And>x g1. m g = (g1, Inr x) \<Longrightarrow> ag_journal g1 = ag_journal g \<Longrightarrow> reported N known g1 (k x g1)"
  shows "reported N known g (bindS m k g)"
proof (rule reported_bind [OF looked_mutations [OF assms(1)]])
  fix x g1
  assume m: "m g = (g1, Inr x)"
  have "looked g g1" using assms(1) m unfolding preserves_def by (metis fst_conv)
  then show "reported N known g1 (k x g1)" using assms(2) m by (simp add: looked_def)
qed

lemma reported_place:
  "reported (named lb path (cl \<noteq> None)) (\<exists>r. existing jl client i h (ag_journal g) = Inr (Some r))
     (g :: 'a agent)
     (bindS (on_git (create_place lb jl os dk path (cl \<noteq> None))) (\<lambda>(dir, fd, leaf, ident).
        bindS (on_journal (lock_repository jl ident)) (\<lambda>_.
          with_lock (lock_name jl ident)
            (create_locked lb os dk jl client i h ident dir fd leaf path branch cl))) g)"
    (is "reported ?N ?known _ _")
proof (rule reported_look [OF on_git_looks [OF create_place_quiet]])
  fix x g1
  assume x: "on_git (create_place lb jl os dk path (cl \<noteq> None)) g = (g1, Inr x)"
    and g1: "ag_journal g1 = ag_journal g"
  obtain dir fd leaf ident where x': "x = (dir, fd, leaf, ident)" by (cases x)
  have leaf: "?N leaf"
    using x x' place_named by (auto simp: on_git_def split: prod.splits)
  show "reported ?N ?known g1 ((case x of (dir, fd, leaf, ident) \<Rightarrow>
     bindS (on_journal (lock_repository jl ident)) (\<lambda>_.
       with_lock (lock_name jl ident)
         (create_locked lb os dk jl client i h ident dir fd leaf path branch cl))) g1)"
    unfolding x' prod.case
  proof (rule reported_bind [OF journal_step_mutations], unfold reported_unlock)
    fix u g2
    assume "on_journal (lock_repository jl ident) g1 = (g2, Inr u)"
    then have "records (ag_journal g2) = records (ag_journal g)"
      using lock_repository_records [of jl ident "ag_journal g1"] g1
      by (auto simp: on_journal_def split: prod.splits)
    then have same: "existing jl client i h (ag_journal g2) = existing jl client i h (ag_journal g)"
      by (rule existing_records)
    show "reported ?N ?known g2
      (create_locked lb os dk jl client i h ident dir fd leaf path branch cl g2)"
      unfolding same [symmetric] by (rule reported_locked) (rule leaf)
  qed
qed

lemma create_reported:
  "reported (named lb path (cl \<noteq> None)) (recorded lb sv i path branch cl (ag_journal g))
     (g :: 'a agent) (create lb os dk sv i path branch cl g)"
    (is "reported ?N ?known _ _")
  unfolding create_def Let_def
proof (rule reported_look [OF looking.pres_lift], rule reported_look, goal_cases)
  case (1 client g1)
  show ?case
    by (auto intro: looking.pres_lift on_git_looks [OF initial_branch_quiet] split: option.split)
next
  case (2 client g1 x g2)
  note run = 2
  show ?case
  proof (rule reported_look [OF looking.pres_lift], rule reported_bind [OF journal_step_mutations],
      goal_cases)
    case (1 h g3 found g4)
    have known: "existing (sv_jlib sv) client i h (ag_journal g) = Inr (Some r) \<Longrightarrow> ?known" for r
      using run 1 by (auto simp: recorded_def journal_def liftS_def ok_or_Inr_iff)
    have g4: "ag_journal g4 = ag_journal g" "found = Some r \<Longrightarrow> ?known" for r
      using run 1 known by (auto simp: on_journal_def liftS_def)
    show ?case
    proof (cases found)
      case (Some r)
      then show ?thesis using reported_replay [of ?N g4] g4 by (simp del: bindS_basic)
    next
      case None
      have "reported ?N ?known g4 (bindS (on_git (create_place lb (sv_jlib sv) os dk path (cl \<noteq> None)))
        (\<lambda>(dir, fd, leaf, ident). bindS (on_journal (lock_repository (sv_jlib sv) ident)) (\<lambda>_.
           with_lock (lock_name (sv_jlib sv) ident)
             (create_locked lb os dk (sv_jlib sv) client i h ident dir fd leaf path branch cl))) g4)"
        by (rule reported_weaken [OF reported_place]) (use g4 known in auto)
      with None show ?thesis by (simp del: bindS_basic)
    qed
  qed
qed

section \<open>A run\<close>

text \<open>The scripted Git of \<open>StartProps\<close>, outside a repository; the world counts the renames.\<close>

definition refused :: spawned where
  "refused = Spawned \<lparr>pr_wait = Exited (Some 128), pr_out = \<lparr>chunks = [], pipe_ok = True\<rparr>,
     pr_err = \<lparr>chunks = [], pipe_ok = True\<rparr>\<rparr>"

definition maker_dir :: fmeta where
  "maker_dir = \<lparr>fm_mode = 0, fm_len = 0, fm_dev = 3, fm_ino = 4, fm_mtime = 0, fm_mtime_nsec = 0,
     fm_ctime = 0, fm_ctime_nsec = 0\<rparr>"

definition maker_os :: "nat os" where
  "maker_os = (sample_os False)\<lparr>
     os_spawn := (\<lambda>root args input w. (w, if ''--git-dir'' \<in> set args then refused else printed [])),
     os_tree := (\<lambda>p w. Directory maker_dir (Some [])), os_lstat_ok := (\<lambda>p w. False),
     os_tempdir := (\<lambda>p n w. (w, Some (p @ ''/'' @ n)))\<rparr>"

definition maker_disk :: "nat disk" where
  "maker_disk = \<lparr>dk_open = (\<lambda>p w. (w, Some 7)), dk_fstat = (\<lambda>fd w. Some (3, 4)),
     dk_rename = (\<lambda>fd s d w. (Suc w, Renamed)), dk_sync_dir = (\<lambda>fd w. (w, True)),
     dk_sync_file = (\<lambda>p w. (w, True))\<rparr>"

definition blank_jlib :: "json jlib" where
  "blank_jlib = \<lparr>jl_print = (\<lambda>r. Some ''{}''), jl_parse = (\<lambda>d. None), jl_parse_envelope = (\<lambda>d. None),
     jl_uuid = (\<lambda>s. True), jl_sha256 = (\<lambda>b. [])\<rparr>"

definition maker_service :: service where
  "maker_service = \<lparr>sv_jlib = blank_jlib, sv_client = Some ''c'', sv_action_json = (\<lambda>a. JNull)\<rparr>"

lemma maker_query:
  "run_os maker_os dir args [] s = (s\<lparr>glog := glog s @ [(Query, args, [])]\<rparr>,
     Inr (if ''--git-dir'' \<in> set args then None else Some []))"
  by (simp add: run_os_def execute_def execute_capture_def maker_os_def refused_def printed_def
      log_start_def drain_def drain_loop_spec OUTPUT_LIMIT_def STDERR_LIMIT_def bindS_def Let_def)

definition maker_identity :: "json jlib \<Rightarrow> string" where
  "maker_identity jl = create_identity jl False (root_identity jl ''/w'' 3 4) ''.git''"

lemma maker_place:
  "create_place sample_libs jl maker_os maker_disk (wire_new sample_libs ''/w'') False s =
    (s, Inr (''/w'', 7, ''.git'', maker_identity jl))"
proof -
  have pure: "wire_decode sample_libs (wire_new sample_libs ''/w'') = Inr ''/w''"
    by (simp add: wire_decode_def wire_new_def sample_libs_def sample_tokens_def)
  have norm: "destination ''/w'' False = Inr (''/w'', ''.git'')" "normalized ''/w'' = ''/w''"
    "is_absolute ''/w''"
    by code_simp+
  show ?thesis
    by (simp add: create_place_def bootstrap_root_def pure norm bindS_def readW_def act_def
        node_meta_def node_is_dir_def maker_identity_def)
      (simp add: maker_os_def maker_disk_def maker_dir_def sample_os_def
        bindS_def readW_def act_def Let_def)
qed

lemma maker_build:
  "\<exists>s'. build_repository sample_libs maker_os maker_disk ''/w'' 7 ''.git'' path (Some ''main'') None s =
     (s', Inr (created_json path (Some ''main'') None None))"
proof -
  have strip: "path_join ''/w/.newport-cli-create-'' ''repository'' = ''/w/.newport-cli-create-/repository''"
    "strip_dir ''/w'' (path_join ''/w/.newport-cli-create-/repository'' ''.git'')
      = Inr ''.newport-cli-create-/repository/.git''"
    by code_simp+
  have parts: "sync_tree maker_disk p (Directory maker_dir (Some [])) 0 s = (s, Inr 1)" for p s
    by (simp add: PUBLICATION_ENTRIES_def sync_entry_def act_def bindS_def maker_disk_def)
  have os: "os_tree maker_os p w = Directory maker_dir (Some [])" "os_meta maker_os p w = Some (3, 4)"
    "os_tempdir maker_os p n w = (w, Some (p @ ''/'' @ n))" for p n w
    by (simp_all add: maker_os_def sample_os_def)
  show ?thesis
    by (simp add: strip build_repository_def make_tempdir_def drop_tempdir_def prepare_repository_def
        prepare_args_def maker_query os parts readW_def bindS_def publish_to_def
        rename_noreplace_def act_def Let_def del: sync_tree.simps)
      (simp add: strip maker_disk_def bindS_def)
qed

text \<open>
  C29: A creation publishes at most one entry, under the name that was asked for. If it published,
  its record says \<open>succeeded\<close> or \<open>outcome_unknown\<close>, or the error says that the outcome is unknown;
  a record \<open>failed\<close> or any other error means that nothing was published. And \<open>succeeded\<close> is only
  reported by a run that published, unless the operation was recorded before.
\<close>

theorem create_outcome:
  assumes "create lb os dk sv i path branch cl (g :: 'a agent) = (g', r)"
  shows "mutations (ag_git g') = mutations (ag_git g) \<and>
       (\<forall>v. r = Inr v \<and> jget v ''state'' = JStr ''succeeded'' \<longrightarrow>
          recorded lb sv i path branch cl (ag_journal g)) \<or>
     (\<exists>source n. named lb path (cl \<noteq> None) n \<and>
        mutations (ag_git g') = mutations (ag_git g) @ [(publication source n, [])]) \<and>
       (case r of Inl e \<Rightarrow> code e = ''OUTCOME_UNKNOWN''
        | Inr v \<Rightarrow> jget v ''state'' \<in> {JStr ''succeeded'', JStr ''outcome_unknown''})"
  using create_reported [of lb path cl sv i branch g os dk] unfolding assms reported_def published_def
  by blast

text \<open>The witness initializes \<open>/w\<close> with an empty journal.\<close>

definition maker_agent :: "nat agent" where
  "maker_agent = \<lparr>ag_git = \<lparr>gw = 0, glog = []\<rparr>,
     ag_journal = \<lparr>records = [], lock_files = [], held = [], faults = []\<rparr>\<rparr>"

definition maker_path :: wire_path where
  "maker_path = wire_new sample_libs ''/w''"

definition maker_held :: journal_fs where
  "maker_held = \<lparr>records = [], lock_files = [(''.lock'', \<lparr>lf_regular = True, lf_private = True\<rparr>)],
     held = [''.lock''], faults = []\<rparr>"

lemma blank_jlib_simps [simp]:
  "jl_uuid blank_jlib i" "lock_name blank_jlib n = ''.lock''" "jl_print blank_jlib r = Some ''{}''"
  by (simp_all add: blank_jlib_def lock_name_def hash_def)

lemma maker_begins:
  "begin_record blank_jlib ''c'' ''i'' h n maker_held =
     (maker_held\<lparr>records := [(''c-i.json'', \<lparr>jf_regular = True, jf_private = True, jf_content = ''{}''\<rparr>)],
        lock_files := lock_files maker_held @ [(catalog, \<lparr>lf_regular = True, lf_private = True\<rparr>)]\<rparr>,
      Inr (new_record ''i'' h n))"
  by (simp add: begin_record_def maker_held_def lock_def catalog_def try_lock_def existing_def
      record_path_def uuid_def load_def load_sized_def record_paths_def MAX_RECORDS_def persist_def
      usage_default_def MAX_BYTES_def MAX_RECORD_def rec_name_def unlock_def new_record_def)

lemma maker_saves:
  "r_id r = ''i'' \<Longrightarrow> \<exists>fs. save blank_jlib ''c'' r
     (maker_held\<lparr>records := [(''c-i.json'', \<lparr>jf_regular = True, jf_private = True, jf_content = ''{}''\<rparr>)],
        lock_files := lock_files maker_held @ [(catalog, \<lparr>lf_regular = True, lf_private = True\<rparr>)]\<rparr>)
     = (fs, Inr ())"
  by (simp add: save_def maker_held_def lock_def catalog_def try_lock_def record_path_def uuid_def
      record_paths_def MAX_RECORDS_def persist_def other_usage_def MAX_BYTES_def MAX_RECORD_def
      rec_name_def unlock_def)

lemma maker_locked:
  "\<exists>g' v. create_locked sample_libs maker_os maker_disk blank_jlib ''c'' ''i'' h n ''/w'' 7 ''.git'' path
     (Some ''main'') None \<lparr>ag_git = git, ag_journal = maker_held\<rparr> = (g', Inr v) \<and>
     jget v ''state'' = JStr ''succeeded''"
proof -
  have checks: "\<exists>s'. create_checks maker_os ''/w'' ''.git'' False s = (s', Inr ())" for s
    by (simp add: create_checks_def readW_def run_def run_input_def maker_query bindS_def)
      (simp add: maker_os_def)
  have ex: "existing blank_jlib ''c'' ''i'' h maker_held = Inr None"
    by (simp add: existing_def record_path_def uuid_def load_def load_sized_def maker_held_def)
  obtain s1 where c: "create_checks maker_os ''/w'' ''.git'' False git = (s1, Inr ())"
    using checks by blast
  obtain s2 where b: "build_repository sample_libs maker_os maker_disk ''/w'' 7 ''.git'' path (Some ''main'') None s1
      = (s2, Inr (created_json path (Some ''main'') None None))"
    using maker_build by blast
  let ?r = "creation_recorded (new_record ''i'' h n) (Inr (created_json path (Some ''main'') None None))"
  have st: "r_id ?r = ''i''" "r_state ?r = ''succeeded''"
    by (simp_all add: creation_recorded_def new_record_def)
  show ?thesis
    using maker_saves [OF st(1)] st(2)
    by (auto simp: create_locked_def bindS_def on_journal_def on_git_def attemptS_def map_errS_def
        ex c b maker_begins record_state)
qed

lemma maker_succeeds:
  "\<exists>g' v. create sample_libs maker_os maker_disk maker_service ''i'' maker_path (Some ''main'') None
     maker_agent = (g', Inr v) \<and> jget v ''state'' = JStr ''succeeded''"
proof -
  obtain h where h: "create_payload sample_libs maker_path (Some ''main'') None = Inr h"
    by (simp add: create_payload_def page_hash_def sample_libs_def)
  have branch: "initial_branch maker_os (Some ''main'') s
      = (s\<lparr>glog := glog s @ [(Query, [''check-ref-format'', ''refs/heads/main''], [])]\<rparr>, Inr ())" for s
    by (simp add: initial_branch_def starts_with_def run_def run_input_def maker_query bindS_def)
  obtain g' v where "create_locked sample_libs maker_os maker_disk blank_jlib ''c'' ''i'' h (maker_identity blank_jlib) ''/w'' 7 ''.git''
      maker_path (Some ''main'') None \<lparr>ag_git = \<lparr>gw = 0, glog = [(Query, [''check-ref-format'', ''refs/heads/main''], [])]\<rparr>,
        ag_journal = maker_held\<rparr> = (g', Inr v)" "jget v ''state'' = JStr ''succeeded''"
    using maker_locked by blast
  then show ?thesis
    by (simp add: create_def maker_service_def journal_def h branch maker_agent_def on_git_def
        on_journal_def existing_def record_path_def uuid_def load_def load_sized_def bindS_def
        maker_place [folded maker_path_def] lock_repository_def lock_def try_lock_def with_lock_def
        maker_held_def)
qed

theorem create_outcome_witness:
  "\<exists>source. mutations (ag_git (fst (create sample_libs maker_os maker_disk maker_service ''i'' maker_path
     (Some ''main'') None maker_agent))) = [(publication source ''.git'', [])]"
proof -
  obtain g' v where run: "create sample_libs maker_os maker_disk maker_service ''i'' maker_path
      (Some ''main'') None maker_agent = (g', Inr v)" "jget v ''state'' = JStr ''succeeded''"
    using maker_succeeds by blast
  have fresh: "\<not> recorded sample_libs maker_service ''i'' maker_path (Some ''main'') None (ag_journal maker_agent)"
    by (simp add: recorded_def maker_service_def existing_def record_path_def uuid_def load_def
        load_sized_def maker_agent_def)
  have name: "named sample_libs maker_path False n \<longleftrightarrow> n = ''.git''" for n
    by (auto simp: named_def destination_def maker_path_def wire_decode_def wire_new_def
        sample_libs_def sample_tokens_def is_absolute_def starts_with_def has_parent_def)
  have empty: "mutations (ag_git maker_agent) = []" by (simp add: mutations_def maker_agent_def)
  have "\<exists>source. mutations (ag_git g') = [(publication source ''.git'', [])]"
    using create_outcome [OF run(1)] run(2) fresh unfolding empty by (force simp: name)
  then show ?thesis unfolding run(1) fst_conv .
qed

text \<open>
  C28: Every run of a creation is a run of the interleaved journal system that releases its lock, and
  it publishes only if the run logs the operation as applied; so an operation that was applied
  before never publishes again. The hypothesis on \<open>repo_of\<close> says that equal requests name the same
  directory: it fails only while another process replaces that directory.
\<close>

theorem create_refines_journal:
  assumes "lib_ok (sv_jlib sv)" and "sv_client sv = Some c" and "jl_uuid (sv_jlib sv) c"
    and "j_reachable (sv_jlib sv) repo_of s" and "j_procs s p = None" and "j_fs s = ag_journal g"
    and "\<And>git dir fd leaf ident h t. create_payload lb path branch cl = Inr h \<Longrightarrow>
      create_place lb (sv_jlib sv) os dk path (cl \<noteq> None) git = (t, Inr (dir, fd, leaf, ident)) \<Longrightarrow>
      repo_of h = ident"
  shows "\<exists>s'. jsteps (sv_jlib sv) repo_of s s' \<and>
    j_fs s' = ag_journal (fst (create lb os dk sv i path branch cl g)) \<and> j_procs s' = j_procs s \<and>
    (mutations (ag_git (fst (create lb os dk sv i path branch cl g))) = mutations (ag_git g) \<or>
     j_applied s' = (c, i) # j_applied s \<and> (c, i) \<notin> set (j_applied s))"
  by (rule run_sim_applied [OF create_sim [OF assms] assms(1,4,5)])

theorem create_refines_journal_witness:
  "\<exists>s'. jsteps sample_jlib (\<lambda>_. maker_identity sample_jlib) sample_sys s' \<and>
    j_fs s' = ag_journal (fst (create sample_libs maker_os maker_disk sample_service uuid_b
      maker_path (Some ''main'') None sample_agent))"
proof -
  have sv: "sv_jlib sample_service = sample_jlib" "sv_client sample_service = Some uuid_a"
    "jl_uuid sample_jlib uuid_a"
    by (simp_all add: sample_service_def sample_jlib_def)
  show ?thesis
    using create_refines_journal [of sample_service uuid_a "\<lambda>_. maker_identity sample_jlib" sample_sys 0
        sample_agent sample_libs maker_path "Some ''main''" None maker_os maker_disk uuid_b]
    by (simp add: sv sample_jlib_ok sample_sys_reachable maker_place [folded maker_path_def])
      (auto simp: sample_sys_def)
qed

end
