(* ===== verification/History.thy ===== *)
theory History
  imports Diff Worktrees
begin

text \<open>
  Reading history and objects: \<open>git/cli/history.rs\<close> (commit rows from \<open>cat-file --batch\<close>, pages of
  \<open>rev-list\<close>), \<open>git/cli/objects.rs\<close> (a blob, whole or in pages) and \<open>git/cli/tags.rs\<close> (tag pages and
  the chain of an annotated tag). A slice whose index is out of range ends the process in the source;
  it is the error \<open>panicked\<close> here.
\<close>

section \<open>Pieces of text\<close>

text \<open>\<open>rposition\<close> of a byte, and \<open>windows(2).position\<close> of an empty line.\<close>

definition last_pos :: "char \<Rightarrow> bytes \<Rightarrow> nat option" where
  "last_pos c s =
     (if c \<in> set s then Some (length s - 1 - length (takeWhile (\<lambda>d. d \<noteq> c) (rev s))) else None)"

fun blank_line :: "bytes \<Rightarrow> nat option" where
  "blank_line (a # b # s) =
     (if a = CHR 0x0A \<and> b = CHR 0x0A then Some 0 else map_option Suc (blank_line (b # s)))"
| "blank_line _ = None"

definition strip_suffix1 :: "char \<Rightarrow> bytes \<Rightarrow> bytes" where
  "strip_suffix1 c s = (if s \<noteq> [] \<and> last s = c then butlast s else s)"

text \<open>\<open>rsplitn(3, ' ')\<close> when it has three pieces: what is before the last two.\<close>

definition rsplit3 :: "bytes \<Rightarrow> (bytes \<times> bytes \<times> bytes) option" where
  "rsplit3 s =
     Option.bind (last_pos (CHR '' '') s) (\<lambda>j.
     map_option (\<lambda>i. (take i s, drop (Suc i) (take j s), drop (Suc j) s))
       (last_pos (CHR '' '') (take j s)))"

definition panicked :: gerror where
  "panicked = gerror_new ''PANIC'' ''An index was out of range and the process ended.''"

definition valid_oid :: "string \<Rightarrow> gerror + unit" where
  "valid_oid v =
     map_errR (\<lambda>_. gerror_invalid ''A complete commit ID is required.'') (mapR (\<lambda>_. ()) (oid v))"

section \<open>One commit\<close>

text \<open>A person line: the name before the last \<open><\<close> and the address up to the last \<open>>\<close>.\<close>

definition person :: "bytes \<Rightarrow> gerror + bytes \<times> bytes \<times> bytes" where
  "person v =
     bindR (ok_or git_failure (last_pos (CHR ''>'') v)) (\<lambda>e.
     bindR (ok_or git_failure (last_pos (CHR ''<'') (take e v))) (\<lambda>st.
       Inr (strip_suffix1 (CHR '' '') (take st v), drop (Suc st) (take e v), drop (Suc e) v)))"

definition signature :: "libs \<Rightarrow> bytes \<Rightarrow> gerror + json" where
  "signature lb v =
     mapR (\<lambda>(nm, mail, _). JObj [(''name'', JStr (lossy lb nm)), (''email'', JStr (lossy lb mail))])
       (person v)"

definition digit_val :: "char \<Rightarrow> int" where
  "digit_val c = int (byte c) - 48"

text \<open>The zone of a committer line in minutes.\<close>

definition zone_minutes :: "bytes \<Rightarrow> gerror + int" where
  "zone_minutes z =
     (if length z \<noteq> 5 \<or> z ! 0 \<notin> {CHR ''+'', CHR ''-''} \<or> \<not> list_all digit (drop 1 z)
      then Inl git_failure
      else
        (let hours = digit_val (z ! 1) * 10 + digit_val (z ! 2);
             minutes = digit_val (z ! 3) * 10 + digit_val (z ! 4)
         in Inr ((hours * 60 + minutes) * (if z ! 0 = CHR ''-'' then -1 else 1))))"

record commit_head =
  ch_parents :: "json list"
  ch_author :: "json option"
  ch_time :: "int option"
  ch_offset :: "int option"

definition commit_head0 :: commit_head where
  "commit_head0 = \<lparr>ch_parents = [], ch_author = None, ch_time = None, ch_offset = None\<rparr>"

definition committer_line :: "libs \<Rightarrow> bytes \<Rightarrow> gerror + int \<times> int" where
  "committer_line lb v =
     bindR (ok_or git_failure (rsplit3 v)) (\<lambda>(_, tm, zone).
     bindR (utf8_opt lb tm) (\<lambda>tm.
     bindR (ok_or git_failure (parse_i64 tm)) (\<lambda>t.
       mapR (\<lambda>z. (t, z)) (zone_minutes zone))))"

definition header_line :: "libs \<Rightarrow> bytes \<Rightarrow> commit_head \<Rightarrow> gerror + commit_head" where
  "header_line lb line h =
     bindR (case strip_prefix ''parent '' line of
              Some v \<Rightarrow> mapR (\<lambda>p. h\<lparr>ch_parents := ch_parents h @ [p]\<rparr>) (oid v)
            | None \<Rightarrow> Inr h) (\<lambda>h.
     bindR (case strip_prefix ''author '' line of
              Some v \<Rightarrow> mapR (\<lambda>a. h\<lparr>ch_author := Some a\<rparr>) (signature lb v)
            | None \<Rightarrow> Inr h) (\<lambda>h.
       case strip_prefix ''committer '' line of
         Some v \<Rightarrow> mapR (\<lambda>(t, z). h\<lparr>ch_time := Some t, ch_offset := Some z\<rparr>) (committer_line lb v)
       | None \<Rightarrow> Inr h))"

fun header_lines :: "libs \<Rightarrow> bytes list \<Rightarrow> commit_head \<Rightarrow> gerror + commit_head" where
  "header_lines lb [] h = Inr h"
| "header_lines lb (l # ls) h = bindR (header_line lb l h) (header_lines lb ls)"

definition commit_row :: "libs \<Rightarrow> string \<Rightarrow> bytes \<Rightarrow> nat \<Rightarrow> gerror + json" where
  "commit_row lb cid raw budget =
     bindR (ok_or git_failure (blank_line raw)) (\<lambda>split.
     bindR (header_lines lb (split_on (CHR 0x0A) (take split raw)) commit_head0) (\<lambda>h.
     let msg = drop (split + 2) raw in
     bindR (oid cid) (\<lambda>o'.
     bindR (ok_or git_failure (ch_author h)) (\<lambda>a.
     bindR (ok_or git_failure (ch_time h)) (\<lambda>t.
     bindR (ok_or git_failure (ch_offset h)) (\<lambda>z.
       Inr (JObj [(''oid'', o'), (''parents'', JArr (ch_parents h)),
         (''message'', wpath lb (take budget msg)), (''messageTruncated'', JBool (budget < length msg)),
         (''author'', a), (''time'', JNum t), (''offsetMinutes'', JNum z)])))))))"

section \<open>A batch of commits\<close>

text \<open>\<open>rest[..len]\<close> of the answer, which must be followed by a newline.\<close>

definition batch_object :: "libs \<Rightarrow> string \<Rightarrow> bytes \<Rightarrow> gerror + bytes \<times> bytes" where
  "batch_object lb cid rest =
     (if CHR 0x0A \<notin> set rest then Inl git_failure
      else
        bindR (utf8_opt lb (takeWhile (\<lambda>c. c \<noteq> CHR 0x0A) rest)) (\<lambda>header.
        let parts = split_on (CHR '' '') header in
        if length parts \<noteq> 3 \<or> parts ! 0 \<noteq> cid \<or> parts ! 1 \<noteq> ''commit''
        then Inl (gerror_new ''NOT_FOUND'' ''The commit is not available.'')
        else
          bindR (ok_or git_failure (parse_usize (parts ! 2))) (\<lambda>len.
          let rest = drop (Suc (length header)) rest in
          if length rest \<le> len \<or> rest ! len \<noteq> CHR 0x0A then Inl git_failure
          else Inr (take len rest, drop (Suc len) rest))))"

fun batch_rows :: "libs \<Rightarrow> nat \<Rightarrow> string list \<Rightarrow> bytes \<Rightarrow> gerror + json list" where
  "batch_rows lb budget [] rest = (if rest \<noteq> [] then Inl git_failure else Inr [])"
| "batch_rows lb budget (cid # ids) rest =
     bindR (batch_object lb cid rest) (\<lambda>(raw, rest).
     bindR (commit_row lb cid raw budget) (\<lambda>r.
       mapR ((#) r) (batch_rows lb budget ids rest)))"

definition commits :: "libs \<Rightarrow> 'w os \<Rightarrow> repo \<Rightarrow> string list \<Rightarrow> nat \<Rightarrow> ('w gst, json list) step" where
  "commits lb os repo ids budget =
     (if ids = [] then retS []
      else
        bindS (liftS (mapR (\<lambda>_. ()) (collectR valid_oid ids))) (\<lambda>_.
        bindS (some_or git_failure (run_input os (rp_root repo) [''cat-file'', ''--batch'']
                 (terminate (CHR 0x0A) ids))) (\<lambda>b.
          liftS (batch_rows lb budget ids b))))"

definition commit :: "libs \<Rightarrow> 'w os \<Rightarrow> repo \<Rightarrow> string \<Rightarrow> nat \<Rightarrow> ('w gst, json) step" where
  "commit lb os repo cid budget =
     bindS (commits lb os repo [cid] budget) (\<lambda>rows.
       liftS (ok_or git_failure (if rows = [] then None else Some (last rows))))"

section \<open>A page of history\<close>

definition commit_limit_error :: gerror where
  "commit_limit_error = gerror_new ''LIMIT_EXCEEDED'' ''Commit exceeds the response limit.''"

text \<open>The rows that fit: the loop of a listing page, with its own error.\<close>

definition fitting_rows :: "libs \<Rightarrow> json list \<Rightarrow> gerror + json list" where
  "fitting_rows lb rows =
     map_errR (\<lambda>e. if e = row_limit_error then commit_limit_error else e)
       (page_rows (json_size lb) rows 0)"

definition history_query :: "libs \<Rightarrow> string \<Rightarrow> nat \<Rightarrow> gerror + string" where
  "history_query lb revision budget =
     mapR (\<lambda>q. ''cli.history:'' @ q)
       (ok_or git_failure (json_vec lb (JArr [JStr revision, jnat budget])))"

definition history_cursor :: "libs \<Rightarrow> repo \<Rightarrow> string \<Rightarrow> string option \<Rightarrow> gerror + cursor_ref option" where
  "history_cursor lb repo query cursor =
     (case cursor of
        None \<Rightarrow> Inr None
      | Some t \<Rightarrow>
          bindR (cursor_decode (lb_tk lb) t) (\<lambda>c.
            if sn_r (cu_s c) \<noteq> rp_id repo \<or> sn_q (cu_s c) \<noteq> query \<or> cu_k c \<noteq> None then Inl bad_cursor
            else Inr (Some c)))"

definition history_tip ::
  "libs \<Rightarrow> 'w os \<Rightarrow> repo \<Rightarrow> string \<Rightarrow> cursor_ref option \<Rightarrow> ('w gst, string option) step" where
  "history_tip lb os repo revision previous =
     (case previous of
        Some c \<Rightarrow> retS (sn_p (cu_s c))
      | None \<Rightarrow>
          bindS (run os (rp_root repo)
                   [''rev-parse'', ''--verify'', ''--end-of-options'', revision @ ''^{commit}'']) (\<lambda>v.
            case v of
              Some b \<Rightarrow> liftS (mapR Some (utf8_opt lb (trim_line b)))
            | None \<Rightarrow>
                bindS (if revision = ''HEAD''
                       then bindS (head lb os repo) (\<lambda>h. retS (jget h ''unborn'' = JBool True))
                       else retS False) (\<lambda>unborn.
                if unborn then retS None
                else failS (gerror_new ''NOT_FOUND'' ''The branch or commit no longer exists.''))))"

text \<open>The fingerprint of a history: its tip and the shallow boundary.\<close>

definition SHALLOW_LIMIT :: nat where "SHALLOW_LIMIT = 8 * 1024 * 1024"

definition history_fingerprint :: "libs \<Rightarrow> 'w os \<Rightarrow> repo \<Rightarrow> string option \<Rightarrow> ('w gst, string) step" where
  "history_fingerprint lb os repo tip =
     bindS (readW (\<lambda>w. Inr (os_read os (path_join (rp_common repo) ''shallow'') w))) (\<lambda>r.
       let t = (case tip of None \<Rightarrow> [] | Some t \<Rightarrow> t) in
       case r of
         Content c \<Rightarrow>
           if SHALLOW_LIMIT < length c
           then failS (gerror_new ''LIMIT_EXCEEDED'' ''Shallow boundary exceeds the CLI backend limit.'')
           else retS (hex (sha256 lb (t @ c)))
       | NotFound \<Rightarrow> retS (hex (sha256 lb t))
       | ReadError \<Rightarrow> failS io_error)"

definition rev_list_args :: "string \<Rightarrow> nat \<Rightarrow> nat \<Rightarrow> string list" where
  "rev_list_args tip offset count =
     [''rev-list'', ''--date-order'', ''--skip='' @ show_nat offset,
      ''--max-count='' @ show_nat (count + 1), tip, ''--'']"

definition history_rows ::
  "libs \<Rightarrow> 'w os \<Rightarrow> repo \<Rightarrow> snapshot_ref \<Rightarrow> string \<Rightarrow> nat \<Rightarrow> nat \<Rightarrow> nat \<Rightarrow> ('w gst, json) step" where
  "history_rows lb os repo sn tip offset count budget =
     bindS (repo_run os repo (rev_list_args tip offset count)) (\<lambda>b.
     bindS (liftS (utf8_opt lb b)) (\<lambda>text.
     let ids = str_lines text in
     bindS (guardS (\<not> (ids = [] \<and> 0 < offset))
              (gerror_invalid ''Cursor is past the end of history.'')) (\<lambda>_.
     bindS (commits lb os repo (take count ids) budget) (\<lambda>rows.
     bindS (liftS (fitting_rows lb rows)) (\<lambda>shown.
     bindS (liftS (oid tip)) (\<lambda>resolved.
       retS (JObj [(''snapshot'', JStr (snapshot_encode (lb_tk lb) sn)), (''entries'', JArr shown),
         (''nextCursor'',
            if length shown < length ids
            then JStr (cursor_encode (lb_tk lb)
                   \<lparr>cu_s = sn, cu_o = offset + length shown, cu_k = None\<rparr>)
            else JNull),
         (''metadata'', JObj [(''resolvedRevision'', resolved), (''truncated'', JBool False)])])))))))"

definition history_page ::
  "libs \<Rightarrow> 'w os \<Rightarrow> repo \<Rightarrow> nat \<Rightarrow> string option \<Rightarrow> string \<Rightarrow> nat option \<Rightarrow> ('w gst, json) step" where
  "history_page lb os repo count cursor revision budget =
     (let bud = (case budget of None \<Rightarrow> 16384 | Some b \<Rightarrow> b) in
      if \<not> (1 \<le> count \<and> count \<le> 200) \<or> \<not> (1 \<le> bud \<and> bud \<le> 16384) \<or> 1024 < length revision \<or>
         CHR 0x00 \<in> set revision
      then failS (gerror_invalid ''Invalid history page parameters.'')
      else
        bindS (liftS (history_query lb revision bud)) (\<lambda>query.
        bindS (liftS (history_cursor lb repo query cursor)) (\<lambda>previous.
        let offset = (case previous of None \<Rightarrow> 0 | Some c \<Rightarrow> cu_o c) in
        bindS (history_tip lb os repo revision previous) (\<lambda>tip.
        bindS (case tip of None \<Rightarrow> retS () | Some t \<Rightarrow> liftS (valid_oid t)) (\<lambda>_.
        bindS (history_fingerprint lb os repo tip) (\<lambda>fp.
        bindS (guardS (case previous of None \<Rightarrow> True | Some c \<Rightarrow> sn_f (cu_s c) = fp)
                 (gerror_new ''SNAPSHOT_EXPIRED'' ''History changed. Restart from the first page.'')) (\<lambda>_.
        let sn = \<lparr>sn_r = rp_id repo, sn_q = query, sn_f = fp, sn_p = tip\<rparr> in
        case tip of
          None \<Rightarrow> retS (JObj [(''snapshot'', JStr (snapshot_encode (lb_tk lb) sn)), (''entries'', JArr []),
                     (''nextCursor'', JNull), (''metadata'', JObj [])])
        | Some t \<Rightarrow> history_rows lb os repo sn t offset count bud)))))))"

section \<open>Blobs\<close>

definition BLOB_LIMIT :: nat where "BLOB_LIMIT = 512 * 1024"

definition blob_header :: "libs \<Rightarrow> 'w os \<Rightarrow> repo \<Rightarrow> string \<Rightarrow> ('w gst, nat) step" where
  "blob_header lb os repo cid =
     bindS (some_or git_failure (run_input os (rp_root repo) [''cat-file'', ''--batch-check'']
              (cid @ [CHR 0x0A]))) (\<lambda>header.
     bindS (liftS (utf8_opt lb (trim_line header))) (\<lambda>text.
     let parts = split_on (CHR '' '') text in
     if length parts \<noteq> 3 \<or> parts ! 1 \<noteq> ''blob''
     then failS (gerror_invalid ''The object is not a file blob.'')
     else liftS (ok_or git_failure (parse_usize (parts ! 2)))))"

definition blob_offset :: "libs \<Rightarrow> snapshot_ref \<Rightarrow> string option \<Rightarrow> gerror + nat" where
  "blob_offset lb sn cursor =
     (case cursor of
        None \<Rightarrow> Inr 0
      | Some t \<Rightarrow>
          bindR (cursor_decode (lb_tk lb) t) (\<lambda>c.
            if cu_s c \<noteq> sn \<or> cu_k c \<noteq> None
            then Inl (gerror_invalid ''Cursor does not match this blob.'') else Inr (cu_o c)))"

text \<open>Where a page that starts at \<open>offset\<close> ends.\<close>

definition blob_end :: "bool \<Rightarrow> nat \<Rightarrow> nat \<Rightarrow> nat \<Rightarrow> nat" where
  "blob_end paged budget offset len =
     (if paged then min (offset + max (budget - 4096) 1024 * 3 div 4) len else len)"

definition blob_part :: "libs \<Rightarrow> snapshot_ref \<Rightarrow> json \<Rightarrow> nat \<Rightarrow> nat \<Rightarrow> nat \<Rightarrow> bytes \<Rightarrow> json" where
  "blob_part lb sn object len offset stop data =
     JObj [(''snapshot'', JStr (snapshot_encode (lb_tk lb) sn)),
       (''entries'', JArr (if stop = offset then []
          else [JObj [(''offset'', jnat offset), (''bytesB64'', JStr (b64 (lb_tk lb) data))]])),
       (''nextCursor'',
          if stop < len
          then JStr (cursor_encode (lb_tk lb) \<lparr>cu_s = sn, cu_o = stop, cu_k = None\<rparr>) else JNull),
       (''metadata'', JObj [(''oid'', object), (''size'', jnat len)])]"

definition blob ::
  "libs \<Rightarrow> 'w os \<Rightarrow> repo \<Rightarrow> string \<Rightarrow> nat option \<Rightarrow> string option \<Rightarrow> bool \<Rightarrow> ('w gst, json) step" where
  "blob lb os repo cid budget cursor paged =
     bindS (liftS (map_errR (\<lambda>_. gerror_invalid ''A complete object ID is required.'') (oid cid))) (\<lambda>object.
     bindS (blob_header lb os repo cid) (\<lambda>len.
     if \<not> paged \<and> BLOB_LIMIT < len
     then retS (JObj [(''oid'', object), (''size'', jnat len), (''bytesB64'', JNull),
                 (''truncated'', JBool True)])
     else
       let bud = (case budget of None \<Rightarrow> 64 * 1024 | Some b \<Rightarrow> b);
           sn = \<lparr>sn_r = rp_id repo, sn_q = ''cli.blob:'' @ cid, sn_f = cid, sn_p = None\<rparr> in
       bindS (guardS (4096 \<le> bud \<and> bud \<le> 524288)
                (gerror_invalid (''maxBytes must be 4096'' @ [CHR 0xE2, CHR 0x80, CHR 0x93] @ ''524288.''))) (\<lambda>_.
       bindS (liftS (blob_offset lb sn cursor)) (\<lambda>offset.
       bindS (guardS (offset \<le> len) (gerror_invalid ''Cursor is past the end of this blob.'')) (\<lambda>_.
       let stop = blob_end paged bud offset len in
       bindS (window os (rp_root repo) [''cat-file'', ''blob'', cid] offset (stop - offset)) (\<lambda>data.
       bindS (guardS (length data = stop - offset) git_failure) (\<lambda>_.
         retS (if paged then blob_part lb sn object len offset stop data
               else JObj [(''oid'', object), (''size'', jnat len),
                      (''bytesB64'', JStr (b64 (lb_tk lb) data)), (''truncated'', JBool False)]))))))))"

section \<open>Tags\<close>

definition trunc_div :: "int \<Rightarrow> int \<Rightarrow> int" where
  "trunc_div a b = (if a < 0 then - (- a div b) else a div b)"

definition parse_i32 :: "string \<Rightarrow> int option" where
  "parse_i32 s = (case parse_i64 s of
     Some v \<Rightarrow> if - (2 ^ 31) \<le> v \<and> v < 2 ^ 31 then Some v else None | None \<Rightarrow> None)"

text \<open>The object name with the key \<open>format\<close> for the algorithm.\<close>

definition tag_wire :: "string \<Rightarrow> gerror + json" where
  "tag_wire cid =
     mapR (\<lambda>v. JObj [(''hex'', jget v ''hex''), (''format'', jget v ''algorithm'')]) (oid cid)"

definition tagger :: "libs \<Rightarrow> bytes \<Rightarrow> gerror + json" where
  "tagger lb v =
     bindR (person v) (\<lambda>(nm, mail, rest).
     bindR (utf8_opt lb rest) (\<lambda>text.
     let tm = split_ws text in
     if length tm \<noteq> 2 then Inl git_failure
     else
       bindR (ok_or git_failure (parse_i32 (tm ! 1))) (\<lambda>zone.
       bindR (ok_or git_failure (parse_i64 (tm ! 0))) (\<lambda>t.
         Inr (JObj [(''name'', JStr (lossy lb nm)), (''email'', JStr (lossy lb mail)), (''time'', JNum t),
           (''offsetMinutes'',
              JNum (trunc_div zone 100 * 60 + (zone - trunc_div zone 100 * 100)))])))))"

fun tag_lines :: "libs \<Rightarrow> bytes list \<Rightarrow> string option \<times> json \<Rightarrow> gerror + string option \<times> json" where
  "tag_lines lb [] st = Inr st"
| "tag_lines lb (l # ls) st =
     bindR (case strip_prefix ''object '' l of
              Some v \<Rightarrow> mapR (\<lambda>v. (Some v, snd st)) (utf8_opt lb v) | None \<Rightarrow> Inr st) (\<lambda>st.
     bindR (case strip_prefix ''tagger '' l of
              Some v \<Rightarrow> mapR (\<lambda>t. (fst st, t)) (tagger lb v) | None \<Rightarrow> Inr st) (\<lambda>st.
       tag_lines lb ls st))"

definition TAG_LIMIT :: nat where "TAG_LIMIT = 2 * 1024 * 1024"

definition TAG_DEPTH :: nat where "TAG_DEPTH = 16"

text \<open>The fields the first object of the chain contributes.\<close>

definition first_tag ::
  "libs \<Rightarrow> bytes \<Rightarrow> nat \<Rightarrow> nat \<Rightarrow> string \<Rightarrow> json \<Rightarrow> json \<Rightarrow> gerror + json" where
  "first_tag lb raw split budget target tg row =
     (let msg = drop (split + 2) raw in
      mapR (\<lambda>o'. jset (jset (jset (jset row ''targetOid'' o') ''message'' (wpath lb (take budget msg)))
                   ''messageTruncated'' (JBool (budget < length msg))) ''tagger'' tg)
        (tag_wire target))"

text \<open>The loop over at most sixteen objects; \<open>left\<close> of them remain.\<close>

fun tag_walk ::
  "libs \<Rightarrow> 'w os \<Rightarrow> repo \<Rightarrow> nat \<Rightarrow> nat \<Rightarrow> string \<Rightarrow> json \<Rightarrow> ('w gst, json) step" where
  "tag_walk lb os repo budget 0 current row = retS row"
| "tag_walk lb os repo budget (Suc left) current row =
     (let first = (Suc left = TAG_DEPTH) in
      bindS (repo_run os repo [''cat-file'', ''-t'', current]) (\<lambda>b.
      bindS (liftS (utf8_opt lb (trim_line b))) (\<lambda>kind.
      bindS (if \<not> first then retS row
             else
               let row = jset (jset row ''objectType'' (JStr kind)) ''annotated'' (JBool (kind = ''tag'')) in
               if kind = ''tag'' then retS row
               else liftS (mapR (jset row ''targetOid'') (tag_wire current))) (\<lambda>row.
      if kind \<noteq> ''tag''
      then liftS (mapR (\<lambda>o'. jset (jset row ''peeledOid'' o') ''peeledType'' (JStr kind)) (tag_wire current))
      else
        bindS (repo_run os repo [''cat-file'', ''-s'', current]) (\<lambda>sz.
        bindS (liftS (utf8_opt lb (trim_line sz))) (\<lambda>text.
        bindS (liftS (ok_or git_failure (parse_usize text))) (\<lambda>n.
        if TAG_LIMIT < n then retS (jset row ''detailsOmitted'' (JBool True))
        else
          bindS (repo_run os repo [''cat-file'', ''tag'', current]) (\<lambda>raw.
          let split = (case blank_line raw of Some i \<Rightarrow> i | None \<Rightarrow> length raw) in
          bindS (liftS (tag_lines lb (split_on (CHR 0x0A) (take split raw)) (None, JNull))) (\<lambda>(target, tg).
          bindS (liftS (ok_or git_failure target)) (\<lambda>target.
          bindS (liftS (oid target)) (\<lambda>_.
          bindS (if first then liftS (first_tag lb raw split budget target tg row) else retS row) (\<lambda>row.
            tag_walk lb os repo budget left target
              (if left = 0 then jset row ''detailsOmitted'' (JBool True) else row)))))))))))))"

definition tag_detail :: "libs \<Rightarrow> 'w os \<Rightarrow> repo \<Rightarrow> string \<Rightarrow> nat \<Rightarrow> ('w gst, json) step" where
  "tag_detail lb os repo cid budget =
     bindS (liftS (oid cid)) (\<lambda>_.
     bindS (liftS (tag_wire cid)) (\<lambda>o'.
       tag_walk lb os repo budget TAG_DEPTH cid
         (JObj [(''oid'', o'), (''annotated'', JBool False), (''detailsOmitted'', JBool False)])))"

definition tag_row :: "libs \<Rightarrow> bytes \<Rightarrow> gerror + json" where
  "tag_row lb line =
     (let f = split_on (CHR 0x00) line in
      if length f \<noteq> 3 then Inl git_failure
      else if length (f ! 0) < 10 then Inl panicked
      else
        mapR (\<lambda>raw. JObj [(''name'', wpath lb (drop 10 (f ! 0))), (''reference'', wpath lb (f ! 0)),
                (''rawOid'', JStr raw),
                (''symbolicTarget'', if f ! 2 = [] then JNull else wpath lb (f ! 2))])
          (utf8_opt lb (f ! 1)))"

definition jremove :: "string \<Rightarrow> json \<Rightarrow> json" where
  "jremove k v = (case v of JObj m \<Rightarrow> JObj (adel k m) | _ \<Rightarrow> v)"

definition jextend :: "json \<Rightarrow> json \<Rightarrow> json" where
  "jextend v w = (case w of JObj m \<Rightarrow> foldl (\<lambda>v (k, x). jset v k x) v m | _ \<Rightarrow> v)"

definition tag_entry :: "libs \<Rightarrow> 'w os \<Rightarrow> repo \<Rightarrow> nat \<Rightarrow> json \<Rightarrow> ('w gst, json) step" where
  "tag_entry lb os repo budget row =
     bindS (liftS (ok_or git_failure (jstr (jget row ''rawOid'')))) (\<lambda>raw.
     bindS (tag_detail lb os repo raw budget) (\<lambda>d.
       retS (jextend (jremove ''rawOid'' row) d)))"

definition tags_page ::
  "libs \<Rightarrow> 'w os \<Rightarrow> repo \<Rightarrow> nat \<Rightarrow> string option \<Rightarrow> nat option \<Rightarrow> ('w gst, json) step" where
  "tags_page lb os repo count cursor budget =
     (let bud = (case budget of None \<Rightarrow> 16384 | Some b \<Rightarrow> b) in
      if \<not> (1 \<le> bud \<and> bud \<le> 16384) \<or> \<not> (1 \<le> count \<and> count \<le> 200)
      then failS (gerror_invalid ''Invalid tag page parameters.'')
      else
        bindS (repo_run os repo [''for-each-ref'', ''--sort=refname'',
                 ''--format=%(refname)%00%(objectname)%00%(symref)'', ''refs/tags/'']) (\<lambda>b.
        bindS (liftS (collectR (tag_row lb) (lines_of b))) (\<lambda>rows.
        bindS (liftS (page lb repo (''cli.tags:'' @ show_nat bud) (hex (sha256 lb b)) rows
                 (min count (256 * 1024 div (bud * 2 + 2048))) cursor
                 (JObj [(''totalEntries'', jnat (length rows))]))) (\<lambda>v.
        bindS (liftS (ok_or git_failure (case jget v ''entries'' of JArr xs \<Rightarrow> Some xs | _ \<Rightarrow> None))) (\<lambda>xs.
        bindS (collectS (tag_entry lb os repo bud) xs) (\<lambda>ys.
          retS (jset v ''entries'' (JArr ys))))))))"

end
