(* ===== verification/DiffPages.thy ===== *)
theory DiffPages
  imports History
begin

text \<open>
  Diffs as pages, the rest of \<open>git/cli/diff.rs\<close>: the comparison of a commit with one of its parents,
  the list of its files, and \<open>page\<close>, which cuts the lines of a diff into pieces of 4096 bytes, numbers
  the pieces of all files and sends as many as fit the byte budget. The rows of a page name the files
  and hunks of its pieces again, so a client joins the pages by file index, hunk index and line index.
\<close>

section \<open>The JSON of a diff\<close>

definition delta_fields :: "libs \<Rightarrow> dfile \<Rightarrow> (string \<times> json) list" where
  "delta_fields lb f =
     [(''oldPath'', wpath lb (df_old_path f)), (''newPath'', wpath lb (df_new_path f)),
      (''oldOid'', df_old_oid f), (''newOid'', df_new_oid f), (''oldMode'', jnat (df_old_mode f)),
      (''newMode'', jnat (df_new_mode f)), (''status'', JStr (df_status f))]"

definition line_json :: "libs \<Rightarrow> dline \<Rightarrow> json" where
  "line_json lb l =
     JObj [(''id'', jopt JStr (ln_id l)), (''origin'', JStr [ln_origin l]),
       (''oldLine'', jopt jnat (ln_old l)), (''newLine'', jopt jnat (ln_new l)),
       (''content'', wpath lb (ln_content l))]"

definition hunk_fields :: "dhunk \<Rightarrow> (string \<times> json) list" where
  "hunk_fields h =
     [(''id'', JStr (hk_id h)), (''oldStart'', jnat (hk_old_start h)),
      (''oldLines'', jnat (hk_old_lines h)), (''newStart'', jnat (hk_new_start h)),
      (''newLines'', jnat (hk_new_lines h))]"

definition hunk_json :: "libs \<Rightarrow> dhunk \<Rightarrow> json" where
  "hunk_json lb h =
     JObj (hunk_fields h @ [(''lines'', JArr (map (line_json lb) (hk_lines h)))])"

definition patch_fields :: "dfile \<Rightarrow> (string \<times> json) list" where
  "patch_fields f =
     [(''binary'', JBool (df_binary f)), (''additions'', jnat (df_adds f)), (''deletions'', jnat (df_dels f))]"

definition file_json :: "libs \<Rightarrow> dfile \<Rightarrow> json" where
  "file_json lb f =
     JObj (delta_fields lb f @ [(''hunks'', JArr (map (hunk_json lb) (df_hunks f)))] @ patch_fields f)"

section \<open>A commit compared with a parent\<close>

definition parent_index :: "nat \<Rightarrow> nat \<Rightarrow> gerror + unit" where
  "parent_index count parent =
     (if count = 0 \<and> parent \<noteq> 0 \<or> count \<noteq> 0 \<and> count \<le> parent
      then Inl (gerror_invalid ''Invalid parent index.'') else Inr ())"

definition comparison_args :: "string \<Rightarrow> json \<Rightarrow> string list" where
  "comparison_args cid base =
     (''--attr-source='' @ cid) #
     (case jstr (jget base ''hex'') of
        Some b \<Rightarrow> [''--literal-pathspecs'', ''diff'', b, cid]
      | None \<Rightarrow> [''--literal-pathspecs'', ''diff-tree'', ''-r'', ''--root'', ''--no-commit-id'', cid])"

definition jarr :: "json \<Rightarrow> json list option" where
  "jarr v = (case v of JArr xs \<Rightarrow> Some xs | _ \<Rightarrow> None)"

definition compare ::
  "libs \<Rightarrow> 'w os \<Rightarrow> repo \<Rightarrow> string \<Rightarrow> nat \<Rightarrow> ('w gst, string list \<times> json) step" where
  "compare lb os repo cid parent =
     bindS (commit lb os repo cid 1) (\<lambda>c.
     bindS (liftS (ok_or git_failure (jarr (jget c ''parents'')))) (\<lambda>parents.
     bindS (liftS (parent_index (length parents) parent)) (\<lambda>_.
     let base = (if parent < length parents then parents ! parent else JNull) in
       retS (comparison_args cid base,
         JObj [(''truncated'', JBool False), (''readOnly'', JBool True), (''commitOid'', jget c ''oid''),
           (''parentOid'', base), (''parentIndex'', if parents = [] then JNull else jnat parent),
           (''parents'', JArr parents)]))))"

definition diff_history ::
  "libs \<Rightarrow> diff_lib \<Rightarrow> 'w os \<Rightarrow> repo \<Rightarrow> string \<Rightarrow> nat \<Rightarrow> wire_path option \<Rightarrow> nat \<Rightarrow>
   ('w gst, dfile list \<times> json) step" where
  "diff_history lb dl os repo cid parent path ctx =
     bindS (compare lb os repo cid parent) (\<lambda>(base, metadata).
     bindS (case path of None \<Rightarrow> retS [] | Some p \<Rightarrow> liftS (mapR (\<lambda>b. [b]) (wire_decode lb p))) (\<lambda>paths.
     bindS (diff_read dl os repo base paths ctx) (\<lambda>files.
       retS (files, jset (jset metadata ''contextLines'' (jnat ctx)) ''selectedPath''
                      (jopt wire_json path)))))"

definition working_json :: "comparison \<Rightarrow> dfile list \<times> json" where
  "working_json c =
     (cm_files c,
      JObj [(''truncated'', JBool False), (''readOnly'', JBool False), (''sourceSnapshot'', JStr (cm_source c)),
        (''entryId'', JStr (cm_entry c)),
        (''side'', JStr (case cm_side c of HeadToIndex \<Rightarrow> ''head_to_index''
           | IndexToWorktree \<Rightarrow> ''index_to_worktree'' | HeadToWorktree \<Rightarrow> ''head_to_worktree'')),
        (''contextLines'', jnat (cm_context c))])"

definition commit_files ::
  "libs \<Rightarrow> 'w os \<Rightarrow> repo \<Rightarrow> string \<Rightarrow> nat \<Rightarrow> nat \<Rightarrow> string option \<Rightarrow> ('w gst, json) step" where
  "commit_files lb os repo cid parent count cursor =
     bindS (compare lb os repo cid parent) (\<lambda>(command, metadata).
     bindS (diff_execute os repo (command @ [''--no-ext-diff'', ''--no-textconv'', ''--no-abbrev'',
              ''--find-renames'', ''--raw'', ''-z'', ''--''])) (\<lambda>b.
     bindS (liftS (deltas (nul_records b))) (\<lambda>files.
     let rows = map (\<lambda>f. JObj (delta_fields lb f)) files in
     bindS (liftS (page_hash lb (JArr [JArr rows, metadata]))) (\<lambda>fp.
       liftS (page lb repo (''cli.commit_files:'' @ cid @ '':'' @ show_nat parent) fp rows count cursor
         (jset (jremove ''files'' metadata) ''totalFiles'' (jnat (length rows))))))))"

section \<open>Pieces and units\<close>

text \<open>A line is sent in pieces of at most 4096 bytes; an empty line is one empty piece.\<close>

definition PIECE :: nat where "PIECE = 4096"

record piece =
  pc_line :: nat
  pc_offset :: nat
  pc_last :: bool
  pc_source :: dline
  pc_bytes :: bytes

definition piece_at :: "nat \<Rightarrow> dline \<Rightarrow> nat \<Rightarrow> piece" where
  "piece_at i l off =
     (let b = ln_content l; stop = min (off + PIECE) (length b) in
      \<lparr>pc_line = i, pc_offset = off, pc_last = (stop = length b), pc_source = l,
       pc_bytes = take (stop - off) (drop off b)\<rparr>)"

text \<open>\<open>(0..n).step_by(4096)\<close>.\<close>

function step_by :: "nat \<Rightarrow> nat \<Rightarrow> nat list" where
  "step_by off n = (if off < n then off # step_by (off + PIECE) n else [])"
  by pat_completeness auto
termination by (relation "measure (\<lambda>(off, n). n - off)") (auto simp: PIECE_def)

declare step_by.simps [simp del]

definition line_pieces :: "nat \<Rightarrow> dline \<Rightarrow> piece list" where
  "line_pieces i l = map (piece_at i l) (step_by 0 (max (length (ln_content l)) 1))"

fun indexed :: "(nat \<Rightarrow> 'a \<Rightarrow> 'b) \<Rightarrow> nat \<Rightarrow> 'a list \<Rightarrow> 'b list" where
  "indexed f n [] = []"
| "indexed f n (x # xs) = f n x # indexed f (Suc n) xs"

definition hunk_pieces :: "dhunk \<Rightarrow> piece list" where
  "hunk_pieces h = concat (indexed line_pieces 0 (hk_lines h))"

definition piece_json :: "libs \<Rightarrow> bool \<Rightarrow> piece \<Rightarrow> json" where
  "piece_json lb wk p =
     JObj ([(''lineIndex'', jnat (pc_line p)), (''byteOffset'', jnat (pc_offset p)),
        (''lineComplete'', JBool (pc_last p)), (''origin'', JStr [ln_origin (pc_source p)]),
        (''oldLine'', jopt jnat (ln_old (pc_source p))), (''newLine'', jopt jnat (ln_new (pc_source p))),
        (''contentBytesB64'', JStr (b64 (lb_tk lb) (pc_bytes p)))] @
       (if wk
        then [(''id'', if pc_last p then jopt JStr (ln_id (pc_source p)) else JNull)] else []))"

text \<open>A file and a hunk as a row carries them, with the hunks and pieces given.\<close>

definition hunk_row :: "nat \<Rightarrow> dhunk \<Rightarrow> json list \<Rightarrow> json" where
  "hunk_row i h ls =
     JObj (hunk_fields h @ [(''lines'', JArr ls), (''index'', jnat i),
       (''totalLines'', jnat (length (hk_lines h)))])"

definition file_row :: "libs \<Rightarrow> nat \<Rightarrow> dfile \<Rightarrow> json list \<Rightarrow> json" where
  "file_row lb i f hs =
     JObj (delta_fields lb f @ [(''hunks'', JArr hs)] @ patch_fields f @
       [(''fileIndex'', jnat i),
        (''omissionReason'', if df_binary f then JStr ''binary'' else JNull)])"

definition cut_file :: "libs \<Rightarrow> bool \<Rightarrow> nat \<Rightarrow> dfile \<Rightarrow> json" where
  "cut_file lb wk i f =
     file_row lb i f
       (indexed (\<lambda>j h. hunk_row j h (map (piece_json lb wk) (hunk_pieces h))) 0 (df_hunks f))"

type_synonym diff_unit = "nat \<times> (nat \<times> nat) option"

definition file_units :: "nat \<Rightarrow> dfile \<Rightarrow> diff_unit list" where
  "file_units i f =
     (if df_hunks f = [] then [(i, None)]
      else concat (indexed (\<lambda>j h. map (\<lambda>k. (i, Some (j, k))) [0..<length (hunk_pieces h)]) 0
             (df_hunks f)))"

definition diff_units :: "dfile list \<Rightarrow> diff_unit list" where
  "diff_units files = concat (indexed file_units 0 files)"

section \<open>The rows of one page\<close>

text \<open>
  The loop over the units of a page: a row per run of one file, in it an entry per run of one hunk.
  The indices of the rows stand for the JSON they are rendered to below.
\<close>

record page_acc =
  pa_rows :: "(nat \<times> (nat \<times> nat list) list) list"
  pa_file :: "nat option"
  pa_hunk :: "nat option"

definition open_file :: "nat \<Rightarrow> page_acc \<Rightarrow> page_acc" where
  "open_file f a =
     (if pa_file a = Some f then a
      else \<lparr>pa_rows = pa_rows a @ [(f, [])], pa_file = Some f, pa_hunk = None\<rparr>)"

definition open_hunk :: "nat \<Rightarrow> page_acc \<Rightarrow> page_acc" where
  "open_hunk h a =
     (if pa_hunk a = Some h then a
      else a\<lparr>pa_rows := map_last (\<lambda>(f, hs). (f, hs @ [(h, [])])) (pa_rows a), pa_hunk := Some h\<rparr>)"

definition push_piece :: "nat \<Rightarrow> page_acc \<Rightarrow> page_acc" where
  "push_piece l a =
     a\<lparr>pa_rows := map_last (\<lambda>(f, hs). (f, map_last (\<lambda>(h, ls). (h, ls @ [l])) hs)) (pa_rows a)\<rparr>"

definition page_unit :: "page_acc \<Rightarrow> diff_unit \<Rightarrow> page_acc" where
  "page_unit a u =
     (case u of
        (f, None) \<Rightarrow> open_file f a
      | (f, Some (h, l)) \<Rightarrow> push_piece l (open_hunk h (open_file f a)))"

definition page_groups :: "diff_unit list \<Rightarrow> (nat \<times> (nat \<times> nat list) list) list" where
  "page_groups us = pa_rows (foldl page_unit \<lparr>pa_rows = [], pa_file = None, pa_hunk = None\<rparr> us)"

text \<open>With an encoding the fields of a piece are sent by position.\<close>

definition piece_tuple :: "bool \<Rightarrow> json \<Rightarrow> json" where
  "piece_tuple wk p =
     JArr (map (jget p) ([''lineIndex'', ''byteOffset'', ''lineComplete'', ''origin'', ''oldLine'',
       ''newLine'', ''contentBytesB64''] @ (if wk then [''id''] else [])))"

definition sent_piece :: "libs \<Rightarrow> bool \<Rightarrow> bool \<Rightarrow> dhunk \<Rightarrow> nat \<Rightarrow> json" where
  "sent_piece lb wk encoded h k =
     (let p = piece_json lb wk (hunk_pieces h ! k) in
      if encoded then piece_tuple wk p else p)"

definition page_rows_json ::
  "libs \<Rightarrow> bool \<Rightarrow> bool \<Rightarrow> dfile list \<Rightarrow> diff_unit list \<Rightarrow> json list" where
  "page_rows_json lb wk encoded files us =
     map (\<lambda>(f, hs). file_row lb f (files ! f)
            (map (\<lambda>(h, ls). hunk_row h (df_hunks (files ! f) ! h)
               (map (sent_piece lb wk encoded (df_hunks (files ! f) ! h)) ls)) hs))
       (page_groups us)"

section \<open>A page of a diff\<close>

definition diff_cursor :: "libs \<Rightarrow> snapshot_ref \<Rightarrow> string option \<Rightarrow> gerror + nat" where
  "diff_cursor lb sn cursor =
     (case cursor of
        None \<Rightarrow> Inr 0
      | Some t \<Rightarrow>
          bindR (cursor_decode (lb_tk lb) t) (\<lambda>c.
            if sn_r (cu_s c) \<noteq> sn_r sn \<or> sn_q (cu_s c) \<noteq> sn_q sn \<or> cu_k c \<noteq> None
            then Inl (gerror_invalid ''Cursor does not match this diff.'')
            else if sn_f (cu_s c) \<noteq> sn_f sn
            then Inl (gerror_new ''SNAPSHOT_EXPIRED'' ''The diff changed.'')
            else Inr (cu_o c)))"

definition diff_response ::
  "libs \<Rightarrow> bool \<Rightarrow> bool \<Rightarrow> snapshot_ref \<Rightarrow> dfile list \<Rightarrow> json \<Rightarrow> diff_unit list \<Rightarrow> nat \<Rightarrow> nat \<Rightarrow> json"
where
  "diff_response lb wk encoded sn files metadata us start stop =
     JObj [(''snapshot'', JStr (snapshot_encode (lb_tk lb) sn)),
       (''entries'', JArr (page_rows_json lb wk encoded files (take (stop - start) (drop start us)))),
       (''nextCursor'',
          if stop < length us
          then JStr (cursor_encode (lb_tk lb) \<lparr>cu_s = sn, cu_o = stop, cu_k = None\<rparr>) else JNull),
       (''metadata'', metadata)]"

text \<open>The loop that halves the page until it fits the budget.\<close>

function shrink :: "(nat \<Rightarrow> json) \<Rightarrow> (json \<Rightarrow> nat option) \<Rightarrow> nat \<Rightarrow> nat \<Rightarrow> nat \<Rightarrow> gerror + json" where
  "shrink response sz budget start stop =
     (case sz (response stop) of
        None \<Rightarrow> Inl git_failure
      | Some n \<Rightarrow>
          if n \<le> budget then Inr (response stop)
          else if stop \<le> start + 1
          then Inl (gerror_new ''LIMIT_EXCEEDED'' ''A diff line exceeds the requested page budget.'')
          else shrink response sz budget start (start + (stop - start) div 2))"
  by pat_completeness auto
termination by (relation "measure (\<lambda>(_, _, _, start, stop). stop - start)") auto

declare shrink.simps [simp del]

definition diff_metadata :: "dfile list \<Rightarrow> json \<Rightarrow> json" where
  "diff_metadata files metadata =
     jset (jset (jset (jremove ''truncated'' (jremove ''files'' metadata))
       ''totalUnits'' (jnat (length (diff_units files))))
       ''totalFiles'' (jnat (length files)))
       ''hasOmissions'' (JBool (list_ex df_binary files))"

definition diff_snapshot ::
  "libs \<Rightarrow> repo \<Rightarrow> string \<Rightarrow> bool \<Rightarrow> dfile list \<Rightarrow> json \<Rightarrow> gerror + snapshot_ref" where
  "diff_snapshot lb repo query wk files metadata =
     mapR (\<lambda>f. \<lparr>sn_r = rp_id repo, sn_q = query, sn_f = f, sn_p = None\<rparr>)
       (page_hash lb (JArr [JArr (indexed (cut_file lb wk) 0 files), metadata]))"

definition diff_page ::
  "libs \<Rightarrow> repo \<Rightarrow> dfile list \<times> json \<Rightarrow> string \<Rightarrow> nat \<Rightarrow> nat option \<Rightarrow> string option \<Rightarrow> bool \<Rightarrow> gerror + json"
where
  "diff_page lb repo value query count budget cursor encoded =
     (let bud = (case budget of None \<Rightarrow> 256 * 1024 | Some b \<Rightarrow> b) in
      if \<not> (1 \<le> count \<and> count \<le> 5000) \<or> \<not> (4096 \<le> bud \<and> bud \<le> 524288)
      then Inl (gerror_invalid ''Invalid diff page limits.'')
      else
        (let files = fst value; wk = (jget (snd value) ''readOnly'' = JBool False);
             us = diff_units files; md = diff_metadata files (snd value) in
         bindR (diff_snapshot lb repo query wk files md) (\<lambda>sn.
         bindR (diff_cursor lb sn cursor) (\<lambda>start.
           if length us < start
           then Inl (gerror_invalid ''Cursor is past the end of this diff.'')
           else shrink (diff_response lb wk encoded sn files md us start) (json_size lb) bud start
                  (min (start + count) (length us))))))"

end
