(* ===== verification/HistoryProps.thy ===== *)
theory HistoryProps
  imports History
begin

text \<open>
  What the readers of history guarantee: the pages of a blob and of a history reassemble (both
  provide the contract \<open>paging\<close>), a batch of commits is taken apart as Git printed it, and reading
  mutates nothing.
\<close>

section \<open>Reading mutates nothing\<close>

lemma commits_quiet: "preserves same_mutations (commits lb os repo ids budget)"
  unfolding commits_def by (intro quiet.pres_rules repo_quiets)

lemma blob_header_quiet: "preserves same_mutations (blob_header lb os repo cid)"
  unfolding blob_header_def Let_def by (intro quiet.pres_rules repo_quiets)

section \<open>A Git that prints a known output\<close>

text \<open>Git exits successfully and prints \<open>out\<close>, in chunks of any size, whenever it is so started.\<close>

definition serves :: "'w os \<Rightarrow> string \<Rightarrow> string list \<Rightarrow> bytes \<Rightarrow> bytes \<Rightarrow> bool" where
  "serves os root args input out \<longleftrightarrow>
     (\<forall>w. \<exists>w' p. os_spawn os root args input w = (w', Spawned p) \<and> pr_wait p = Exited (Some 0) \<and>
        pipe_ok (pr_out p) \<and> concat (chunks (pr_out p)) = out \<and> pipe_ok (pr_err p))"

lemma served_capture:
  assumes "serves os root args input out"
  obtains w p where "os_spawn os root args input (gw s) = (w, Spawned p)" "pr_wait p = Exited (Some 0)"
    "pipe_ok (pr_out p)" "concat (chunks (pr_out p)) = out" "pipe_ok (pr_err p)"
  using assms unfolding serves_def by blast

lemma served_run:
  assumes "serves os root args input out" and "length out \<le> OUTPUT_LIMIT"
  shows "\<exists>s'. run_input os root args input s = (s', Inr (Some out))"
proof -
  obtain w p where "os_spawn os root args input (gw s) = (w, Spawned p)" "pr_wait p = Exited (Some 0)"
    "pipe_ok (pr_out p)" "concat (chunks (pr_out p)) = out" "pipe_ok (pr_err p)"
    using served_capture [OF assms(1)] .
  then show ?thesis
    using assms(2)
    by (simp add: run_input_def run_os_def execute_def execute_capture_def bindS_def drain_correct)
qed

lemma served_window:
  assumes "serves os root args [] out"
  shows "\<exists>s'. window os root args off n s = (s', Inr (take n (drop off out)))"
proof -
  obtain w p where "os_spawn os root args [] (gw s) = (w, Spawned p)" "pr_wait p = Exited (Some 0)"
    "pipe_ok (pr_out p)" "concat (chunks (pr_out p)) = out" "pipe_ok (pr_err p)"
    using served_capture [OF assms] .
  then show ?thesis
    by (simp add: window_def execute_capture_def bindS_def drain_correct drain_window_correct)
qed

section \<open>Decimal numbers\<close>

lemma dec_digit_digit: "n < 10 \<Longrightarrow> digit (dec_digit n) \<and> byte (dec_digit n) = 48 + n"
proof -
  assume "n < 10"
  then have "n \<in> {0, 1, 2, 3, 4, 5, 6, 7, 8, 9}" by auto
  then show ?thesis by (auto simp: digit_def dec_digit_def byte_def numeral_eq_Suc)
qed

lemma digits_val_append: "digits_val (s @ [c]) = 10 * digits_val s + (byte c - 48)"
  by (simp add: digits_val_def)

lemma show_nat_digits: "list_all digit (show_nat n) \<and> digits_val (show_nat n) = n \<and> show_nat n \<noteq> []"
  unfolding show_nat_def
proof (induction n rule: less_induct)
  case (less n)
  show ?case
  proof (cases "n < 10")
    case True
    then show ?thesis
      using dec_digit_digit [OF True] by (subst (1 2 3) show_base.simps) (simp add: digits_val_def)
  next
    case False
    then have "list_all digit (show_base 10 (n div 10)) \<and> digits_val (show_base 10 (n div 10)) = n div 10"
      using less [of "n div 10"] by simp
    moreover have "digit (dec_digit (n mod 10)) \<and> byte (dec_digit (n mod 10)) = 48 + n mod 10"
      by (rule dec_digit_digit) simp
    moreover have "show_base 10 n = show_base 10 (n div 10) @ [dec_digit (n mod 10)]"
      using False by (subst show_base.simps) simp
    ultimately show ?thesis by (simp add: digits_val_append)
  qed
qed

lemma digit_chars: "digit c \<Longrightarrow> c \<noteq> CHR ''+'' \<and> c \<noteq> CHR '' '' \<and> c \<noteq> CHR 0x0A"
  by (auto simp: digit_def)

lemma show_nat_chars: "c \<in> set (show_nat n) \<Longrightarrow> c \<noteq> CHR ''+'' \<and> c \<noteq> CHR '' '' \<and> c \<noteq> CHR 0x0A"
  using show_nat_digits [of n] digit_chars by (auto simp: list_all_iff)

lemma parse_show: "n < 2 ^ 64 \<Longrightarrow> parse_usize (show_nat n) = Some n"
proof -
  assume n: "n < 2 ^ 64"
  have "\<not> starts_with ''+'' (show_nat n)"
    using show_nat_chars [of "hd (show_nat n)" n] show_nat_digits [of n]
    by (cases "show_nat n") (auto simp: starts_with_def)
  then show ?thesis using n show_nat_digits [of n] by (simp add: parse_usize_def)
qed

section \<open>Blobs\<close>

definition blob_slice :: "nat \<Rightarrow> bytes \<Rightarrow> nat \<Rightarrow> bytes option" where
  "blob_slice bud xs off = Some (take (blob_end True bud off (length xs) - off) (drop off xs))"

interpretation blobs: paging "blob_slice bud" for bud
proof
  fix xs off p
  assume s: "blob_slice bud xs off = Some p"
  then show "p = take (length p) (drop off xs)"
    unfolding blob_slice_def by (metis append_eq_conv_conj append_take_drop_id option.inject)
  assume "off < length xs"
  moreover have "0 < max (bud - 4096) 1024 * 3 div 4" 
    using div_le_mono [of "1024 * 3" "max (bud - 4096) 1024 * 3" 4] by simp
  ultimately have "off < blob_end True bud off (length xs)" by (simp add: blob_end_def)
  then show "p \<noteq> []" using s \<open>off < length xs\<close> by (auto simp: blob_slice_def)
qed

text \<open>Git has the object: the header of the batch check and the content.\<close>

definition has_blob :: "libs \<Rightarrow> 'w os \<Rightarrow> repo \<Rightarrow> string \<Rightarrow> bytes \<Rightarrow> bool" where
  "has_blob lb os repo cid content \<longleftrightarrow>
     (let header = cid @ '' blob '' @ show_nat (length content) in
      serves os (rp_root repo) [''cat-file'', ''--batch-check''] (cid @ [CHR 0x0A]) (header @ [CHR 0x0A]) \<and>
      serves os (rp_root repo) [''cat-file'', ''blob'', cid] [] content \<and> utf8 lb header)"

definition blob_sn :: "repo \<Rightarrow> string \<Rightarrow> snapshot_ref" where
  "blob_sn repo cid = \<lparr>sn_r = rp_id repo, sn_q = ''cli.blob:'' @ cid, sn_f = cid, sn_p = None\<rparr>"

lemma oid_no_blank:
  assumes "is_oid cid"
  shows "CHR '' '' \<notin> set cid" and "CHR 0x0A \<notin> set cid" and "length cid \<le> 64"
proof -
  have "\<not> ascii_hexdigit (CHR '' '')" "\<not> ascii_hexdigit (CHR 0x0A)" by (simp_all add: ascii_hexdigit_def)
  then show "CHR '' '' \<notin> set cid" "CHR 0x0A \<notin> set cid" "length cid \<le> 64"
    using assms by (auto simp: is_oid_def list_all_iff)
qed

lemma length_show_nat: "n < 10 ^ Suc k \<Longrightarrow> length (show_nat n) \<le> Suc k"
  unfolding show_nat_def
proof (induction k arbitrary: n)
  case 0
  then show ?case by (subst show_base.simps) simp
next
  case (Suc k)
  show ?case
  proof (cases "n < 10")
    case False
    have "n div 10 < 10 ^ Suc k" using Suc.prems by simp
    then show ?thesis using Suc.IH [of "n div 10"] False by (subst show_base.simps) simp
  qed (subst show_base.simps, simp)
qed

lemma three_parts:
  assumes "CHR '' '' \<notin> set a" "CHR '' '' \<notin> set b" "CHR '' '' \<notin> set c"
  shows "split_on (CHR '' '') (a @ CHR '' '' # b @ CHR '' '' # c) = [a, b, c]"
  using assms by (simp add: split_on_append_sep split_on_no_sep)

lemma blob_header_served:
  assumes oid: "is_oid cid" and has: "has_blob lb os repo cid content"
    and n: "length content < 2 ^ 64"
  shows "\<exists>s'. blob_header lb os repo cid s = (s', Inr (length content))"
proof -
  define header where "header = cid @ '' blob '' @ show_nat (length content)"
  have sv: "serves os (rp_root repo) [''cat-file'', ''--batch-check''] (cid @ [CHR 0x0A]) (header @ [CHR 0x0A])"
    and u: "utf8 lb header"
    using has by (simp_all add: has_blob_def header_def Let_def)
  have "length (header @ [CHR 0x0A]) \<le> OUTPUT_LIMIT"
    using oid_no_blank(3) [OF oid] length_show_nat [of "length content" 19] n
    by (simp add: header_def OUTPUT_LIMIT_def)
  from served_run [OF sv this, of s] obtain s' where
    r: "run_input os (rp_root repo) [''cat-file'', ''--batch-check''] (cid @ [CHR 0x0A]) s
      = (s', Inr (Some (header @ [CHR 0x0A])))" by blast
  have "header = cid @ CHR '' '' # ''blob'' @ CHR '' '' # show_nat (length content)"
    by (simp add: header_def)
  then have "split_on (CHR '' '') header = [cid, ''blob'', show_nat (length content)]"
    using three_parts [of cid "''blob''" "show_nat (length content)"] oid_no_blank(1) [OF oid]
      show_nat_chars by fastforce
  then show ?thesis
    using r u parse_show [of "length content"] n
    by (simp add: blob_header_def some_or_def bindS_def trim_line_def utf8_opt_def Let_def)
qed

text \<open>What a client takes out of a page of a blob, and the client that follows the cursors.\<close>

definition part_data :: "libs \<Rightarrow> json \<Rightarrow> bytes option" where
  "part_data lb v =
     (case entries v of
        [] \<Rightarrow> Some []
      | [e] \<Rightarrow> Option.bind (jstr (jget e ''bytesB64'')) (unb64 (lb_tk lb))
      | _ \<Rightarrow> None)"

fun read_blob ::
  "libs \<Rightarrow> 'w os \<Rightarrow> repo \<Rightarrow> string \<Rightarrow> nat \<Rightarrow> nat \<Rightarrow> string option \<Rightarrow> 'w gst \<Rightarrow> bytes option"
where
  "read_blob lb os repo cid bud 0 cursor s = None"
| "read_blob lb os repo cid bud (Suc n) cursor s =
     (case blob lb os repo cid (Some bud) cursor True s of
        (s', Inl e) \<Rightarrow> None
      | (s', Inr v) \<Rightarrow>
          (case (part_data lb v, next_cursor v) of
             (None, _) \<Rightarrow> None
           | (Some d, None) \<Rightarrow> Some d
           | (Some d, Some c) \<Rightarrow> map_option ((@) d) (read_blob lb os repo cid bud n (Some c) s')))"

lemma blob_page_served:
  assumes oid: "is_oid cid" and has: "has_blob lb os repo cid content"
    and n: "length content < 2 ^ 64" and bud: "4096 \<le> bud" "bud \<le> 524288"
    and off: "blob_offset lb (blob_sn repo cid) cursor = Inr off" "off \<le> length content"
    and tk: "token_lib_ok (lb_tk lb)"
  shows "\<exists>s' v. blob lb os repo cid (Some bud) cursor True s = (s', Inr v) \<and>
    part_data lb v = blob_slice bud content off \<and>
    next_cursor v = (let e = blob_end True bud off (length content) in
      if e < length content
      then Some (cursor_encode (lb_tk lb) \<lparr>cu_s = blob_sn repo cid, cu_o = e, cu_k = None\<rparr>) else None)"
proof -
  define e where "e = blob_end True bud off (length content)"
  have e: "off \<le> e" "e \<le> length content" using off(2) by (simp_all add: e_def blob_end_def)
  obtain s1 where h: "blob_header lb os repo cid s = (s1, Inr (length content))"
    using blob_header_served [OF oid has n] by blast
  obtain ob where ob: "oid cid = Inr ob" using oid by (simp add: oid_def)
  have "serves os (rp_root repo) [''cat-file'', ''blob'', cid] [] content"
    using has by (simp add: has_blob_def Let_def)
  from served_window [OF this, of off "e - off" s1] obtain s2 where
    w: "window os (rp_root repo) [''cat-file'', ''blob'', cid] off (e - off) s1
      = (s2, Inr (take (e - off) (drop off content)))" by blast
  define v where "v = blob_part lb (blob_sn repo cid) ob (length content) off e
    (take (e - off) (drop off content))"
  have "blob lb os repo cid (Some bud) cursor True s = (s2, Inr v)"
    using off bud e w h ob
    by (simp add: blob_def bindS_def Let_def e_def [symmetric] blob_sn_def v_def)
  moreover have "part_data lb v = blob_slice bud content off"
    using e tk by (simp add: part_data_def v_def blob_part_def entries_def jstr_def blob_slice_def
        e_def [symmetric] token_lib_okD)
  moreover have "next_cursor v = (if e < length content
      then Some (cursor_encode (lb_tk lb) \<lparr>cu_s = blob_sn repo cid, cu_o = e, cu_k = None\<rparr>) else None)"
    by (simp add: next_cursor_def v_def blob_part_def jstr_def)
  ultimately show ?thesis by (simp add: e_def Let_def)
qed

lemma read_blob_follow:
  assumes oid: "is_oid cid" and has: "has_blob lb os repo cid content"
    and n: "length content < 2 ^ 64" and bud: "4096 \<le> bud" "bud \<le> 524288"
    and tk: "token_lib_ok (lb_tk lb)"
    and short: "\<forall>k \<le> length content. length (cursor_encode (lb_tk lb)
          \<lparr>cu_s = blob_sn repo cid, cu_o = k, cu_k = None\<rparr>) \<le> MAX_TOKEN"
    and off: "blob_offset lb (blob_sn repo cid) cursor = Inr off" "off \<le> length content"
  shows "read_blob lb os repo cid bud m cursor s = blobs.follow bud m content off"
  using off
proof (induction m arbitrary: cursor off s)
  case (Suc m)
  define e where "e = blob_end True bud off (length content)"
  have e: "off \<le> e" "e \<le> length content" using Suc.prems(2) by (simp_all add: e_def blob_end_def)
  obtain s' v where v: "blob lb os repo cid (Some bud) cursor True s = (s', Inr v)"
    and p: "part_data lb v = blob_slice bud content off"
    and nc: "next_cursor v = (if e < length content
      then Some (cursor_encode (lb_tk lb) \<lparr>cu_s = blob_sn repo cid, cu_o = e, cu_k = None\<rparr>) else None)"
    using blob_page_served [OF oid has n bud Suc.prems tk, of s] by (auto simp: e_def Let_def)
  have sl: "blob_slice bud content off = Some (take (e - off) (drop off content))"
    by (simp add: blob_slice_def e_def)
  have len: "off + length (take (e - off) (drop off content)) = e" using e by simp
  show ?case
  proof (cases "e < length content")
    case True
    define c where "c = cursor_encode (lb_tk lb) \<lparr>cu_s = blob_sn repo cid, cu_o = e, cu_k = None\<rparr>"
    have "blob_offset lb (blob_sn repo cid) (Some c) = Inr e"
      using cursor_roundtrip [OF tk] short e(2) by (simp add: blob_offset_def c_def)
    from Suc.IH [OF this e(2)] show ?thesis
      using v p nc sl len True by (simp add: c_def)
  next
    case False
    then show ?thesis using v p nc sl len by simp
  qed
qed simp

text \<open>
  C22: A client that follows the cursors of a blob receives exactly its bytes, whatever page size it
  asks for and however Git chunks its output; one request more than there are bytes always suffices.
\<close>

theorem blob_reassembled:
  assumes "token_lib_ok (lb_tk lb)" and "is_oid cid" and "has_blob lb os repo cid content"
    and "length content < 2 ^ 64" and "4096 \<le> bud" and "bud \<le> 524288"
    and "\<forall>k \<le> length content. length (cursor_encode (lb_tk lb)
          \<lparr>cu_s = blob_sn repo cid, cu_o = k, cu_k = None\<rparr>) \<le> MAX_TOKEN"
  shows "read_blob lb os repo cid bud (Suc (length content)) None s = Some content"
proof -
  have "read_blob lb os repo cid bud (Suc (length content)) None s
    = blobs.follow bud (Suc (length content)) content 0"
    by (rule read_blob_follow [OF assms(2-6,1,7)]) (simp_all add: blob_offset_def)
  also have "\<dots> = Some (drop 0 content)"
    by (rule blobs.follow_complete) (simp_all add: blob_slice_def)
  finally show ?thesis by simp
qed

section \<open>A batch of commits\<close>

text \<open>What \<open>cat-file --batch\<close> prints for the commits \<open>ids\<close> whose contents are \<open>raw\<close>.\<close>

definition batch_output :: "(string \<Rightarrow> bytes) \<Rightarrow> string list \<Rightarrow> bytes" where
  "batch_output raw ids =
     concat (map (\<lambda>i. i @ '' commit '' @ show_nat (length (raw i)) @ [CHR 0x0A] @ raw i @ [CHR 0x0A]) ids)"

definition utf8_ascii :: "libs \<Rightarrow> bool" where
  "utf8_ascii lb \<longleftrightarrow> (\<forall>s. list_all (\<lambda>c. byte c < 128) s \<longrightarrow> utf8 lb s)"

lemma ascii_parts:
  "is_oid i \<Longrightarrow> list_all (\<lambda>c. byte c < 128) i" "list_all (\<lambda>c. byte c < 128) (show_nat n)"
proof -
  have h: "ascii_hexdigit c \<Longrightarrow> byte c < 128" for c by (auto simp: ascii_hexdigit_def byte_def)
  have d: "digit c \<Longrightarrow> byte c < 128" for c by (auto simp: digit_def byte_def)
  show "is_oid i \<Longrightarrow> list_all (\<lambda>c. byte c < 128) i" using h by (auto simp: is_oid_def list_all_iff)
  show "list_all (\<lambda>c. byte c < 128) (show_nat n)" using d show_nat_digits [of n] by (auto simp: list_all_iff)
qed

lemma batch_object_printed:
  assumes i: "is_oid i" and u: "utf8_ascii lb" and n: "length raw < 2 ^ 64"
  shows "batch_object lb i (i @ '' commit '' @ show_nat (length raw) @ [CHR 0x0A] @ raw @ CHR 0x0A # rest)
    = Inr (raw, rest)"
proof -
  define h where "h = i @ CHR '' '' # ''commit'' @ CHR '' '' # show_nat (length raw)"
  have nl: "CHR 0x0A \<notin> set h"
    using oid_no_blank(2) [OF i] show_nat_chars by (fastforce simp: h_def)
  have "utf8 lb h"
    using u ascii_parts(1) [OF i] ascii_parts(2) [of "length raw"]
    by (simp add: utf8_ascii_def h_def byte_def)
  moreover have "split_on (CHR '' '') h = [i, ''commit'', show_nat (length raw)]"
    unfolding h_def using oid_no_blank(1) [OF i] show_nat_chars by (intro three_parts) fastforce+
  moreover have tw: "takeWhile (\<lambda>c. c \<noteq> CHR 0x0A) (h @ CHR 0x0A # t) = h" for t
    using nl by (simp add: takeWhile_tail takeWhile_append2) (metis (mono_tags, lifting) takeWhile_eq_all_conv)
  ultimately have "batch_object lb i (h @ CHR 0x0A # raw @ CHR 0x0A # rest) = Inr (raw, rest)"
    using parse_show [OF n] by (simp add: batch_object_def utf8_opt_def Let_def)
  then show ?thesis by (simp add: h_def)
qed

text \<open>
  The batch is taken apart exactly: every commit gets the row of its own content, in order.
\<close>

lemma batch_rows_printed:
  assumes "utf8_ascii lb"
  shows "\<forall>i\<in>set ids. is_oid i \<and> length (raw i) < 2 ^ 64 \<Longrightarrow>
    batch_rows lb budget ids (batch_output raw ids)
      = collectR (\<lambda>i. commit_row lb i (raw i) budget) ids"
proof (induction ids)
  case (Cons i ids)
  have "batch_output raw (i # ids)
    = i @ '' commit '' @ show_nat (length (raw i)) @ [CHR 0x0A] @ raw i @ CHR 0x0A # batch_output raw ids"
    by (simp add: batch_output_def)
  moreover have "is_oid i" "length (raw i) < 2 ^ 64" using Cons.prems by auto
  ultimately have "batch_object lb i (batch_output raw (i # ids)) = Inr (raw i, batch_output raw ids)"
    using batch_object_printed [OF _ assms] by metis
  then show ?case using Cons by simp
qed (simp add: batch_output_def)

section \<open>Pages of history\<close>

text \<open>
  A repository with the history \<open>ids\<close> of \<open>tip\<close>, newest first: what Git prints for the revision, for
  every slice of the list and for the contents, and a readable shallow file.
\<close>

definition has_history ::
  "libs \<Rightarrow> 'w os \<Rightarrow> repo \<Rightarrow> string \<Rightarrow> nat \<Rightarrow> string \<Rightarrow> string list \<Rightarrow> (string \<Rightarrow> bytes) \<Rightarrow> read_result \<Rightarrow> bool"
where
  "has_history lb os repo revision count tip ids raw shallow \<longleftrightarrow>
     serves os (rp_root repo) [''rev-parse'', ''--verify'', ''--end-of-options'', revision @ ''^{commit}'']
       [] (tip @ [CHR 0x0A]) \<and>
     (\<forall>off. serves os (rp_root repo) (rev_list_args tip off count) []
       (terminate (CHR 0x0A) (take (Suc count) (drop off ids)))) \<and>
     (\<forall>off. let p = take count (drop off ids) in length (batch_output raw p) \<le> OUTPUT_LIMIT \<and>
       serves os (rp_root repo) [''cat-file'', ''--batch''] (terminate (CHR 0x0A) p) (batch_output raw p)) \<and>
     (\<forall>w. os_read os (path_join (rp_common repo) ''shallow'') w = shallow) \<and>
     (case shallow of Content c \<Rightarrow> length c \<le> SHALLOW_LIMIT | NotFound \<Rightarrow> True | ReadError \<Rightarrow> False) \<and>
     is_oid tip \<and> ids \<noteq> [] \<and> list_all is_oid ids \<and> utf8_ascii lb"

definition history_sn :: "libs \<Rightarrow> repo \<Rightarrow> string \<Rightarrow> string \<Rightarrow> read_result \<Rightarrow> snapshot_ref" where
  "history_sn lb repo query tip shallow =
     \<lparr>sn_r = rp_id repo, sn_q = query,
      sn_f = hex (sha256 lb (case shallow of Content c \<Rightarrow> tip @ c | _ \<Rightarrow> tip)), sn_p = Some tip\<rparr>"

lemma str_lines_terminate:
  assumes "\<forall>i\<in>set ids. CHR 0x0A \<notin> set i \<and> CHR 0x0D \<notin> set i"
  shows "str_lines (terminate (CHR 0x0A) ids) = ids"
proof -
  have t: "terminate (CHR 0x0A) (i # js) = i @ CHR 0x0A # terminate (CHR 0x0A) js" for i js
    by (simp add: terminate_def)
  have c: "chomp i = i" if "CHR 0x0D \<notin> set i" for i
    using that by (metis chomp_def last_in_set)
  show ?thesis
    using assms
  proof (induction ids)
    case (Cons i ids)
    then have "split_incl (CHR 0x0A) (terminate (CHR 0x0A) (i # ids))
      = (i @ [CHR 0x0A]) # split_incl (CHR 0x0A) (terminate (CHR 0x0A) ids)"
      by (simp add: t split_incl_line)
    then show ?case using Cons c by (simp add: str_lines_def)
  qed (simp add: str_lines_def terminate_def)
qed

lemma oid_chars: "is_oid i \<Longrightarrow> CHR 0x0A \<notin> set i \<and> CHR 0x0D \<notin> set i"
proof -
  have "\<not> ascii_hexdigit (CHR 0x0A)" "\<not> ascii_hexdigit (CHR 0x0D)" by (simp_all add: ascii_hexdigit_def)
  then show "is_oid i \<Longrightarrow> ?thesis" by (auto simp: is_oid_def list_all_iff)
qed

lemma length_terminate:
  "\<forall>i\<in>set ids. length i \<le> 64 \<Longrightarrow> length (terminate d ids) \<le> 65 * length ids"
  by (induction ids) (auto simp: terminate_def)

lemma terminate_ascii:
  "\<forall>i\<in>set ids. is_oid i \<Longrightarrow> list_all (\<lambda>c. byte c < 128) (terminate (CHR 0x0A) ids)"
proof (induction ids)
  case (Cons i ids)
  then show ?case using ascii_parts(1) [of i] by (simp add: terminate_def byte_def)
qed (simp add: terminate_def)

lemma collectR_take: "collectR f xs = Inr ys \<Longrightarrow> collectR f (take n xs) = Inr (take n ys)"
  by (induction xs arbitrary: ys n) (auto simp: result_simps take_Cons split: nat.splits)

lemma collectR_drop: "collectR f xs = Inr ys \<Longrightarrow> collectR f (drop n xs) = Inr (drop n ys)"
  by (induction xs arbitrary: ys n) (auto simp: result_simps drop_Cons split: nat.splits)

lemma batch_length: "i \<in> set ids \<Longrightarrow> length (raw i) \<le> length (batch_output raw ids)"
  by (induction ids) (auto simp: batch_output_def)

lemma commits_served:
  assumes h: "has_history lb os repo revision count tip ids raw shallow"
    and rows: "collectR (\<lambda>i. commit_row lb i (raw i) bud) ids = Inr rows"
  shows "\<exists>s'. commits lb os repo (take count (drop off ids)) bud s = (s', Inr (take count (drop off rows)))"
proof -
  define p where "p = take count (drop off ids)"
  have "list_all is_oid ids" using h by (simp add: has_history_def)
  moreover have "set p \<subseteq> set ids" by (auto simp: p_def dest: in_set_takeD in_set_dropD)
  ultimately have oids: "\<forall>i\<in>set p. is_oid i" by (auto simp: list_all_iff)
  have sv: "serves os (rp_root repo) [''cat-file'', ''--batch''] (terminate (CHR 0x0A) p) (batch_output raw p)"
    and l: "length (batch_output raw p) \<le> OUTPUT_LIMIT" and u: "utf8_ascii lb"
    using h by (auto simp: has_history_def p_def Let_def)
  obtain s' where r: "run_input os (rp_root repo) [''cat-file'', ''--batch''] (terminate (CHR 0x0A) p) s
    = (s', Inr (Some (batch_output raw p)))" using served_run [OF sv l] by blast
  have "\<forall>i\<in>set p. is_oid i \<and> length (raw i) < 2 ^ 64"
    using oids l batch_length [of _ p raw] by (fastforce simp: OUTPUT_LIMIT_def)
  then have b: "batch_rows lb bud p (batch_output raw p) = collectR (\<lambda>i. commit_row lb i (raw i) bud) p"
    by (rule batch_rows_printed [OF u])
  have c: "collectR (\<lambda>i. commit_row lb i (raw i) bud) p = Inr (take count (drop off rows))"
    unfolding p_def by (intro collectR_take collectR_drop rows)
  have "collectR valid_oid p = Inr (map (\<lambda>_. ()) p)"
    using oids by (intro collectR_Inr_map) (simp add: valid_oid_def oid_def)
  then show ?thesis
    unfolding p_def [symmetric] using r b c
    by (cases "p = []") (simp_all add: commits_def bindS_def some_or_def)
qed

lemma fingerprint_served:
  assumes h: "has_history lb os repo revision count tip ids raw shallow"
  shows "history_fingerprint lb os repo (Some tip) s
    = (s, Inr (sn_f (history_sn lb repo query tip shallow)))"
  using h by (cases shallow)
    (simp_all add: has_history_def history_fingerprint_def bindS_def readW_def history_sn_def Let_def)

lemma tip_served:
  assumes h: "has_history lb os repo revision count tip ids raw shallow"
  shows "\<exists>s'. history_tip lb os repo revision None s = (s', Inr (Some tip))"
proof -
  have sv: "serves os (rp_root repo)
      [''rev-parse'', ''--verify'', ''--end-of-options'', revision @ ''^{commit}''] [] (tip @ [CHR 0x0A])"
    and t: "is_oid tip" and u: "utf8_ascii lb" using h by (simp_all add: has_history_def)
  have "length (tip @ [CHR 0x0A]) \<le> OUTPUT_LIMIT"
    using oid_no_blank(3) [OF t] by (simp add: OUTPUT_LIMIT_def)
  from served_run [OF sv this, of s] obtain s' where
    "run_input os (rp_root repo) [''rev-parse'', ''--verify'', ''--end-of-options'', revision @ ''^{commit}'']
       [] s = (s', Inr (Some (tip @ [CHR 0x0A])))" by blast
  moreover have "utf8 lb tip" using u ascii_parts(1) [OF t] by (simp add: utf8_ascii_def)
  ultimately show ?thesis
    by (simp add: history_tip_def run_def bindS_def trim_line_def utf8_opt_def)
qed

lemma rows_served:
  assumes h: "has_history lb os repo revision count tip ids raw shallow"
    and count: "count = Suc k" "count \<le> 200"
    and rows: "collectR (\<lambda>i. commit_row lb i (raw i) bud) ids = Inr rows"
    and off: "off < length ids"
    and fit: "page_rows (json_size lb) (take count (drop off rows)) 0 = Inr shown"
  shows "\<exists>s' v. history_rows lb os repo sn tip off count bud s = (s', Inr v) \<and> entries v = shown \<and>
    next_cursor v = (if off + length shown < length rows
      then Some (cursor_encode (lb_tk lb) \<lparr>cu_s = sn, cu_o = off + length shown, cu_k = None\<rparr>) else None)"
proof -
  define p where "p = take (Suc count) (drop off ids)"
  have len: "length rows = length ids" by (rule collectR_Inr_length [OF rows])
  have "list_all is_oid ids" using h by (simp add: has_history_def)
  moreover have "set p \<subseteq> set ids" by (auto simp: p_def dest: in_set_takeD in_set_dropD)
  ultimately have oids: "\<forall>i\<in>set p. is_oid i" by (auto simp: list_all_iff)
  have sv: "serves os (rp_root repo) (rev_list_args tip off count) [] (terminate (CHR 0x0A) p)"
    and t: "is_oid tip" and u: "utf8_ascii lb" using h by (simp_all add: has_history_def p_def)
  have "length (terminate (CHR 0x0A) p) \<le> 65 * length p"
    using oids oid_no_blank(3) by (intro length_terminate) simp
  also have "length p \<le> 201" using count by (simp add: p_def)
  finally have "length (terminate (CHR 0x0A) p) \<le> OUTPUT_LIMIT" by (simp add: OUTPUT_LIMIT_def)
  from served_run [OF sv this, of s] obtain s1 where
    r: "run_input os (rp_root repo) (rev_list_args tip off count) [] s
      = (s1, Inr (Some (terminate (CHR 0x0A) p)))" by blast
  have ids: "str_lines (terminate (CHR 0x0A) p) = p"
    using oids oid_chars by (intro str_lines_terminate) simp
  have utf: "utf8 lb (terminate (CHR 0x0A) p)"
    using u terminate_ascii [OF oids] by (simp add: utf8_ascii_def)
  have ne: "p \<noteq> []" using off by (simp add: p_def)
  have "take count p = take count (drop off ids)" by (simp add: p_def)
  then obtain s2 where c: "commits lb os repo (take count p) bud s1 = (s2, Inr (take count (drop off rows)))"
    using commits_served [OF h rows, of off s1] by auto
  have "length shown \<le> count"
    using arg_cong [OF page_rows_prefix_length [OF fit], of length] unfolding length_take by linarith
  then have nc: "length shown < length p \<longleftrightarrow> off + length shown < length rows"
    using off by (auto simp: p_def len)
  have "fitting_rows lb (take count (drop off rows)) = Inr shown"
    using fit by (simp add: fitting_rows_def)
  moreover obtain resolved where "oid tip = Inr resolved" using t by (simp add: oid_def)
  ultimately show ?thesis
    using r ids utf ne c nc
    by (simp add: history_rows_def repo_run_def run_def some_or_def bindS_def utf8_opt_def Let_def
        entries_def next_cursor_def jstr_def)
qed

text \<open>The client that follows the cursors of a history.\<close>

fun read_history ::
  "libs \<Rightarrow> 'w os \<Rightarrow> repo \<Rightarrow> nat \<Rightarrow> string \<Rightarrow> nat \<Rightarrow> nat \<Rightarrow> string option \<Rightarrow> 'w gst \<Rightarrow> json list option"
where
  "read_history lb os repo count revision bud 0 cursor s = None"
| "read_history lb os repo count revision bud (Suc n) cursor s =
     (case history_page lb os repo count cursor revision (Some bud) s of
        (s', Inl e) \<Rightarrow> None
      | (s', Inr v) \<Rightarrow>
          (case next_cursor v of
             None \<Rightarrow> Some (entries v)
           | Some c \<Rightarrow> map_option ((@) (entries v))
               (read_history lb os repo count revision bud n (Some c) s')))"

text \<open>The requests of the client: the first one, and one with a cursor of this history.\<close>

definition asks ::
  "libs \<Rightarrow> repo \<Rightarrow> string \<Rightarrow> string \<Rightarrow> read_result \<Rightarrow> string option \<Rightarrow> nat \<Rightarrow> bool" where
  "asks lb repo q tip shallow cursor off \<longleftrightarrow>
     cursor = None \<and> off = 0 \<or>
     history_cursor lb repo q cursor
       = Inr (Some \<lparr>cu_s = history_sn lb repo q tip shallow, cu_o = off, cu_k = None\<rparr>)"

lemma history_page_served:
  assumes h: "has_history lb os repo revision count tip ids raw shallow"
    and count: "count = Suc k" "count \<le> 200" and bud: "1 \<le> bud" "bud \<le> 16384"
    and rev: "length revision \<le> 1024" "CHR 0x00 \<notin> set revision"
    and q: "history_query lb revision bud = Inr q" and ask: "asks lb repo q tip shallow cursor off"
  shows "\<exists>s'. history_page lb os repo count cursor revision (Some bud) s
    = history_rows lb os repo (history_sn lb repo q tip shallow) tip off count bud s'"
proof -
  have v: "valid_oid tip = Inr ()" using h by (simp add: has_history_def valid_oid_def oid_def)
  have sn: "\<lparr>sn_r = rp_id repo, sn_q = q, sn_f = sn_f (history_sn lb repo q tip shallow),
      sn_p = Some tip\<rparr> = history_sn lb repo q tip shallow"
    by (simp add: history_sn_def)
  from ask show ?thesis
    unfolding asks_def
  proof (elim disjE conjE)
    assume c: "cursor = None" "off = 0"
    obtain s1 where t: "history_tip lb os repo revision None s = (s1, Inr (Some tip))"
      using tip_served [OF h] by blast
    have "history_page lb os repo count cursor revision (Some bud) s
      = history_rows lb os repo (history_sn lb repo q tip shallow) tip 0 count bud s1"
      using c count bud rev q t v fingerprint_served [OF h, of s1 q] sn
      by (simp add: history_page_def history_cursor_def bindS_def Let_def)
    then show ?thesis using c by blast
  next
    assume c: "history_cursor lb repo q cursor
      = Inr (Some \<lparr>cu_s = history_sn lb repo q tip shallow, cu_o = off, cu_k = None\<rparr>)"
    have p: "sn_p (history_sn lb repo q tip shallow) = Some tip" by (simp add: history_sn_def)
    have "history_page lb os repo count cursor revision (Some bud) s
      = history_rows lb os repo (history_sn lb repo q tip shallow) tip off count bud s"
      using c count bud rev q v fingerprint_served [OF h, of s q] sn p
      by (simp add: history_page_def history_tip_def bindS_def Let_def)
    then show ?thesis by blast
  qed
qed

lemma read_history_follow:
  assumes h: "has_history lb os repo revision count tip ids raw shallow"
    and count: "count = Suc k" "count \<le> 200" and bud: "1 \<le> bud" "bud \<le> 16384"
    and rev: "length revision \<le> 1024" "CHR 0x00 \<notin> set revision"
    and q: "history_query lb revision bud = Inr q"
    and rows: "collectR (\<lambda>i. commit_row lb i (raw i) bud) ids = Inr rows"
    and tk: "token_lib_ok (lb_tk lb)"
    and short: "\<forall>k \<le> length ids. length (cursor_encode (lb_tk lb)
          \<lparr>cu_s = history_sn lb repo q tip shallow, cu_o = k, cu_k = None\<rparr>) \<le> MAX_TOKEN"
    and fit: "\<forall>r\<in>set rows. \<exists>n. json_size lb r = Some n \<and> n \<le> MAX_FRAME div 2"
    and ask: "asks lb repo q tip shallow cursor off" "off < length ids"
  shows "read_history lb os repo count revision bud m cursor s
    = listing.follow (json_size lb) k m rows off"
  using ask
proof (induction m arbitrary: cursor off s)
  case (Suc m)
  define sn where "sn = history_sn lb repo q tip shallow"
  have len: "length rows = length ids" by (rule collectR_Inr_length [OF rows])
  obtain shown where sh: "page_rows (json_size lb) (take count (drop off rows)) 0 = Inr shown"
    using page_rows_ok [of "take count (drop off rows)" "json_size lb" 0] fit
    by (meson in_set_dropD in_set_takeD)
  obtain s1 where "history_page lb os repo count cursor revision (Some bud) s
      = history_rows lb os repo sn tip off count bud s1"
    using history_page_served [OF h count bud rev q Suc.prems(1), of s] by (auto simp: sn_def)
  with rows_served [OF h count rows Suc.prems(2) sh, of sn s1] obtain s2 v where
    v: "history_page lb os repo count cursor revision (Some bud) s = (s2, Inr v)"
      "entries v = shown"
    and nc: "next_cursor v = (if off + length shown < length rows
      then Some (cursor_encode (lb_tk lb) \<lparr>cu_s = sn, cu_o = off + length shown, cu_k = None\<rparr>) else None)"
    by auto
  have sl: "listing_slice (json_size lb) k rows off = Some shown"
    using sh count(1) by (simp add: listing_slice_def)
  show ?case
  proof (cases "off + length shown < length rows")
    case True
    define c where "c = cursor_encode (lb_tk lb) \<lparr>cu_s = sn, cu_o = off + length shown, cu_k = None\<rparr>"
    have "cursor_decode (lb_tk lb) c = Inr \<lparr>cu_s = sn, cu_o = off + length shown, cu_k = None\<rparr>"
      unfolding c_def using tk short True len by (intro cursor_roundtrip) (simp_all add: sn_def)
    then have "asks lb repo q tip shallow (Some c) (off + length shown)"
      by (simp add: asks_def history_cursor_def sn_def history_sn_def)
    from Suc.IH [OF this] True show ?thesis
      using v nc sl len by (simp add: c_def)
  next
    case False
    then show ?thesis using v nc sl by simp
  qed
qed simp

text \<open>
  C23: A client that follows the cursors of a history receives one row per commit, in the order Git
  lists them and each parsed from that commit's own content, whatever the page size and however the
  byte budget cuts the pages.
\<close>

theorem history_reassembled:
  assumes "has_history lb os repo revision count tip ids raw shallow"
    and "1 \<le> count" and "count \<le> 200" and "1 \<le> bud" and "bud \<le> 16384"
    and "length revision \<le> 1024" and "CHR 0x00 \<notin> set revision"
    and "history_query lb revision bud = Inr q"
    and "collectR (\<lambda>i. commit_row lb i (raw i) bud) ids = Inr rows"
    and "token_lib_ok (lb_tk lb)"
    and "\<forall>k \<le> length ids. length (cursor_encode (lb_tk lb)
          \<lparr>cu_s = history_sn lb repo q tip shallow, cu_o = k, cu_k = None\<rparr>) \<le> MAX_TOKEN"
    and "\<forall>r\<in>set rows. \<exists>n. json_size lb r = Some n \<and> n \<le> MAX_FRAME div 2"
  shows "read_history lb os repo count revision bud (Suc (length ids)) None s = Some rows"
proof -
  obtain k where k: "count = Suc k" using assms(2) by (cases count) simp_all
  have len: "length rows = length ids" by (rule collectR_Inr_length [OF assms(9)])
  have "listing_slice (json_size lb) k rows off \<noteq> None" for off
  proof -
    have "\<exists>ps. page_rows (json_size lb) (take (Suc k) (drop off rows)) 0 = Inr ps"
      using assms(12) by (intro page_rows_ok) (meson in_set_dropD in_set_takeD)
    then show ?thesis by (auto simp: listing_slice_def)
  qed
  then have "listing.follow (json_size lb) k (Suc (length ids)) rows 0 = Some (drop 0 rows)"
    using len by (intro listing.follow_complete) auto
  moreover have "asks lb repo q tip shallow None 0" "0 < length ids"
    using assms(1) by (simp_all add: asks_def has_history_def)
  then have "read_history lb os repo count revision bud (Suc (length ids)) None s
    = listing.follow (json_size lb) k (Suc (length ids)) rows 0"
    by (rule read_history_follow [OF assms(1) k assms(3-12)])
  ultimately show ?thesis by (simp only: drop_0)
qed

section \<open>Witnesses\<close>

text \<open>A Git that answers from a script.\<close>

definition script_os :: "(string list \<Rightarrow> bytes \<Rightarrow> bytes) \<Rightarrow> unit os" where
  "script_os f = endless_os\<lparr>os_spawn := \<lambda>root args input w. (w, Spawned \<lparr>pr_wait = Exited (Some 0),
     pr_out = \<lparr>chunks = [f args input], pipe_ok = True\<rparr>, pr_err = \<lparr>chunks = [], pipe_ok = True\<rparr>\<rparr>)\<rparr>"

lemma script_serves: "f args input = out \<Longrightarrow> serves (script_os f) root args input out"
  by (simp add: serves_def script_os_def)

definition sample_oid :: string where "sample_oid = replicate 40 (CHR ''a'')"

lemma sample_is_oid: "is_oid sample_oid"
  by (simp add: is_oid_def sample_oid_def ascii_hexdigit_def list_all_iff)

definition blob_script :: "string list \<Rightarrow> bytes \<Rightarrow> bytes" where
  "blob_script args input =
     (if args = [''cat-file'', ''--batch-check''] then sample_oid @ '' blob 2'' @ [CHR 0x0A] else ''hi'')"

lemma sample_has_blob: "has_blob sample_libs (script_os blob_script) sample_repo sample_oid ''hi''"
proof -
  have "show_nat (Suc (Suc 0)) = ''2''" by (simp add: show_nat_def show_base.simps dec_digit_def)
  then show ?thesis
    by (simp add: has_blob_def Let_def script_serves blob_script_def sample_libs_def)
qed

lemma sample_blob_cursors:
  "\<forall>k \<le> length ''hi''. length (cursor_encode (lb_tk sample_libs)
     \<lparr>cu_s = blob_sn sample_repo sample_oid, cu_o = k, cu_k = None\<rparr>) \<le> MAX_TOKEN"
proof (intro allI impI)
  fix k assume "k \<le> length ''hi''"
  then show "length (cursor_encode (lb_tk sample_libs)
     \<lparr>cu_s = blob_sn sample_repo sample_oid, cu_o = k, cu_k = None\<rparr>) \<le> MAX_TOKEN"
    by (simp add: cursor_encode_def encode_def sample_tokens_def enc_cursor_def sample_oid_def
      enc_snapshot_def enc_repo_def enc_str_def enc_nat_def enc_opt_def blob_sn_def
      sample_repo_def repo_new_def MAX_TOKEN_def CURSOR_def)
qed

theorem blob_reassembled_witness:
  "\<forall>s. read_blob sample_libs (script_os blob_script) sample_repo sample_oid 4096 (Suc (length ''hi''))
     None s = Some ''hi''"
  using blob_reassembled [OF _ sample_is_oid sample_has_blob _ _ _ sample_blob_cursors]
  by (simp add: sample_tokens_ok)

definition sample_raw :: bytes where
  "sample_raw = ''author A <a> 1 +0000'' @ [CHR 0x0A] @ ''committer A <a> 1 +0130'' @ [CHR 0x0A, CHR 0x0A] @ ''m''"

definition history_script :: "string list \<Rightarrow> bytes \<Rightarrow> bytes" where
  "history_script args input =
     (if hd args = ''rev-parse'' then sample_oid @ [CHR 0x0A]
      else if hd args = ''rev-list''
      then (if args = rev_list_args sample_oid 0 1 then sample_oid @ [CHR 0x0A] else [])
      else if input = [] then [] else batch_output (\<lambda>_. sample_raw) [sample_oid])"

lemma show_nat_inj: "show_nat m = show_nat n \<Longrightarrow> m = n"
  using show_nat_digits [of m] show_nat_digits [of n] by metis

lemma sample_has_history:
  "has_history sample_libs (script_os history_script) sample_repo ''HEAD'' 1 sample_oid [sample_oid]
     (\<lambda>_. sample_raw) NotFound"
proof -
  have out: "history_script (rev_list_args sample_oid off 1) []
      = terminate (CHR 0x0A) (take (Suc 1) (drop off [sample_oid]))" for off
    using show_nat_inj [of off 0]
    by (cases off) (auto simp: history_script_def rev_list_args_def terminate_def)
  have batch: "history_script [''cat-file'', ''--batch''] (terminate (CHR 0x0A) (take 1 (drop off [sample_oid])))
      = batch_output (\<lambda>_. sample_raw) (take 1 (drop off [sample_oid]))" for off
    by (cases off) (simp_all add: history_script_def terminate_def batch_output_def)
  have len: "length (batch_output (\<lambda>_. sample_raw) (take 1 (drop off [sample_oid]))) \<le> OUTPUT_LIMIT" for off
    using length_show_nat [of "length sample_raw" 19]
    by (cases off) (simp_all add: batch_output_def OUTPUT_LIMIT_def sample_oid_def sample_raw_def)
  show ?thesis
    unfolding has_history_def Let_def
    by (intro conjI allI script_serves out batch len)
      (simp_all add: history_script_def script_os_def endless_os_def sample_is_oid utf8_ascii_def
        sample_libs_def)
qed

definition sample_commit :: json where
  "sample_commit = (case commit_row sample_libs sample_oid sample_raw 16 of Inr v \<Rightarrow> v | Inl _ \<Rightarrow> JNull)"

lemma sample_commit_row:
  "commit_row sample_libs sample_oid sample_raw 16 = Inr sample_commit"
  "length (enc_json sample_commit) \<le> 1000"
proof -
  have "\<exists>v. commit_row sample_libs sample_oid sample_raw 16 = Inr v \<and> length (enc_json v) \<le> 1000"
    using sample_is_oid
    by (simp add: commit_row_def sample_raw_def header_line_def strip_prefix_def starts_with_def
        signature_def person_def last_pos_def strip_suffix1_def committer_line_def rsplit3_def
        utf8_opt_def sample_libs_def parse_i64_def zone_minutes_def digit_def digits_val_def
        byte_def oid_def commit_head0_def)
      (simp add: wpath_def wire_json_def wire_new_def sample_tokens_def enc_str_def enc_nat_def
        sample_oid_def zone_minutes_def digit_val_def byte_def)
  then show "commit_row sample_libs sample_oid sample_raw 16 = Inr sample_commit"
    "length (enc_json sample_commit) \<le> 1000"
    by (auto simp: sample_commit_def)
qed

definition sample_query :: string where
  "sample_query = ''cli.history:'' @ enc_json (JArr [JStr ''HEAD'', jnat 16])"

lemma sample_history_cursors:
  "\<forall>k \<le> length [sample_oid]. length (cursor_encode (lb_tk sample_libs)
     \<lparr>cu_s = history_sn sample_libs sample_repo sample_query sample_oid NotFound, cu_o = k, cu_k = None\<rparr>)
   \<le> MAX_TOKEN"
proof (intro allI impI)
  fix k assume "k \<le> length [sample_oid]"
  then show "length (cursor_encode (lb_tk sample_libs)
     \<lparr>cu_s = history_sn sample_libs sample_repo sample_query sample_oid NotFound, cu_o = k, cu_k = None\<rparr>)
   \<le> MAX_TOKEN"
    by (simp add: cursor_encode_def encode_def sample_tokens_def enc_cursor_def sample_oid_def
      enc_snapshot_def enc_repo_def enc_str_def enc_nat_def enc_opt_def history_sn_def sample_query_def
      sample_repo_def repo_new_def MAX_TOKEN_def CURSOR_def hex_def jnat_def sample_libs_def length_concat
      sum_list_replicate)
qed

theorem history_reassembled_witness:
  "\<forall>s. read_history sample_libs (script_os history_script) sample_repo 1 ''HEAD'' 16
     (Suc (length [sample_oid])) None s = Some [sample_commit]"
proof
  fix s
  show "read_history sample_libs (script_os history_script) sample_repo 1 ''HEAD'' 16
     (Suc (length [sample_oid])) None s = Some [sample_commit]"
  proof (rule history_reassembled [OF sample_has_history])
    show "history_query sample_libs ''HEAD'' 16 = Inr sample_query"
      by (simp add: history_query_def sample_query_def sample_libs_def)
    show "collectR (\<lambda>i. commit_row sample_libs i sample_raw 16) [sample_oid] = Inr [sample_commit]"
      by (simp add: sample_commit_row(1))
    show "\<forall>r\<in>set [sample_commit]. \<exists>n. json_size sample_libs r = Some n \<and> n \<le> MAX_FRAME div 2"
      using sample_commit_row(2) by (simp add: json_size_def sample_libs_def MAX_FRAME_def)
  qed (use sample_history_cursors in \<open>simp_all add: sample_tokens_ok\<close>)
qed

end
