(* ===== verification/DiffPageProps.thy ===== *)
theory DiffPageProps
  imports DiffPages HistoryProps
begin

text \<open>
  A client that follows the cursors of a diff rebuilds it: the pages carry every piece of every line
  once and in order, whatever the budget cuts, and the pieces of a line join to its content.
\<close>

section \<open>Pieces of a line\<close>

lemma step_by_pieces:
  "off \<le> n \<Longrightarrow>
   concat (map (\<lambda>k. take (min (k + PIECE) n - k) (drop k b)) (step_by off n)) = take (n - off) (drop off b)"
proof (induction off n rule: step_by.induct)
  case (1 off n)
  show ?case
  proof (cases "off < n")
    case True
    show ?thesis
    proof (cases "off + PIECE \<le> n")
      case le: True
      let ?r = "concat (map (\<lambda>k. take (min (k + PIECE) n - k) (drop k b)) (step_by (off + PIECE) n))"
      have split: "n - off = PIECE + (n - (off + PIECE))" using le True by simp
      have "take (n - off) (drop off b)
        = take PIECE (drop off b) @ take (n - (off + PIECE)) (drop (off + PIECE) b)"
        by (subst split) (simp add: take_add add.commute)
      with 1 True le show ?thesis by (simp add: step_by.simps [of off])
    next
      case False
      then have "step_by (off + PIECE) n = []" by (simp add: step_by.simps)
      then show ?thesis using True False by (simp add: step_by.simps [of off])
    qed
  qed (use 1 in \<open>simp add: step_by.simps\<close>)
qed

lemma line_pieces_content:
  "concat (map pc_bytes (line_pieces i l)) = ln_content l"
proof (cases "ln_content l = []")
  case True
  then show ?thesis
    by (simp add: line_pieces_def step_by.simps PIECE_def piece_at_def Let_def)
next
  case False
  then have "max (length (ln_content l)) 1 = length (ln_content l)" by (cases "ln_content l") auto
  then show ?thesis
    using step_by_pieces [of 0 "length (ln_content l)" "ln_content l"]
    by (simp add: line_pieces_def piece_at_def comp_def Let_def)
qed

lemma line_pieces_line: "p \<in> set (line_pieces i l) \<Longrightarrow> pc_line p = i"
  by (auto simp: line_pieces_def piece_at_def Let_def)

lemma length_indexed [simp]: "length (indexed f n xs) = length xs"
  by (induction xs arbitrary: n) auto

lemma nth_indexed [simp]: "k < length xs \<Longrightarrow> indexed f n xs ! k = f (n + k) (xs ! k)"
  by (induction xs arbitrary: n k) (auto simp: nth_Cons')

lemma indexed_mem: "y \<in> set (indexed f n xs) \<Longrightarrow> \<exists>k < length xs. y = f (n + k) (xs ! k)"
  by (metis in_set_conv_nth length_indexed nth_indexed)

text \<open>Only the pieces of line \<open>l\<close> contribute to it.\<close>

lemma concat_indexed_only:
  assumes "k < length xs"
    and "\<And>i y. i < length xs \<Longrightarrow> i \<noteq> k \<Longrightarrow> y \<in> set (F (n + i) (xs ! i)) \<Longrightarrow> g y = []"
  shows "concat (map g (concat (indexed F n xs))) = concat (map g (F (n + k) (xs ! k)))"
  using assms
proof (induction xs arbitrary: n k)
  case (Cons x xs)
  show ?case
  proof (cases k)
    case 0
    have "\<forall>y\<in>set (concat (indexed F (Suc n) xs)). g y = []"
      using Cons.prems(2) [of "Suc _"] 0 by (fastforce dest!: indexed_mem)
    then show ?thesis by (simp add: 0)
  next
    case (Suc m)
    have "\<forall>y\<in>set (F n x). g y = []" using Cons.prems(2) [of 0] Suc by simp
    moreover have "concat (map g (concat (indexed F (Suc n) xs))) = concat (map g (F (Suc n + m) (xs ! m)))"
      using Cons.prems(1) Cons.prems(2) [of "Suc _"] Suc by (intro Cons.IH) auto
    ultimately show ?thesis by (simp add: Suc)
  qed
qed simp

lemma pieces_of_line:
  assumes "l < length (hk_lines h)"
  shows "concat (map (\<lambda>p. if pc_line p = l then pc_bytes p else []) (hunk_pieces h))
    = ln_content (hk_lines h ! l)"
proof -
  have "concat (map (\<lambda>p. if pc_line p = l then pc_bytes p else []) (hunk_pieces h))
    = concat (map (\<lambda>p. if pc_line p = l then pc_bytes p else []) (line_pieces (0 + l) (hk_lines h ! l)))"
    unfolding hunk_pieces_def by (rule concat_indexed_only [OF assms]) (auto dest: line_pieces_line)
  also have "\<dots> = concat (map pc_bytes (line_pieces l (hk_lines h ! l)))"
    by (rule arg_cong [where f = concat]) (auto dest: line_pieces_line)
  finally show ?thesis by (simp add: line_pieces_content)
qed

section \<open>The rows of a page name its units\<close>

definition group_units :: "nat \<times> (nat \<times> nat list) list \<Rightarrow> diff_unit list" where
  "group_units g = (case g of (f, hs) \<Rightarrow>
     if hs = [] then [(f, None)]
     else concat (map (\<lambda>(h, ls). map (\<lambda>l. (f, Some (h, l))) ls) hs))"

abbreviation together :: "diff_unit \<Rightarrow> diff_unit \<Rightarrow> bool" where
  "together u v \<equiv> fst u = fst v \<longrightarrow> snd u \<noteq> None \<and> snd v \<noteq> None"

definition last_matches :: "diff_unit \<Rightarrow> page_acc \<Rightarrow> bool" where
  "last_matches u a =
     (\<exists>rows hs. pa_rows a = rows @ [(fst u, hs)] \<and> pa_file a = Some (fst u) \<and>
        (case snd u of
           None \<Rightarrow> hs = [] \<and> pa_hunk a = None
         | Some (h, l) \<Rightarrow> \<exists>hs' ls. hs = hs' @ [(h, ls @ [l])] \<and> pa_hunk a = Some h))"

lemma map_last_snoc [simp]: "map_last f (xs @ [x]) = xs @ [f x]"
  by (simp add: map_last_def)

lemma map_last_snoc2 [simp]: "map_last f (xs @ [x, y]) = xs @ [x, f y]"
  by (simp add: map_last_def butlast_append)

lemma map_last_single [simp]: "map_last f [x] = [f x]"
  by (simp add: map_last_def)

lemma page_unit_view:
  assumes "last_matches u a" "together u v"
  shows "last_matches v (page_unit a v) \<and>
    concat (map group_units (pa_rows (page_unit a v))) = concat (map group_units (pa_rows a)) @ [v]"
proof -
  obtain rows hs where r: "pa_rows a = rows @ [(fst u, hs)]" "pa_file a = Some (fst u)"
    and c: "case snd u of None \<Rightarrow> hs = [] \<and> pa_hunk a = None
         | Some (h, l) \<Rightarrow> \<exists>hs' ls. hs = hs' @ [(h, ls @ [l])] \<and> pa_hunk a = Some h"
    using assms(1) by (auto simp: last_matches_def)
  obtain f x where v: "v = (f, x)" by fastforce
  show ?thesis
  proof (cases "fst u = f")
    case True
    then obtain h l h' l' where x: "x = Some (h, l)" "snd u = Some (h', l')"
      using assms(2) v by (metis fst_conv not_None_eq snd_conv surj_pair)
    obtain hs' ls where hs: "hs = hs' @ [(h', ls @ [l'])]" "pa_hunk a = Some h'" using c x by auto
    show ?thesis
      by (cases "h' = h")
        (use True r x hs in \<open>simp_all add: v page_unit_def open_file_def open_hunk_def push_piece_def
          last_matches_def group_units_def\<close>)
  next
    case False
    show ?thesis
      by (cases x) (use False r in \<open>auto simp: v page_unit_def open_file_def open_hunk_def
          push_piece_def last_matches_def group_units_def\<close>)
  qed
qed

lemma page_groups_view:
  "successively together us \<Longrightarrow> concat (map group_units (page_groups us)) = us"
proof -
  let ?a = "\<lambda>us. foldl page_unit \<lparr>pa_rows = [], pa_file = None, pa_hunk = None\<rparr> us"
  assume "successively together us"
  then have "concat (map group_units (pa_rows (?a us))) = us \<and> (us \<noteq> [] \<longrightarrow> last_matches (last us) (?a us))"
  proof (induction us rule: rev_induct)
    case (snoc v us)
    show ?case
    proof (cases "us = []")
      case True
      obtain f x where v: "v = (f, x)" by fastforce
      show ?thesis
        by (cases x) (auto simp: True v page_unit_def open_file_def open_hunk_def push_piece_def
            last_matches_def group_units_def)
    next
      case False
      then have "successively together us" "together (last us) v"
        using snoc.prems by (auto simp: successively_append_iff)
      then show ?thesis using snoc.IH False page_unit_view [of "last us" "?a us" v] by simp
    qed
  qed simp
  then show ?thesis by (simp add: page_groups_def)
qed

lemma file_units_file: "u \<in> set (file_units i f) \<Longrightarrow> fst u = i"
  by (auto simp: file_units_def dest!: indexed_mem split: if_splits)

lemma some_together: "\<forall>u\<in>set us. snd u \<noteq> None \<Longrightarrow> successively together us"
proof (induction us)
  case (Cons u us)
  then show ?case by (cases us) simp_all
qed simp

lemma file_units_together: "successively together (file_units i f)"
proof (cases "df_hunks f = []")
  case False
  then have "\<forall>u\<in>set (file_units i f). snd u \<noteq> None"
    by (auto simp: file_units_def dest!: indexed_mem)
  then show ?thesis by (rule some_together)
qed (simp add: file_units_def)

lemma units_together: "successively together (concat (indexed file_units n files))"
proof (induction files arbitrary: n)
  case (Cons f files)
  have later: "u \<in> set (concat (indexed file_units (Suc n) files)) \<Longrightarrow> fst u \<noteq> n" for u
    by (auto dest!: indexed_mem file_units_file)
  have split: "concat (indexed file_units n (f # files))
    = file_units n f @ concat (indexed file_units (Suc n) files)" by simp
  have apart: "together u v" if "u \<in> set (file_units n f)"
    "v \<in> set (concat (indexed file_units (Suc n) files))" for u v
    using that later file_units_file by metis
  have "file_units n f = [] \<or> concat (indexed file_units (Suc n) files) = [] \<or>
      together (last (file_units n f)) (hd (concat (indexed file_units (Suc n) files)))"
    using apart last_in_set hd_in_set by blast
  then show ?case
    using file_units_together [of n f] Cons.IH [of "Suc n"]
    unfolding split successively_append_iff by (intro conjI)
qed simp

lemma successively_slice:
  assumes "successively P xs"
  shows "successively P (take n (drop k xs))"
proof -
  have "successively P (take k xs @ drop k xs)" using assms by simp
  then have "successively P (drop k xs)" unfolding successively_append_iff by (elim conjE)
  then have "successively P (take n (drop k xs) @ drop n (drop k xs))"
    by (simp only: append_take_drop_id)
  then show ?thesis unfolding successively_append_iff by (elim conjE)
qed

lemma slice_together: "successively together (take n (drop k (diff_units files)))"
  unfolding diff_units_def by (rule successively_slice [OF units_together])

section \<open>What a client sees\<close>

text \<open>The units of the rows of a page: the file index, the hunk index and the piece.\<close>

definition hunk_seen :: "json \<Rightarrow> json \<Rightarrow> (json \<times> json \<times> json) list" where
  "hunk_seen f h = (case jarr (jget h ''lines'') of
     Some ls \<Rightarrow> map (\<lambda>l. (f, jget h ''index'', l)) ls | None \<Rightarrow> [])"

definition row_seen :: "json \<Rightarrow> (json \<times> json \<times> json) list" where
  "row_seen r =
     (case jarr (jget r ''hunks'') of
        Some hs \<Rightarrow> if hs = [] then [(jget r ''fileIndex'', JNull, JNull)]
                  else concat (map (hunk_seen (jget r ''fileIndex'')) hs)
      | None \<Rightarrow> [])"

definition page_seen :: "json \<Rightarrow> (json \<times> json \<times> json) list" where
  "page_seen v = concat (map row_seen (entries v))"

definition unit_view ::
  "libs \<Rightarrow> bool \<Rightarrow> bool \<Rightarrow> dfile list \<Rightarrow> diff_unit \<Rightarrow> json \<times> json \<times> json" where
  "unit_view lb wk encoded files u =
     (case u of
        (f, None) \<Rightarrow> (jnat f, JNull, JNull)
      | (f, Some (h, k)) \<Rightarrow>
          (jnat f, jnat h, sent_piece lb wk encoded (df_hunks (files ! f) ! h) k))"

lemma row_fields [simp]:
  "jget (file_row lb i f hs) ''hunks'' = JArr hs" "jget (file_row lb i f hs) ''fileIndex'' = jnat i"
  "jget (hunk_row j h ls) ''lines'' = JArr ls" "jget (hunk_row j h ls) ''index'' = jnat j"
  by (simp_all add: file_row_def hunk_row_def delta_fields_def hunk_fields_def patch_fields_def)

lemma jarr_JArr [simp]: "jarr (JArr xs) = Some xs"
  by (simp add: jarr_def)

lemma group_seen:
  "row_seen (case g of (f, hs) \<Rightarrow> file_row lb f (files ! f)
      (map (\<lambda>(h, ls). hunk_row h (df_hunks (files ! f) ! h)
         (map (sent_piece lb wk encoded (df_hunks (files ! f) ! h)) ls)) hs))
   = map (unit_view lb wk encoded files) (group_units g)"
proof -
  obtain f hs where g: "g = (f, hs)" by fastforce
  have "concat (map (hunk_seen (jnat f)) (map (\<lambda>(h, ls). hunk_row h (df_hunks (files ! f) ! h)
         (map (sent_piece lb wk encoded (df_hunks (files ! f) ! h)) ls)) xs))
    = map (unit_view lb wk encoded files)
        (concat (map (\<lambda>(h, ls). map (\<lambda>l. (f, Some (h, l))) ls) xs))" for xs
    by (induction xs) (auto simp: hunk_seen_def unit_view_def)
  then show ?thesis by (simp add: g row_seen_def group_units_def unit_view_def)
qed

lemma page_units:
  assumes "successively together us"
  shows "concat (map row_seen (page_rows_json lb wk encoded files us))
    = map (unit_view lb wk encoded files) us"
proof -
  have "concat (map row_seen (page_rows_json lb wk encoded files us))
    = concat (map (\<lambda>g. map (unit_view lb wk encoded files) (group_units g)) (page_groups us))"
    unfolding page_rows_json_def map_map comp_def group_seen ..
  also have "\<dots> = map (unit_view lb wk encoded files) (concat (map group_units (page_groups us)))"
    by (simp add: map_concat comp_def)
  finally show ?thesis using page_groups_view [OF assms] by simp
qed

section \<open>The page that fits\<close>

text \<open>The end of the page the loop settles on.\<close>

function fit_stop :: "(nat \<Rightarrow> nat option) \<Rightarrow> nat \<Rightarrow> nat \<Rightarrow> nat \<Rightarrow> nat option" where
  "fit_stop sz budget start stop =
     (case sz stop of
        None \<Rightarrow> None
      | Some n \<Rightarrow>
          if n \<le> budget then Some stop
          else if stop \<le> start + 1 then None
          else fit_stop sz budget start (start + (stop - start) div 2))"
  by pat_completeness auto
termination by (relation "measure (\<lambda>(_, _, start, stop). stop - start)") auto

declare fit_stop.simps [simp del]

lemma shrink_fit:
  "(case fit_stop (\<lambda>e. sz (response e)) budget start stop of
      None \<Rightarrow> \<exists>e. shrink response sz budget start stop = Inl e
    | Some e \<Rightarrow> shrink response sz budget start stop = Inr (response e))"
proof (induction stop rule: less_induct)
  case (less stop)
  have "start + (stop - start) div 2 < stop" if "\<not> stop \<le> start + 1" using that by linarith
  then show ?case
    using less [of "start + (stop - start) div 2"]
    by (auto simp: shrink.simps [of _ _ _ _ stop] fit_stop.simps [of _ _ _ stop] split: option.splits)
qed

lemma fit_stop_range:
  "fit_stop sz budget start stop = Some e \<Longrightarrow> start \<le> stop \<Longrightarrow>
   start \<le> e \<and> e \<le> stop \<and> (start < stop \<longrightarrow> start < e)"
proof (induction stop arbitrary: e rule: less_induct)
  case (less stop)
  show ?case
  proof (cases "sz stop")
    case None
    then show ?thesis using less.prems by (subst (asm) fit_stop.simps) simp
  next
    case (Some n)
    let ?m = "start + (stop - start) div 2"
    show ?thesis
    proof (cases "n \<le> budget \<or> stop \<le> start + 1")
      case True
      then show ?thesis using less.prems Some
        by (subst (asm) fit_stop.simps) (auto split: if_splits)
    next
      case False
      then have "fit_stop sz budget start ?m = Some e"
        using less.prems(1) Some by (subst (asm) fit_stop.simps) simp
      moreover have "?m < stop" "start < ?m" using False by linarith+
      ultimately show ?thesis using less.IH [of ?m e] by simp
    qed
  qed
qed

lemma fit_stop_exists:
  assumes "\<And>e. e \<le> stop \<Longrightarrow> sz e \<noteq> None"
    and "\<And>e. e \<le> stop \<Longrightarrow> e \<le> start + 1 \<Longrightarrow> the (sz e) \<le> budget"
  shows "fit_stop sz budget start stop \<noteq> None"
  using assms
proof (induction stop rule: less_induct)
  case (less stop)
  obtain n where n: "sz stop = Some n" using less.prems(1) [of stop] by auto
  have "start + (stop - start) div 2 < stop" if "\<not> stop \<le> start + 1" using that by linarith
  then have "fit_stop sz budget start (start + (stop - start) div 2) \<noteq> None" if "\<not> stop \<le> start + 1"
    using less.IH [of "start + (stop - start) div 2"] less.prems that by (meson le_trans less_imp_le)
  then show ?case using n less.prems(2) [of stop] by (subst fit_stop.simps) auto
qed

definition diff_slice ::
  "(nat \<Rightarrow> nat \<Rightarrow> nat option) \<Rightarrow> nat \<Rightarrow> nat \<Rightarrow> 'a list \<Rightarrow> nat \<Rightarrow> 'a list option" where
  "diff_slice sz budget n xs off =
     (if length xs < off then Some []
      else map_option (\<lambda>e. take (e - off) (drop off xs))
             (fit_stop (sz off) budget off (min (off + Suc n) (length xs))))"

interpretation diffs: paging "diff_slice sz budget n" for sz budget n
proof
  fix xs :: "'a list" and off p
  assume p: "diff_slice sz budget n xs off = Some p"
  then show "p = take (length p) (drop off xs)"
    by (auto simp: diff_slice_def min_def split: if_splits)
  assume "off < length xs"
  then obtain e where "fit_stop (sz off) budget off (min (off + Suc n) (length xs)) = Some e"
      "p = take (e - off) (drop off xs)"
    using p by (auto simp: diff_slice_def)
  with fit_stop_range [OF this(1)] \<open>off < length xs\<close> show "p \<noteq> []" by auto
qed

section \<open>Reading a whole diff\<close>

definition read_diff ::
  "libs \<Rightarrow> repo \<Rightarrow> dfile list \<times> json \<Rightarrow> string \<Rightarrow> nat \<Rightarrow> nat \<Rightarrow> bool \<Rightarrow> nat \<Rightarrow>
   (json \<times> json \<times> json) list option" where
  "read_diff lb repo value query count budget encoded n =
     read_all (\<lambda>c. case diff_page lb repo value query count (Some budget) c encoded of
                     Inl e \<Rightarrow> None | Inr v \<Rightarrow> Some v) page_seen next_cursor n None"

text \<open>A piece names its line and carries its bytes, by name or by position.\<close>

definition piece_part :: "bool \<Rightarrow> json \<Rightarrow> json \<times> json" where
  "piece_part encoded p =
     (if encoded
      then (case jarr p of Some xs \<Rightarrow> (xs ! 0, xs ! 6) | None \<Rightarrow> (JNull, JNull))
      else (jget p ''lineIndex'', jget p ''contentBytesB64''))"

definition seen_bytes ::
  "libs \<Rightarrow> bool \<Rightarrow> nat \<Rightarrow> nat \<Rightarrow> nat \<Rightarrow> json \<times> json \<times> json \<Rightarrow> bytes" where
  "seen_bytes lb encoded f h l u =
     (case u of (f', h', p) \<Rightarrow>
        if f' = jnat f \<and> h' = jnat h \<and> fst (piece_part encoded p) = jnat l
        then (case Option.bind (jstr (snd (piece_part encoded p))) (unb64 (lb_tk lb)) of
                Some b \<Rightarrow> b | None \<Rightarrow> [])
        else [])"

definition line_received ::
  "libs \<Rightarrow> bool \<Rightarrow> nat \<Rightarrow> nat \<Rightarrow> nat \<Rightarrow> (json \<times> json \<times> json) list \<Rightarrow> bytes" where
  "line_received lb encoded f h l seen = concat (map (seen_bytes lb encoded f h l) seen)"

lemma jnat_inj [simp]: "jnat a = jnat b \<longleftrightarrow> a = b"
  by (simp add: jnat_def)

lemma jstr_JStr [simp]: "jstr (JStr s) = Some s"
  by (simp add: jstr_def)

lemma sent_piece_part [simp]:
  "piece_part encoded (sent_piece lb wk encoded h k)
   = (jnat (pc_line (hunk_pieces h ! k)), JStr (b64 (lb_tk lb) (pc_bytes (hunk_pieces h ! k))))"
  by (simp add: piece_part_def sent_piece_def Let_def piece_tuple_def piece_json_def)

lemma seen_unit:
  assumes "token_lib_ok (lb_tk lb)"
  shows "seen_bytes lb encoded f h l (unit_view lb wk encoded files u) =
    (case u of (f', Some (h', k)) \<Rightarrow>
       if f' = f \<and> h' = h \<and> pc_line (hunk_pieces (df_hunks (files ! f) ! h) ! k) = l
       then pc_bytes (hunk_pieces (df_hunks (files ! f) ! h) ! k) else []
     | _ \<Rightarrow> [])"
  using token_lib_okD(1) [OF assms]
  by (auto simp: seen_bytes_def unit_view_def jnat_def split: prod.splits option.splits)

lemma diff_line_received:
  assumes "token_lib_ok (lb_tk lb)" and f: "f < length files" and h: "h < length (df_hunks (files ! f))"
    and l: "l < length (hk_lines (df_hunks (files ! f) ! h))"
  shows "line_received lb encoded f h l (map (unit_view lb wk encoded files) (diff_units files))
    = ln_content (hk_lines (df_hunks (files ! f) ! h) ! l)"
proof -
  let ?h = "df_hunks (files ! f) ! h"
  let ?g = "\<lambda>u. seen_bytes lb encoded f h l (unit_view lb wk encoded files u)"
  note g = seen_unit [OF assms(1)]
  have "line_received lb encoded f h l (map (unit_view lb wk encoded files) (diff_units files))
    = concat (map ?g (concat (indexed file_units 0 files)))"
    by (simp add: line_received_def diff_units_def comp_def)
  also have "\<dots> = concat (map ?g (file_units (0 + f) (files ! f)))"
    by (rule concat_indexed_only [OF f]) (auto simp: g dest!: file_units_file split: option.splits)
  also have "\<dots> = concat (map ?g (concat (indexed
      (\<lambda>j hk. map (\<lambda>k. (f, Some (j, k))) [0..<length (hunk_pieces hk)]) 0 (df_hunks (files ! f)))))"
    using h by (auto simp: file_units_def)
  also have "\<dots> = concat (map ?g (map (\<lambda>k. (f, Some (0 + h, k))) [0..<length (hunk_pieces ?h)]))"
    by (rule concat_indexed_only [OF h]) (auto simp: g)
  also have "\<dots> = concat (map (\<lambda>k. if pc_line (hunk_pieces ?h ! k) = l then pc_bytes (hunk_pieces ?h ! k)
      else []) [0..<length (hunk_pieces ?h)])"
    by (simp add: g comp_def)
  also have "\<dots> = concat (map (\<lambda>p. if pc_line p = l then pc_bytes p else [])
      (map ((!) (hunk_pieces ?h)) [0..<length (hunk_pieces ?h)]))"
    by (simp add: comp_def)
  finally show ?thesis by (simp only: map_nth pieces_of_line [OF l])
qed

text \<open>One request of the client, at the offset its cursor stands for.\<close>

definition diff_at :: "libs \<Rightarrow> snapshot_ref \<Rightarrow> nat \<Rightarrow> string option \<Rightarrow> nat \<Rightarrow> bool" where
  "diff_at lb sn len c off \<longleftrightarrow> diff_cursor lb sn c = Inr off \<and> off \<le> len"

definition diff_sizes ::
  "libs \<Rightarrow> bool \<Rightarrow> bool \<Rightarrow> snapshot_ref \<Rightarrow> dfile list \<Rightarrow> json \<Rightarrow> nat \<Rightarrow> nat \<Rightarrow> nat option" where
  "diff_sizes lb wk encoded sn files md off stop =
     json_size lb (diff_response lb wk encoded sn files md (diff_units files) off stop)"

lemma diff_step:
  assumes tk: "token_lib_ok (lb_tk lb)" and lim: "Suc n \<le> 5000" "4096 \<le> bud" "bud \<le> 524288"
    and wk: "wk = (jget md ''readOnly'' = JBool False)"
    and sn: "diff_snapshot lb repo query wk files (diff_metadata files md) = Inr sn"
    and short: "\<forall>k \<le> length (diff_units files). length (cursor_encode (lb_tk lb)
          \<lparr>cu_s = sn, cu_o = k, cu_k = None\<rparr>) \<le> MAX_TOKEN"
    and c: "diff_at lb sn (length (diff_units files)) c off"
  shows "(case diff_slice (diff_sizes lb wk encoded sn files (diff_metadata files md)) bud n
            (diff_units files) off of
       None \<Rightarrow> (case diff_page lb repo (files, md) query (Suc n) (Some bud) c encoded of
                  Inl e \<Rightarrow> None | Inr v \<Rightarrow> Some v) = None
     | Some p \<Rightarrow> \<exists>v. (case diff_page lb repo (files, md) query (Suc n) (Some bud) c encoded of
                  Inl e \<Rightarrow> None | Inr v \<Rightarrow> Some v) = Some v \<and>
           page_seen v = map (unit_view lb wk encoded files) p \<and>
           (if off + length p < length (diff_units files)
            then \<exists>c'. next_cursor v = Some c' \<and>
              diff_at lb sn (length (diff_units files)) (Some c') (off + length p)
            else next_cursor v = None))"
proof -
  let ?us = "diff_units files" and ?md = "diff_metadata files md"
  let ?r = "diff_response lb wk encoded sn files ?md ?us off"
  let ?stop = "min (off + Suc n) (length ?us)"
  let ?fit = "fit_stop (diff_sizes lb wk encoded sn files ?md off) bud off ?stop"
  have off: "off \<le> length ?us" "diff_cursor lb sn c = Inr off" using c by (simp_all add: diff_at_def)
  have pg: "diff_page lb repo (files, md) query (Suc n) (Some bud) c encoded
    = shrink ?r (json_size lb) bud off ?stop"
    using lim sn off by (simp add: diff_page_def Let_def wk)
  have sz: "(\<lambda>e. json_size lb (?r e)) = diff_sizes lb wk encoded sn files ?md off"
    by (simp add: diff_sizes_def fun_eq_iff)
  note fit = shrink_fit [where sz = "json_size lb" and response = ?r and budget = bud and start = off
      and stop = ?stop, unfolded sz]
  show ?thesis
  proof (cases ?fit)
    case None
    then show ?thesis using fit off(1) by (auto simp: diff_slice_def pg)
  next
    case (Some e)
    then have v: "shrink ?r (json_size lb) bud off ?stop = Inr (?r e)" using fit by simp
    have range: "off \<le> e" "e \<le> length ?us" using fit_stop_range [OF Some] off(1) by auto
    define p where "p = take (e - off) (drop off ?us)"
    have p: "off + length p = e" using range by (simp add: p_def)
    have seen: "page_seen (?r e) = map (unit_view lb wk encoded files) p"
      using page_units [OF slice_together]
      by (simp add: page_seen_def diff_response_def entries_def p_def)
    have nx: "next_cursor (?r e) = (if e < length ?us
        then Some (cursor_encode (lb_tk lb) \<lparr>cu_s = sn, cu_o = e, cu_k = None\<rparr>) else None)"
      by (simp add: next_cursor_def diff_response_def jstr_def)
    have "diff_at lb sn (length ?us)
        (Some (cursor_encode (lb_tk lb) \<lparr>cu_s = sn, cu_o = e, cu_k = None\<rparr>)) e" if "e < length ?us"
      using cursor_roundtrip [OF tk, of "\<lparr>cu_s = sn, cu_o = e, cu_k = None\<rparr>"] short that
      by (simp add: diff_at_def diff_cursor_def)
    moreover have "diff_slice (diff_sizes lb wk encoded sn files ?md) bud n ?us off = Some p"
      using off(1) Some by (simp add: diff_slice_def p_def)
    moreover have "diff_page lb repo (files, md) query (Suc n) (Some bud) c encoded = Inr (?r e)"
      by (simp only: pg v)
    ultimately show ?thesis using seen nx p by simp
  qed
qed

text \<open>
  C24: A client that follows the cursors of a diff, whatever page size it asks for and however the
  byte budget halves the pages, receives every unit of the diff once and in order, and joining the
  pieces it received for a line gives the bytes of that line; one request more than there are units
  always suffices. It needs a single piece to fit the budget.
\<close>

theorem diff_reassembled:
  assumes "token_lib_ok (lb_tk lb)" and "1 \<le> count" and "count \<le> 5000"
    and "4096 \<le> bud" and "bud \<le> 524288" and "wk = (jget md ''readOnly'' = JBool False)"
    and "diff_snapshot lb repo query wk files (diff_metadata files md) = Inr sn"
    and "\<forall>off \<le> length (diff_units files). \<forall>stop \<le> length (diff_units files). \<exists>n.
      diff_sizes lb wk encoded sn files (diff_metadata files md) off stop = Some n \<and>
      (stop \<le> off + 1 \<longrightarrow> n \<le> bud)"
    and "\<forall>k \<le> length (diff_units files). length (cursor_encode (lb_tk lb)
          \<lparr>cu_s = sn, cu_o = k, cu_k = None\<rparr>) \<le> MAX_TOKEN"
  shows "\<exists>seen. read_diff lb repo (files, md) query count bud encoded (Suc (length (diff_units files)))
        = Some seen \<and>
    seen = map (unit_view lb wk encoded files) (diff_units files) \<and>
    (\<forall>f < length files. \<forall>h < length (df_hunks (files ! f)).
       \<forall>l < length (hk_lines (df_hunks (files ! f) ! h)).
       line_received lb encoded f h l seen = ln_content (hk_lines (df_hunks (files ! f) ! h) ! l))"
proof -
  obtain n where n: "count = Suc n" using assms(2) by (cases count) simp_all
  let ?us = "diff_units files"
  let ?sz = "diff_sizes lb wk encoded sn files (diff_metadata files md)"
  have "read_diff lb repo (files, md) query count bud encoded (Suc (length ?us))
    = map_option (map (unit_view lb wk encoded files)) (diffs.follow ?sz bud n (Suc (length ?us)) ?us 0)"
    unfolding read_diff_def n
    by (rule diffs.read_all_follow [where at_offset = "diff_at lb sn (length ?us)"])
      (use diff_step [OF assms(1) assms(3) [unfolded n] assms(4-7,9)] in
        \<open>auto simp: diff_at_def diff_cursor_def\<close>)
  moreover have "diff_slice ?sz bud n ?us k \<noteq> None" if "k \<le> length ?us" for k
  proof -
    have "fit_stop (?sz k) bud k (min (k + Suc n) (length ?us)) \<noteq> None"
      using assms(8) that by (intro fit_stop_exists) fastforce+
    then show ?thesis using that by (simp add: diff_slice_def)
  qed
  then have "diffs.follow ?sz bud n (Suc (length ?us)) ?us 0 = Some (drop 0 ?us)"
    by (intro diffs.follow_complete) auto
  ultimately show ?thesis using diff_line_received [OF assms(1)] by simp
qed

section \<open>A concrete diff\<close>

definition sample_diff_file :: dfile where
  "sample_diff_file =
     (new_file ''a'' ''a'' JNull JNull 1 1 ''Modified'')
       \<lparr>df_hunks := [\<lparr>hk_id = ''h'', hk_old_start = 1, hk_old_lines = 1, hk_new_start = 1,
           hk_new_lines = 1, hk_lines =
             [\<lparr>ln_id = Some ''x'', ln_origin = CHR ''-'', ln_old = Some 1, ln_new = None, ln_content = ''old''\<rparr>,
              \<lparr>ln_id = Some ''y'', ln_origin = CHR ''+'', ln_old = None, ln_new = Some 1, ln_content = []\<rparr>]\<rparr>],
        df_adds := 1, df_dels := 1\<rparr>"

definition sample_diff_md :: json where
  "sample_diff_md = JObj [(''truncated'', JBool False), (''readOnly'', JBool False)]"

definition sample_diff_sn :: snapshot_ref where
  "sample_diff_sn = \<lparr>sn_r = rp_id sample_repo, sn_q = ''q'', sn_f = hex (take 32 (enc_json (JArr
     [JArr (indexed (cut_file sample_libs True) 0 [sample_diff_file]),
      diff_metadata [sample_diff_file] sample_diff_md]))), sn_p = None\<rparr>"

lemma sample_diff_snapshot:
  "diff_snapshot sample_libs sample_repo ''q'' True [sample_diff_file]
     (diff_metadata [sample_diff_file] sample_diff_md) = Inr sample_diff_sn"
  by (simp add: diff_snapshot_def page_hash_def sample_libs_def sample_diff_sn_def)

lemma sample_diff_units: "diff_units [sample_diff_file] = [(0, Some (0, 0)), (0, Some (0, 1))]"
  by code_simp

lemma sample_diff_fits:
  "list_all (\<lambda>off. list_all (\<lambda>stop.
     case diff_sizes sample_libs True True sample_diff_sn [sample_diff_file]
         (diff_metadata [sample_diff_file] sample_diff_md) off stop of
       Some n \<Rightarrow> n \<le> 4096 | None \<Rightarrow> False) [0..<3]) [0..<3]"
  by code_simp

lemma sample_diff_sizes:
  "\<forall>off \<le> length (diff_units [sample_diff_file]). \<forall>stop \<le> length (diff_units [sample_diff_file]).
     \<exists>n. diff_sizes sample_libs True True sample_diff_sn [sample_diff_file]
       (diff_metadata [sample_diff_file] sample_diff_md) off stop = Some n \<and>
       (stop \<le> off + 1 \<longrightarrow> n \<le> 4096)"
proof (intro allI impI)
  fix off stop assume "off \<le> length (diff_units [sample_diff_file])"
    "stop \<le> length (diff_units [sample_diff_file])"
  then have "off \<in> set [0..<3]" "stop \<in> set [0..<3]" by (simp_all add: sample_diff_units)
  then show "\<exists>n. diff_sizes sample_libs True True sample_diff_sn [sample_diff_file]
       (diff_metadata [sample_diff_file] sample_diff_md) off stop = Some n \<and>
       (stop \<le> off + 1 \<longrightarrow> n \<le> 4096)"
    using sample_diff_fits unfolding list_all_iff by (fastforce split: option.splits)
qed

lemma sample_diff_cursors:
  "\<forall>k \<le> length (diff_units [sample_diff_file]). length (cursor_encode (lb_tk sample_libs)
     \<lparr>cu_s = sample_diff_sn, cu_o = k, cu_k = None\<rparr>) \<le> MAX_TOKEN"
proof -
  have "list_all (\<lambda>k. length (cursor_encode (lb_tk sample_libs)
     \<lparr>cu_s = sample_diff_sn, cu_o = k, cu_k = None\<rparr>) \<le> 4096) [0..<3]" by code_simp
  then show ?thesis
    unfolding list_all_iff sample_diff_units MAX_TOKEN_def by (auto intro: le_trans [where j = 4096])
qed

theorem diff_reassembled_witness:
  "\<exists>seen. read_diff sample_libs sample_repo ([sample_diff_file], sample_diff_md) ''q'' 1 4096 True 3
       = Some seen \<and>
     line_received sample_libs True 0 0 0 seen = ''old'' \<and> line_received sample_libs True 0 0 1 seen = []"
proof -
  have "token_lib_ok (lb_tk sample_libs)" by (simp add: sample_tokens_ok)
  moreover have "True = (jget sample_diff_md ''readOnly'' = JBool False)"
    by (simp add: sample_diff_md_def)
  ultimately obtain seen where
    r: "read_diff sample_libs sample_repo ([sample_diff_file], sample_diff_md) ''q'' 1 4096 True
      (Suc (length (diff_units [sample_diff_file]))) = Some seen" and
    l: "\<forall>f < length [sample_diff_file]. \<forall>h < length (df_hunks ([sample_diff_file] ! f)).
       \<forall>l < length (hk_lines (df_hunks ([sample_diff_file] ! f) ! h)).
       line_received sample_libs True f h l seen
         = ln_content (hk_lines (df_hunks ([sample_diff_file] ! f) ! h) ! l)"
    using diff_reassembled [OF _ _ _ _ _ _ sample_diff_snapshot sample_diff_sizes sample_diff_cursors,
        of 1] by auto
  have "Suc (length (diff_units [sample_diff_file])) = 3" by (simp add: sample_diff_units)
  then show ?thesis
    using r l [rule_format, of 0 0 0] l [rule_format, of 0 0 1]
    by (simp add: sample_diff_file_def new_file_def)
qed

end
