(* ===== verification/Requests.thy ===== *)
theory Requests
  imports CreateProps DiffPageProps Wire
begin

text \<open>
  The requests of \<open>git/protocol.rs\<close> and the dispatcher \<open>Service::request\<close> of \<open>git/cli/mod.rs\<close>, which
  composes every reader and writer of the agent; and which requests can touch the repository or
  the journal.
\<close>

section \<open>Requests\<close>

datatype request =
    Clone string string wire_path "string option" bool
  | Init string wire_path string
  | Tag string string
  | Tags string nat "string option" "nat option"
  | Stashes string nat "string option"
  | BlobPage string string "nat option" "string option"
  | Blob string string
  | RemoteRefs string string string bool string nat "string option"
  | RemoteNames string string nat "string option"
  | Remote string string
  | Remotes string
  | Start string string string action
  | Get string
  | Review string
  | Open wire_path
  | Close string
  | StatusSummary "string option" "wire_path option"
  | Status string "status_filter option" nat "string option"
  | Worktrees string nat "string option" string "string option" "string option" "string option"
  | Branches string nat "string option" string "string option"
  | History string nat "string option" string "nat option"
  | Commit string string
  | CommitFiles string string nat nat "string option"
  | CommitDiff "wire_path option" string string nat nat
  | CommitDiffPage string string wire_path nat nat nat "nat option" "string option" bool
  | DiffPage string string string side nat nat "nat option" "string option" bool
  | Diff string string string side nat

fun method_name :: "request \<Rightarrow> string" where
  "method_name (Clone _ _ _ _ _) = ''repo.clone''"
| "method_name (Init _ _ _) = ''repo.init''"
| "method_name (Tag _ _) = ''repo.tag''"
| "method_name (Tags _ _ _ _) = ''repo.tags''"
| "method_name (Stashes _ _ _) = ''repo.stashes''"
| "method_name (BlobPage _ _ _ _) = ''repo.blob_page''"
| "method_name (Blob _ _) = ''repo.blob''"
| "method_name (RemoteRefs _ _ _ _ _ _ _) = ''repo.remote_refs''"
| "method_name (RemoteNames _ _ _ _) = ''repo.remote_names''"
| "method_name (Remote _ _) = ''repo.remote''"
| "method_name (Remotes _) = ''repo.remotes''"
| "method_name (Start _ _ _ _) = ''operation.start''"
| "method_name (Get _) = ''operation.get''"
| "method_name (Review _) = ''operation.review''"
| "method_name (Open _) = ''repo.open''"
| "method_name (Close _) = ''repo.close''"
| "method_name (StatusSummary _ _) = ''repo.status_summary''"
| "method_name (Status _ _ _ _) = ''repo.status''"
| "method_name (Worktrees _ _ _ _ _ _ _) = ''repo.worktrees''"
| "method_name (Branches _ _ _ _ _) = ''repo.branches''"
| "method_name (History _ _ _ _ _) = ''repo.history''"
| "method_name (Commit _ _) = ''repo.commit''"
| "method_name (CommitFiles _ _ _ _ _) = ''repo.commit_files''"
| "method_name (CommitDiff _ _ _ _ _) = ''repo.commit_diff''"
| "method_name (CommitDiffPage _ _ _ _ _ _ _ _ _) = ''repo.commit_diff_page''"
| "method_name (DiffPage _ _ _ _ _ _ _ _ _) = ''repo.diff_page''"
| "method_name (Diff _ _ _ _ _) = ''repo.diff''"

definition METHODS :: "string list" where
  "METHODS = [''repo.open'', ''repo.init'', ''repo.clone'', ''repo.remote_refs'', ''repo.close'',
     ''repo.status_summary'', ''repo.status'', ''repo.history'', ''repo.commit'', ''repo.blob'',
     ''repo.blob_page'', ''repo.branches'', ''repo.remotes'', ''repo.remote'', ''repo.remote_names'',
     ''repo.tags'', ''repo.tag'', ''repo.stashes'', ''repo.worktrees'', ''repo.diff'', ''repo.diff_page'',
     ''repo.commit_diff'', ''repo.commit_diff_page'', ''repo.commit_files'', ''operation.start'',
     ''operation.get'', ''operation.review'']"

datatype service_output = OutJson json | OutDiff string bytes

section \<open>The dispatcher\<close>

definition writable :: "service \<Rightarrow> bool" where
  "writable sv \<longleftrightarrow> sv_client sv \<noteq> None"

definition side_name :: "side \<Rightarrow> string" where
  "side_name sd = (case sd of HeadToIndex \<Rightarrow> ''head_to_index''
     | IndexToWorktree \<Rightarrow> ''index_to_worktree'' | HeadToWorktree \<Rightarrow> ''head_to_worktree'')"

definition encoding_json :: "bool \<Rightarrow> json" where
  "encoding_json encoded = (if encoded then JStr ''tuple_v1'' else JNull)"

text \<open>A whole diff as one value; larger than the stream limit it must be read in pages.\<close>

definition diff_json :: "libs \<Rightarrow> dfile list \<times> json \<Rightarrow> json" where
  "diff_json lb value = jset (snd value) ''files'' (JArr (map (file_json lb) (fst value)))"

definition diff_output :: "libs \<Rightarrow> string \<Rightarrow> dfile list \<times> json \<Rightarrow> gerror + service_output" where
  "diff_output lb snapshot value =
     bindR (ok_or git_failure (json_vec lb (diff_json lb value))) (\<lambda>b.
       if MAX_DIFF < length b
       then Inl (gerror_new ''LIMIT_EXCEEDED'' ''Diff exceeds the stream limit. Use paginated reads.'')
       else Inr (OutDiff snapshot b))"

definition json_text :: "libs \<Rightarrow> json \<Rightarrow> gerror + string" where
  "json_text lb v = ok_or git_failure (json_vec lb v)"

definition as_json :: "('s, json) step \<Rightarrow> ('s, service_output) step" where
  "as_json m = bindS m (\<lambda>v. retS (OutJson v))"

definition opened :: "service \<Rightarrow> json \<Rightarrow> json" where
  "opened sv v = jset v ''capabilities'' (jset (jget v ''capabilities'') ''readOnly'' (JBool (\<not> writable sv)))"

definition commit_diff_page ::
  "libs \<Rightarrow> diff_lib \<Rightarrow> 'w os \<Rightarrow> string \<Rightarrow> string \<Rightarrow> wire_path \<Rightarrow> nat \<Rightarrow> nat \<Rightarrow> nat \<Rightarrow> nat option \<Rightarrow>
   string option \<Rightarrow> bool \<Rightarrow> ('w gst, json) step" where
  "commit_diff_page lb dl os repo_id cid path parent ctx count budget cursor encoded =
     bindS (from_id lb os repo_id) (\<lambda>repo.
     bindS (liftS (json_text lb (JArr [JStr cid, jnat parent, wire_json path, jnat ctx, encoding_json encoded]))) (\<lambda>q.
     bindS (diff_history lb dl os repo cid parent (Some path) ctx) (\<lambda>value.
       liftS (diff_page lb repo value (''cli.commit_diff:'' @ q) count budget cursor encoded))))"

definition working_diff_page ::
  "libs \<Rightarrow> diff_lib \<Rightarrow> 'w os \<Rightarrow> string \<Rightarrow> string \<Rightarrow> string \<Rightarrow> side \<Rightarrow> nat \<Rightarrow> nat \<Rightarrow> nat option \<Rightarrow>
   string option \<Rightarrow> bool \<Rightarrow> ('w gst, json) step" where
  "working_diff_page lb dl os repo_id snapshot entry sd ctx count budget cursor encoded =
     bindS (from_id lb os repo_id) (\<lambda>repo.
     bindS (liftS (json_text lb (JArr [JStr snapshot, JStr entry, JStr (side_name sd), jnat ctx, encoding_json encoded]))) (\<lambda>q.
     bindS (working lb dl os repo snapshot entry sd ctx) (\<lambda>c.
       liftS (diff_page lb repo (working_json c) (''cli.diff:'' @ q) count budget cursor encoded))))"

definition summary_of ::
  "libs \<Rightarrow> 'w os \<Rightarrow> string option \<Rightarrow> wire_path option \<Rightarrow> ('w gst, json) step" where
  "summary_of lb os repo_id path =
     bindS (case (repo_id, path) of
              (Some t, None) \<Rightarrow> from_id lb os t
            | (None, Some p) \<Rightarrow> discover lb os p
            | _ \<Rightarrow> failS (gerror_invalid ''Specify exactly one of repoId or path.'')) (\<lambda>repo.
       summary lb os repo)"

text \<open>Requests that only read: they need the repository alone.\<close>

fun read_request :: "libs \<Rightarrow> diff_lib \<Rightarrow> 'w os \<Rightarrow> service \<Rightarrow> request \<Rightarrow> ('w gst, service_output) step" where
  "read_request lb dl os sv (Open p) =
     as_json (bindS (discover lb os p) (\<lambda>repo. bindS (open_repo lb os repo) (\<lambda>v. retS (opened sv v))))"
| "read_request lb dl os sv (RemoteRefs t n token push filt count cursor) =
     as_json (bindS (from_id lb os t) (\<lambda>repo. remote_refs lb os repo n token push filt count cursor))"
| "read_request lb dl os sv (Close t) =
     as_json (bindS (liftS (repo_decode (lb_tk lb) t)) (\<lambda>_. retS (JObj [(''closed'', JBool True)])))"
| "read_request lb dl os sv (StatusSummary t p) = as_json (summary_of lb os t p)"
| "read_request lb dl os sv (CommitFiles t c parent count cursor) =
     as_json (bindS (from_id lb os t) (\<lambda>repo. commit_files lb os repo c parent count cursor))"
| "read_request lb dl os sv (CommitDiff p t c parent ctx) =
     bindS (from_id lb os t) (\<lambda>repo.
     bindS (diff_history lb dl os repo c parent p ctx) (\<lambda>value. liftS (diff_output lb c value)))"
| "read_request lb dl os sv (Diff t snapshot entry sd ctx) =
     bindS (from_id lb os t) (\<lambda>repo.
     bindS (working lb dl os repo snapshot entry sd ctx) (\<lambda>c.
       liftS (diff_output lb snapshot (working_json c))))"
| "read_request lb dl os sv (CommitDiffPage t c p parent ctx count budget cursor encoded) =
     as_json (commit_diff_page lb dl os t c p parent ctx count budget cursor encoded)"
| "read_request lb dl os sv (DiffPage t snapshot entry sd ctx count budget cursor encoded) =
     as_json (working_diff_page lb dl os t snapshot entry sd ctx count budget cursor encoded)"
| "read_request lb dl os sv (Worktrees t count cursor filt branch nm pin) =
     as_json (bindS (from_id lb os t) (\<lambda>repo. worktrees_page lb os repo count cursor filt branch nm pin))"
| "read_request lb dl os sv (Tags t count cursor budget) =
     as_json (bindS (from_id lb os t) (\<lambda>repo. tags_page lb os repo count cursor budget))"
| "read_request lb dl os sv (Tag t c) =
     as_json (bindS (from_id lb os t) (\<lambda>repo. tag_detail lb os repo c 16384))"
| "read_request lb dl os sv (Stashes t count cursor) =
     as_json (bindS (from_id lb os t) (\<lambda>repo. stashes_page lb os repo count cursor))"
| "read_request lb dl os sv (Branches t count cursor filt kind) =
     as_json (bindS (from_id lb os t) (\<lambda>repo. branches lb os repo filt kind count cursor))"
| "read_request lb dl os sv (Remotes t) =
     as_json (bindS (from_id lb os t) (\<lambda>repo. remotes lb os repo))"
| "read_request lb dl os sv (Remote t n) =
     as_json (bindS (from_id lb os t) (\<lambda>repo. remote_info lb os repo n))"
| "read_request lb dl os sv (RemoteNames t filt count cursor) =
     as_json (bindS (from_id lb os t) (\<lambda>repo. remote_names lb os repo filt count cursor))"
| "read_request lb dl os sv (Blob t c) =
     as_json (bindS (from_id lb os t) (\<lambda>repo. blob lb os repo c None None False))"
| "read_request lb dl os sv (BlobPage t c budget cursor) =
     as_json (bindS (from_id lb os t) (\<lambda>repo. blob lb os repo c budget cursor True))"
| "read_request lb dl os sv (Status t filt count cursor) =
     as_json (bindS (from_id lb os t) (\<lambda>repo. status_page lb os repo filt count cursor))"
| "read_request lb dl os sv (History t count cursor revision budget) =
     as_json (bindS (from_id lb os t) (\<lambda>repo. history_page lb os repo count cursor revision budget))"
| "read_request lb dl os sv (Commit t c) =
     as_json (bindS (from_id lb os t) (\<lambda>repo. commit lb os repo c 16384))"
| "read_request lb dl os sv _ = failS git_failure"

text \<open>The requests of the journal, and the reads through \<open>on_git\<close>.\<close>

fun service_request ::
  "libs \<Rightarrow> diff_lib \<Rightarrow> 'w os \<Rightarrow> 'w disk \<Rightarrow> service \<Rightarrow> request \<Rightarrow> ('w agent, service_output) step" where
  "service_request lb dl os dk sv (Init i p branch) = as_json (create lb os dk sv i p (Some branch) None)"
| "service_request lb dl os dk sv (Clone i url p branch bare) =
     as_json (create lb os dk sv i p branch (Some (url, bare)))"
| "service_request lb dl os dk sv (Start i t snapshot a) = as_json (start lb dl os sv i t snapshot a)"
| "service_request lb dl os dk sv (Get i) =
     as_json (bindS (liftS (journal sv)) (\<lambda>client.
       bindS (on_journal (get_record (sv_jlib sv) client i)) (\<lambda>r. retS (record_json r))))"
| "service_request lb dl os dk sv (Review i) =
     as_json (bindS (liftS (journal sv)) (\<lambda>client.
       bindS (on_journal (review_record (sv_jlib sv) client i)) (\<lambda>r. retS (record_json r))))"
| "service_request lb dl os dk sv rq = on_git (read_request lb dl os sv rq)"

section \<open>What a request can touch\<close>

definition mutates_repository :: "request \<Rightarrow> bool" where
  "mutates_repository rq \<longleftrightarrow>
     (case rq of Init _ _ _ \<Rightarrow> True | Clone _ _ _ _ _ \<Rightarrow> True | Start _ _ _ _ \<Rightarrow> True | _ \<Rightarrow> False)"

definition uses_journal :: "request \<Rightarrow> bool" where
  "uses_journal rq \<longleftrightarrow>
     mutates_repository rq \<or> (case rq of Get _ \<Rightarrow> True | Review _ \<Rightarrow> True | _ \<Rightarrow> False)"

lemma open_repo_quiet: "preserves same_mutations (open_repo lb os repo)"
  unfolding open_repo_def by (intro quiet.pres_rules repo_quiets)

lemma remotes_quiet: "preserves same_mutations (remotes lb os repo)"
  unfolding remotes_def remote_names_of_def by (intro quiet.pres_rules repo_quiets refs_quiets)

lemma remote_names_quiet: "preserves same_mutations (remote_names lb os repo filt count cursor)"
  unfolding remote_names_def remote_names_of_def Let_def
  by (intro quiet.pres_rules repo_quiets refs_quiets)

lemma branches_quiet: "preserves same_mutations (branches lb os repo filt kind count cursor)"
  unfolding branches_def Let_def by (intro quiet.pres_rules repo_quiets refs_quiets)

lemma remote_refs_quiet: "preserves same_mutations (remote_refs lb os repo n t push filt count cursor)"
  unfolding remote_refs_def Let_def by (intro quiet.pres_rules repo_quiets refs_quiets)

lemma worktrees_page_quiet: "preserves same_mutations (worktrees_page lb os repo c cur f b n pin)"
  unfolding worktrees_page_def Let_def case_prod_beta
  by (intro quiet.pres_rules repo_quiets worktrees_quiet)

lemma stashes_page_quiet: "preserves same_mutations (stashes_page lb os repo count cursor)"
  unfolding stashes_page_def case_prod_beta by (intro quiet.pres_rules stash_rows_quiet)

lemma commit_quiet: "preserves same_mutations (commit lb os repo c budget)"
  unfolding commit_def by (intro quiet.pres_rules commits_quiet)

lemma history_fingerprint_quiet: "preserves same_mutations (history_fingerprint lb os repo tip)"
  unfolding history_fingerprint_def Let_def
  by (intro quiet.pres_bind readW_quiet)
    (auto intro: quiet.pres_rules split: read_result.split simp del: step_simps)

lemma history_page_quiet: "preserves same_mutations (history_page lb os repo c cur r b)"
  unfolding history_page_def history_rows_def history_tip_def Let_def case_prod_beta
  by (intro quiet.pres_rules repo_quiets commits_quiet history_fingerprint_quiet)

lemma blob_quiet: "preserves same_mutations (blob lb os repo c budget cursor paged)"
  unfolding blob_def Let_def by (intro quiet.pres_rules blob_header_quiet window_quiet)

lemma tag_walk_quiet: "preserves same_mutations (tag_walk lb os repo budget n c v)"
proof (induction n arbitrary: c v)
  case 0
  show ?case unfolding tag_walk.simps by (rule quiet.pres_ret)
next
  case (Suc n)
  then show ?case
    unfolding tag_walk.simps Let_def case_prod_beta
    by (intro quiet.pres_rules repo_quiets)
qed

lemma tag_detail_quiet: "preserves same_mutations (tag_detail lb os repo c budget)"
  unfolding tag_detail_def by (intro quiet.pres_rules tag_walk_quiet)

lemma tags_page_quiet: "preserves same_mutations (tags_page lb os repo count cursor budget)"
  unfolding tags_page_def tag_entry_def Let_def
  by (intro quiet.pres_rules repo_quiets tag_detail_quiet)

lemma compare_quiet: "preserves same_mutations (compare lb os repo c parent)"
  unfolding compare_def Let_def by (intro quiet.pres_rules commit_quiet)

lemma diff_history_quiet: "preserves same_mutations (diff_history lb dl os repo c parent path ctx)"
  unfolding diff_history_def case_prod_beta
  by (intro quiet.pres_rules compare_quiet diff_read_quiet)

lemma commit_files_quiet: "preserves same_mutations (commit_files lb os repo c parent count cursor)"
  unfolding commit_files_def case_prod_beta Let_def
  by (intro quiet.pres_rules compare_quiet diff_execute_quiet)

lemma as_json_pres: "preserves same_mutations m \<Longrightarrow> preserves same_mutations (as_json m)"
  unfolding as_json_def by (intro quiet.pres_rules)

lemma summary_of_quiet: "preserves same_mutations (summary_of lb os t p)"
  unfolding summary_of_def
  by (intro quiet.pres_bind summary_quiet)
    (auto intro: from_id_quiet discover_quiet quiet.pres_fail split: option.split simp del: step_simps)

lemmas read_quiets = open_repo_quiet remotes_quiet remote_names_quiet branches_quiet remote_refs_quiet
  worktrees_page_quiet stashes_page_quiet commit_quiet history_page_quiet blob_quiet tag_detail_quiet
  tags_page_quiet diff_history_quiet commit_files_quiet working_quiet status_page_quiet
  remote_info_quiet summary_of_quiet discover_quiet from_id_quiet

lemma read_request_quiet: "preserves same_mutations (read_request lb dl os sv rq)"
  by (cases rq; simp only: read_request.simps commit_diff_page_def working_diff_page_def;
      intro as_json_pres quiet.pres_rules read_quiets)

lemma service_request_read:
  "\<not> uses_journal rq \<Longrightarrow> service_request lb dl os dk sv rq = on_git (read_request lb dl os sv rq)"
  by (cases rq) (auto simp: uses_journal_def mutates_repository_def)

lemma lookup_requests_mutations:
  "uses_journal rq \<Longrightarrow> \<not> mutates_repository rq \<Longrightarrow>
   mutations (ag_git (fst (service_request lb dl os dk sv rq g))) = mutations (ag_git g)"
  by (cases rq) (auto simp: uses_journal_def mutates_repository_def as_json_def bindS_def liftS_def
      on_journal_def split: prod.splits sum.splits)

lemma no_journal_fails:
  "uses_journal rq \<Longrightarrow> sv_client sv = None \<Longrightarrow> \<exists>e. service_request lb dl os dk sv rq g = (g, Inl e)"
  by (cases rq) (auto simp: uses_journal_def mutates_repository_def as_json_def bindS_def liftS_def
      journal_def create_def start_def)

section \<open>Property\<close>



end
