(* ===== verification/CommandLogs.thy ===== *)
theory CommandLogs
  imports Stream
begin

text \<open>
  The opt-in display of Git output, \<open>git/command_log.rs\<close>: what is shown of a command, with sensitive
  lines and URLs left out, within the limits the desktop enforces. A character is the byte string
  of its UTF-8 encoding; \<open>from_utf8_lossy\<close> is the parameter \<open>lossy\<close>.
\<close>

section \<open>Characters\<close>

definition continuation :: "char \<Rightarrow> bool" where
  "continuation c \<longleftrightarrow> 128 \<le> byte c \<and> byte c < 192"

function utf8_chars :: "bytes \<Rightarrow> bytes list" where
  "utf8_chars [] = []"
| "utf8_chars (c # s) = (c # takeWhile continuation s) # utf8_chars (dropWhile continuation s)"
  by pat_completeness auto
termination by (relation "measure length") (auto simp: le_imp_less_Suc length_dropWhile_le)

fun code_point :: "bytes \<Rightarrow> nat" where
  "code_point [a] = byte a"
| "code_point [a, b] = byte a mod 32 * 64 + byte b mod 64"
| "code_point [a, b, c] = (byte a mod 16 * 64 + byte b mod 64) * 64 + byte c mod 64"
| "code_point (a # b # c # d # _) =
     ((byte a mod 8 * 64 + byte b mod 64) * 64 + byte c mod 64) * 64 + byte d mod 64"
| "code_point [] = 0"

text \<open>\<open>char::is_whitespace\<close> (Unicode \<open>White_Space\<close>), \<open>char::is_control\<close> and \<open>char::escape_default\<close>
  of a control character.\<close>

definition whitespace :: "bytes \<Rightarrow> bool" where
  "whitespace c \<longleftrightarrow> (let n = code_point c in
     9 \<le> n \<and> n \<le> 13 \<or> n = 32 \<or> n = 133 \<or> n = 160 \<or> n = 5760 \<or> 8192 \<le> n \<and> n \<le> 8202 \<or>
     n = 8232 \<or> n = 8233 \<or> n = 8239 \<or> n = 8287 \<or> n = 12288)"

definition control :: "bytes \<Rightarrow> bool" where
  "control c \<longleftrightarrow> code_point c < 32 \<or> 127 \<le> code_point c \<and> code_point c < 160"

definition hex_code :: "nat \<Rightarrow> string" where
  "hex_code n = (let d = (\<lambda>k. ''0123456789abcdef'' ! k) in
     if n < 16 then [d n] else [d (n div 16), d (n mod 16)])"

definition escape_control :: "bytes \<Rightarrow> string" where
  "escape_control c = CHR 0x5C # ''u{'' @ hex_code (code_point c) @ ''}''"

fun split_when :: "('a \<Rightarrow> bool) \<Rightarrow> 'a list \<Rightarrow> 'a list list" where
  "split_when p [] = []"
| "split_when p (c # s) =
     (if p c then [c] # split_when p s
      else (case split_when p s of [] \<Rightarrow> [[c]] | q # qs \<Rightarrow> (c # q) # qs))"

definition ascii_lower :: "char \<Rightarrow> char" where
  "ascii_lower c = (if 65 \<le> byte c \<and> byte c \<le> 90 then char_of (byte c + 32) else c)"

section \<open>Redaction\<close>

definition SENSITIVE :: "string list" where
  "SENSITIVE = [''password'', ''token'', ''authorization'', ''secret'', ''credential'', ''private key'']"

definition line_end :: "bytes \<Rightarrow> bool" where
  "line_end c \<longleftrightarrow> c = [CHR 0x0A] \<or> c = [CHR 0x00]"

definition sensitive :: "bytes list \<Rightarrow> bool" where
  "sensitive line \<longleftrightarrow> list_ex (\<lambda>w. contains_sub w (map ascii_lower (concat line))) SENSITIVE"

definition show_char :: "bytes \<Rightarrow> string" where
  "show_char c =
     (if c \<in> {[CHR 0x0A], [CHR 0x09], [CHR 0x0D], [CHR 0x08], [CHR 0x1B]} then c
      else if c = [CHR 0x00] then [CHR 0x0A]
      else if control c then escape_control c
      else c)"

text \<open>A token with a URL is replaced whole; the blanks that end it stay.\<close>

definition show_token :: "bytes list \<Rightarrow> string" where
  "show_token t =
     (if contains_sub ''://'' (concat t)
      then ''[URL omitted]'' @ concat (rev (takeWhile whitespace (rev t)))
      else concat (map show_char t))"

definition show_line :: "bytes list \<Rightarrow> string" where
  "show_line line =
     (if sensitive line
      then ''[sensitive output omitted]'' @ (if line \<noteq> [] \<and> line_end (last line) then [CHR 0x0A] else [])
      else concat (map show_token (split_when whitespace line)))"

definition REDACT_LIMIT :: nat where "REDACT_LIMIT = 4096"

definition DISPLAY_LIMIT :: nat where "DISPLAY_LIMIT = 12000"

text \<open>\<open>is_char_boundary\<close> is searched backwards from the limit.\<close>

fun boundary_before :: "string \<Rightarrow> nat \<Rightarrow> nat" where
  "boundary_before s 0 = 0"
| "boundary_before s (Suc n) = (if continuation (s ! Suc n) then boundary_before s n else Suc n)"

definition truncation_notice :: string where
  "truncation_notice = CHR 0x0A # ''[Output truncated: showing at most 4 KiB of this stream]'' @ [CHR 0x0A]"

definition displayed :: "string \<Rightarrow> bool \<Rightarrow> string" where
  "displayed shown truncated =
     (let long = DISPLAY_LIMIT < length shown;
          kept = (if long then take (boundary_before shown DISPLAY_LIMIT) shown else shown) in
      if truncated \<or> long then kept @ truncation_notice else kept)"

definition redact :: "(bytes \<Rightarrow> string) \<Rightarrow> bytes \<Rightarrow> bool \<Rightarrow> string" where
  "redact lossy b already_truncated =
     displayed (concat (map show_line (split_when line_end (utf8_chars (lossy (take REDACT_LIMIT b))))))
       (REDACT_LIMIT < length b \<or> already_truncated)"

section \<open>Entries\<close>

definition VERBS :: "string list" where
  "VERBS = [''symbolic-ref'', ''merge-base'', ''check-ref-format'', ''status'', ''rev-parse'', ''rev-list'',
     ''cat-file'', ''diff'', ''for-each-ref'', ''config'', ''ls-files'', ''ls-remote'', ''worktree'',
     ''fetch'', ''merge'', ''push'', ''commit'', ''add'', ''reset'', ''restore'', ''checkout'',
     ''checkout-index'', ''update-index'', ''update-ref'', ''branch'', ''tag'', ''stash'', ''rebase'',
     ''cherry-pick'', ''revert'', ''clone'', ''init'', ''apply'', ''log'', ''show'', ''remote'', ''rm'']"

text \<open>The label is a verb or nothing: argument values never appear.\<close>

definition label :: "string list \<Rightarrow> string" where
  "label args = ''git '' @ (case find (\<lambda>a. a \<in> set VERBS) args of Some a \<Rightarrow> a | None \<Rightarrow> ''[command]'')"

record finished_command =
  fc_args :: "string list"
  fc_millis :: nat
  fc_exit :: "u32 option"
  fc_stdout :: "bytes \<times> bool"
  fc_stderr :: "bytes \<times> bool"
  fc_interrupted :: bool

definition shown_stream :: "(bytes \<Rightarrow> string) \<Rightarrow> bytes \<times> bool \<Rightarrow> string list" where
  "shown_stream lossy s = (if fst s \<noteq> [] \<or> snd s then [redact lossy (fst s) (snd s)] else [])"

fun join_lines :: "string list \<Rightarrow> string" where
  "join_lines [] = []"
| "join_lines [s] = s"
| "join_lines (s # t # ss) = s @ CHR 0x0A # join_lines (t # ss)"

definition log_entry :: "(bytes \<Rightarrow> string) \<Rightarrow> finished_command \<Rightarrow> command_log" where
  "log_entry lossy c =
     \<lparr>cl_command = label (fc_args c), cl_duration = of_nat (min (fc_millis c) (2 ^ 64 - 1)),
      cl_exit = fc_exit c,
      cl_output = join_lines (shown_stream lossy (fc_stdout c) @ shown_stream lossy (fc_stderr c)),
      cl_interrupted = fc_interrupted c\<rparr>"

definition LOG_ENTRIES :: nat where "LOG_ENTRIES = 32"

text \<open>The log of the request thread: absent unless the client asked for it.\<close>

definition begin_log :: "bool \<Rightarrow> command_log list option" where
  "begin_log enabled = (if enabled then Some [] else None)"

definition record_command ::
  "(bytes \<Rightarrow> string) \<Rightarrow> finished_command \<Rightarrow> command_log list option \<Rightarrow> command_log list option" where
  "record_command lossy c logs =
     map_option (\<lambda>l. if length l < LOG_ENTRIES then l @ [log_entry lossy c] else l) logs"

definition take_log :: "command_log list option \<Rightarrow> command_log list" where
  "take_log logs = (case logs of None \<Rightarrow> [] | Some l \<Rightarrow> l)"

definition request_log :: "(bytes \<Rightarrow> string) \<Rightarrow> bool \<Rightarrow> finished_command list \<Rightarrow> command_log list" where
  "request_log lossy enabled cs =
     take_log (fold (record_command lossy) cs (begin_log enabled))"

section \<open>The desktop accepts every log\<close>

lemma boundary_before_le: "boundary_before s n \<le> n"
  by (induction n) auto

lemma redact_length: "length (redact lossy b t) \<le> 12100"
proof -
  have "length (displayed s k) \<le> 12100" for s k
    using boundary_before_le [of s DISPLAY_LIMIT]
    by (auto simp: displayed_def Let_def truncation_notice_def DISPLAY_LIMIT_def)
  then show ?thesis by (simp add: redact_def)
qed

lemma label_length: "length (label args) \<le> 256"
proof (cases "find (\<lambda>a. a \<in> set VERBS) args")
  case (Some a)
  then have "a \<in> set VERBS" by (auto simp: find_Some_iff)
  moreover have "\<forall>v \<in> set VERBS. length v \<le> 20" by (simp add: VERBS_def)
  ultimately show ?thesis using Some by (fastforce simp: label_def)
qed (simp add: label_def)

lemma entry_length: "length (cl_output (log_entry lossy c)) \<le> 32768"
proof -
  have len: "length (redact lossy b t) \<le> 12100" for b t by (rule redact_length)
  show ?thesis
    using len [of "fst (fc_stdout c)" "snd (fc_stdout c)"] len [of "fst (fc_stderr c)" "snd (fc_stderr c)"]
    by (auto simp: log_entry_def shown_stream_def)
qed

definition acceptable :: "command_log \<Rightarrow> bool" where
  "acceptable e \<longleftrightarrow> length (cl_command e) \<le> 256 \<and> length (cl_output e) \<le> 32768"

lemma log_entry_acceptable: "acceptable (log_entry lossy c)"
  by (simp add: acceptable_def entry_length) (simp add: log_entry_def label_length)

lemma recorded_log:
  assumes "length l \<le> LOG_ENTRIES" "list_all acceptable l"
  shows "\<exists>l'. fold (record_command lossy) cs (Some l) = Some l' \<and> length l' \<le> LOG_ENTRIES \<and>
    list_all acceptable l'"
  using assms
proof (induction cs arbitrary: l)
  case (Cons c cs)
  show ?case
    using Cons.IH [of l] Cons.IH [of "l @ [log_entry lossy c]"] Cons.prems
    by (auto simp: record_command_def log_entry_acceptable)
qed simp

lemma fold_no_log: "fold (record_command lossy) cs None = None"
  by (induction cs) (simp_all add: record_command_def)

lemma request_log_bounded:
  "length (request_log lossy enabled cs) \<le> LOG_ENTRIES \<and>
   list_all acceptable (request_log lossy enabled cs)"
  using recorded_log [of "[]" lossy cs]
  by (auto simp: request_log_def take_log_def begin_log_def fold_no_log)

lemma client_reads_logs:
  assumes "cs_logs c + length l \<le> 32" "list_all acceptable l"
  shows "client_loop lb i expected (map (CommandLog i) l @ ms) c
    = client_loop lb i expected ms (c\<lparr>cs_logs := cs_logs c + length l\<rparr>)"
  using assms
proof (induction l arbitrary: c)
  case (Cons e l)
  have "client_step lb i expected (CommandLog i e) c = Continue (c\<lparr>cs_logs := Suc (cs_logs c)\<rparr>) []"
    using Cons.prems by (simp add: client_step_def accept_log_def acceptable_def)
  then show ?case
    using Cons.IH [of "c\<lparr>cs_logs := Suc (cs_logs c)\<rparr>"] Cons.prems by simp
qed simp

text \<open>
  Whatever commands a request ran and whatever they printed, the log the agent sends is one the
  desktop reads through: at most 32 entries within its limits, so the loop arrives at the answers
  that follow with nothing but the count of entries changed.
\<close>

lemma log_accepted:
  "client_loop lb i expected (map (CommandLog i) (request_log lossy enabled cs) @ ms) client_start
    = client_loop lb i expected ms
        (client_start\<lparr>cs_logs := length (request_log lossy enabled cs)\<rparr>) \<and>
   length (request_log lossy enabled cs) \<le> 32"
  using request_log_bounded [of lossy enabled cs]
    client_reads_logs [of client_start "request_log lossy enabled cs"]
  by (simp add: client_start_def LOG_ENTRIES_def)

end
