(* ===== verification/Session.thy ===== *)
theory Session
  imports Requests CommandLogs StreamProps
begin

text \<open>
  A Git channel from its first message: the agent's loop \<open>run\<close> of \<open>git/mod.rs\<close> (with
  \<open>backend.rs\<close>), and the desktop's \<open>start_with_identity\<close>, \<open>ping\<close> and \<open>request\<close> of
  \<open>src-tauri/src/git/client.rs\<close>. The agent turns one input at a time into the messages it writes;
  what \<open>Uuid::new_v4\<close> yields is part of the input, and so are the commands a request ran, as
  \<open>command_log\<close> saw them.
\<close>

section \<open>The agent\<close>

definition FEATURES :: "string list" where
  "FEATURES = [''status_summary.path'', ''status.filter'', ''remote_refs.filter'', ''branches.filter'',
     ''tags.summary'', ''stash.entry_index'', ''worktrees.filter'', ''worktree.new_branch'',
     ''worktrees.snapshot_filter'', ''paths.bytes'', ''history.snapshot_pagination'', ''history.summary'',
     ''diff.streaming'', ''diff.tuple_v1'', ''index.hunks'', ''index.lines'', ''discard.hunks'']"

definition ACTIONS :: "string list" where
  "ACTIONS = [''stage'', ''unstage'', ''commit'', ''commit.amend'', ''branch.create'', ''branch.rename'',
     ''branch.delete'', ''branch.set_upstream'', ''checkout'', ''remote.add'', ''remote.rename'',
     ''remote.set_url'', ''remote.remove'', ''fetch'', ''pull.fast_forward'', ''push'', ''push.with_lease'',
     ''branch.delete_remote'', ''tag.create'', ''tag.delete'', ''tag.push'', ''tag.delete_remote'',
     ''merge.fast_forward'', ''reset'', ''discard'', ''stash.save'', ''stash.apply'', ''stash.pop'',
     ''stash.drop'', ''merge'', ''merge.abort'', ''cherry_pick'', ''revert'', ''rebase'',
     ''integration.continue'', ''integration.abort'', ''integration.skip'', ''conflict.resolve'',
     ''worktree.add'', ''worktree.remove'', ''worktree.repair'', ''worktree.prune'', ''worktree.lock'',
     ''worktree.unlock'']"

text \<open>
  What the loop works with: the engine, the journal it opens for a client (\<open>Journal::open(..).ok()\<close>),
  and serde's decoding of a request and of a printed value.
\<close>

record 'w session_env =
  se_libs :: libs
  se_diff :: diff_lib
  se_os :: "'w os"
  se_disk :: "'w disk"
  se_wire :: wire_lib
  se_service :: service
  se_journal :: "string \<Rightarrow> bool"
  se_parse :: "string \<Rightarrow> json \<Rightarrow> request option"
  se_value :: "bytes \<Rightarrow> json option"
  se_cwd :: string

definition service_for :: "'w session_env \<Rightarrow> string \<Rightarrow> service" where
  "service_for env client =
     (se_service env)\<lparr>sv_client := (if se_journal env client then Some client else None)\<rparr>"

datatype session_phase =
    Greeting
  | Serving service bool
  | Sending service bool stream_job u32 u32 "bytes list"
  | Closed

datatype input =
    Received wire_message string "finished_command list"
  | Ended

definition limits_json :: json where
  "limits_json = JObj [(''maxFrameBytes'', jnat MAX_FRAME), (''commandLogs'', JBool True),
     (''maxInflight'', JNum 1), (''maxPageItems'', JNum 200), (''maxChunkBytes'', jnat CHUNK_SIZE),
     (''streamWindow'', JNum (uint STREAM_WINDOW))]"

definition hello :: "string \<Rightarrow> wire_message" where
  "hello instance_id = Hello ''newport.git'' [VERSION] instance_id limits_json"

text \<open>Without a journal the methods that need one are not offered.\<close>

definition needs_journal :: "string \<Rightarrow> bool" where
  "needs_journal m \<longleftrightarrow> starts_with ''operation.'' m \<or> m = ''repo.init'' \<or> m = ''repo.clone''"

definition offered :: "service \<Rightarrow> string list" where
  "offered sv = filter (\<lambda>m. writable sv \<or> \<not> needs_journal m) METHODS"

definition jstrings :: "string list \<Rightarrow> json" where
  "jstrings xs = JArr (map JStr xs)"

definition capabilities :: "service \<Rightarrow> json" where
  "capabilities sv = JObj [(''methods'', jstrings (offered sv)),
     (''objectFormats'', jstrings [''sha1'', ''sha256'']), (''backend'', JStr ''cli''),
     (''features'', jstrings FEATURES), (''actions'', jstrings (if writable sv then ACTIONS else []))]"

text \<open>\<open>check_runtime\<close>: Git must know \<open>--attr-source\<close>.\<close>

definition check_runtime :: "'w os \<Rightarrow> string \<Rightarrow> ('w gst, unit) step" where
  "check_runtime os cwd =
     bindS (run os cwd [''--attr-source=HEAD'', ''--version'']) (\<lambda>b.
       guardS (b \<noteq> None) (gerror_new ''UNSUPPORTED_GIT_VERSION''
         ''The CLI backend requires Git with --attr-source support.''))"

text \<open>Messages are written in order; one that cannot be encoded ends the session.\<close>

definition encodable :: "wire_lib \<Rightarrow> wire_message \<Rightarrow> bool" where
  "encodable lb m \<longleftrightarrow> frame_encode lb m \<noteq> None"

definition emit ::
  "wire_lib \<Rightarrow> session_phase \<Rightarrow> wire_message list \<Rightarrow> session_phase \<times> wire_message list" where
  "emit lb ph out =
     (if list_all (encodable lb) out then (ph, out) else (Closed, takeWhile (encodable lb) out))"

definition unsupported_protocol :: gerror where
  "unsupported_protocol = gerror_new ''UNSUPPORTED_PROTOCOL'' ''Unsupported or invalid initialization.''"

definition initialize ::
  "'w session_env \<Rightarrow> string \<Rightarrow> u32 \<Rightarrow> string \<Rightarrow> string \<Rightarrow> bool \<Rightarrow> 'w agent \<Rightarrow>
   'w agent \<times> session_phase \<times> wire_message list" where
  "initialize env i version client client_version logs g =
     (let sv = service_for env client; uuid = jl_uuid (sv_jlib sv) in
      if version \<noteq> VERSION \<or> \<not> uuid i \<or> \<not> uuid client \<or> 64 < length client_version
      then (g, Closed, snd (emit (se_wire env) Closed [failure_reply i unsupported_protocol]))
      else (case on_git (check_runtime (se_os env) (se_cwd env)) g of
              (g', Inl _) \<Rightarrow> (g', Closed, [])
            | (g', Inr _) \<Rightarrow>
                (g', emit (se_wire env) (Serving sv logs) [Ready i version (capabilities sv)])))"

definition response_limit :: gerror where
  "response_limit = gerror_new ''LIMIT_EXCEEDED'' ''Response exceeds the frame limit.''"

definition unsupported_method :: gerror where
  "unsupported_method = gerror_new ''UNSUPPORTED_METHOD'' ''This Git method is not available.''"

text \<open>What a request evaluates to, before its answer is written.\<close>

definition evaluate ::
  "'w session_env \<Rightarrow> service \<Rightarrow> string \<Rightarrow> json \<Rightarrow> ('w agent, service_output) step" where
  "evaluate env sv method params =
     (if method \<notin> set (offered sv) then failS unsupported_method
      else case se_parse env method params of
          None \<Rightarrow> failS (gerror_invalid ''Invalid method parameters.'')
        | Some rq \<Rightarrow> service_request (se_libs env) (se_diff env) (se_os env) (se_disk env) sv rq)"

definition phase_of :: "service \<Rightarrow> bool \<Rightarrow> stream_job \<Rightarrow> agent_phase \<Rightarrow> session_phase" where
  "phase_of sv logs j p =
     (case p of Streaming s a cs \<Rightarrow> Sending sv logs j s a cs | Finished \<Rightarrow> Serving sv logs
      | Broken \<Rightarrow> Closed)"

definition answer ::
  "'w session_env \<Rightarrow> service \<Rightarrow> bool \<Rightarrow> string \<Rightarrow> string \<Rightarrow> gerror + service_output \<Rightarrow>
   session_phase \<times> wire_message list" where
  "answer env sv logs i fresh r =
     (case r of
        Inl e \<Rightarrow> (Serving sv logs, [failure_reply i e])
      | Inr (OutJson v) \<Rightarrow>
          (Serving sv logs, [if encodable (se_wire env) (success i v) then success i v
                             else failure_reply i response_limit])
      | Inr (OutDiff snapshot b) \<Rightarrow>
          (case Option.bind (se_value env b) (encode_value (se_wire env)) of
             None \<Rightarrow> (Closed, [])
           | Some bs \<Rightarrow>
               (let j = \<lparr>sj_id = i, sj_stream = fresh, sj_snapshot = snapshot, sj_bytes = bs\<rparr> in
                case stream_begin (se_wire env) j of (p, out) \<Rightarrow> (phase_of sv logs j p, out))))"

definition serve_request ::
  "'w session_env \<Rightarrow> service \<Rightarrow> bool \<Rightarrow> string \<Rightarrow> string \<Rightarrow> json \<Rightarrow> string \<Rightarrow> finished_command list \<Rightarrow>
   'w agent \<Rightarrow> 'w agent \<times> session_phase \<times> wire_message list" where
  "serve_request env sv logs i method params fresh cs g =
     (if \<not> jl_uuid (sv_jlib sv) i
      then (g, emit (se_wire env) (Serving sv logs)
              [failure_reply i (gerror_invalid ''Request ID must be a UUID.'')])
      else (case evaluate env sv method params g of
              (g', r) \<Rightarrow>
                (case answer env sv logs i fresh r of
                   (ph, out) \<Rightarrow>
                     (g', emit (se_wire env) ph
                        (map (CommandLog i) (request_log (lossy (se_libs env)) logs cs) @ out)))))"

definition agent_turn ::
  "'w session_env \<Rightarrow> session_phase \<Rightarrow> input \<Rightarrow> 'w agent \<Rightarrow>
   'w agent \<times> session_phase \<times> wire_message list" where
  "agent_turn env ph inp g =
     (case (ph, inp) of
        (Greeting, Received (Initialize i version client client_version logs) _ _) \<Rightarrow>
          initialize env i version client client_version logs g
      | (Serving sv logs, Received (Ping n) _ _) \<Rightarrow>
          if length n \<le> 128 then (g, emit (se_wire env) (Serving sv logs) [Pong n]) else (g, Closed, [])
      | (Serving sv logs, Received (Request i method params) fresh cs) \<Rightarrow>
          serve_request env sv logs i method params fresh cs g
      | (Sending sv logs j s a ck, Received msg _ _) \<Rightarrow>
          (case stream_receive (se_wire env) j msg s a ck of
             (p, out) \<Rightarrow> (g, emit (se_wire env) (phase_of sv logs j p) out))
      | _ \<Rightarrow> (g, Closed, []))"

section \<open>The desktop\<close>

definition incompatible :: gerror where
  "incompatible = gerror_new ''UNSUPPORTED_PROTOCOL'' ''Install an agent with compatible Git support.''"

text \<open>The answer to the greeting: the initialization to send, and the limits to report.\<close>

definition client_greet ::
  "string \<Rightarrow> string \<Rightarrow> string \<Rightarrow> wire_message \<Rightarrow> gerror + wire_message \<times> json" where
  "client_greet fresh client client_version msg =
     (case msg of
        Hello name versions _ limits \<Rightarrow>
          if name \<noteq> ''newport.git'' \<or> VERSION \<notin> set versions \<or>
             as_u64 (jget limits ''maxFrameBytes'') \<noteq> Some (int MAX_FRAME) \<or>
             as_u64 (jget limits ''maxChunkBytes'') \<noteq> Some (int CHUNK_SIZE)
          then Inl incompatible
          else Inr (Initialize fresh VERSION client client_version
                      (jget limits ''commandLogs'' = JBool True), limits)
      | _ \<Rightarrow> Inl invalid_response)"

definition client_ready :: "string \<Rightarrow> wire_message \<Rightarrow> gerror + string list \<times> json" where
  "client_ready fresh msg =
     (case msg of
        Ready reply version caps \<Rightarrow>
          if reply \<noteq> fresh \<or> version \<noteq> VERSION then Inl invalid_response
          else bindR (ok_or invalid_response (jarr (jget caps ''methods''))) (\<lambda>vs.
               mapR (\<lambda>ms. (ms, caps)) (collectR (\<lambda>v. ok_or invalid_response (jstr v)) vs))
      | _ \<Rightarrow> Inl invalid_response)"

definition client_pong :: "string \<Rightarrow> wire_message \<Rightarrow> gerror + unit" where
  "client_pong nonce msg = (if msg = Pong nonce then Inr () else Inl invalid_response)"

text \<open>\<open>Client::request\<close> up to its loop: the method must be offered.\<close>

definition expected_snapshot :: "request \<Rightarrow> string option" where
  "expected_snapshot rq = (case rq of Diff _ snapshot _ _ _ \<Rightarrow> Some snapshot
     | CommitDiff _ _ c _ _ \<Rightarrow> Some c | _ \<Rightarrow> None)"

definition client_request ::
  "string list \<Rightarrow> (request \<Rightarrow> json) \<Rightarrow> string \<Rightarrow> request \<Rightarrow> gerror + wire_message" where
  "client_request methods params fresh rq =
     (if method_name rq \<notin> set methods
      then Inl (gerror_new ''UNSUPPORTED_METHOD'' ''The agent does not support this Git method.'')
      else Inr (Request fresh (method_name rq) (params rq)))"

end
