(* ===== verification/SessionProps.thy ===== *)
theory SessionProps
  imports Session
begin

text \<open>
  A request from the desktop's side to the desktop's side: after the handshake the desktop knows
  exactly the methods the agent offers, the agent evaluates the request that was sent, and the
  answer that comes back is the one the engine gave.
\<close>

section \<open>The handshake\<close>

lemma as_u64_jnat [simp]: "as_u64 (jnat n) = Some (int n)"
  by (simp add: as_u64_def jnat_def)

lemma greeting_accepted:
  "client_greet fresh client v (hello inst) = Inr (Initialize fresh VERSION client v True, limits_json)"
  by (simp add: client_greet_def hello_def limits_json_def jget_def)

lemma collect_strings: "collectR (\<lambda>v. ok_or e (jstr v)) (map JStr xs) = Inr xs"
  by (induction xs) (simp_all add: jstr_def bindR_def mapR_def)

lemma capabilities_read: "client_ready i (Ready i VERSION (capabilities sv)) = Inr (offered sv, capabilities sv)"
  by (simp add: client_ready_def capabilities_def jget_def jstrings_def jarr_def collect_strings
      bindR_def mapR_def)

lemma initialized:
  assumes "agent_turn env Greeting (Received (Initialize i v client cv logs) f cs) g = (g', ph, out)"
    and "ph \<noteq> Closed"
  shows "ph = Serving (service_for env client) logs \<and> v = VERSION \<and>
    out = [Ready i VERSION (capabilities (service_for env client))]"
  using assms
  by (auto simp: agent_turn_def initialize_def Let_def emit_def split: prod.splits sum.splits if_splits)

section \<open>The shape of an answer\<close>

text \<open>A diff answers a request for a diff, of the snapshot that was asked for, and nothing else does.\<close>

fun matches_request :: "string option \<Rightarrow> service_output \<Rightarrow> bool" where
  "matches_request expected (OutJson v) = (expected = None)"
| "matches_request expected (OutDiff snapshot b) = (expected = Some snapshot)"

lemma as_json_output: "as_json m g = (g', Inr out) \<Longrightarrow> \<exists>v. out = OutJson v"
  by (auto simp: as_json_def bindS_Inr_iff)

lemma diff_output_shape:
  "diff_output lb snapshot value = Inr out \<Longrightarrow> \<exists>b. out = OutDiff snapshot b \<and>
     json_vec lb (diff_json lb value) = Some b"
  by (auto simp: diff_output_def bindR_Inr_iff ok_or_Inr_iff split: if_splits)

lemma read_output:
  assumes "read_request lb dl os sv rq s = (s', Inr out)"
  shows "matches_request (expected_snapshot rq) out \<and>
    (\<forall>snapshot b. out = OutDiff snapshot b \<longrightarrow> (\<exists>v. json_vec lb v = Some b))"
  using assms
  by (cases rq)
    (auto simp: expected_snapshot_def bindS_Inr_iff simp del: step_simps dest!: as_json_output,
     auto simp: liftS_def failS_def dest!: diff_output_shape)

lemma service_output:
  assumes "service_request lb dl os dk sv rq g = (g', Inr out)"
  shows "matches_request (expected_snapshot rq) out \<and>
    (\<forall>snapshot b. out = OutDiff snapshot b \<longrightarrow> (\<exists>v. json_vec lb v = Some b))"
proof (cases "uses_journal rq")
  case False
  then obtain s where "read_request lb dl os sv rq (ag_git g) = (s, Inr out)"
    using assms service_request_read [OF False, of lb dl os dk sv]
    by (auto simp: on_git_def split: prod.splits)
  then show ?thesis by (rule read_output)
next
  case True
  then show ?thesis
    using assms
    by (cases rq) (auto simp: uses_journal_def mutates_repository_def expected_snapshot_def
        dest!: as_json_output)
qed

section \<open>A request from end to end\<close>

text \<open>
  What is relied on of serde: a printed value reads back as itself and is one that can be held, and
  the parameters the desktop prints for the request parse to that request.
\<close>

definition session_laws :: "'w session_env \<Rightarrow> (request \<Rightarrow> json) \<Rightarrow> request \<Rightarrow> bool" where
  "session_laws env params rq \<longleftrightarrow> wire_lib_ok (se_wire env) \<and>
     (\<forall>v b. json_vec (se_libs env) v = Some b \<longrightarrow> se_value env b = Some v \<and> json_ok v) \<and>
     se_parse env (method_name rq) (params rq) = Some rq"

text \<open>What the desktop's request returns, given what the engine returned.\<close>

definition returns ::
  "'w session_env \<Rightarrow> string \<Rightarrow> request \<Rightarrow> command_log list \<Rightarrow> wire_message list \<Rightarrow>
   gerror + service_output \<Rightarrow> bool" where
  "returns env i rq logs out r =
     (let lb = se_wire env; loop = client_loop lb i (expected_snapshot rq) out client_start in
      case r of
        Inl e \<Rightarrow> loop = ([], Some (Inl e))
      | Inr (OutJson v) \<Rightarrow>
          loop = ([], Some (if encodable lb (success i v) then Inr v else Inl response_limit))
      | Inr (OutDiff snapshot b) \<Rightarrow>
          expected_snapshot rq = Some snapshot \<and>
          (\<exists>j v. json_vec (se_libs env) v = Some b \<and> sj_id j = i \<and> sj_snapshot j = snapshot \<and>
             out = ex_down (exchange_start lb j logs) \<and> delivers lb j logs v))"

lemma log_ok_acceptable: "StreamProps.log_ok = acceptable"
  by (simp add: fun_eq_iff StreamProps.log_ok_def acceptable_def)

lemma loop_after_logs:
  "client_loop lb i expected (map (CommandLog i) (request_log lf enabled cs) @ ms) client_start
    = client_loop lb i expected ms (client_start\<lparr>cs_logs := length (request_log lf enabled cs)\<rparr>)"
  using request_log_bounded [of lf enabled cs]
    client_reads_logs [of client_start "request_log lf enabled cs" lb i expected ms]
  by (simp add: client_start_def LOG_ENTRIES_def)

lemma client_reads_failure:
  "client_loop lb i expected [failure_reply i e] (client_start\<lparr>cs_logs := n\<rparr>) = ([], Some (Inl e))"
  by (simp add: client_step_def failure_reply_def)

lemma client_reads_success:
  "client_loop lb i None [success i v] (client_start\<lparr>cs_logs := n\<rparr>) = ([], Some (Inr v))"
  by (simp add: client_step_def success_def accept_result_def client_start_def)

lemma answer_returned:
  assumes laws: "session_laws env params rq"
    and run: "service_request (se_libs env) (se_diff env) (se_os env) (se_disk env) sv rq g = (g', r)"
    and ans: "answer env sv enabled i fresh r = (ph, out)" "ph \<noteq> Closed"
    and logs: "logs = request_log (lossy (se_libs env)) enabled cs"
  shows "returns env i rq logs (map (CommandLog i) logs @ out) r"
proof (cases r)
  case (Inl e)
  then show ?thesis
    using ans(1)
    by (auto simp: returns_def answer_def logs loop_after_logs client_reads_failure
        simp del: client_loop.simps)
next
  case (Inr res)
  note shape = service_output [OF run [unfolded Inr]]
  show ?thesis
  proof (cases res)
    case (OutJson v)
    then show ?thesis
      using Inr ans(1) shape
      by (auto simp: returns_def answer_def logs loop_after_logs client_reads_failure
          client_reads_success simp del: client_loop.simps)
  next
    case (OutDiff sn b)
    then obtain v where v: "json_vec (se_libs env) v = Some b" using shape by auto
    then have dec: "se_value env b = Some v" "json_ok v" using laws by (auto simp: session_laws_def)
    obtain bs where bs: "encode_value (se_wire env) v = Some bs"
      using ans Inr OutDiff dec by (auto simp: answer_def split: option.splits)
    define j where "j = \<lparr>sj_id = i, sj_stream = fresh, sj_snapshot = sn, sj_bytes = bs\<rparr>"
    have "job_ok (se_wire env) j logs v"
      using laws dec bs request_log_bounded [of "lossy (se_libs env)" enabled cs]
      by (simp add: job_ok_def session_laws_def j_def logs log_ok_acceptable LOG_ENTRIES_def)
    then have "delivers (se_wire env) j logs v" by (rule job_delivers)
    moreover have "map (CommandLog i) logs @ out = ex_down (exchange_start (se_wire env) j logs)"
      using ans(1) Inr OutDiff dec bs
      by (auto simp: answer_def exchange_start_def j_def split: prod.splits)
    moreover have "sj_id j = i" "sj_snapshot j = sn" by (simp_all add: j_def)
    ultimately have "\<exists>j v. json_vec (se_libs env) v = Some b \<and> sj_id j = i \<and> sj_snapshot j = sn \<and>
        map (CommandLog i) logs @ out = ex_down (exchange_start (se_wire env) j logs) \<and>
        delivers (se_wire env) j logs v"
      using v by blast
    then show ?thesis using Inr OutDiff shape by (simp add: returns_def Let_def)
  qed
qed

lemma served:
  assumes "agent_turn env (Serving sv enabled) (Received (Request i m p) fresh cs) g = (g', ph, out)"
    and "ph \<noteq> Closed" "jl_uuid (sv_jlib sv) i" "m \<in> set (offered sv)" "se_parse env m p = Some rq"
  shows "\<exists>r out'. service_request (se_libs env) (se_diff env) (se_os env) (se_disk env) sv rq g = (g', r) \<and>
    answer env sv enabled i fresh r = (ph, out') \<and>
    out = map (CommandLog i) (request_log (lossy (se_libs env)) enabled cs) @ out'"
  using assms
  by (auto simp: agent_turn_def serve_request_def evaluate_def emit_def split: prod.splits if_splits)

text \<open>
  C30: A request the desktop sends after the handshake is the request the agent evaluates, once, on
  the journal of the desktop's own client; and while the channel stays open the desktop's call
  returns what the engine returned: its error, its value (or the frame limit's error), and for a
  diff the exchange of chunks and acknowledgements ends, in any order of turns, with the diff the
  engine printed, whatever logs precede it.
\<close>

theorem request_answered:
  assumes "session_laws env params rq"
    and "client_greet hid client cv (hello instance_id) = Inr (initialization, limits)"
    and "agent_turn env Greeting (Received initialization f0 cs0) g0 = (g0', Serving sv enabled, [ready])"
    and "client_ready hid ready = Inr (methods, caps)"
    and "client_request methods params i rq = Inr msg" and "jl_uuid (sv_jlib sv) i"
    and "agent_turn env (Serving sv enabled) (Received msg fresh cs) g = (g', ph, out)" and "ph \<noteq> Closed"
  shows "sv = service_for env client \<and>
    (\<exists>r. service_request (se_libs env) (se_diff env) (se_os env) (se_disk env) sv rq g = (g', r) \<and>
       returns env i rq (request_log (lossy (se_libs env)) enabled cs) out r)"
proof -
  have init: "initialization = Initialize hid VERSION client cv True"
    using assms(2) by (simp add: greeting_accepted)
  have hs: "sv = service_for env client" "ready = Ready hid VERSION (capabilities sv)"
    using initialized [OF assms(3) [unfolded init]] by simp_all
  then have "methods = offered sv" using assms(4) by (simp add: capabilities_read)
  with assms(5) have msg: "msg = Request i (method_name rq) (params rq)"
    and off: "method_name rq \<in> set (offered sv)"
    by (simp_all add: client_request_def split: if_splits)
  have "se_parse env (method_name rq) (params rq) = Some rq"
    using assms(1) by (simp add: session_laws_def)
  from served [OF assms(7) [unfolded msg] assms(8,6) off this] obtain r out'
    where run: "service_request (se_libs env) (se_diff env) (se_os env) (se_disk env) sv rq g = (g', r)"
      and ans: "answer env sv enabled i fresh r = (ph, out')"
      and out: "out = map (CommandLog i) (request_log (lossy (se_libs env)) enabled cs) @ out'"
    by blast
  show ?thesis
    using hs(1) run answer_returned [OF assms(1) run ans assms(8) refl, of cs] out by blast
qed

section \<open>Witness\<close>

definition close_params :: "request \<Rightarrow> json" where
  "close_params rq = (case rq of Close t \<Rightarrow> JObj [(''repoId'', JStr t)] | _ \<Rightarrow> JNull)"

definition close_parse :: "string \<Rightarrow> json \<Rightarrow> request option" where
  "close_parse m p = (case p of JObj [(_, JStr t)] \<Rightarrow> if m = ''repo.close'' then Some (Close t) else None
     | _ \<Rightarrow> None)"

definition sample_env :: "nat session_env" where
  "sample_env =
     \<lparr>se_libs = sample_libs\<lparr>json_vec := (\<lambda>v. if v = JNull then Some ''n'' else None)\<rparr>,
      se_diff = \<lparr>hash_hunk = (\<lambda>f h. Inr []), hash_line = (\<lambda>s n l. Inr [])\<rparr>,
      se_os = (sample_os False)\<lparr>os_spawn := (\<lambda>d args i w. (w, printed ''git''))\<rparr>,
      se_disk = maker_disk, se_wire = sample_wire, se_service = sample_service,
      se_journal = (\<lambda>_. True), se_parse = close_parse,
      se_value = (\<lambda>b. if b = ''n'' then Some JNull else None), se_cwd = ''/''\<rparr>"

definition sample_close :: request where "sample_close = Close sample_token"

lemma encodable_print:
  "message_out sample_wire m = Some w \<Longrightarrow> length (mp_print w) \<le> MAX_FRAME \<Longrightarrow> encodable sample_wire m"
  by (simp add: encodable_def frame_encode_def msg_encode_def serialize_def sample_wire_def
      MAX_DIFF_def MAX_FRAME_def)

definition sample_served :: service where
  "sample_served = service_for sample_env uuid_a"

lemma sample_served: "writable sample_served" "jl_uuid (sv_jlib sample_served) = hyphenated"
  by (simp_all add: sample_served_def service_for_def sample_env_def sample_service_def writable_def
      sample_jlib_def)

definition words_print :: "string list \<Rightarrow> nat" where
  "words_print xs = sum_list (map (\<lambda>s. 2 * length s + 2) xs)"

lemma print_words: "length (concat (map (mp_print \<circ> MStr) xs)) = words_print xs"
  "length (concat (map (\<lambda>s. CHR ''s'' # unary (length s) @ s) xs)) = words_print xs"
  by (induction xs; simp add: words_print_def)+

lemma strings_out: "items_out lb Normal (Suc d) i (map JStr xs) =
  (if xs = [] \<or> d < MAX_NESTING then Some (map MStr xs) else None)"
  by (induction xs arbitrary: i) (auto simp: body_out.simps mode_item_def)

lemma words_out: "body_out lb Normal 1 (jstrings xs) = Some (MArr (map MStr xs))"
  using strings_out [of lb 1 0 xs] by (simp add: jstrings_def body_out.simps MAX_NESTING_def)

lemma ready_out: "message_out sample_wire (Ready uuid_b VERSION (capabilities sample_served)) =
   Some (MArr [MInt 2, MStr uuid_b, word_out VERSION, MMap [
     (key_out ''methods'', MArr (map MStr METHODS)),
     (key_out ''objectFormats'', MArr (map MStr [''sha1'', ''sha256''])),
     (key_out ''backend'', MStr ''cli''),
     (key_out ''features'', MArr (map MStr FEATURES)),
     (key_out ''actions'', MArr (map MStr ACTIONS))]])"
  by (simp add: payload_out_def capabilities_def body_out.simps [of _ _ 0] mode_field_def
      words_out [unfolded One_nat_def] sample_served offered_def del: list.map)
    (simp add: body_out.simps MAX_NESTING_def)

lemma key_print: "length (mp_print (key_out k)) \<le> 300 + 2 * length k"
  using field_id_less [of k] by (auto simp: key_out_def split: option.splits)

lemma word_lists: "words_print METHODS \<le> 2000" "words_print FEATURES \<le> 2000" "words_print ACTIONS \<le> 2000"
  by (simp_all add: words_print_def METHODS_def FEATURES_def ACTIONS_def)

lemma uuid_lengths: "length uuid_a = 36" "length uuid_b = 36"
  by (simp_all add: uuid_a_def uuid_b_def)

lemma ready_framed: "encodable sample_wire (Ready uuid_b VERSION (capabilities sample_served))"
proof (rule encodable_print [OF ready_out])
  have "length METHODS \<le> 100" "length FEATURES \<le> 100" "length ACTIONS \<le> 100"
    by (simp_all add: METHODS_def FEATURES_def ACTIONS_def)
  moreover have "words_print [''sha1'', ''sha256''] \<le> 100" by (simp add: words_print_def)
  moreover have "length (mp_print (word_out VERSION)) \<le> 10" by (simp add: word_out_def VERSION_def)
  ultimately show "length (mp_print (MArr [MInt 2, MStr uuid_b, word_out VERSION, MMap [
     (key_out ''methods'', MArr (map MStr METHODS)),
     (key_out ''objectFormats'', MArr (map MStr [''sha1'', ''sha256''])),
     (key_out ''backend'', MStr ''cli''),
     (key_out ''features'', MArr (map MStr FEATURES)),
     (key_out ''actions'', MArr (map MStr ACTIONS))]])) \<le> MAX_FRAME"
    using word_lists key_print [of "''methods''"] key_print [of "''objectFormats''"] key_print [of "''backend''"]
      key_print [of "''features''"] key_print [of "''actions''"]
    by (simp add: uuid_lengths print_words comp_def MAX_FRAME_def)
qed

lemma sample_greets:
  "agent_turn sample_env Greeting
     (Received (Initialize uuid_b VERSION uuid_a ''1.0'' True) [] []) sample_agent
   = (sample_agent\<lparr>ag_git := sample_gst\<lparr>glog := [(Query, [''--attr-source=HEAD'', ''--version''], [])]\<rparr>\<rparr>,
      Serving sample_served True, [Ready uuid_b VERSION (capabilities sample_served)])"
proof -
  have "run (se_os sample_env) ''/'' [''--attr-source=HEAD'', ''--version''] sample_gst
    = (sample_gst\<lparr>gw := 0, glog := [(Query, [''--attr-source=HEAD'', ''--version''], [])]\<rparr>, Inr (Some ''git''))"
    by (subst run_printed [where w = 0 and b = "''git''"])
      (simp_all add: sample_env_def sample_gst_def OUTPUT_LIMIT_def)
  then have "check_runtime (se_os sample_env) ''/'' sample_gst
    = (sample_gst\<lparr>gw := 0, glog := [(Query, [''--attr-source=HEAD'', ''--version''], [])]\<rparr>, Inr ())"
    by (simp add: check_runtime_def bindS_def guardS_def)
  moreover have "se_cwd sample_env = ''/''" "jl_uuid (sv_jlib sample_served) = hyphenated"
    "se_wire sample_env = sample_wire" "ag_git sample_agent = sample_gst" "gw sample_gst = 0"
    by (simp_all add: sample_env_def sample_served sample_agent_def sample_gst_def)
  ultimately show ?thesis
    by (simp add: agent_turn_def initialize_def Let_def sample_served_def [symmetric] on_git_def emit_def
        ready_framed)
qed

definition closed_reply :: json where
  "closed_reply = JObj [(''closed'', JBool True)]"

lemma closed_framed: "encodable sample_wire (success uuid_b closed_reply)"
proof (rule encodable_print)
  show "message_out sample_wire (success uuid_b closed_reply)
    = Some (MArr [MInt 4, MStr uuid_b, MMap [(key_out ''closed'', MBool True)]])"
    by (simp add: success_def closed_reply_def payload_out_def body_out.simps MAX_NESTING_def)
  show "length (mp_print (MArr [MInt 4, MStr uuid_b, MMap [(key_out ''closed'', MBool True)]])) \<le> MAX_FRAME"
    using key_print [of "''closed''"] by (simp add: uuid_lengths MAX_FRAME_def)
qed

lemma sample_closes:
  "agent_turn sample_env (Serving sample_served True)
     (Received (Request uuid_b ''repo.close'' (close_params sample_close)) ''s'' []) g
   = (g, Serving sample_served True, [success uuid_b closed_reply])"
proof -
  have "repo_decode sample_tokens sample_token = Inr (rp_id sample_repo)"
    using token_roundtrip_repo [OF sample_tokens_ok sample_repo_token]
    by (simp add: sample_token_def sample_repo_def)
  then have "service_request (se_libs sample_env) (se_diff sample_env) (se_os sample_env)
      (se_disk sample_env) sample_served sample_close g = (g, Inr (OutJson closed_reply))"
    by (simp add: sample_close_def as_json_def on_git_def sample_env_def sample_libs_def closed_reply_def
        bindS_def)
  moreover have "''repo.close'' \<in> set (offered sample_served)"
    by (simp add: offered_def sample_served METHODS_def)
  moreover have "se_parse sample_env ''repo.close'' (close_params sample_close) = Some sample_close"
    by (simp add: sample_env_def close_parse_def close_params_def sample_close_def)
  moreover have "se_wire sample_env = sample_wire" by (simp add: sample_env_def)
  ultimately show ?thesis
    by (simp add: agent_turn_def serve_request_def evaluate_def answer_def emit_def closed_framed
        sample_served request_log_def take_log_def begin_log_def)
qed

theorem request_answered_witness:
  "\<exists>r. service_request (se_libs sample_env) (se_diff sample_env) (se_os sample_env) (se_disk sample_env)
       sample_served sample_close sample_agent = (sample_agent, r) \<and>
     returns sample_env uuid_b sample_close [] [success uuid_b closed_reply] r"
proof -
  have laws: "session_laws sample_env close_params sample_close"
    by (simp add: session_laws_def sample_env_def sample_wire_ok close_parse_def close_params_def
        sample_close_def)
  have greet: "client_greet uuid_b uuid_a ''1.0'' (hello uuid_a)
      = Inr (Initialize uuid_b VERSION uuid_a ''1.0'' True, limits_json)"
    by (rule greeting_accepted)
  have offer: "method_name sample_close = ''repo.close''" "''repo.close'' \<in> set (offered sample_served)"
    by (simp_all add: sample_close_def offered_def sample_served METHODS_def)
  then have sent: "client_request (offered sample_served) close_params uuid_b sample_close
      = Inr (Request uuid_b ''repo.close'' (close_params sample_close))"
    by (simp add: client_request_def)
  have uuid: "jl_uuid (sv_jlib sample_served) uuid_b" by (simp add: sample_served)
  show ?thesis
    using request_answered [OF laws greet sample_greets capabilities_read sent uuid sample_closes]
    by (simp add: request_log_def take_log_def begin_log_def)
qed

end
