(* ===== verification/LogPrivacy.thy ===== *)
theory LogPrivacy
  imports CommandLogs
begin

text \<open>
  What a log entry cannot show: none of the words that mark a sensitive line, in whatever case, and
  no URL. The argument is about where a word can come from: the replacements begin and end with a
  character no such word has, so an occurrence lies in characters that were copied one by one.
\<close>

section \<open>Occurrences\<close>

lemma contains_sub_iff: "contains_sub w s \<longleftrightarrow> (\<exists>a b. s = a @ w @ b)"
proof (induction s)
  case (Cons c s)
  show ?case
  proof
    assume "contains_sub w (c # s)"
    then consider "starts_with w (c # s)" | "contains_sub w s" by auto
    then show "\<exists>a b. c # s = a @ w @ b"
    proof cases
      case 1
      then have "c # s = [] @ w @ drop (length w) (c # s)"
        unfolding starts_with_def by (metis append_Nil append_take_drop_id)
      then show ?thesis by blast
    next
      case 2
      then obtain a b where "s = a @ w @ b" using Cons by blast
      then have "c # s = (c # a) @ w @ b" by simp
      then show ?thesis by blast
    qed
  next
    assume "\<exists>a b. c # s = a @ w @ b"
    then obtain a b where ab: "c # s = a @ w @ b" by blast
    show "contains_sub w (c # s)"
    proof (cases a)
      case Nil
      then have "starts_with w (c # s)" using ab by simp
      then show ?thesis by simp
    next
      case (Cons d a')
      then have "contains_sub w s" using ab Cons.IH by auto
      then show ?thesis by simp
    qed
  qed
qed simp

lemma contains_length: "contains_sub w s \<Longrightarrow> length w \<le> length s"
  by (auto simp: contains_sub_iff)

lemma contains_mono: "contains_sub w s \<Longrightarrow> contains_sub w (x @ s @ y)"
  unfolding contains_sub_iff by (metis append.assoc)

text \<open>A word over \<open>A\<close> does not reach across a character outside \<open>A\<close>.\<close>

lemma contains_guard:
  assumes "contains_sub w (x @ g # y)" "g \<notin> set w"
  shows "contains_sub w x \<or> contains_sub w y"
proof -
  obtain a b where ab: "x @ g # y = a @ w @ b" using assms(1) contains_sub_iff by auto
  consider "length a + length w \<le> length x" | "length x < length a"
    | "length a \<le> length x" "length x < length a + length w" by linarith
  then show ?thesis
  proof cases
    case 1
    then have "x = a @ w @ take (length x - length a - length w) b"
      using arg_cong [OF ab, of "take (length x)"] by simp
    then show ?thesis using contains_sub_iff by blast
  next
    case 2
    then have "y = drop (Suc (length x)) a @ w @ b"
      using arg_cong [OF ab, of "drop (Suc (length x))"] by (simp add: Suc_diff_le)
    then show ?thesis using contains_sub_iff by blast
  next
    case 3
    have "(x @ g # y) ! length x = g" by simp
    then have "(a @ w @ b) ! length x = g" using ab by simp
    moreover have lt: "length x - length a < length w" using 3 by linarith
    ultimately have "w ! (length x - length a) = g" using 3 by (simp add: nth_append)
    then have "g \<in> set w" using lt nth_mem by metis
    then show ?thesis using assms(2) by simp
  qed
qed

lemma lines_of_words:
  assumes "\<And>l. l \<in> set ls \<Longrightarrow> \<not> contains_sub w (f l)"
    and "\<And>k. Suc k < length ls \<Longrightarrow> \<exists>x g. f (ls ! k) = x @ [g] \<and> g \<notin> set w"
    and "w \<noteq> []"
  shows "\<not> contains_sub w (concat (map f ls))"
  using assms
proof (induction ls)
  case (Cons l ls)
  show ?case
  proof (cases ls)
    case Nil
    then show ?thesis using Cons.prems(1) by simp
  next
    case (Cons l' ls')
    obtain x g where x: "f l = x @ [g]" "g \<notin> set w"
      using Cons.prems(2) [of 0] Cons by auto
    have rest: "\<not> contains_sub w (concat (map f ls))"
    proof (rule Cons.IH)
      show "\<exists>x g. f (ls ! k) = x @ [g] \<and> g \<notin> set w" if "Suc k < length ls" for k
        using Cons.prems(2) [of "Suc k"] that by simp
    qed (use Cons.prems in auto)
    show ?thesis
    proof
      assume "contains_sub w (concat (map f (l # ls)))"
      then have "contains_sub w (x @ g # concat (map f ls))" using x by simp
      then have "contains_sub w x" using contains_guard x(2) rest by blast
      then have "contains_sub w (f l)" unfolding x(1) using contains_mono [of w x "[]" "[g]"] by simp
      then show False using Cons.prems(1) by simp
    qed
  qed
qed simp

text \<open>\<open>derived w out src\<close>: \<open>out\<close> copies characters of \<open>src\<close> and replaces stretches of it by blocks that
  \<open>w\<close> cannot overlap.\<close>

inductive derived :: "string \<Rightarrow> string \<Rightarrow> string \<Rightarrow> bool" for w where
  nothing: "derived w [] []"
| copied: "derived w out src \<Longrightarrow> derived w (c # out) (c # src)"
| guarded: "derived w out src \<Longrightarrow> g \<notin> set w \<Longrightarrow> derived w (g # out) (x @ src)"
| block: "derived w out src \<Longrightarrow> g \<notin> set w \<Longrightarrow> h \<notin> set w \<Longrightarrow> \<not> contains_sub w m \<Longrightarrow>
    derived w (g # m @ h # out) (x @ src)"

lemma derived_contains:
  "derived w out src \<Longrightarrow> contains_sub w (p @ out) \<Longrightarrow> contains_sub w (p @ src)"
proof (induction arbitrary: p rule: derived.induct)
  case (copied out src c)
  then show ?case using copied.IH [of "p @ [c]"] by simp
next
  case (guarded out src g x)
  then consider "contains_sub w p" | "contains_sub w out" using contains_guard by blast
  then show ?case
  proof cases
    case 1
    then show ?thesis using contains_mono [of w p "[]" "x @ src"] by simp
  next
    case 2
    then have "contains_sub w src" using guarded.IH [of "[]"] by simp
    then show ?thesis using contains_mono [of w src "p @ x" "[]"] by simp
  qed
next
  case (block out src g h m x)
  then consider "contains_sub w p" | "contains_sub w out" using contains_guard by blast
  then show ?case
  proof cases
    case 1
    then show ?thesis using contains_mono [of w p "[]" "x @ src"] by simp
  next
    case 2
    then have "contains_sub w src" using block.IH [of "[]"] by simp
    then show ?thesis using contains_mono [of w src "p @ x" "[]"] by simp
  qed
qed simp

lemma derived_append:
  "derived w a s \<Longrightarrow> derived w b t \<Longrightarrow> derived w (a @ b) (s @ t)"
proof (induction rule: derived.induct)
  case (guarded out src g x)
  then show ?case using derived.guarded [of w "out @ b" "src @ t" g x] by simp
next
  case (block out src g h m x)
  then show ?case using derived.block [of w "out @ b" "src @ t" g h m x] by simp
qed (auto intro: derived.intros)

lemma derived_copy: "derived w s s"
  by (induction s) (auto intro: derived.intros)

lemma derived_concat:
  "(\<And>x. x \<in> set xs \<Longrightarrow> derived w (f x) (g x)) \<Longrightarrow> derived w (concat (map f xs)) (concat (map g xs))"
  by (induction xs) (auto intro: derived_append derived.nothing)

section \<open>Lines\<close>

text \<open>A word the replacements cannot contribute to, read with its letters folded by \<open>f\<close>.\<close>

definition plain :: "(char \<Rightarrow> char) \<Rightarrow> string \<Rightarrow> bool" where
  "plain f w \<longleftrightarrow> 3 \<le> length w \<and>
     (\<forall>c \<in> {CHR 0x0A, CHR 0x5C, CHR ''['', CHR '']'', CHR ''{'', CHR ''}''}. c \<notin> set w \<and> f c = c) \<and>
     \<not> contains_sub w (map f ''URL omitted'') \<and> \<not> contains_sub w (map f ''sensitive output omitted'') \<and>
     \<not> contains_sub w (map f ''Output truncated: showing at most 4 KiB of this stream'')"

lemma contains_short: "length s < length w \<Longrightarrow> \<not> contains_sub w s"
  using contains_length by fastforce

lemma derived_escape:
  assumes "plain f w"
  shows "derived w (map f (escape_control c)) s"
proof -
  have g: "CHR 0x5C \<notin> set w" "CHR ''}'' \<notin> set w" "CHR ''{'' \<notin> set w"
    "f (CHR 0x5C) = CHR 0x5C" "f (CHR ''}'') = CHR ''}''" "f (CHR ''{'') = CHR ''{''" "3 \<le> length w"
    using assms by (simp_all add: plain_def)
  have "\<not> contains_sub w ([f (CHR ''u'')] @ CHR ''{'' # map f (hex_code (code_point c)))"
    using contains_guard [of w "[f (CHR ''u'')]" "CHR ''{''" "map f (hex_code (code_point c))"] g
      contains_short [of "[f (CHR ''u'')]" w] contains_short [of "map f (hex_code (code_point c))" w]
    by (auto simp: hex_code_def Let_def)
  then have "derived w (CHR 0x5C # ([f (CHR ''u'')] @ CHR ''{'' # map f (hex_code (code_point c))) @ CHR ''}'' # []) (s @ [])"
    using g derived.nothing by (intro derived.block)
  then show ?thesis by (simp add: escape_control_def g)
qed

lemma derived_char:
  assumes "plain f w"
  shows "derived w (map f (show_char c)) (map f c)"
proof -
  have "derived w [CHR 0x0A] (map f c @ [])"
    using assms derived.nothing by (intro derived.guarded) (auto simp: plain_def)
  moreover have "f (CHR 0x0A) = CHR 0x0A" using assms by (simp add: plain_def)
  ultimately show ?thesis
    using derived_escape [OF assms] derived_copy by (auto simp: show_char_def)
qed

lemma derived_chars:
  "plain f w \<Longrightarrow> derived w (map f (concat (map show_char t))) (map f (concat t))"
  using derived_concat [of t w "\<lambda>c. map f (show_char c)" "map f"] derived_char
  by (simp add: map_concat comp_def)

lemma derived_token:
  assumes "plain f w"
  shows "derived w (map f (show_token t)) (map f (concat t))"
proof (cases "contains_sub ''://'' (concat t)")
  case True
  let ?ws = "rev (takeWhile whitespace (rev t))" and ?u = "rev (dropWhile whitespace (rev t))"
  have t: "t = ?u @ ?ws"
    by (metis rev_append rev_rev_ident takeWhile_dropWhile_id)
  have "derived w (CHR ''['' # map f ''URL omitted'' @ CHR '']'' # map f (concat ?ws))
      (map f (concat ?u) @ map f (concat ?ws))"
    using assms derived_copy by (intro derived.block) (auto simp: plain_def)
  moreover have "map f (show_token t) = CHR ''['' # map f ''URL omitted'' @ CHR '']'' # map f (concat ?ws)"
    using True assms by (simp add: show_token_def plain_def)
  moreover have "map f (concat t) = map f (concat ?u) @ map f (concat ?ws)"
    by (subst t) simp
  ultimately show ?thesis by simp
next
  case False
  then show ?thesis using derived_chars [OF assms] by (simp add: show_token_def)
qed

lemma concat_split_when [simp]: "concat (split_when p s) = s"
  by (induction s) (auto split: list.splits)

lemma log_pieces_concat: "map f (concat l) = concat (map (\<lambda>t. map f (concat t)) (split_when p l))"
proof -
  have "map f (concat (concat ts)) = concat (map (\<lambda>t. map f (concat t)) ts)" for ts
    by (induction ts) auto
  from this [of "split_when p l"] show ?thesis by simp
qed

lemma line_not_sensitive:
  assumes "w \<in> set SENSITIVE" "plain ascii_lower w"
  shows "\<not> contains_sub w (map ascii_lower (show_line l))"
proof (cases "sensitive l")
  case True
  let ?m = "map ascii_lower ''sensitive output omitted''"
  let ?r = "if l \<noteq> [] \<and> line_end (last l) then [CHR 0x0A] else []"
  have line: "map ascii_lower (show_line l) = [] @ CHR ''['' # (?m @ CHR '']'' # ?r)"
    using True assms(2) by (simp add: show_line_def plain_def)
  have no: "\<not> contains_sub w ?m" "\<not> contains_sub w ?r" "\<not> contains_sub w []"
    using assms(2) contains_short [of "?r" w] contains_short [of "[]" w] unfolding plain_def by auto
  have g: "CHR ''['' \<notin> set w" "CHR '']'' \<notin> set w" using assms(2) by (simp_all add: plain_def)
  show ?thesis
    unfolding line using contains_guard [OF _ g(1)] contains_guard [OF _ g(2)] no by blast
next
  case False
  have "derived w (concat (map (\<lambda>t. map ascii_lower (show_token t)) (split_when whitespace l)))
      (concat (map (\<lambda>t. map ascii_lower (concat t)) (split_when whitespace l)))"
    by (rule derived_concat) (rule derived_token [OF assms(2)])
  then have "derived w (map ascii_lower (show_line l)) (map ascii_lower (concat l))"
    using False unfolding log_pieces_concat [of ascii_lower l whitespace]
    by (simp add: show_line_def map_concat comp_def)
  moreover have "\<not> contains_sub w (map ascii_lower (concat l))"
    using False assms(1) by (auto simp: sensitive_def list_ex_iff)
  ultimately show ?thesis using derived_contains [of w _ _ "[]"] by auto
qed

text \<open>Every piece but the last ends where it was split.\<close>

lemma split_when_last:
  "s \<noteq> [] \<Longrightarrow> split_when p s \<noteq> [] \<and> last (split_when p s) \<noteq> [] \<and> last (last (split_when p s)) = last s"
  by (induction s) (auto split: list.splits)

lemma split_when_nonempty: "t \<in> set (split_when p s) \<Longrightarrow> t \<noteq> []"
  by (induction s arbitrary: t) (auto split: if_splits list.splits)

lemma split_when_ends:
  "Suc k < length (split_when p s) \<Longrightarrow> p (last (split_when p s ! k))"
proof (induction s arbitrary: k)
  case (Cons c s)
  show ?case
  proof (cases "p c")
    case True
    then show ?thesis using Cons by (cases k) auto
  next
    case False
    show ?thesis
    proof (cases "split_when p s")
      case Nil
      then show ?thesis using Cons.prems False by simp
    next
      case (Cons q qs)
      have "q \<noteq> []" using split_when_nonempty [of q p s] Cons by simp
      then show ?thesis
        using Cons.prems Cons.IH [of k] False \<open>split_when p s = q # qs\<close> by (cases k) auto
    qed
  qed
qed simp

text \<open>What a token ends with when its last character is a blank or the end of a line.\<close>

definition stops :: "string \<Rightarrow> string \<Rightarrow> bool" where
  "stops w s \<longleftrightarrow> (\<exists>x g. s = x @ [g] \<and> g \<notin> set w)"

lemma stops_append: "stops w s \<Longrightarrow> stops w (x @ s)"
  unfolding stops_def by (metis append.assoc)

definition wf_char :: "bytes \<Rightarrow> bool" where
  "wf_char c \<longleftrightarrow> c \<noteq> [] \<and> list_all continuation (tl c)"

lemma utf8_chars_wf: "c \<in> set (utf8_chars s) \<Longrightarrow> wf_char c"
  by (induction s rule: utf8_chars.induct)
    (auto simp: wf_char_def list_all_iff dest: set_takeWhileD)

lemma whitespace_last:
  assumes "whitespace c" "wf_char c"
  shows "last c \<notin> set ''://''"
proof (cases "tl c")
  case Nil
  then obtain a where "c = [a]" using assms(2) by (cases c) (auto simp: wf_char_def)
  then show ?thesis using assms(1) by (auto simp: whitespace_def Let_def byte_def)
next
  case (Cons b t)
  then have "last c = last (tl c)" "tl c \<noteq> []" by (cases c; simp)+
  then have "continuation (last c)" using assms(2) by (simp add: wf_char_def list_all_iff)
  then show ?thesis by (auto simp: continuation_def byte_def)
qed

lemma token_stops:
  assumes "t \<noteq> []" "whitespace (last t)" "wf_char (last t)"
  shows "stops ''://'' (show_token t)"
proof -
  let ?c = "last t"
  have own: "stops ''://'' ?c"
    unfolding stops_def using assms(3) whitespace_last [OF assms(2,3)]
    by (metis append_butlast_last_id wf_char_def)
  have esc: "stops ''://'' (escape_control c)" for c
    unfolding stops_def escape_control_def
    by (rule exI [of _ "CHR 0x5C # ''u{'' @ hex_code (code_point c)"]) simp
  have nl: "stops ''://'' [CHR 0x0A]" by (simp add: stops_def)
  have shown: "stops ''://'' (show_char ?c)" using own esc nl by (auto simp: show_char_def)
  have t: "t = butlast t @ [?c]" using assms(1) by simp
  show ?thesis
  proof (cases "contains_sub ''://'' (concat t)")
    case True
    have "rev (takeWhile whitespace (rev t)) = rev (takeWhile whitespace (rev (butlast t))) @ [?c]"
      using assms(2) by (subst t) simp
    then have "show_token t
      = (''[URL omitted]'' @ concat (rev (takeWhile whitespace (rev (butlast t))))) @ ?c"
      using True by (simp add: show_token_def)
    then show ?thesis using stops_append [OF own] by (simp only:)
  next
    case False
    have "concat (map show_char t) = concat (map show_char (butlast t)) @ show_char ?c"
      by (subst t) simp
    then show ?thesis using False stops_append [OF shown] by (simp add: show_token_def)
  qed
qed

lemma end_token_stops:
  assumes "plain f w" "t \<noteq> []" "line_end (last t)"
  shows "stops w (map f (show_token t))"
proof -
  have t: "t = butlast t @ [last t]" using assms(2) by simp
  have nl: "stops w (map f [CHR 0x0A])" "stops w (map f (s @ ''[URL omitted]''))" for s
    using assms(1) unfolding stops_def plain_def
    by (simp, intro exI [of _ "map f (s @ ''[URL omitted'')"]) simp
  have shown: "stops w (map f (show_char (last t)))"
    using nl(1) assms(3) by (auto simp: show_char_def line_end_def)
  show ?thesis
  proof (cases "contains_sub ''://'' (concat t)")
    case True
    show ?thesis
    proof (cases "last t = [CHR 0x0A]")
      case True
      then have "whitespace (last t)" by (simp add: whitespace_def byte_def)
      then have "rev (takeWhile whitespace (rev t)) = rev (takeWhile whitespace (rev (butlast t))) @ [[CHR 0x0A]]"
        using True by (subst t) simp
      then have "show_token t
        = (''[URL omitted]'' @ concat (rev (takeWhile whitespace (rev (butlast t))))) @ [CHR 0x0A]"
        using \<open>contains_sub ''://'' (concat t)\<close> by (simp add: show_token_def)
      then show ?thesis using stops_append [OF nl(1)] by (simp only: map_append)
    next
      case False
      then have "last t = [CHR 0x00]" using assms(3) by (simp add: line_end_def)
      then have "takeWhile whitespace (rev t) = []"
        by (subst t) (simp add: whitespace_def byte_def)
      then show ?thesis using True nl(2) [of "[]"] by (simp add: show_token_def)
    qed
  next
    case False
    have "concat (map show_char t) = concat (map show_char (butlast t)) @ show_char (last t)"
      by (subst t) simp
    then show ?thesis using False stops_append [OF shown] by (simp add: show_token_def)
  qed
qed

lemma line_stops:
  assumes "plain f w" "l \<noteq> []" "line_end (last l)"
  shows "stops w (map f (show_line l))"
proof (cases "sensitive l")
  case True
  have nl: "stops w (map f [CHR 0x0A])" using assms(1) by (simp add: stops_def plain_def)
  show ?thesis
    using True assms(2,3) stops_append [OF nl, of "map f ''[sensitive output omitted]''"]
    by (simp add: show_line_def)
next
  case False
  let ?ts = "split_when whitespace l"
  have last: "?ts \<noteq> []" "last ?ts \<noteq> []" "last (last ?ts) = last l"
    using split_when_last [OF assms(2)] by blast+
  have "concat (map show_token ?ts) = concat (map show_token (butlast ?ts)) @ show_token (last ?ts)"
    by (subst append_butlast_last_id [OF last(1), symmetric]) simp
  then show ?thesis
    using False stops_append [OF end_token_stops [OF assms(1) last(2)]] last(3) assms(3)
    by (simp add: show_line_def)
qed

section \<open>The whole display\<close>

lemma plain_url: "plain id ''://''"
  unfolding plain_def by code_simp

lemma plain_sensitive: "w \<in> set SENSITIVE \<Longrightarrow> plain ascii_lower w"
proof -
  have "list_all (plain ascii_lower) SENSITIVE" unfolding plain_def by code_simp
  then show "w \<in> set SENSITIVE \<Longrightarrow> plain ascii_lower w" by (simp add: list_all_iff)
qed

lemma whitespace_no_colon:
  assumes "whitespace c" "wf_char c"
  shows "CHR '':'' \<notin> set c"
proof
  assume "CHR '':'' \<in> set c"
  obtain a t where c: "c = a # t" and t: "list_all continuation t"
    using assms(2) by (cases c) (auto simp: wf_char_def)
  have "CHR '':'' \<notin> set t" using t by (auto simp: list_all_iff continuation_def byte_def)
  then have "a = CHR '':''" using \<open>CHR '':'' \<in> set c\<close> c by simp
  then have a: "byte a = 58" by (simp add: byte_def)
  have m: "byte x mod 64 < 64" for x by simp
  consider "t = []" | b where "t = [b]" | b d where "t = [b, d]" | b d e r where "t = b # d # e # r"
    by (metis list.exhaust)
  then show False
  proof cases
    case 1
    then show False using assms(1) a c by (simp add: whitespace_def)
  next
    case (2 b)
    then show False using assms(1) a c m [of b] by (auto simp: whitespace_def Let_def)
  next
    case (3 b d)
    then show False using assms(1) a c m [of b] m [of d] by (auto simp: whitespace_def Let_def)
  next
    case (4 b d e r)
    then show False using assms(1) a c m [of b] m [of d] m [of e] by (auto simp: whitespace_def Let_def)
  qed
qed

lemma token_no_url:
  assumes "list_all wf_char t"
  shows "\<not> contains_sub ''://'' (show_token t)"
proof (cases "contains_sub ''://'' (concat t)")
  case True
  let ?ws = "concat (rev (takeWhile whitespace (rev t)))"
  have "CHR '':'' \<notin> set ?ws"
    using assms whitespace_no_colon by (auto simp: list_all_iff dest: set_takeWhileD)
  then have no: "\<not> contains_sub ''://'' ?ws"
    unfolding contains_sub_iff by (metis in_set_conv_decomp append_Cons)
  have line: "show_token t = ''[URL omitted'' @ CHR '']'' # ?ws" using True by (simp add: show_token_def)
  have mid: "\<not> contains_sub ''://'' ''[URL omitted''" by code_simp
  show ?thesis unfolding line using contains_guard [of "''://''" "''[URL omitted''" "CHR '']''" ?ws] no mid by auto
next
  case False
  then have "\<not> contains_sub ''://'' (concat (map show_char t))"
    using derived_contains [OF derived_chars [OF plain_url, of t], of "[]"] by auto
  then show ?thesis using False by (simp add: show_token_def)
qed

lemma split_when_members: "t \<in> set (split_when p s) \<Longrightarrow> set t \<subseteq> set s"
  by (induction s arbitrary: t) (fastforce split: if_splits list.splits)+

lemma line_no_url:
  assumes "list_all wf_char l"
  shows "\<not> contains_sub ''://'' (show_line l)"
proof (cases "sensitive l")
  case True
  have "\<not> contains_sub ''://'' ''[sensitive output omitted]''"
    "\<not> contains_sub ''://'' (''[sensitive output omitted]'' @ [CHR 0x0A])"
    by code_simp+
  then show ?thesis using True by (auto simp: show_line_def simp del: contains_sub.simps)
next
  case False
  have "\<not> contains_sub ''://'' (concat (map show_token (split_when whitespace l)))"
  proof (rule lines_of_words)
    show "\<not> contains_sub ''://'' (show_token t)" if "t \<in> set (split_when whitespace l)" for t
      by (rule token_no_url) (use assms split_when_members [OF that] in \<open>auto simp: list_all_iff\<close>)
    show "\<exists>x g. show_token (split_when whitespace l ! k) = x @ [g] \<and> g \<notin> set ''://''"
      if "Suc k < length (split_when whitespace l)" for k
    proof -
      let ?t = "split_when whitespace l ! k"
      have m: "?t \<in> set (split_when whitespace l)" using that by simp
      then have "?t \<noteq> []" by (rule split_when_nonempty)
      moreover have "wf_char (last ?t)"
        using split_when_members [OF m] assms last_in_set [OF \<open>?t \<noteq> []\<close>] by (auto simp: list_all_iff)
      ultimately show ?thesis
        using token_stops [OF _ split_when_ends [OF that]] unfolding stops_def by blast
    qed
  qed simp
  then show ?thesis using False by (simp add: show_line_def)
qed

lemma lines_confined:
  assumes "plain f w" "\<And>l. l \<in> set (split_when line_end cs) \<Longrightarrow> \<not> contains_sub w (map f (show_line l))"
  shows "\<not> contains_sub w (map f (concat (map show_line (split_when line_end cs))))"
proof -
  have "\<not> contains_sub w (concat (map (\<lambda>l. map f (show_line l)) (split_when line_end cs)))"
  proof (rule lines_of_words)
    show "\<exists>x g. map f (show_line (split_when line_end cs ! k)) = x @ [g] \<and> g \<notin> set w"
      if "Suc k < length (split_when line_end cs)" for k
    proof -
      have "split_when line_end cs ! k \<in> set (split_when line_end cs)" using that by simp
      then have "split_when line_end cs ! k \<noteq> []" by (rule split_when_nonempty)
      then show ?thesis
        using line_stops [OF assms(1) _ split_when_ends [OF that]] unfolding stops_def by blast
    qed
  qed (use assms in \<open>auto simp: plain_def\<close>)
  then show ?thesis by (simp add: map_concat comp_def)
qed

lemma displayed_confined:
  assumes "plain f w" "\<not> contains_sub w (map f s)"
  shows "\<not> contains_sub w (map f (displayed s truncated))"
proof -
  let ?m = "map f ''[Output truncated: showing at most 4 KiB of this stream]''"
  have take: "\<not> contains_sub w (map f (take n s))" for n
    using assms(2) contains_mono [of w "map f (take n s)" "[]" "map f (drop n s)"]
    by (metis append_Nil append_take_drop_id map_append)
  have f: "f (CHR 0x0A) = CHR 0x0A" "CHR 0x0A \<notin> set w" "f (CHR ''['') = CHR ''[''" "CHR ''['' \<notin> set w"
    "f (CHR '']'') = CHR '']''" "CHR '']'' \<notin> set w" "w \<noteq> []"
    "\<not> contains_sub w (map f ''Output truncated: showing at most 4 KiB of this stream'')"
    using assms(1) by (auto simp: plain_def)
  have notice: "\<not> contains_sub w (map f (x @ truncation_notice))" if "\<not> contains_sub w (map f x)" for x
  proof -
    have "map f (x @ truncation_notice) = map f x @ CHR 0x0A # [] @ CHR ''['' #
        map f ''Output truncated: showing at most 4 KiB of this stream'' @ CHR '']'' # [] @ CHR 0x0A # []"
      by (simp add: truncation_notice_def f)
    then show ?thesis
      using contains_guard [OF _ f(2)] contains_guard [OF _ f(4)] contains_guard [OF _ f(6)] f(7,8) that
      by (metis contains_sub.simps(1))
  qed
  show ?thesis
    using take notice assms(2) unfolding displayed_def Let_def by (auto simp del: map_append)
qed

text \<open>
  C31: What the display shows of a stream contains no URL, and none of the words that mark a sensitive
  line, whatever their case; and the label of a command is one of the known verbs whatever the
  arguments are. So neither credentials in remote URLs nor argument values leave the agent this way.
\<close>

theorem display_redacted:
  "\<not> contains_sub ''://'' (redact lossy b truncated) \<and>
   list_all (\<lambda>w. \<not> contains_sub w (map ascii_lower (redact lossy b truncated))) SENSITIVE \<and>
   label args \<in> (\<lambda>v. ''git '' @ v) ` set (''[command]'' # VERBS)"
proof (intro conjI)
  let ?cs = "utf8_chars (lossy (take REDACT_LIMIT b))"
  have "list_all wf_char l" if "l \<in> set (split_when line_end ?cs)" for l
    using split_when_members [OF that] utf8_chars_wf by (auto simp: list_all_iff)
  then have "\<not> contains_sub ''://'' (map id (concat (map show_line (split_when line_end ?cs))))"
    by (intro lines_confined plain_url) (simp add: line_no_url)
  then show "\<not> contains_sub ''://'' (redact lossy b truncated)"
    using displayed_confined [OF plain_url] unfolding redact_def by simp
  show "list_all (\<lambda>w. \<not> contains_sub w (map ascii_lower (redact lossy b truncated))) SENSITIVE"
    unfolding redact_def list_all_iff
    by (intro ballI displayed_confined lines_confined plain_sensitive line_not_sensitive)
  show "label args \<in> (\<lambda>v. ''git '' @ v) ` set (''[command]'' # VERBS)"
    by (auto simp: label_def find_Some_iff split: option.split)
qed

end
