(* ===== verification/XServer.thy ===== *)
theory XServer
  imports Wire
begin

text \<open>
  The X11 clipboard server of the agent, \<open>tools/agent/src/x_protocol.rs\<close>: the part of the core
  protocol a clipboard reader needs, for one connection. An index out of the range of a received
  message is a panic in Rust and the result \<open>Panic\<close> here. What \<open>Source\<close> offers and returns while a
  request is served, and the atoms other connections intern before it, are part of the input; a
  write that fails ends the connection and is not modelled.
\<close>

unbundle bit_operations_syntax

section \<open>Byte order\<close>

type_synonym u16 = "16 word"

definition X_CHUNK :: nat where "X_CHUNK = 64 * 1024"
definition OWNER :: u32 where "OWNER = 2"

definition le_nat :: "bytes \<Rightarrow> nat" where
  "le_nat b = foldr (\<lambda>c n. byte c + 256 * n) b 0"

definition of_bytes :: "bool \<Rightarrow> bytes \<Rightarrow> nat" where
  "of_bytes le b = le_nat (if le then b else rev b)"

definition to_bytes :: "bool \<Rightarrow> nat \<Rightarrow> nat \<Rightarrow> bytes" where
  "to_bytes le k n =
     (let b = map (\<lambda>i. char_of (n div 256 ^ i)) [0..<k] in if le then b else rev b)"

datatype x_end = Panic | Closed | Refused string

definition rd8 :: "bytes \<Rightarrow> nat \<Rightarrow> x_end + nat" where
  "rd8 b at = (if at < length b then Inr (byte (b ! at)) else Inl Panic)"

text \<open>A slice \<open>b[i..j]\<close>.\<close>

definition slice :: "bytes \<Rightarrow> nat \<Rightarrow> nat \<Rightarrow> x_end + bytes" where
  "slice b i j = (if i \<le> j \<and> j \<le> length b then Inr (take (j - i) (drop i b)) else Inl Panic)"

definition rd16 :: "bool \<Rightarrow> bytes \<Rightarrow> nat \<Rightarrow> x_end + nat" where
  "rd16 le b at = mapR (of_bytes le) (slice b at (at + 2))"

definition rd32 :: "bool \<Rightarrow> bytes \<Rightarrow> nat \<Rightarrow> x_end + u32" where
  "rd32 le b at = mapR (\<lambda>s. of_nat (of_bytes le s)) (slice b at (at + 4))"

definition put_at :: "nat \<Rightarrow> bytes \<Rightarrow> bytes \<Rightarrow> bytes" where
  "put_at at v b = take at b @ v @ drop (at + length v) b"

definition w16 :: "bool \<Rightarrow> nat \<Rightarrow> bytes" where "w16 le n = to_bytes le 2 n"
definition w32 :: "bool \<Rightarrow> u32 \<Rightarrow> bytes" where "w32 le n = to_bytes le 4 (unat n)"

definition x_words :: "bool \<Rightarrow> u32 list \<Rightarrow> bytes" where
  "x_words le ws = concat (map (w32 le) ws)"

definition padded :: "nat \<Rightarrow> nat" where
  "padded n = (n + 3) div 4 * 4"

definition zeros :: "nat \<Rightarrow> bytes" where
  "zeros n = replicate n (CHR 0x00)"

definition resized :: "nat \<Rightarrow> bytes \<Rightarrow> bytes" where
  "resized n b = take n b @ zeros (n - length b)"

section \<open>Atoms\<close>

definition CORE_ATOMS :: "string list" where
  "CORE_ATOMS = [''PRIMARY'', ''SECONDARY'', ''ARC'', ''ATOM'', ''BITMAP'', ''CARDINAL'',
     ''COLORMAP'', ''CURSOR'', ''CUT_BUFFER0'', ''CUT_BUFFER1'', ''CUT_BUFFER2'', ''CUT_BUFFER3'',
     ''CUT_BUFFER4'', ''CUT_BUFFER5'', ''CUT_BUFFER6'', ''CUT_BUFFER7'', ''DRAWABLE'', ''FONT'',
     ''INTEGER'', ''PIXMAP'', ''POINT'', ''RECTANGLE'', ''RESOURCE_MANAGER'', ''RGB_COLOR_MAP'',
     ''RGB_BEST_MAP'', ''RGB_BLUE_MAP'', ''RGB_DEFAULT_MAP'', ''RGB_GRAY_MAP'', ''RGB_GREEN_MAP'',
     ''RGB_RED_MAP'', ''STRING'', ''VISUALID'', ''WINDOW'', ''WM_COMMAND'', ''WM_HINTS'',
     ''WM_CLIENT_MACHINE'', ''WM_ICON_NAME'', ''WM_ICON_SIZE'', ''WM_NAME'', ''WM_NORMAL_HINTS'',
     ''WM_SIZE_HINTS'', ''WM_ZOOM_HINTS'', ''MIN_SPACE'', ''NORM_SPACE'', ''MAX_SPACE'',
     ''END_SPACE'', ''SUPERSCRIPT_X'', ''SUPERSCRIPT_Y'', ''SUBSCRIPT_X'', ''SUBSCRIPT_Y'',
     ''UNDERLINE_POSITION'', ''UNDERLINE_THICKNESS'', ''STRIKEOUT_ASCENT'', ''STRIKEOUT_DESCENT'',
     ''ITALIC_ANGLE'', ''X_HEIGHT'', ''QUAD_WIDTH'', ''WEIGHT'', ''POINT_SIZE'', ''RESOLUTION'',
     ''COPYRIGHT'', ''NOTICE'', ''FONT_NAME'', ''FAMILY_NAME'', ''FULL_NAME'', ''CAP_HEIGHT'',
     ''WM_CLASS'', ''WM_TRANSIENT_FOR'']"

fun index_of :: "string \<Rightarrow> string list \<Rightarrow> nat option" where
  "index_of s [] = None"
| "index_of s (t # ts) = (if t = s then Some 0 else map_option Suc (index_of s ts))"

definition x_intern :: "string \<Rightarrow> bool \<Rightarrow> string list \<Rightarrow> string list \<times> u32" where
  "x_intern s only atoms =
     (case index_of s atoms of
        Some i \<Rightarrow> (atoms, of_nat i + 1)
      | None \<Rightarrow>
          if only \<or> 4096 \<le> length atoms then (atoms, 0)
          else (atoms @ [s], of_nat (length (atoms @ [s]))))"

definition atom_name :: "u32 \<Rightarrow> string list \<Rightarrow> string option" where
  "atom_name i atoms =
     (if i = 0 \<or> length atoms \<le> unat i - 1 then None else Some (atoms ! (unat i - 1)))"

section \<open>The state of a connection\<close>

type_synonym x_key = "u32 \<times> u32"

record x_property =
  xp_kind :: u32
  xp_format :: nat
  xp_bytes :: bytes

record x_transfer =
  xt_key :: x_key
  xt_kind :: u32
  xt_bytes :: bytes
  xt_offset :: nat

record x_client =
  xc_order :: bool
  xc_seq :: u16
  xc_base :: u32
  xc_atoms :: "string list"
  xc_windows :: "u32 list"
  xc_gcs :: "u32 list"
  xc_masks :: "(u32 \<times> u32) list"
  xc_properties :: "(x_key \<times> x_property) list"
  xc_transfer :: "x_transfer option"
  xc_out :: "bytes list"

type_synonym revision = "nat \<times> nat \<times> nat"

text \<open>What a request meets: the clipboard source, UTF-8 validity, and the atoms of other clients.\<close>

record x_env =
  xe_offer :: "(revision \<times> string list) option"
  xe_get :: "revision \<Rightarrow> string \<Rightarrow> bytes option"
  xe_utf8 :: "bytes \<Rightarrow> bool"
  xe_interned :: "string list"

section \<open>Packets\<close>

definition packet :: "x_client \<Rightarrow> nat \<Rightarrow> nat \<Rightarrow> bytes" where
  "packet c tag detail =
     put_at 2 (w16 (xc_order c) (unat (xc_seq c))) ([char_of tag, char_of detail] @ zeros 30)"

definition x_send :: "bytes \<Rightarrow> x_client \<Rightarrow> x_client" where
  "x_send b c = c\<lparr>xc_out := xc_out c @ [b]\<rparr>"

definition x_error :: "nat \<Rightarrow> nat \<Rightarrow> u32 \<Rightarrow> x_client \<Rightarrow> x_client" where
  "x_error cd op v c =
     x_send (put_at 10 [char_of op] (put_at 4 (w32 (xc_order c) v) (packet c 0 cd))) c"

definition x_atom :: "string \<Rightarrow> x_client \<Rightarrow> x_client \<times> u32" where
  "x_atom s c = (case x_intern s False (xc_atoms c) of (as, i) \<Rightarrow> (c\<lparr>xc_atoms := as\<rparr>, i))"

definition mask_of :: "u32 \<Rightarrow> x_client \<Rightarrow> u32" where
  "mask_of w c = (case map_of (xc_masks c) w of Some m \<Rightarrow> m | None \<Rightarrow> 0)"

definition notify_property :: "x_key \<Rightarrow> nat \<Rightarrow> x_client \<Rightarrow> x_client" where
  "notify_property k state c =
     (if \<not> bit (mask_of (fst k) c) 22 then c
      else (let le = xc_order c in
        x_send (put_at 16 [char_of state] (put_at 8 (w32 le (snd k)) (put_at 4 (w32 le (fst k)) (packet c 28 0)))) c))"

text \<open>Removing the property of a transfer hands over its next chunk; an empty one ends it.\<close>

definition next_chunk :: "x_transfer \<Rightarrow> x_property" where
  "next_chunk t = \<lparr>xp_kind = xt_kind t, xp_format = 8, xp_bytes = take X_CHUNK (drop (xt_offset t) (xt_bytes t))\<rparr>"

definition advance :: "x_transfer \<Rightarrow> x_transfer option" where
  "advance t =
     (if xt_offset t = length (xt_bytes t) then None
      else Some (t\<lparr>xt_offset := min (xt_offset t + X_CHUNK) (length (xt_bytes t))\<rparr>))"

definition x_delete :: "x_key \<Rightarrow> x_client \<Rightarrow> x_client" where
  "x_delete k c =
     (let c1 = (if map_of (xc_properties c) k = None then c
                else notify_property k 1 (c\<lparr>xc_properties := adel k (xc_properties c)\<rparr>)) in
      case xc_transfer c1 of
        Some t \<Rightarrow>
          if xt_key t = k
          then notify_property k 0
            (c1\<lparr>xc_properties := aput k (next_chunk t) (xc_properties c1), xc_transfer := advance t\<rparr>)
          else c1
      | None \<Rightarrow> c1)"

section \<open>Reading the clipboard\<close>

fun intern_all :: "string list \<Rightarrow> x_client \<Rightarrow> x_client \<times> u32 list" where
  "intern_all [] c = (c, [])"
| "intern_all (s # ss) c =
     (case x_atom s c of (c1, i) \<Rightarrow> (case intern_all ss c1 of (c2, is) \<Rightarrow> (c2, i # is)))"

definition text_aliases :: "string list" where
  "text_aliases = [''UTF8_STRING'', ''TEXT'', ''text/plain;charset=utf-8'', ''text/plain; charset=utf-8'']"

definition wanted_format :: "string \<Rightarrow> string" where
  "wanted_format s = (if s \<in> set text_aliases then ''text/plain'' else s)"

definition target_names :: "string list \<Rightarrow> string list" where
  "target_names formats = [''TARGETS'', ''TIMESTAMP''] @ formats @
     (if ''text/plain'' \<in> set formats then text_aliases else [])"

definition clipboard_offer :: "x_env \<Rightarrow> string \<Rightarrow> revision \<times> string list" where
  "clipboard_offer env selection =
     (if selection = ''CLIPBOARD''
      then (case xe_offer env of Some r \<Rightarrow> r | None \<Rightarrow> ((0, 0, 0), []))
      else ((0, 0, 0), []))"

definition x_value ::
  "x_env \<Rightarrow> string \<Rightarrow> u32 \<Rightarrow> string \<Rightarrow> x_client \<Rightarrow> x_client \<times> x_property option" where
  "x_value env selection target name c =
     (case clipboard_offer env selection of (revision, formats) \<Rightarrow>
        if formats = [] then (c, None)
        else if name = ''TARGETS'' then
          (case intern_all (target_names formats) c of (c1, ids) \<Rightarrow>
             (c1, Some \<lparr>xp_kind = 4, xp_format = 32, xp_bytes = x_words (xc_order c) ids\<rparr>))
        else if name = ''TIMESTAMP'' then
          (c, Some \<lparr>xp_kind = 19, xp_format = 32, xp_bytes = x_words (xc_order c) [0]\<rparr>)
        else (case xe_get env revision (wanted_format name) of
                None \<Rightarrow> (c, None)
              | Some b \<Rightarrow>
                  (case (if name = ''TEXT'' then x_atom ''UTF8_STRING'' c else (c, target)) of (c1, kind) \<Rightarrow>
                     (c1, Some \<lparr>xp_kind = kind, xp_format = 8, xp_bytes = b\<rparr>))))"

definition MAX_PROPERTIES :: nat where "MAX_PROPERTIES = 128"

text \<open>A value is stored under the property, at once or as the start of an incremental transfer.\<close>

definition x_store :: "x_key \<Rightarrow> x_property \<Rightarrow> x_client \<Rightarrow> x_client" where
  "x_store k v c =
     (if X_CHUNK < length (xp_bytes v)
      then (let c1 = c\<lparr>xc_transfer := Some \<lparr>xt_key = k, xt_kind = xp_kind v, xt_bytes = xp_bytes v, xt_offset = 0\<rparr>\<rparr>
            in case x_atom ''INCR'' c1 of (c2, kind) \<Rightarrow>
              c2\<lparr>xc_properties := aput k \<lparr>xp_kind = kind, xp_format = 32,
                   xp_bytes = x_words (xc_order c) [of_nat (length (xp_bytes v))]\<rparr> (xc_properties c2)\<rparr>)
      else c\<lparr>xc_properties := aput k v (xc_properties c)\<rparr>)"

definition busy :: "x_client \<Rightarrow> bool" where
  "busy c \<longleftrightarrow> xc_transfer c \<noteq> None \<or> MAX_PROPERTIES \<le> length (xc_properties c)"

definition x_deliver :: "u32 \<Rightarrow> u32 \<Rightarrow> x_property option \<Rightarrow> x_client \<Rightarrow> x_client \<times> u32" where
  "x_deliver w property value c =
     (case value of
        None \<Rightarrow> (c, 0)
      | Some v \<Rightarrow>
          if busy c then (c, 0)
          else (notify_property (w, property) 0 (x_store (w, property) v c), property))"

definition selection_notify :: "u32 \<Rightarrow> u32 \<Rightarrow> u32 \<Rightarrow> u32 \<Rightarrow> u32 \<Rightarrow> x_client \<Rightarrow> bytes" where
  "selection_notify time w selection target property c =
     (let le = xc_order c in
      put_at 20 (w32 le property) (put_at 16 (w32 le target) (put_at 12 (w32 le selection)
        (put_at 8 (w32 le w) (put_at 4 (w32 le time) (packet c 31 0))))))"

definition x_convert :: "x_env \<Rightarrow> u32 \<Rightarrow> u32 \<Rightarrow> u32 \<Rightarrow> u32 \<Rightarrow> u32 \<Rightarrow> x_client \<Rightarrow> x_client" where
  "x_convert env w selection target property time c =
     (let name = (\<lambda>i. case atom_name i (xc_atoms c) of Some s \<Rightarrow> s | None \<Rightarrow> []) in
      case x_value env (name selection) target (name target) c of (c1, value) \<Rightarrow>
        (case x_deliver w property value c1 of (c2, p) \<Rightarrow>
           x_send (selection_notify time w selection target p c2) c2))"

definition x_selection :: "x_env \<Rightarrow> bytes \<Rightarrow> x_client \<Rightarrow> x_end + x_client" where
  "x_selection env r c =
     (let le = xc_order c in
      bindR (rd32 le r 4) (\<lambda>w. bindR (rd32 le r 8) (\<lambda>selection. bindR (rd32 le r 12) (\<lambda>target.
      bindR (rd32 le r 16) (\<lambda>property.
        if w \<notin> set (xc_windows c) then Inr (x_error 3 24 w c)
        else bindR (rd32 le r 20) (\<lambda>time.
          Inr (x_convert env w selection target (if property = 0 then target else property) time c)))))))"

section \<open>Requests\<close>

definition count_ones :: "u32 \<Rightarrow> nat" where
  "count_ones m = length (filter (bit m) [0..<32])"

definition own_id :: "u32 \<Rightarrow> x_client \<Rightarrow> bool" where
  "own_id i c \<longleftrightarrow> i AND NOT 0xFFFFF = xc_base c"

text \<open>The event mask is the value of bit 11, after one value for each lower bit.\<close>

definition x_set_mask :: "bytes \<Rightarrow> nat \<Rightarrow> u32 \<Rightarrow> u32 \<Rightarrow> x_client \<Rightarrow> x_end + x_client" where
  "x_set_mask r least i m c =
     (if bit m 11
      then bindR (rd32 (xc_order c) r (least + count_ones (m AND (2 ^ 11 - 1)) * 4)) (\<lambda>events.
             Inr (c\<lparr>xc_masks := aput i events (xc_masks c)\<rparr>))
      else Inr c)"

definition MAX_WINDOWS :: nat where "MAX_WINDOWS = 64"

definition x_window :: "nat \<Rightarrow> nat \<Rightarrow> bytes \<Rightarrow> x_client \<Rightarrow> x_end + x_client" where
  "x_window op least r c =
     bindR (rd32 (xc_order c) r 4) (\<lambda>i.
     bindR (rd32 (xc_order c) r (if op = 1 then 28 else 8)) (\<lambda>m.
       if length r \<noteq> least + count_ones m * 4 then Inr (x_error 16 op 0 c)
       else if op = 1 then
         (if \<not> own_id i c \<or> i \<in> set (xc_gcs c) \<or> i \<in> set (xc_windows c) then Inr (x_error 14 op i c)
          else (let c1 = c\<lparr>xc_windows := i # xc_windows c\<rparr> in
                if MAX_WINDOWS < length (xc_windows c1) then Inl (Refused ''window limit reached'')
                else x_set_mask r least i m c1))
       else if i \<notin> set (xc_windows c) then Inr (x_error 3 op i c)
       else x_set_mask r least i m c))"

definition x_destroy :: "bytes \<Rightarrow> x_client \<Rightarrow> x_end + x_client" where
  "x_destroy r c =
     bindR (rd32 (xc_order c) r 4) (\<lambda>i.
       if i \<notin> set (xc_windows c) then Inr (x_error 3 4 i c)
       else Inr (let le = xc_order c; c1 = c\<lparr>xc_windows := removeAll i (xc_windows c)\<rparr>;
                     c2 = c1\<lparr>xc_masks := adel i (xc_masks c1)\<rparr>;
                     c3 = (if bit (mask_of i c1) 17
                           then x_send (put_at 8 (w32 le i) (put_at 4 (w32 le i) (packet c2 17 0))) c2
                           else c2);
                     c4 = c3\<lparr>xc_properties := filter (\<lambda>(k, _). fst k \<noteq> i) (xc_properties c3)\<rparr>
                 in c4\<lparr>xc_transfer := (case xc_transfer c4 of
                       Some t \<Rightarrow> if fst (xt_key t) = i then None else Some t | None \<Rightarrow> None)\<rparr>))"

definition x_intern_atom :: "x_env \<Rightarrow> bytes \<Rightarrow> x_client \<Rightarrow> x_end + x_client" where
  "x_intern_atom env r c =
     bindR (rd16 (xc_order c) r 4) (\<lambda>n.
       if 256 < n \<or> length r \<noteq> 8 + padded n then Inr (x_error 16 16 0 c)
       else bindR (slice r 8 (8 + n)) (\<lambda>name.
         if \<not> xe_utf8 env name then Inr (x_error 2 16 0 c)
         else bindR (rd8 r 1) (\<lambda>only.
           case x_intern name (only \<noteq> 0) (xc_atoms c) of (as, i) \<Rightarrow>
             (let c1 = c\<lparr>xc_atoms := as\<rparr> in
              Inr (x_send (put_at 8 (w32 (xc_order c) i) (packet c1 1 0)) c1)))))"

definition x_atom_name :: "bytes \<Rightarrow> x_client \<Rightarrow> x_end + x_client" where
  "x_atom_name r c =
     bindR (rd32 (xc_order c) r 4) (\<lambda>i.
       case atom_name i (xc_atoms c) of
         None \<Rightarrow> Inr (x_error 5 17 i c)
       | Some name \<Rightarrow>
           (let le = xc_order c; b = put_at 4 (w32 le (of_nat (padded (length name) div 4)))
                  (put_at 8 (w16 le (length name)) (packet c 1 0))
            in Inr (x_send (resized (32 + padded (length name)) (b @ name)) c)))"

definition x_change_property :: "bytes \<Rightarrow> x_client \<Rightarrow> x_end + x_client" where
  "x_change_property r c =
     (let le = xc_order c in
      bindR (rd32 le r 4) (\<lambda>w. bindR (rd32 le r 8) (\<lambda>p.
        if w \<notin> set (xc_windows c) then Inr (x_error 3 18 w c)
        else bindR (rd8 r 16) (\<lambda>format. bindR (rd8 r 1) (\<lambda>md.
          if format \<notin> {8, 16, 32} \<or> md \<noteq> 0 then Inr (x_error 2 18 0 c)
          else bindR (rd32 le r 20) (\<lambda>units.
            let n = unat units * (format div 8) in
            if X_CHUNK < n \<or> length r \<noteq> 24 + padded n then Inr (x_error 16 18 0 c)
            else if MAX_PROPERTIES \<le> length (xc_properties c) then Inr (x_error 11 18 0 c)
            else bindR (rd32 le r 12) (\<lambda>kind. bindR (slice r 24 (24 + n)) (\<lambda>b.
              Inr (notify_property (w, p) 0
                (c\<lparr>xc_properties := aput (w, p) \<lparr>xp_kind = kind, xp_format = format, xp_bytes = b\<rparr>
                  (xc_properties c)\<rparr>))))))))))"

text \<open>
  \<open>GetProperty\<close>: the property, or nothing, or its type alone, or the units from the offset asked for;
  reading it to its end may delete it.
\<close>

definition property_reply :: "x_property \<Rightarrow> u32 \<Rightarrow> nat \<Rightarrow> nat \<Rightarrow> x_client \<Rightarrow> bytes" where
  "property_reply p kind start stop c =
     (let le = xc_order c; len = length (xp_bytes p);
          b1 = put_at 8 (w32 le (xp_kind p)) (packet c 1 (xp_format p)) in
      if kind \<noteq> 0 \<and> kind \<noteq> xp_kind p then put_at 12 (w32 le (of_nat len)) b1
      else (let n = stop - start;
                b2 = put_at 4 (w32 le (of_nat (padded n div 4)))
                       (put_at 16 (w32 le (of_nat (n div (xp_format p div 8))))
                         (put_at 12 (w32 le (of_nat (len - stop))) b1))
            in resized (32 + padded n) (b2 @ take n (drop start (xp_bytes p)))))"

definition x_get_property :: "bytes \<Rightarrow> x_client \<Rightarrow> x_end + x_client" where
  "x_get_property r c =
     (let le = xc_order c in
      bindR (rd32 le r 4) (\<lambda>w. bindR (rd32 le r 8) (\<lambda>p.
        if w \<noteq> 1 \<and> w \<noteq> OWNER \<and> w \<notin> set (xc_windows c) then Inr (x_error 3 20 w c)
        else case map_of (xc_properties c) (w, p) of
          None \<Rightarrow> Inr (x_send (packet c 1 0) c)
        | Some v \<Rightarrow>
            bindR (rd32 le r 12) (\<lambda>kind.
              if kind \<noteq> 0 \<and> kind \<noteq> xp_kind v then Inr (x_send (property_reply v kind 0 0 c) c)
              else bindR (rd32 le r 16) (\<lambda>skip. bindR (rd32 le r 20) (\<lambda>units. bindR (rd8 r 1) (\<lambda>del.
                let len = length (xp_bytes v); start = unat skip * 4;
                    stop = min (start + unat units * 4) len in
                if len < start then Inr (x_error 2 20 0 c)
                else (let c1 = x_send (property_reply v kind start stop c) c in
                      Inr (if del \<noteq> 0 \<and> stop = len then x_delete (w, p) c1 else c1)))))))))"

definition x_owner :: "x_env \<Rightarrow> bytes \<Rightarrow> x_client \<Rightarrow> x_end + x_client" where
  "x_owner env r c =
     bindR (rd32 (xc_order c) r 4) (\<lambda>i.
       let owned = atom_name i (xc_atoms c) = Some ''CLIPBOARD'' \<and>
             (case xe_offer env of Some (_, formats) \<Rightarrow> formats \<noteq> [] | None \<Rightarrow> False);
           b = packet c 1 0
       in Inr (x_send (if owned then put_at 8 (w32 (xc_order c) OWNER) b else b) c))"

definition MAX_GCS :: nat where "MAX_GCS = 64"

definition x_gc :: "nat \<Rightarrow> nat \<Rightarrow> bytes \<Rightarrow> x_client \<Rightarrow> x_end + x_client" where
  "x_gc op least r c =
     (let le = xc_order c in
      bindR (rd32 le r 4) (\<lambda>i. bindR (rd32 le r (if op = 55 then 12 else 8)) (\<lambda>m.
        if m AND NOT 0x7FFFFF \<noteq> 0 then Inr (x_error 2 op m c)
        else if length r \<noteq> least + count_ones m * 4 then Inr (x_error 16 op 0 c)
        else if op = 55 then
          (if \<not> own_id i c \<or> i \<in> set (xc_windows c) \<or> i \<in> set (xc_gcs c) then Inr (x_error 14 op i c)
           else bindR (rd32 le r 8) (\<lambda>drawable.
             if drawable \<noteq> 1 \<and> drawable \<notin> set (xc_windows c) then Inr (x_error 9 op drawable c)
             else if MAX_GCS \<le> length (xc_gcs c) then Inr (x_error 11 op i c)
             else Inr (c\<lparr>xc_gcs := i # xc_gcs c\<rparr>)))
        else if i \<notin> set (xc_gcs c) then Inr (x_error 13 op i c)
        else Inr c)))"

definition x_free_gc :: "nat \<Rightarrow> bytes \<Rightarrow> x_client \<Rightarrow> x_end + x_client" where
  "x_free_gc least r c =
     (if length r \<noteq> least then Inr (x_error 16 60 0 c)
      else bindR (rd32 (xc_order c) r 4) (\<lambda>i.
        if i \<notin> set (xc_gcs c) then Inr (x_error 13 60 i c)
        else Inr (c\<lparr>xc_gcs := removeAll i (xc_gcs c)\<rparr>)))"

definition x_extension :: "bytes \<Rightarrow> x_client \<Rightarrow> x_end + x_client" where
  "x_extension r c =
     bindR (rd16 (xc_order c) r 4) (\<lambda>n.
       if length r \<noteq> 8 + padded n then Inr (x_error 16 98 0 c)
       else Inr (x_send (packet c 1 0) c))"

definition least_length :: "nat \<Rightarrow> nat option" where
  "least_length op =
     map_of [(1, 32), (2, 12), (4, 8), (16, 8), (17, 8), (18, 24), (19, 12), (20, 24), (22, 16), (23, 8),
       (24, 24), (43, 4), (55, 16), (56, 12), (60, 8), (98, 8), (127, 4)] op"

definition x_request :: "x_env \<Rightarrow> bytes \<Rightarrow> x_client \<Rightarrow> x_end + x_client" where
  "x_request env r c =
     (let le = xc_order c in
      bindR (rd8 r 0) (\<lambda>op.
        case least_length op of
          None \<Rightarrow> Inr (x_error 1 op 0 c)
        | Some least \<Rightarrow>
            if length r < least then Inr (x_error 16 op 0 c)
            else if op = 1 \<or> op = 2 then x_window op least r c
            else if op = 4 then x_destroy r c
            else if op = 16 then x_intern_atom env r c
            else if op = 17 then x_atom_name r c
            else if op = 18 then x_change_property r c
            else if op = 19 then
              bindR (rd32 le r 4) (\<lambda>w. bindR (rd32 le r 8) (\<lambda>p. Inr (x_delete (w, p) c)))
            else if op = 20 then x_get_property r c
            else if op = 22 then Inr (x_error 10 op 0 c)
            else if op = 23 then x_owner env r c
            else if op = 24 then x_selection env r c
            else if op = 43 then Inr (x_send (put_at 8 (w32 le 1) (packet c 1 0)) c)
            else if op = 55 \<or> op = 56 then x_gc op least r c
            else if op = 60 then x_free_gc least r c
            else if op = 98 then x_extension r c
            else Inr c))"

section \<open>Connection setup and the request loop\<close>

definition VENDOR :: string where "VENDOR = ''Newport clipboard''"

text \<open>One tiny logical screen: root window 1, one format, one depth with one visual.\<close>

definition x_setup :: "bool \<Rightarrow> u32 \<Rightarrow> bytes" where
  "x_setup le base =
     (let size = 8 + 32 + padded (length VENDOR) + 8 + 40 + 8 + 24; f = 40 + padded (length VENDOR);
          s = f + 8; d = s + 40; v = d + 8; b8 = (\<lambda>n. [char_of (n::nat)]) in
      fold (\<lambda>(at, x) b. put_at at x b)
        [(0, b8 1), (2, w16 le 11), (6, w16 le ((size - 8) div 4)), (8, w32 le 1), (12, w32 le base),
         (16, w32 le 0xFFFFF), (24, w16 le (length VENDOR)), (26, w16 le 65535), (28, b8 1), (29, b8 1),
         (30, b8 0), (31, b8 0), (32, b8 32), (33, b8 32), (34, b8 8), (35, b8 255), (40, VENDOR),
         (f, b8 24), (f + 1, b8 32), (f + 2, b8 32), (s, w32 le 1), (s + 4, w32 le 3),
         (s + 8, w32 le 0xFFFFFF), (s + 20, w16 le 1), (s + 22, w16 le 1), (s + 24, w16 le 1),
         (s + 26, w16 le 1), (s + 28, w16 le 1), (s + 30, w16 le 1), (s + 32, w32 le 4), (s + 38, b8 24),
         (s + 39, b8 1), (d, b8 24), (d + 2, w16 le 1), (v, w32 le 4), (v + 4, b8 4), (v + 5, b8 8),
         (v + 6, w16 le 256), (v + 8, w32 le 0xFF0000), (v + 12, w32 le 0xFF00), (v + 16, w32 le 0xFF)]
        (zeros size))"

definition AUTH_REASON :: string where "AUTH_REASON = ''Authentication required''"

definition x_refusal :: "bool \<Rightarrow> bytes" where
  "x_refusal le =
     put_at 8 AUTH_REASON (put_at 6 (w16 le (padded (length AUTH_REASON) div 4)) (put_at 2 (w16 le 11)
       (put_at 1 [char_of (length AUTH_REASON)] (zeros (8 + padded (length AUTH_REASON))))))"

definition x_connect :: "bool \<Rightarrow> u32 \<Rightarrow> string list \<Rightarrow> x_client" where
  "x_connect le base atoms =
     \<lparr>xc_order = le, xc_seq = 0, xc_base = base, xc_atoms = atoms, xc_windows = [], xc_gcs = [],
      xc_masks = [], xc_properties = [], xc_transfer = None, xc_out = []\<rparr>"

text \<open>The handshake: what is written, and either the end or the client with the rest of its input.\<close>

definition x_authenticate ::
  "bytes \<Rightarrow> u32 \<Rightarrow> string list \<Rightarrow> bytes \<Rightarrow> bytes list \<times> (x_end + x_client \<times> bytes)" where
  "x_authenticate cookie base atoms input =
     (case read_exact 12 input of
        None \<Rightarrow> ([], Inl Closed)
      | Some (h, s1) \<Rightarrow>
          if hd h \<noteq> CHR ''l'' \<and> hd h \<noteq> CHR ''B'' then ([], Inl (Refused ''invalid byte order''))
          else (let le = (hd h = CHR ''l''); field = (\<lambda>at. of_bytes le (take 2 (drop at h)));
                    name = field 6; data = field 8 in
            if 64 < name \<or> 64 < data \<or> field 2 \<noteq> 11 then ([], Inl (Refused ''invalid setup''))
            else case read_exact (padded name + padded data) s1 of
                None \<Rightarrow> ([], Inl Closed)
              | Some (auth, s2) \<Rightarrow>
                  if take name auth \<noteq> ''MIT-MAGIC-COOKIE-1'' \<or> data \<noteq> 16 \<or>
                     take data (drop (padded name) auth) \<noteq> cookie
                  then ([x_refusal le], Inl (Refused ''authentication failed''))
                  else ([x_setup le base], Inr (x_connect le base atoms, s2))))"

definition begin_request :: "x_env \<Rightarrow> x_client \<Rightarrow> x_client" where
  "begin_request env c =
     c\<lparr>xc_seq := xc_seq c + 1,
       xc_atoms := fold (\<lambda>s as. fst (x_intern s False as)) (xe_interned env) (xc_atoms c)\<rparr>"

text \<open>The loop over the bytes of the connection: the last state, and why it ended.\<close>

function x_serve :: "(nat \<Rightarrow> x_env) \<Rightarrow> nat \<Rightarrow> bytes \<Rightarrow> x_client \<Rightarrow> x_client \<times> x_end" where
  "x_serve env n input c =
     (case read_exact 4 input of
        None \<Rightarrow> (c, Closed)
      | Some (h, s1) \<Rightarrow>
          (let size = of_bytes (xc_order c) (drop 2 h) * 4 in
           if size < 4 then (c, Refused ''BIG-REQUESTS is not supported'')
           else case read_exact (size - 4) s1 of
               None \<Rightarrow> (c, Closed)
             | Some (body, rest) \<Rightarrow>
                 (let c1 = begin_request (env n) c in
                  case x_request (env n) (h @ body) c1 of
                    Inl e \<Rightarrow> (c1, e)
                  | Inr c2 \<Rightarrow> x_serve env (Suc n) rest c2)))"
  by pat_completeness auto
termination
  by (relation "measure (\<lambda>(env, n, input, c). length input)")
    (auto simp: read_exact_def split: if_splits)

declare x_serve.simps [simp del]

end
