(* ===== verification/XProps.thy ===== *)
theory XProps
  imports XServer
begin

text \<open>
  The X11 server holds its limits, never indexes outside a message, and answers in well-formed
  packets, whatever bytes a client sends (\<open>x_server_safe\<close>).
\<close>

section \<open>Bytes\<close>

lemma length_to_bytes [simp]: "length (to_bytes le k n) = k" "length (w16 le m) = 2" "length (w32 le w) = 4"
  by (simp_all add: to_bytes_def w16_def w32_def Let_def)

lemma le_nat_digits: "le_nat (map (\<lambda>i. char_of (n div 256 ^ i)) [0..<k]) = n mod 256 ^ k"
proof (induction k arbitrary: n)
  case (Suc k)
  have "map (\<lambda>i. char_of (n div 256 ^ i)) [0..<Suc k]
    = char_of n # map (\<lambda>i. char_of (n div 256 div 256 ^ i) :: char) [0..<k]"
    by (simp only: upt_conv_Cons zero_less_Suc map_Suc_upt [symmetric])
      (simp add: div_mult2_eq)
  then have "le_nat (map (\<lambda>i. char_of (n div 256 ^ i)) [0..<Suc k])
    = n mod 256 + 256 * (n div 256 mod 256 ^ k)"
    using Suc [of "n div 256"] by (simp add: le_nat_def byte_def)
  also have "\<dots> = n mod 256 ^ Suc k"
    by (simp add: mod_mult2_eq)
  finally show ?case .
qed (simp add: le_nat_def)

lemma of_to_bytes: "of_bytes le (to_bytes le k n) = n mod 256 ^ k"
  using le_nat_digits [of n k] by (simp add: of_bytes_def to_bytes_def Let_def)

lemma of_w16 [simp]: "of_bytes le (w16 le n) = n mod 65536"
  by (simp add: w16_def of_to_bytes)

lemma unat_bound: "unat (w :: 'a::len word) < 2 ^ LENGTH('a)"
  by (rule unsigned_less)

lemma of_w32 [simp]: "of_bytes le (w32 le w) = unat w"
  using unat_bound [of w] by (simp add: w32_def of_to_bytes)

lemma length_put_at [simp]: "at + length v \<le> length b \<Longrightarrow> length (put_at at v b) = length b"
  by (simp add: put_at_def)

lemma put_at_take: "n \<le> at \<Longrightarrow> take n (put_at at v b) = take n b" if "at \<le> length b"
  using that by (simp add: put_at_def min_def)

lemma put_at_part:
  assumes "j + k \<le> at" "at \<le> length b"
  shows "take k (drop j (put_at at v b)) = take k (drop j b)"
proof -
  have "take k (drop j xs) = drop j (take (k + j) xs)" for xs :: bytes by (rule take_drop)
  then show ?thesis using put_at_take [of at b "k + j" v] assms by (simp only: add.commute)
qed

lemma put_at_drop: "at + length v \<le> n \<Longrightarrow> at + length v \<le> length b \<Longrightarrow> drop n (put_at at v b) = drop n b"
  by (simp add: put_at_def)

lemma put_at_same: "at + length v \<le> length b \<Longrightarrow> take (length v) (drop at (put_at at v b)) = v"
  by (simp add: put_at_def)

lemma put_at_hd: "0 < at \<Longrightarrow> at \<le> length b \<Longrightarrow> hd (put_at at v b) = hd b"
  using put_at_take [of at b 1 v] by (cases b; cases "put_at at v b") (simp_all add: put_at_def take_Cons')

lemma padded_bounds: "n \<le> padded n" "padded n < n + 4" "padded n div 4 * 4 = padded n"
  by (simp_all add: padded_def)

lemma length_zeros [simp]: "length (zeros n) = n"
  by (simp add: zeros_def)

lemma length_resized [simp]: "length (resized n b) = n"
  by (simp add: resized_def)

text \<open>Reads within a message succeed.\<close>

lemma reads_ok:
  "at < length b \<Longrightarrow> rd8 b at = Inr (byte (b ! at))"
  "i \<le> j \<Longrightarrow> j \<le> length b \<Longrightarrow> slice b i j = Inr (take (j - i) (drop i b))"
  "at + 2 \<le> length b \<Longrightarrow> rd16 le b at = Inr (of_bytes le (take 2 (drop at b)))"
  "at + 4 \<le> length b \<Longrightarrow> rd32 le b at = Inr (of_nat (of_bytes le (take 4 (drop at b))))"
  by (simp_all add: rd8_def slice_def rd16_def rd32_def)

lemma count_ones_below: "bit m 11 \<Longrightarrow> count_ones (m AND (2 ^ 11 - 1)) < count_ones m"
proof -
  assume m: "bit m 11"
  have c: "count_ones w = card {i. i < 32 \<and> bit w i}" for w :: u32
  proof -
    have "set (filter (bit w) [0..<32]) = {i. i < 32 \<and> bit w i}" by auto
    moreover have "distinct (filter (bit w) [0..<32])" by simp
    ultimately show ?thesis unfolding count_ones_def by (metis distinct_card)
  qed
  have "\<not> bit (2 ^ 11 - 1 :: u32) 11" by (simp add: bit_mask_iff flip: mask_eq_exp_minus_1)
  then have "11 \<in> {i. i < 32 \<and> bit m i}" "11 \<notin> {i. i < 32 \<and> bit (m AND (2 ^ 11 - 1)) i}"
    using m by (auto simp only: mem_Collect_eq bit_and_iff)
  moreover have "{i. i < 32 \<and> bit (m AND (2 ^ 11 - 1)) i} \<subseteq> {i. i < 32 \<and> bit m i}"
    by (auto simp only: bit_and_iff)
  ultimately have "{i. i < 32 \<and> bit (m AND (2 ^ 11 - 1)) i} \<subset> {i. i < 32 \<and> bit m i}" by blast
  then show ?thesis unfolding c by (intro psubset_card_mono) simp_all
qed

section \<open>Packets\<close>

text \<open>
  A packet has 32 bytes, and a reply as many more as its length field says, in units of four; it
  carries the number of the request it answers.
\<close>

definition x_framed :: "bool \<Rightarrow> u16 \<Rightarrow> bytes \<Rightarrow> bool" where
  "x_framed le q p \<longleftrightarrow> 32 \<le> length p \<and> of_bytes le (take 2 (drop 2 p)) = unat q \<and>
     length p = 32 + (if hd p = CHR 0x01 then 4 * of_bytes le (take 4 (drop 4 p)) else 0)"

lemma of_zeros [simp]: "of_bytes le (zeros n) = 0"
  by (simp add: of_bytes_def zeros_def) (induction n; simp add: le_nat_def byte_def)

lemma packet_basic: "length (packet c t d) = 32" "hd (packet c t d) = char_of t"
  "take 4 (drop 4 (packet c t d)) = zeros 4"
  by (simp_all add: packet_def put_at_def zeros_def)

lemma packet_framed: "xc_order c = le \<Longrightarrow> xc_seq c = q \<Longrightarrow> x_framed le q (packet c t d)"
proof -
  assume "xc_order c = le" "xc_seq c = q"
  moreover have "take 2 (drop 2 (packet c t d)) = w16 (xc_order c) (unat (xc_seq c))"
    by (simp add: packet_def put_at_def)
  moreover have "unat q mod 65536 = unat q" using unat_bound [of q] by simp
  ultimately show ?thesis by (simp add: x_framed_def packet_basic)
qed

lemma framed_put:
  assumes "x_framed le q p" "8 \<le> at \<or> 4 \<le> at \<and> hd p \<noteq> CHR 0x01" "at + length v \<le> 32"
  shows "x_framed le q (put_at at v p)" and "hd (put_at at v p) = hd p" and "length (put_at at v p) = length p"
proof -
  have l: "at + length v \<le> length p" using assms by (auto simp: x_framed_def)
  show h: "hd (put_at at v p) = hd p" using assms l by (intro put_at_hd) auto
  show n: "length (put_at at v p) = length p" using l by simp
  have "take 2 (drop 2 (put_at at v p)) = take 2 (drop 2 p)"
    using assms l by (intro put_at_part) auto
  moreover have "take 4 (drop 4 (put_at at v p)) = take 4 (drop 4 p)" if "hd p = CHR 0x01"
    using assms l that by (intro put_at_part) auto
  ultimately show "x_framed le q (put_at at v p)"
    using assms(1) by (cases "hd p = CHR 0x01") (simp_all only: x_framed_def h n if_True if_False refl simp_thms le_add1)
qed

lemma resized_part:
  assumes "j + k \<le> length p" "length p \<le> n"
  shows "take k (drop j (resized n (p @ d))) = take k (drop j p)"
proof -
  have "resized n (p @ d) = p @ take (n - length p) d @ zeros (n - length (p @ d))"
    using assms by (simp add: resized_def)
  then show ?thesis using assms by simp
qed

text \<open>A reply with data: the length field is written last.\<close>

lemma framed_reply:
  assumes "x_framed le q p" "hd p = CHR 0x01" "length p = 32" "length d \<le> 4 * k" "k < 2 ^ 32"
  shows "x_framed le q (resized (32 + 4 * k) (put_at 4 (w32 le (of_nat k)) p @ d))" (is "x_framed le q ?r")
proof -
  let ?p = "put_at 4 (w32 le (of_nat k)) p"
  have lp: "length ?p = 32" using assms by simp
  have tk: "take k' (drop j ?r) = take k' (drop j ?p)" if "j + k' \<le> 32" for j k'
    by (rule resized_part) (use lp that in simp_all)
  have h: "hd xs = hd (take (Suc 0) xs)" if "0 < length xs" for xs :: bytes
    using that by (cases xs) simp_all
  have "take (Suc 0) ?r = take (Suc 0) ?p" using tk [of 0 1] by simp
  moreover have "0 < length ?r" "0 < length ?p" using lp by simp_all
  ultimately have "hd ?r = hd ?p" using h by metis
  then have hd: "hd ?r = CHR 0x01" using assms put_at_hd [of 4 p] by simp
  have n: "take 4 (drop 4 ?r) = w32 le (of_nat k)"
    using tk [of 4 4] put_at_same [of 4 "w32 le (of_nat k)" p] assms(3) by simp
  have q: "take 2 (drop 2 ?r) = take 2 (drop 2 p)"
    using tk [of 2 2] put_at_part [of 2 2 4 p "w32 le (of_nat k)"] assms(3) by simp
  have "unat (of_nat k :: u32) = k" using assms by (simp add: unat_of_nat)
  then show ?thesis
    unfolding x_framed_def q n hd using assms(1) by (simp add: x_framed_def)
qed

section \<open>The invariant of a connection\<close>

definition prop_ok :: "x_property \<Rightarrow> bool" where
  "prop_ok p \<longleftrightarrow> xp_format p \<in> {8, 16, 32} \<and> length (xp_bytes p) \<le> X_CHUNK"

definition atoms_ok :: "string list \<Rightarrow> bool" where
  "atoms_ok as \<longleftrightarrow> length as \<le> 4096 \<and> list_all (\<lambda>s. length s \<le> 256) as"

definition transfer_ok :: "x_client \<Rightarrow> bool" where
  "transfer_ok c \<longleftrightarrow> (\<forall>t. xc_transfer c = Some t \<longrightarrow>
     xt_key t \<in> fst ` set (xc_properties c) \<and> xt_offset t \<le> length (xt_bytes t))"

definition ids_ok :: "x_client \<Rightarrow> bool" where
  "ids_ok c \<longleftrightarrow> length (xc_windows c) \<le> MAX_WINDOWS \<and> length (xc_gcs c) \<le> MAX_GCS \<and>
     distinct (xc_windows c @ xc_gcs c) \<and> list_all (\<lambda>i. own_id i c) (xc_windows c @ xc_gcs c) \<and>
     fst ` set (xc_masks c) \<subseteq> set (xc_windows c)"

definition properties_ok :: "x_client \<Rightarrow> bool" where
  "properties_ok c \<longleftrightarrow> length (xc_properties c) \<le> MAX_PROPERTIES \<and> distinct (map fst (xc_properties c)) \<and>
     (\<forall>(k, p) \<in> set (xc_properties c). fst k \<in> set (xc_windows c) \<and> prop_ok p)"

definition x_ok :: "x_client \<Rightarrow> bool" where
  "x_ok c \<longleftrightarrow> ids_ok c \<and> properties_ok c \<and> atoms_ok (xc_atoms c) \<and> transfer_ok c"

text \<open>What happened since an earlier state of the same request: well-formed packets were written.\<close>

definition answered :: "x_client \<Rightarrow> x_client \<Rightarrow> bool" where
  "answered c c' \<longleftrightarrow> xc_order c' = xc_order c \<and> xc_base c' = xc_base c \<and> xc_seq c' = xc_seq c \<and>
     (\<exists>new. xc_out c' = xc_out c @ new \<and> list_all (x_framed (xc_order c) (xc_seq c)) new)"

lemma answered_refl [simp]: "answered c c"
  by (simp add: answered_def)

lemma answered_trans: "answered a b \<Longrightarrow> answered b c \<Longrightarrow> answered a c"
proof -
  assume "answered a b" "answered b c"
  then obtain x y where "xc_out b = xc_out a @ x" "list_all (x_framed (xc_order a) (xc_seq a)) x"
    "xc_out c = xc_out b @ y" "list_all (x_framed (xc_order b) (xc_seq b)) y"
    and "xc_order b = xc_order a" "xc_seq b = xc_seq a" "xc_base b = xc_base a"
      "xc_order c = xc_order b" "xc_seq c = xc_seq b" "xc_base c = xc_base b"
    unfolding answered_def by blast
  then show "answered a c"
    by (auto simp: answered_def intro!: exI [of _ "x @ y"])
qed

lemma answered_state:
  "xc_order c' = xc_order c \<Longrightarrow> xc_base c' = xc_base c \<Longrightarrow> xc_seq c' = xc_seq c \<Longrightarrow> xc_out c' = xc_out c \<Longrightarrow>
   answered c c'"
  by (simp add: answered_def)

lemma answered_send:
  "answered a c \<Longrightarrow> x_framed (xc_order a) (xc_seq a) b \<Longrightarrow> answered a (x_send b c)"
  by (auto simp: answered_def x_send_def)

lemma send_simps [simp]:
  "xc_order (x_send b c) = xc_order c" "xc_seq (x_send b c) = xc_seq c" "xc_base (x_send b c) = xc_base c"
  "xc_atoms (x_send b c) = xc_atoms c" "xc_windows (x_send b c) = xc_windows c"
  "xc_gcs (x_send b c) = xc_gcs c" "xc_masks (x_send b c) = xc_masks c"
  "xc_properties (x_send b c) = xc_properties c" "xc_transfer (x_send b c) = xc_transfer c"
  by (simp_all add: x_send_def)

lemma own_id_send [simp]: "own_id i (x_send b c) = own_id i c"
  by (simp add: own_id_def)

lemma x_ok_send [simp]: "x_ok (x_send b c) = x_ok c"
  by (simp add: x_ok_def ids_ok_def properties_ok_def transfer_ok_def)

lemma packet_send [simp]: "packet (x_send b c) t d = packet c t d"
  by (simp add: packet_def)

text \<open>The packets that are not replies with data.\<close>

lemma tag_chars [simp]:
  "char_of (0 :: nat) \<noteq> CHR 0x01" "char_of (17 :: nat) \<noteq> CHR 0x01" "char_of (28 :: nat) \<noteq> CHR 0x01"
  "char_of (31 :: nat) \<noteq> CHR 0x01" "char_of (1 :: nat) = CHR 0x01" "char_of (Suc 0) = CHR 0x01"
  by code_simp+

lemma error_answered: "answered a c \<Longrightarrow> answered a (x_error cd op v c)"
proof -
  assume a: "answered a c"
  then have "x_framed (xc_order a) (xc_seq a) (packet c 0 cd)"
    by (intro packet_framed) (simp_all add: answered_def)
  from framed_put [OF this, of 4 "w32 (xc_order c) v"]
  have "x_framed (xc_order a) (xc_seq a) (put_at 4 (w32 (xc_order c) v) (packet c 0 cd))"
    by (simp add: packet_basic)
  from framed_put(1) [OF this, of 10 "[char_of op]"] a show ?thesis
    by (simp add: x_error_def answered_send)
qed

lemma error_ok [simp]: "x_ok (x_error cd op v c) = x_ok c"
  by (simp add: x_error_def)

lemma notify_ok [simp]: "x_ok (notify_property k st c) = x_ok c"
  by (simp add: notify_property_def Let_def)

lemma notify_simps [simp]:
  "xc_order (notify_property k st c) = xc_order c" "xc_seq (notify_property k st c) = xc_seq c"
  "xc_base (notify_property k st c) = xc_base c" "xc_atoms (notify_property k st c) = xc_atoms c"
  "xc_windows (notify_property k st c) = xc_windows c" "xc_gcs (notify_property k st c) = xc_gcs c"
  "xc_masks (notify_property k st c) = xc_masks c" "xc_properties (notify_property k st c) = xc_properties c"
  "xc_transfer (notify_property k st c) = xc_transfer c"
  by (simp_all add: notify_property_def Let_def)

lemma notify_out: "notify_property k st c = c\<lparr>xc_out := xc_out (notify_property k st c)\<rparr>"
  by (simp add: notify_property_def x_send_def Let_def)

lemma framed_event:
  assumes "x_framed le q p" "hd p \<noteq> CHR 0x01" "length p = 32"
  shows "x_framed le q (put_at 8 (w32 le b) (put_at 4 (w32 le a) p))"
    "hd (put_at 8 (w32 le b) (put_at 4 (w32 le a) p)) \<noteq> CHR 0x01"
  using framed_put [OF assms(1), of 4 "w32 le a"] framed_put [of le q "put_at 4 (w32 le a) p" 8 "w32 le b"] assms
  by simp_all

lemma notify_answered: "answered a c \<Longrightarrow> answered a (notify_property k st c)"
proof -
  assume a: "answered a c"
  then have "x_framed (xc_order a) (xc_seq a) (packet c 28 0)" "xc_order c = xc_order a"
    by (auto intro: packet_framed simp: answered_def)
  from framed_event [OF this(1), of "snd k" "fst k"] this(2)
    framed_put(1) [of "xc_order a" "xc_seq a" _ 16 "[char_of st]"]
  show ?thesis using a by (simp add: notify_property_def packet_basic answered_send Let_def)
qed

section \<open>Requests keep the invariant\<close>

text \<open>The outcome of a step: not a panic, and a state that keeps the invariant and answered well.\<close>

definition keeps :: "x_client \<Rightarrow> x_end + x_client \<Rightarrow> bool" where
  "keeps c res \<longleftrightarrow> (case res of Inl e \<Rightarrow> e \<noteq> Panic | Inr c' \<Rightarrow> x_ok c' \<and> answered c c')"

lemma keeps_simps [simp]: "keeps c (Inr c') \<longleftrightarrow> x_ok c' \<and> answered c c'" "keeps c (Inl e) \<longleftrightarrow> e \<noteq> Panic"
  by (simp_all add: keeps_def)

lemma error_answered_self [simp]: "answered c (x_error cd op v c)"
  by (rule error_answered) simp

lemma keeps_error: "x_ok c \<Longrightarrow> keeps c (Inr (x_error cd op v c))"
  by (simp add: error_answered)

lemma properties_remove:
  assumes "x_ok c" "transfer_ok (c\<lparr>xc_properties := filter P (xc_properties c)\<rparr>)"
  shows "x_ok (c\<lparr>xc_properties := filter P (xc_properties c)\<rparr>)"
  using assms
  by (auto simp: x_ok_def ids_ok_def own_id_def properties_ok_def transfer_ok_def distinct_map_filter
      intro: order_trans [OF length_filter_le])

lemma properties_put:
  assumes "properties_ok c" "fst k \<in> set (xc_windows c)" "prop_ok p"
    "k \<in> fst ` set (xc_properties c) \<or> length (xc_properties c) < MAX_PROPERTIES"
  shows "properties_ok (c\<lparr>xc_properties := aput k p (xc_properties c)\<rparr>)"
  unfolding properties_ok_def
proof (intro conjI ballI)
  show "length (xc_properties (c\<lparr>xc_properties := aput k p (xc_properties c)\<rparr>)) \<le> MAX_PROPERTIES"
    using assms by (auto simp: properties_ok_def length_aput)
  show "distinct (map fst (xc_properties (c\<lparr>xc_properties := aput k p (xc_properties c)\<rparr>)))"
    using assms by (simp add: properties_ok_def distinct_aput)
  fix x assume "x \<in> set (xc_properties (c\<lparr>xc_properties := aput k p (xc_properties c)\<rparr>))"
  then have "x = (k, p) \<or> x \<in> set (xc_properties c)" by (auto dest: set_aput_cases)
  then show "case x of (j, q) \<Rightarrow>
      fst j \<in> set (xc_windows (c\<lparr>xc_properties := aput k p (xc_properties c)\<rparr>)) \<and> prop_ok q"
    using assms by (auto simp: properties_ok_def)
qed

lemma intern_ok: "atoms_ok as \<Longrightarrow> length s \<le> 256 \<Longrightarrow> atoms_ok (fst (x_intern s only as))"
  by (auto simp: x_intern_def atoms_ok_def split: option.splits)

lemma atom_ok:
  "x_ok c \<Longrightarrow> length s \<le> 256 \<Longrightarrow> x_ok (fst (x_atom s c))"
  using intern_ok [of "xc_atoms c" s False]
  by (auto simp: x_atom_def x_ok_def ids_ok_def own_id_def properties_ok_def transfer_ok_def split: prod.splits)

lemma atom_simps [simp]:
  "xc_order (fst (x_atom s c)) = xc_order c" "xc_seq (fst (x_atom s c)) = xc_seq c"
  "xc_base (fst (x_atom s c)) = xc_base c" "xc_windows (fst (x_atom s c)) = xc_windows c"
  "xc_properties (fst (x_atom s c)) = xc_properties c" "xc_transfer (fst (x_atom s c)) = xc_transfer c"
  "xc_out (fst (x_atom s c)) = xc_out c"
  by (simp_all add: x_atom_def split: prod.splits)

lemma delete_keeps:
  assumes "x_ok c" "answered a c"
  shows "x_ok (x_delete k c) \<and> answered a (x_delete k c)"
proof -
  define c1 where "c1 = c\<lparr>xc_properties := adel k (xc_properties c)\<rparr>"
  have "answered a c1" using assms(2) by (simp add: answered_def c1_def)
  then have n1: "answered a (notify_property k 1 c1)" by (rule notify_answered)
  show ?thesis
  proof (cases "xc_transfer c")
    case None
    then have "x_ok c1" using assms(1) unfolding c1_def adel_def
      by (intro properties_remove) (simp_all add: transfer_ok_def)
    then show ?thesis using None assms n1 by (simp add: x_delete_def Let_def c1_def)
  next
    case (Some t)
    show ?thesis
    proof (cases "xt_key t = k")
      case False
      then have "x_ok c1" using assms(1) Some unfolding c1_def adel_def
        by (intro properties_remove) (auto simp: transfer_ok_def x_ok_def image_iff)
      then show ?thesis using Some False assms n1 by (simp add: x_delete_def Let_def c1_def)
    next
      case True
      then have k: "k \<in> fst ` set (xc_properties c)" "xt_offset t \<le> length (xt_bytes t)"
        using assms(1) Some by (auto simp: x_ok_def transfer_ok_def)
      then have some: "map_of (xc_properties c) k \<noteq> None" by (simp add: map_of_eq_None_iff)
      have w: "fst k \<in> set (xc_windows c)" using k assms(1) by (force simp: x_ok_def properties_ok_def)
      have "k \<in> set (map fst (xc_properties c))" using k by simp
      then have "length (adel k (xc_properties c)) < length (xc_properties c)"
        by (auto simp: adel_def intro!: length_filter_less)
      then have less: "length (xc_properties c1) < MAX_PROPERTIES"
        using assms(1) by (simp add: c1_def x_ok_def properties_ok_def)
      have "properties_ok c1"
        using assms(1) by (auto simp: x_ok_def properties_ok_def c1_def adel_def distinct_map_filter
            intro: order_trans [OF length_filter_le])
      then have "properties_ok (c1\<lparr>xc_properties := aput k (next_chunk t) (xc_properties c1)\<rparr>)"
        using w less by (intro properties_put) (simp_all add: c1_def next_chunk_def prop_ok_def)
      moreover define c2 where "c2 = c1\<lparr>xc_properties := aput k (next_chunk t) (xc_properties c1),
        xc_transfer := advance t\<rparr>"
      ultimately have "x_ok c2"
        using assms(1) True k(2)
        by (auto simp: x_ok_def ids_ok_def own_id_def c1_def properties_ok_def transfer_ok_def advance_def
            split: if_splits)
      moreover have e: "x_delete k c = notify_property k 0 (c2\<lparr>xc_out := xc_out (notify_property k 1 c1)\<rparr>)"
      proof -
        have "x_delete k c = notify_property k 0 ((notify_property k 1 c1)
            \<lparr>xc_properties := aput k (next_chunk t) (xc_properties c1), xc_transfer := advance t\<rparr>)"
          using Some True some by (simp only: x_delete_def Let_def c1_def if_False notify_simps) simp
        also have "(notify_property k 1 c1)
            \<lparr>xc_properties := aput k (next_chunk t) (xc_properties c1), xc_transfer := advance t\<rparr>
          = c2\<lparr>xc_out := xc_out (notify_property k 1 c1)\<rparr>"
          by (subst notify_out) (simp add: c2_def)
        finally show ?thesis .
      qed
      moreover have "x_ok (c2\<lparr>xc_out := out\<rparr>) = x_ok c2" for out
        by (simp add: x_ok_def ids_ok_def own_id_def properties_ok_def transfer_ok_def)
      moreover have "answered a (c2\<lparr>xc_out := xc_out (notify_property k 1 c1)\<rparr>)"
        using n1 by (simp add: answered_def c2_def c1_def)
      ultimately show ?thesis using notify_answered by simp
    qed
  qed
qed

text \<open>A reply of 32 bytes with one field after the length.\<close>

lemma reply_answered:
  assumes "answered a c" "8 \<le> at" "at + length v \<le> 32"
  shows "answered a (x_send (put_at at v (packet c 1 d)) c)"
proof (rule answered_send [OF assms(1)])
  have "xc_order c = xc_order a" "xc_seq c = xc_seq a" using assms(1) by (auto simp: answered_def)
  from packet_framed [OF this] show "x_framed (xc_order a) (xc_seq a) (put_at at v (packet c 1 d))"
    using assms by (intro framed_put(1)) auto
qed

lemma plain_answered: "answered a c \<Longrightarrow> answered a (x_send (packet c t d) c)"
  by (rule answered_send) (auto simp: answered_def intro: packet_framed)

lemma mask_keeps:
  assumes "x_ok c" "answered a c" "i \<in> set (xc_windows c)" "length r = least + count_ones m * 4"
  shows "keeps a (x_set_mask r least i m c)"
proof (cases "bit m 11")
  case True
  have "least + count_ones (m AND (2 ^ 11 - 1)) * 4 + 4 \<le> length r"
    using count_ones_below [OF True] assms(4) by simp
  then show ?thesis
    using assms True
    by (auto simp: x_set_mask_def reads_ok x_ok_def ids_ok_def own_id_def properties_ok_def transfer_ok_def
        intro: answered_trans [OF _ answered_state])
qed (use assms in \<open>simp add: x_set_mask_def\<close>)

lemma window_keeps:
  assumes "x_ok c" "(op = 1 \<and> least = 32) \<or> (op = 2 \<and> least = 12)" "least \<le> length r"
  shows "keeps c (x_window op least r c)"
proof -
  define i where "i = (of_nat (of_bytes (xc_order c) (take 4 (drop 4 r))) :: u32)"
  define m where "m = (of_nat (of_bytes (xc_order c) (take 4 (drop (if op = 1 then 28 else 8) r))) :: u32)"
  have reads: "rd32 (xc_order c) r 4 = Inr i" "rd32 (xc_order c) r (if op = 1 then 28 else 8) = Inr m"
    using assms by (auto simp: i_def m_def reads_ok)
  define c1 where "c1 = c\<lparr>xc_windows := i # xc_windows c\<rparr>"
  have new: "keeps c (x_set_mask r least i m c1)"
    if "length r = least + count_ones m * 4" "own_id i c" "i \<notin> set (xc_gcs c)" "i \<notin> set (xc_windows c)"
      "length (xc_windows c1) \<le> MAX_WINDOWS"
  proof (rule mask_keeps)
    show "x_ok c1"
      using assms(1) that
      by (fastforce simp: x_ok_def ids_ok_def own_id_def c1_def properties_ok_def transfer_ok_def)
    show "answered c c1" by (rule answered_state) (simp_all add: c1_def)
  qed (use that in \<open>simp_all add: c1_def\<close>)
  have old: "keeps c (x_set_mask r least i m c)"
    if "length r = least + count_ones m * 4" "i \<in> set (xc_windows c)"
    using assms(1) that by (intro mask_keeps) simp_all
  show ?thesis
    unfolding x_window_def reads bindR_simps
    using assms(1) new old by (auto simp: keeps_error Let_def c1_def not_less)
qed

lemma destroy_keeps:
  assumes "x_ok c" "8 \<le> length r"
  shows "keeps c (x_destroy r c)"
proof -
  define i where "i = (of_nat (of_bytes (xc_order c) (take 4 (drop 4 r))) :: u32)"
  define c2 where "c2 = c\<lparr>xc_windows := removeAll i (xc_windows c), xc_masks := adel i (xc_masks c)\<rparr>"
  define ev where "ev = put_at 8 (w32 (xc_order c) i) (put_at 4 (w32 (xc_order c) i) (packet c2 17 0))"
  define fin where "fin = (\<lambda>c3 :: x_client. c3\<lparr>xc_properties := filter (\<lambda>(k, _). fst k \<noteq> i) (xc_properties c3),
    xc_transfer := (case xc_transfer c3 of Some t \<Rightarrow> if fst (xt_key t) = i then None else Some t | None \<Rightarrow> None)\<rparr>)"
  have "x_framed (xc_order c) (xc_seq c) (packet c2 17 0)" by (intro packet_framed) (simp_all add: c2_def)
  then have "answered c (x_send ev c2)"
    using framed_event(1) [of "xc_order c" "xc_seq c" "packet c2 17 0" i i]
    by (intro answered_send) (simp_all add: ev_def packet_basic c2_def answered_state)
  moreover have "answered c c2" by (rule answered_state) (simp_all add: c2_def)
  moreover have "answered c (fin c3) = answered c c3" for c3 by (simp add: answered_def fin_def)
  moreover have "x_ok (fin c3)" if "c3 = c2 \<or> c3 = x_send ev c2" for c3
  proof -
    have eq: "xc_windows c3 = removeAll i (xc_windows c)" "xc_gcs c3 = xc_gcs c" "xc_base c3 = xc_base c"
      "xc_masks c3 = adel i (xc_masks c)" "xc_properties c3 = xc_properties c" "xc_atoms c3 = xc_atoms c"
      "xc_transfer c3 = xc_transfer c"
      using that by (auto simp: c2_def)
    have "ids_ok (fin c3)"
      using assms(1)
      by (auto simp: x_ok_def ids_ok_def own_id_def fin_def eq adel_def list_all_iff
          intro!: distinct_removeAll order_trans [OF length_removeAll_less_eq])
    moreover have "properties_ok (fin c3)"
      using assms(1)
      by (auto simp: x_ok_def properties_ok_def fin_def eq distinct_map_filter
          intro!: order_trans [OF length_filter_le])
    moreover have "transfer_ok (fin c3)"
      using assms(1)
      by (auto simp: x_ok_def transfer_ok_def fin_def eq image_iff split: option.splits if_splits) blast
    ultimately show ?thesis using assms(1) by (simp add: x_ok_def fin_def eq)
  qed
  moreover have "x_destroy r c = (if i \<notin> set (xc_windows c) then Inr (x_error 3 4 i c)
      else Inr (fin (if bit (mask_of i c) 17 then x_send ev c2 else c2)))"
    using assms by (simp add: x_destroy_def reads_ok i_def [symmetric] Let_def c2_def ev_def fin_def mask_of_def)
  ultimately show ?thesis using assms(1) by (simp add: keeps_error)
qed

lemma intern_atom_keeps:
  assumes "x_ok c" "8 \<le> length r"
  shows "keeps c (x_intern_atom env r c)"
proof -
  define n where "n = of_bytes (xc_order c) (take 2 (drop 4 r))"
  define name where "name = take n (drop 8 r)"
  obtain as i where ai: "x_intern name (0 < byte (r ! Suc 0)) (xc_atoms c) = (as, i)" by fastforce
  define c1 where "c1 = c\<lparr>xc_atoms := as\<rparr>"
  have "x_ok c1" if "n \<le> 256"
    using intern_ok [of "xc_atoms c" name "0 < byte (r ! Suc 0)"] assms(1) that ai
    by (auto simp: c1_def x_ok_def ids_ok_def own_id_def properties_ok_def transfer_ok_def name_def)
  moreover have "answered c (x_send (put_at 8 (w32 (xc_order c) i) (packet c1 1 0)) c1)"
    by (rule reply_answered) (simp_all add: c1_def answered_state)
  moreover have "slice r 8 (8 + n) = Inr name" if "length r = 8 + padded n"
    using that padded_bounds [of n] by (simp add: reads_ok name_def)
  ultimately show ?thesis
    using assms
    by (auto simp: x_intern_atom_def reads_ok n_def [symmetric] keeps_error Let_def ai c1_def [symmetric]
        not_less)
qed

lemma atom_name_length:
  assumes "x_ok c" "atom_name i (xc_atoms c) = Some name"
  shows "length name \<le> 256"
proof -
  have "list_all (\<lambda>s. length s \<le> 256) (xc_atoms c)" "length (xc_atoms c) \<le> 4096"
    using assms(1) by (simp_all add: x_ok_def atoms_ok_def)
  then show ?thesis using assms(2) by (auto simp: atom_name_def list_all_length split: if_splits)
qed

lemma data_reply_answered:
  assumes "answered a c" "x_framed (xc_order a) (xc_seq a) p" "hd p = CHR 0x01" "length p = 32"
    "length d \<le> padded n" "padded n div 4 < 2 ^ 32"
  shows "answered a (x_send (resized (32 + padded n)
    (put_at 4 (w32 (xc_order a) (of_nat (padded n div 4))) p @ d)) c)"
proof -
  have n: "4 * (padded n div 4) = padded n" using padded_bounds(3) [of n] by simp
  then show ?thesis
    using assms framed_reply [of "xc_order a" "xc_seq a" p d "padded n div 4"]
    by (intro answered_send) simp_all
qed

lemma atom_name_keeps:
  assumes "x_ok c" "8 \<le> length r"
  shows "keeps c (x_atom_name r c)"
proof -
  define i where "i = (of_nat (of_bytes (xc_order c) (take 4 (drop 4 r))) :: u32)"
  have rd: "rd32 (xc_order c) r 4 = Inr i" using assms by (simp add: reads_ok i_def)
  have "answered c (x_send (resized (32 + padded (length name))
      (put_at 4 (w32 (xc_order c) (of_nat (padded (length name) div 4)))
        (put_at 8 (w16 (xc_order c) (length name)) (packet c 1 0)) @ name)) c)"
    if "atom_name i (xc_atoms c) = Some name" for name
  proof -
    have n: "length name \<le> 256" by (rule atom_name_length [OF assms(1) that])
    have "x_framed (xc_order c) (xc_seq c) (packet c 1 0)" by (simp add: packet_framed)
    note f = framed_put [OF this, of 8 "w16 (xc_order c) (length name)"]
    show ?thesis
      using f n padded_bounds [of "length name"] by (intro data_reply_answered) (simp_all add: packet_basic)
  qed
  then show ?thesis
    unfolding x_atom_name_def rd bindR_simps
    using assms(1) by (auto simp: Let_def split: option.splits)
qed

lemma change_property_keeps:
  assumes "x_ok c" "24 \<le> length r"
  shows "keeps c (x_change_property r c)"
proof -
  let ?le = "xc_order c"
  define w where "w = (of_nat (of_bytes ?le (take 4 (drop 4 r))) :: u32)"
  define p where "p = (of_nat (of_bytes ?le (take 4 (drop 8 r))) :: u32)"
  define kind where "kind = (of_nat (of_bytes ?le (take 4 (drop 12 r))) :: u32)"
  define units where "units = (of_nat (of_bytes ?le (take 4 (drop 20 r))) :: u32)"
  define format where "format = byte (r ! 16)"
  define n where "n = unat units * (format div 8)"
  have rd: "rd32 ?le r 4 = Inr w" "rd32 ?le r 8 = Inr p" "rd32 ?le r 12 = Inr kind" "rd32 ?le r 20 = Inr units"
    "rd8 r 16 = Inr format" "rd8 r 1 = Inr (byte (r ! 1))"
    using assms by (simp_all add: reads_ok w_def p_def kind_def units_def format_def)
  define c1 where "c1 = c\<lparr>xc_properties := aput (w, p) \<lparr>xp_kind = kind, xp_format = format,
    xp_bytes = take n (drop 24 r)\<rparr> (xc_properties c)\<rparr>"
  have c1: "x_ok c1 \<and> answered c (notify_property (w, p) 0 c1)"
    if "w \<in> set (xc_windows c)" "format \<in> {8, 16, 32}" "n \<le> X_CHUNK" "length (xc_properties c) < MAX_PROPERTIES"
  proof
    have "properties_ok c1"
      using assms(1) that unfolding c1_def by (intro properties_put) (auto simp: x_ok_def prop_ok_def)
    then show "x_ok c1"
      using assms(1) by (auto simp: x_ok_def ids_ok_def own_id_def c1_def transfer_ok_def)
    show "answered c (notify_property (w, p) 0 c1)"
      by (rule notify_answered) (simp add: answered_state c1_def)
  qed
  have sl: "slice r 24 (24 + n) = Inr (take n (drop 24 r))" if "length r = 24 + padded n"
    using that padded_bounds [of n] by (simp add: reads_ok)
  show ?thesis
    unfolding x_change_property_def Let_def rd bindR_simps n_def [symmetric]
    using assms(1) c1 sl by (auto simp: c1_def not_less not_le)
qed

lemma property_reply_answered:
  assumes "answered a c" "prop_ok p" "start \<le> stop" "stop \<le> length (xp_bytes p)"
  shows "answered a (x_send (property_reply p kind start stop c) c)"
proof -
  let ?le = "xc_order a"
  have o: "xc_order c = ?le" "xc_seq c = xc_seq a" using assms(1) by (simp_all add: answered_def)
  have "x_framed ?le (xc_seq a) (packet c 1 (xp_format p))" by (simp add: packet_framed o)
  note b1 = framed_put [OF this, of 8 "w32 ?le (xp_kind p)"]
  define b where "b = put_at 8 (w32 ?le (xp_kind p)) (packet c 1 (xp_format p))"
  have b: "x_framed ?le (xc_seq a) b" "hd b = CHR 0x01" "length b = 32"
    using b1 by (simp_all add: b_def packet_basic)
  note b12 = framed_put [OF b(1), of 12]
  define b2 where "b2 = put_at 16 (w32 ?le (of_nat ((stop - start) div (xp_format p div 8))))
    (put_at 12 (w32 ?le (of_nat (length (xp_bytes p) - stop))) b)"
  have b2: "x_framed ?le (xc_seq a) b2" "hd b2 = CHR 0x01" "length b2 = 32"
    using b b12 framed_put [of ?le "xc_seq a" "put_at 12 (w32 ?le (of_nat (length (xp_bytes p) - stop))) b" 16]
    by (simp_all add: b2_def)
  have len: "stop - start \<le> X_CHUNK" using assms(2,4) unfolding prop_ok_def by linarith
  then have "padded (stop - start) div 4 < 2 ^ 32"
    using padded_bounds(2) [of "stop - start"] by (simp add: X_CHUNK_def)
  then have "answered a (x_send (resized (32 + padded (stop - start))
      (put_at 4 (w32 ?le (of_nat (padded (stop - start) div 4))) b2 @
       take (stop - start) (drop start (xp_bytes p)))) c)"
    using assms(1) b2 padded_bounds(1) [of "stop - start"]
    by (intro data_reply_answered) (simp_all add: min_def)
  moreover have "answered a (x_send (put_at 12 (w32 ?le (of_nat (length (xp_bytes p)))) b) c)"
    using assms(1) b12 by (intro answered_send) simp_all
  ultimately show ?thesis
    by (simp add: property_reply_def Let_def o b_def b2_def)
qed

lemma get_property_keeps:
  assumes "x_ok c" "24 \<le> length r"
  shows "keeps c (x_get_property r c)"
proof -
  let ?le = "xc_order c"
  define w where "w = (of_nat (of_bytes ?le (take 4 (drop 4 r))) :: u32)"
  define p where "p = (of_nat (of_bytes ?le (take 4 (drop 8 r))) :: u32)"
  define kind where "kind = (of_nat (of_bytes ?le (take 4 (drop 12 r))) :: u32)"
  define skip where "skip = (of_nat (of_bytes ?le (take 4 (drop 16 r))) :: u32)"
  define units where "units = (of_nat (of_bytes ?le (take 4 (drop 20 r))) :: u32)"
  have rd: "rd32 ?le r 4 = Inr w" "rd32 ?le r 8 = Inr p" "rd32 ?le r 12 = Inr kind" "rd32 ?le r 16 = Inr skip"
    "rd32 ?le r 20 = Inr units" "rd8 r 1 = Inr (byte (r ! 1))"
    using assms by (simp_all add: reads_ok w_def p_def kind_def skip_def units_def)
  show ?thesis
  proof (cases "map_of (xc_properties c) (w, p)")
    case None
    then show ?thesis
      unfolding x_get_property_def Let_def rd bindR_simps
      using assms(1) plain_answered [of c c 1 0] by simp
  next
    case (Some v)
    then have v: "prop_ok v" using assms(1) by (auto simp: x_ok_def properties_ok_def dest: map_of_SomeD)
    define start where "start = unat skip * 4"
    define stop where "stop = min (start + unat units * 4) (length (xp_bytes v))"
    have sent: "answered c (x_send (property_reply v kind start stop c) c)"
      if "start \<le> length (xp_bytes v)"
      using that v by (intro property_reply_answered) (simp_all add: stop_def)
    then have del: "x_ok (x_delete (w, p) (x_send (property_reply v kind start stop c) c)) \<and>
        answered c (x_delete (w, p) (x_send (property_reply v kind start stop c) c))"
      if "start \<le> length (xp_bytes v)"
      using that assms(1) by (intro delete_keeps) simp_all
    have other: "answered c (x_send (property_reply v kind 0 0 c) c)"
      using v by (intro property_reply_answered) simp_all
    show ?thesis
      unfolding x_get_property_def Let_def rd bindR_simps Some option.simps start_def [symmetric]
        stop_def [symmetric]
      using assms(1) sent del other by (auto simp: not_less)
  qed
qed

lemma interned_atoms:
  assumes "atoms_ok (xc_atoms c)" "list_all (\<lambda>s. length s \<le> 256) ss"
  shows "\<exists>as. fst (intern_all ss c) = c\<lparr>xc_atoms := as\<rparr> \<and> atoms_ok as"
  using assms
proof (induction ss arbitrary: c)
  case Nil
  then show ?case by (intro exI [of _ "xc_atoms c"]) simp
next
  case (Cons s ss)
  obtain as i where a: "x_intern s False (xc_atoms c) = (as, i)" by fastforce
  then have "atoms_ok as" using intern_ok [of "xc_atoms c" s False] Cons.prems by simp
  then obtain bs where "fst (intern_all ss (c\<lparr>xc_atoms := as\<rparr>)) = c\<lparr>xc_atoms := bs\<rparr>" "atoms_ok bs"
    using Cons.IH [of "c\<lparr>xc_atoms := as\<rparr>"] Cons.prems by auto
  then show ?case
    by (cases "intern_all ss (c\<lparr>xc_atoms := as\<rparr>)") (auto simp: x_atom_def a)
qed

lemma atoms_keep: "x_ok c \<Longrightarrow> atoms_ok as \<Longrightarrow> x_ok (c\<lparr>xc_atoms := as\<rparr>)"
  by (auto simp: x_ok_def ids_ok_def own_id_def properties_ok_def transfer_ok_def)

definition env_ok :: "x_env \<Rightarrow> bool" where
  "env_ok env \<longleftrightarrow> list_all (\<lambda>s. length s \<le> 256) (xe_interned env) \<and>
     (\<forall>r formats. xe_offer env = Some (r, formats) \<longrightarrow> list_all (\<lambda>s. length s \<le> 256) formats)"

text \<open>Making the value touches nothing but the atoms.\<close>

lemma value_keeps:
  assumes "atoms_ok (xc_atoms c)" "env_ok env" "x_value env selection target name c = (c1, v)"
  shows "(\<exists>as. c1 = c\<lparr>xc_atoms := as\<rparr> \<and> atoms_ok as) \<and> (\<forall>p. v = Some p \<longrightarrow> xp_format p \<in> {8, 16, 32})"
proof -
  obtain rv formats where off: "clipboard_offer env selection = (rv, formats)" by fastforce
  then have "list_all (\<lambda>s. length s \<le> 256) (target_names formats)"
    using assms(2)
    by (auto simp: clipboard_offer_def env_ok_def target_names_def text_aliases_def split: if_splits option.splits)
  from interned_atoms [OF assms(1) this] interned_atoms [OF assms(1), of "[''UTF8_STRING'']"]
  have t: "\<exists>as. fst (intern_all (target_names formats) c) = c\<lparr>xc_atoms := as\<rparr> \<and> atoms_ok as"
    "\<exists>as. fst (x_atom ''UTF8_STRING'' c) = c\<lparr>xc_atoms := as\<rparr> \<and> atoms_ok as"
    by (auto split: prod.splits)
  have "\<exists>as. c = c\<lparr>xc_atoms := as\<rparr> \<and> atoms_ok as" using assms(1) by (intro exI [of _ "xc_atoms c"]) simp
  then show ?thesis
    using assms(3) off t by (auto simp: x_value_def split: if_splits prod.splits option.splits)
qed

lemma store_keeps:
  assumes "x_ok c" "\<not> busy c" "w \<in> set (xc_windows c)" "xp_format v \<in> {8, 16, 32}"
  shows "x_ok (x_store (w, p) v c) \<and> answered c (x_store (w, p) v c)"
proof -
  have less: "length (xc_properties c) < MAX_PROPERTIES" and nt: "xc_transfer c = None"
    using assms(2) by (auto simp: busy_def)
  have put: "properties_ok (c\<lparr>xc_properties := aput (w, p) q (xc_properties c)\<rparr>)" if "prop_ok q" for q
    using assms(1,3) less that by (intro properties_put) (simp_all add: x_ok_def)
  show ?thesis
  proof (cases "X_CHUNK < length (xp_bytes v)")
    case True
    obtain as kind where a: "x_intern ''INCR'' False (xc_atoms c) = (as, kind)" by fastforce
    then have as: "atoms_ok as" using intern_ok [of "xc_atoms c" "''INCR''" False] assms(1) by (simp add: x_ok_def)
    define q where "q = \<lparr>xp_kind = kind, xp_format = 32,
      xp_bytes = x_words (xc_order c) [of_nat (length (xp_bytes v))]\<rparr>"
    have "prop_ok q" by (simp add: q_def prop_ok_def x_words_def X_CHUNK_def)
    from put [OF this] have "x_ok (c\<lparr>xc_transfer := Some \<lparr>xt_key = (w, p), xt_kind = xp_kind v,
        xt_bytes = xp_bytes v, xt_offset = 0\<rparr>, xc_atoms := as, xc_properties := aput (w, p) q (xc_properties c)\<rparr>)"
      using assms(1) as
      by (auto simp: x_ok_def ids_ok_def own_id_def properties_ok_def transfer_ok_def)
    then show ?thesis
      using True by (simp add: x_store_def x_atom_def a q_def answered_state Let_def)
  next
    case False
    then have "prop_ok v" using assms(4) by (simp add: prop_ok_def)
    from put [OF this] show ?thesis
      using False assms(1) nt
      by (auto simp: x_store_def x_ok_def ids_ok_def own_id_def transfer_ok_def intro: answered_state)
  qed
qed

lemma selection_keeps:
  assumes "x_ok c" "24 \<le> length r" "env_ok env"
  shows "keeps c (x_selection env r c)"
proof -
  let ?le = "xc_order c"
  define w where "w = (of_nat (of_bytes ?le (take 4 (drop 4 r))) :: u32)"
  define sel where "sel = (of_nat (of_bytes ?le (take 4 (drop 8 r))) :: u32)"
  define target where "target = (of_nat (of_bytes ?le (take 4 (drop 12 r))) :: u32)"
  define pr where "pr = (of_nat (of_bytes ?le (take 4 (drop 16 r))) :: u32)"
  define time where "time = (of_nat (of_bytes ?le (take 4 (drop 20 r))) :: u32)"
  have rd: "rd32 ?le r 4 = Inr w" "rd32 ?le r 8 = Inr sel" "rd32 ?le r 12 = Inr target" "rd32 ?le r 16 = Inr pr"
    "rd32 ?le r 20 = Inr time"
    using assms by (simp_all add: reads_ok w_def sel_def target_def pr_def time_def)
  have "x_ok (x_convert env w sel target p time c) \<and> answered c (x_convert env w sel target p time c)"
    if w: "w \<in> set (xc_windows c)" for p
  proof -
    define name where "name = (\<lambda>i. case atom_name i (xc_atoms c) of Some s \<Rightarrow> s | None \<Rightarrow> [])"
    obtain c1 v where v: "x_value env (name sel) target (name target) c = (c1, v)" by fastforce
    from value_keeps [OF _ assms(3) v] assms(1) obtain as where
      c1: "c1 = c\<lparr>xc_atoms := as\<rparr>" "atoms_ok as" and f: "\<And>q. v = Some q \<Longrightarrow> xp_format q \<in> {8, 16, 32}"
      by (auto simp: x_ok_def)
    have ok1: "x_ok c1" "answered c c1" using atoms_keep [OF assms(1) c1(2)] by (simp_all add: c1(1) answered_state)
    obtain c2 q where d: "x_deliver w p v c1 = (c2, q)" by fastforce
    have "x_ok c2 \<and> answered c c2"
    proof (cases "v = None \<or> busy c1")
      case True
      then show ?thesis using d ok1 by (auto simp: x_deliver_def split: option.splits)
    next
      case False
      then obtain y where y: "v = Some y" by auto
      then have c2: "c2 = notify_property (w, p) 0 (x_store (w, p) y c1)"
        using d False by (auto simp: x_deliver_def)
      have "x_ok (x_store (w, p) y c1) \<and> answered c1 (x_store (w, p) y c1)"
        using ok1(1) False w f y by (intro store_keeps) (auto simp: c1(1))
      then show ?thesis
        using answered_trans [OF ok1(2)] by (auto simp: c2 intro: notify_answered)
    qed
    moreover have "x_framed ?le (xc_seq c) (packet c2 31 0)" "xc_order c2 = ?le"
      using calculation by (auto intro!: packet_framed simp: answered_def)
    ultimately have "answered c (x_send (selection_notify time w sel target q c2) c2)"
      using framed_event [of ?le "xc_seq c" "packet c2 31 0" w time]
      by (intro answered_send) (simp_all add: selection_notify_def Let_def framed_put packet_basic)
    then show ?thesis
      using \<open>x_ok c2 \<and> answered c c2\<close> v d by (simp add: x_convert_def Let_def name_def [symmetric])
  qed
  then show ?thesis
    unfolding x_selection_def Let_def rd bindR_simps using assms(1) by auto
qed

lemma gc_keeps:
  assumes "x_ok c" "(op = 55 \<and> least = 16) \<or> (op = 56 \<and> least = 12)" "least \<le> length r"
  shows "keeps c (x_gc op least r c)"
proof -
  let ?le = "xc_order c"
  define i where "i = (of_nat (of_bytes ?le (take 4 (drop 4 r))) :: u32)"
  define m where "m = (of_nat (of_bytes ?le (take 4 (drop (if op = 55 then 12 else 8) r))) :: u32)"
  define d where "d = (of_nat (of_bytes ?le (take 4 (drop 8 r))) :: u32)"
  have rd: "rd32 ?le r 4 = Inr i" "rd32 ?le r (if op = 55 then 12 else 8) = Inr m" "rd32 ?le r 8 = Inr d"
    using assms by (auto simp: reads_ok i_def m_def d_def)
  have new: "x_ok (c\<lparr>xc_gcs := i # xc_gcs c\<rparr>)"
    if "own_id i c" "i \<notin> set (xc_windows c)" "i \<notin> set (xc_gcs c)" "length (xc_gcs c) < MAX_GCS"
    using assms(1) that by (auto simp: x_ok_def ids_ok_def own_id_def properties_ok_def transfer_ok_def)
  have same: "answered c (c\<lparr>xc_gcs := is\<rparr>)" for "is" by (rule answered_state) simp_all
  show ?thesis
    unfolding x_gc_def Let_def rd bindR_simps using assms(1) new same by (auto simp: not_le)
qed

lemma free_gc_keeps:
  assumes "x_ok c" "8 \<le> length r"
  shows "keeps c (x_free_gc 8 r c)"
proof -
  have "x_ok (c\<lparr>xc_gcs := removeAll i (xc_gcs c)\<rparr>)" for i
    using assms(1)
    by (auto simp: x_ok_def ids_ok_def own_id_def properties_ok_def transfer_ok_def list_all_iff
        intro!: distinct_removeAll order_trans [OF length_removeAll_less_eq])
  moreover have "answered c (c\<lparr>xc_gcs := is\<rparr>)" for "is" by (rule answered_state) simp_all
  ultimately show ?thesis using assms by (auto simp: x_free_gc_def reads_ok)
qed

lemma owner_keeps:
  assumes "x_ok c" "8 \<le> length r"
  shows "keeps c (x_owner env r c)"
  using assms reply_answered [of c c 8 "w32 (xc_order c) OWNER" 0] plain_answered [of c c 1 0]
  by (auto simp: x_owner_def reads_ok Let_def)

lemma extension_keeps:
  assumes "x_ok c" "8 \<le> length r"
  shows "keeps c (x_extension r c)"
  using assms plain_answered [of c c 1 0] by (auto simp: x_extension_def reads_ok)

lemma delete_request_keeps:
  assumes "x_ok c" "12 \<le> length r"
  shows "keeps c (bindR (rd32 (xc_order c) r 4) (\<lambda>w. bindR (rd32 (xc_order c) r 8) (\<lambda>p. Inr (x_delete (w, p) c))))"
  using assms delete_keeps [of c c] by (simp add: reads_ok)

text \<open>Any request at all: no panic, the invariant, and well-formed answers with its number.\<close>

lemma request_keeps:
  assumes "x_ok c" "env_ok env" "r \<noteq> []"
  shows "keeps c (x_request env r c)"
proof -
  have op: "rd8 r 0 = Inr (byte (r ! 0))" using assms by (simp add: reads_ok)
  have focus: "answered c (x_send (put_at 8 (w32 (xc_order c) 1) (packet c 1 0)) c)"
    by (rule reply_answered) simp_all
  show ?thesis
  proof (cases "least_length (byte (r ! 0))")
    case None
    then show ?thesis
      unfolding x_request_def Let_def op bindR_simps using assms(1) by simp
  next
    case (Some least)
    show ?thesis
    proof (cases "length r < least")
      case True
      then show ?thesis
        unfolding x_request_def Let_def op bindR_simps Some option.simps using assms(1) by simp
    next
      case False
      note ops = window_keeps destroy_keeps intern_atom_keeps atom_name_keeps change_property_keeps
        delete_request_keeps get_property_keeps owner_keeps selection_keeps gc_keeps free_gc_keeps extension_keeps
      show ?thesis
        unfolding x_request_def Let_def op bindR_simps Some option.simps
        using Some False assms focus
        by (auto simp: least_length_def split: if_splits intro!: ops simp del: keeps_simps)
          (simp_all)
    qed
  qed
qed

section \<open>A whole connection\<close>

lemma others_interned: "atoms_ok as \<Longrightarrow> list_all (\<lambda>s. length s \<le> 256) ss \<Longrightarrow>
  atoms_ok (fold (\<lambda>s as. fst (x_intern s False as)) ss as)"
  by (induction ss arbitrary: as) (simp_all add: intern_ok)

lemma begin_ok: "x_ok c \<Longrightarrow> env_ok env \<Longrightarrow> x_ok (begin_request env c)"
  using others_interned [of "xc_atoms c" "xe_interned env"]
  by (auto simp: begin_request_def env_ok_def x_ok_def ids_ok_def own_id_def properties_ok_def transfer_ok_def)

text \<open>What was written, request by request: the packets of the k-th carry its number.\<close>

definition numbered :: "bool \<Rightarrow> u16 \<Rightarrow> bytes list list \<Rightarrow> bool" where
  "numbered le q outs \<longleftrightarrow> (\<forall>k<length outs. list_all (x_framed le (q + of_nat (Suc k))) (outs ! k))"

lemma numbered_Cons:
  assumes "list_all (x_framed le (q + 1)) out" "numbered le (q + 1) outs"
  shows "numbered le q (out # outs)"
  unfolding numbered_def
proof (intro allI impI)
  fix k assume "k < length (out # outs)"
  then show "list_all (x_framed le (q + of_nat (Suc k))) ((out # outs) ! k)"
    using assms by (cases k) (simp_all add: numbered_def add.assoc)
qed

lemma serve_keeps:
  assumes "x_ok c" "\<And>n. env_ok (env n)" "x_serve env n input c = (c', e)"
  shows "e \<noteq> Panic \<and> x_ok c' \<and> xc_order c' = xc_order c \<and>
    (\<exists>outs. xc_out c' = xc_out c @ concat outs \<and> numbered (xc_order c) (xc_seq c) outs)"
  using assms
proof (induction env n input c arbitrary: c' e rule: x_serve.induct)
  case (1 env n input c)
  note step = "1.prems"(3) [unfolded x_serve.simps [of env n input c]]
  have stop: "\<exists>outs. xc_out c = xc_out c @ concat outs \<and> numbered (xc_order c) (xc_seq c) outs"
    by (intro exI [of _ "[]"]) (simp add: numbered_def)
  show ?case
  proof (cases "read_exact 4 input")
    case None
    then show ?thesis using step "1.prems"(1) stop by auto
  next
    case (Some hs)
    obtain h s1 where hs: "hs = (h, s1)" by (cases hs)
    define size where "size = of_bytes (xc_order c) (drop 2 h) * 4"
    have h: "h \<noteq> []" using Some hs by (auto simp: read_exact_def split: if_splits)
    have step: "(if size < 4 then (c, Refused ''BIG-REQUESTS is not supported'')
       else case read_exact (size - 4) s1 of
           None \<Rightarrow> (c, Closed)
         | Some (body, rest) \<Rightarrow>
             (case x_request (env n) (h @ body) (begin_request (env n) c) of
                Inl e \<Rightarrow> (begin_request (env n) c, e)
              | Inr c2 \<Rightarrow> x_serve env (Suc n) rest c2)) = (c', e)"
      using step by (simp only: Some hs option.case prod.case Let_def size_def)
    show ?thesis
    proof (cases "size < 4 \<or> read_exact (size - 4) s1 = None")
      case True
      then show ?thesis
        using step "1.prems"(1) stop by (auto split: if_splits)
    next
      case False
      then obtain body rest where b: "read_exact (size - 4) s1 = Some (body, rest)" by auto
      define c1 where "c1 = begin_request (env n) c"
      have ok1: "x_ok c1" using begin_ok "1.prems"(1,2) by (simp add: c1_def)
      have c1: "xc_order c1 = xc_order c" "xc_seq c1 = xc_seq c + 1" "xc_out c1 = xc_out c"
        by (simp_all add: c1_def begin_request_def)
      have k: "keeps c1 (x_request (env n) (h @ body) c1)"
        using ok1 "1.prems"(2) h by (intro request_keeps) simp_all
      show ?thesis
      proof (cases "x_request (env n) (h @ body) c1")
        case (Inl e1)
        then have "c' = c1" "e = e1"
          using step False b by (auto simp: c1_def [symmetric])
        then show ?thesis using k Inl ok1 c1 stop by simp
      next
        case (Inr c2)
        then have c2: "x_ok c2" "answered c1 c2" using k by simp_all
        then obtain out where out: "xc_out c2 = xc_out c @ out" "list_all (x_framed (xc_order c) (xc_seq c + 1)) out"
          "xc_order c2 = xc_order c" "xc_seq c2 = xc_seq c + 1"
          using c1 by (auto simp: answered_def)
        have "x_serve env (Suc n) rest c2 = (c', e)"
          using step False b Inr by (auto simp: c1_def [symmetric])
        with "1.IH" [OF Some hs [symmetric] size_def _ b refl c1_def Inr c2(1) "1.prems"(2)] False
        obtain outs where "e \<noteq> Panic" "x_ok c'" "xc_order c' = xc_order c2" "xc_out c' = xc_out c2 @ concat outs"
          "numbered (xc_order c2) (xc_seq c2) outs" by fastforce
        then show ?thesis
          using out numbered_Cons [OF out(2), of outs] by (intro conjI exI [of _ "out # outs"]) simp_all
      qed
    qed
  qed
qed

lemma authenticated:
  assumes "x_authenticate cookie base atoms input = (out, Inr (c, rest))"
  shows "take 16 (drop 32 input) = cookie \<and> (\<exists>le. c = x_connect le base atoms)"
proof -
  obtain h s1 where h: "read_exact 12 input = Some (h, s1)" and bo: "hd h = CHR ''l'' \<or> hd h = CHR ''B''"
    using assms by (auto simp: x_authenticate_def split: option.splits if_splits)
  define le where "le = (hd h = CHR ''l'')"
  define name where "name = of_bytes le (take 2 (drop 6 h))"
  define data where "data = of_bytes le (take 2 (drop 8 h))"
  obtain auth s2 where a: "read_exact (padded name + padded data) s1 = Some (auth, s2)"
    and n: "take name auth = ''MIT-MAGIC-COOKIE-1''" and d: "data = 16"
    and k: "take data (drop (padded name) auth) = cookie" and c: "c = x_connect le base atoms"
    using assms h bo
    by (auto simp: x_authenticate_def Let_def le_def [symmetric] name_def [symmetric] data_def [symmetric]
        split: option.splits if_splits)
  have la: "length auth = padded name + padded data" "auth = take (padded name + padded data) s1"
    "s1 = drop 12 input"
    using a h by (auto simp: read_exact_def split: if_splits)
  have "length (take name auth) = 18" using n by simp
  then have "name = 18" using la(1) padded_bounds(1) [of name] by simp
  then have "padded name = 20" by (simp add: padded_def)
  then show ?thesis using k d la c by (auto simp: padded_def take_drop drop_drop)
qed

text \<open>
  C32: Whatever bytes arrive on the display's socket, and whatever the clipboard holds meanwhile, the
  server never indexes outside a message. A client is served only if it sent the cookie; it then holds
  at most 64 windows, 64 graphics contexts and 128 properties of at most 64 KiB each, all on its own
  windows, with identifiers of its own range; and everything written to it is well framed, the packets
  of the k-th request carrying number k.
\<close>

theorem x_server_safe:
  assumes "\<forall>n. env_ok (env n)" and "atoms_ok atoms"
    and "x_authenticate cookie base atoms input = (hello, Inr (c0, rest))"
    and "x_serve env 0 rest c0 = (c, reason)"
  shows "reason \<noteq> Panic \<and> take 16 (drop 32 input) = cookie \<and> x_ok c \<and>
    (\<exists>outs. xc_out c = concat outs \<and> numbered (xc_order c) 0 outs)"
proof -
  obtain le where c0: "c0 = x_connect le base atoms" and k: "take 16 (drop 32 input) = cookie"
    using authenticated [OF assms(3)] by blast
  have "x_ok c0"
    using assms(2) by (simp add: c0 x_connect_def x_ok_def ids_ok_def properties_ok_def transfer_ok_def)
  from serve_keeps [OF this _ assms(4)] assms(1) show ?thesis
    using k by (auto simp: c0 x_connect_def)
qed

end
