(* ===== verification/XPaste.thy ===== *)
theory XPaste
  imports XProps StreamProps
begin

text \<open>
  A paste through the X11 server: a client that converts the selection and reads the property until
  it is done has the bytes the clipboard source returned, at once or in chunks of 64 KiB.
\<close>

section \<open>What a client sends and reads\<close>

text \<open>\<open>ConvertSelection\<close>, and \<open>GetProperty\<close> of any type, to the end, with deletion.\<close>

definition convert_request :: "bool \<Rightarrow> u32 \<Rightarrow> u32 \<Rightarrow> u32 \<Rightarrow> u32 \<Rightarrow> u32 \<Rightarrow> bytes" where
  "convert_request le w selection target property time =
     [CHR 0x18, CHR 0x00] @ w16 le 6 @ w32 le w @ w32 le selection @ w32 le target @ w32 le property @ w32 le time"

definition get_request :: "bool \<Rightarrow> x_key \<Rightarrow> bytes" where
  "get_request le k =
     [CHR 0x14, CHR 0x01] @ w16 le 6 @ w32 le (fst k) @ w32 le (snd k) @ w32 le 0 @ w32 le 0 @ w32 le 0x4000"

definition reply_data :: "bool \<Rightarrow> bytes \<Rightarrow> bytes" where
  "reply_data le p = take (of_bytes le (take 4 (drop 16 p)) * (byte (p ! 1) div 8)) (drop 32 p)"

definition notified_property :: "bool \<Rightarrow> bytes \<Rightarrow> u32" where
  "notified_property le p = of_nat (of_bytes le (take 4 (drop 20 p)))"

text \<open>A request served on its own, and a series of reads of one property: the data of the replies.\<close>

definition served :: "x_env \<Rightarrow> bytes \<Rightarrow> x_client \<Rightarrow> x_end + x_client" where
  "served env r c = x_request env r (begin_request env c)"

fun x_reads :: "x_env list \<Rightarrow> x_key \<Rightarrow> x_client \<Rightarrow> x_client \<times> bytes list" where
  "x_reads [] k c = (c, [])"
| "x_reads (env # envs) k c =
     (case served env (get_request (xc_order c) k) c of
        Inl e \<Rightarrow> (c, [])
      | Inr c1 \<Rightarrow>
          (case x_reads envs k c1 of (c2, ds) \<Rightarrow>
             (c2, reply_data (xc_order c) (xc_out c1 ! length (xc_out c)) # ds)))"

section \<open>The fields of packets\<close>

lemma get_fields:
  "rd8 (get_request le k) 0 = Inr 20" "rd8 (get_request le k) 1 = Inr 1" "length (get_request le k) = 24"
  "rd32 le (get_request le k) 4 = Inr (fst k)" "rd32 le (get_request le k) 8 = Inr (snd k)"
  "rd32 le (get_request le k) 12 = Inr 0" "rd32 le (get_request le k) 16 = Inr 0"
  "rd32 le (get_request le k) 20 = Inr 0x4000"
  by (simp_all add: get_request_def reads_ok byte_def)

lemma convert_fields:
  "rd8 (convert_request le w s t p z) 0 = Inr 24" "length (convert_request le w s t p z) = 24"
  "rd32 le (convert_request le w s t p z) 4 = Inr w" "rd32 le (convert_request le w s t p z) 8 = Inr s"
  "rd32 le (convert_request le w s t p z) 12 = Inr t" "rd32 le (convert_request le w s t p z) 16 = Inr p"
  "rd32 le (convert_request le w s t p z) 20 = Inr z"
  by (simp_all add: convert_request_def reads_ok byte_def)

lemma least_lengths: "least_length 20 = Some 24" "least_length 24 = Some 24"
  by (simp_all add: least_length_def)

text \<open>The data of a reply to a read of a whole property.\<close>

definition whole :: "x_property \<Rightarrow> bool" where
  "whole v \<longleftrightarrow> xp_format v = 8 \<or> xp_format v = 32 \<and> length (xp_bytes v) = 4"

lemma packet_detail: "d < 256 \<Longrightarrow> byte (packet c t d ! 1) = d"
  by (simp add: packet_def put_at_def byte_def)

lemma nth_part: "i < length p \<Longrightarrow> take 1 (drop i p) = [p ! i]"
  by (metis One_nat_def hd_drop_conv_nth length_drop list.sel(1) take_Suc take0 zero_less_diff drop_eq_Nil
      not_le)

lemma reply_data_whole:
  assumes "whole v" "length (xp_bytes v) \<le> X_CHUNK"
  shows "reply_data (xc_order c) (property_reply v 0 0 (length (xp_bytes v)) c) = xp_bytes v"
proof -
  let ?le = "xc_order c" let ?n = "length (xp_bytes v)"
  define u where "u = ?n div (xp_format v div 8)"
  define b3 where "b3 = put_at 12 (w32 ?le (of_nat (?n - ?n))) (put_at 8 (w32 ?le (xp_kind v)) (packet c 1 (xp_format v)))"
  define b2 where "b2 = put_at 16 (w32 ?le (of_nat u)) b3"
  define b where "b = put_at 4 (w32 ?le (of_nat (padded ?n div 4))) b2"
  define p where "p = resized (32 + padded ?n) (b @ xp_bytes v)"
  have p: "property_reply v 0 0 ?n c = p"
    by (simp add: property_reply_def Let_def p_def b_def b2_def b3_def u_def)
  have l: "length b3 = 32" "length b2 = 32" "length b = 32"
    by (simp_all add: b_def b2_def b3_def packet_basic)
  have fmt: "xp_format v < 256" "u * (xp_format v div 8) = ?n" using assms(1) by (auto simp: whole_def u_def)
  have "take 1 (drop 1 p) = take 1 (drop 1 b)" unfolding p_def by (rule resized_part) (simp_all add: l)
  also have "\<dots> = take 1 (drop 1 (packet c 1 (xp_format v)))"
    by (simp add: b_def b2_def b3_def put_at_part l packet_basic del: One_nat_def)
  finally have d: "p ! 1 = packet c 1 (xp_format v) ! 1"
    using nth_part [of 1 p] nth_part [of 1 "packet c 1 (xp_format v)"] by (simp add: p_def packet_basic)
  have "take 4 (drop 16 p) = take 4 (drop 16 b)" unfolding p_def by (rule resized_part) (simp_all add: l)
  also have "\<dots> = take 4 (drop 16 b2)" by (simp add: b_def put_at_drop l)
  also have "\<dots> = w32 ?le (of_nat u)" using put_at_same [of 16 "w32 ?le (of_nat u)" b3] l by (simp add: b2_def)
  finally have "of_bytes ?le (take 4 (drop 16 p)) = unat (of_nat u :: u32)" by simp
  moreover have "u < 2 ^ 32" using assms fmt by (auto simp: whole_def u_def X_CHUNK_def)
  ultimately have n: "of_bytes ?le (take 4 (drop 16 p)) = u" by (simp add: unat_of_nat)
  have "drop 32 p = xp_bytes v @ zeros (padded ?n - ?n)"
    using padded_bounds(1) [of ?n] by (simp add: p_def resized_def l)
  then show ?thesis
    using fmt packet_detail [OF fmt(1), of c 1] by (simp add: p reply_data_def n d [simplified])
qed

section \<open>One read\<close>

text \<open>What a connection holds for a key while a client reads it.\<close>

lemma begin_simps [simp]:
  "xc_order (begin_request env c) = xc_order c" "xc_windows (begin_request env c) = xc_windows c"
  "xc_properties (begin_request env c) = xc_properties c" "xc_transfer (begin_request env c) = xc_transfer c"
  "xc_masks (begin_request env c) = xc_masks c" "xc_out (begin_request env c) = xc_out c"
  by (simp_all add: begin_request_def)

lemma read_served:
  assumes "fst k \<in> set (xc_windows c)" "map_of (xc_properties c) k = Some v"
    "length (xp_bytes v) \<le> X_CHUNK"
  shows "served env (get_request (xc_order c) k) c = Inr (x_delete k (x_send
    (property_reply v 0 0 (length (xp_bytes v)) (begin_request env c)) (begin_request env c)))"
proof -
  have "min (0 + unat (0x4000 :: u32) * 4) (length (xp_bytes v)) = length (xp_bytes v)"
    using assms(3) by (simp add: X_CHUNK_def)
  moreover have "(fst k, snd k) = k" by simp
  ultimately show ?thesis
    using assms
    by (simp add: served_def x_request_def Let_def get_fields get_fields(2) [unfolded One_nat_def]
        least_lengths x_get_property_def)
qed

text \<open>Deleting a property: what is left under its key, and of its transfer.\<close>

lemma delete_plain:
  assumes "\<And>t. xc_transfer c = Some t \<Longrightarrow> xt_key t \<noteq> k"
  shows "xc_properties (x_delete k c) = adel k (xc_properties c) \<and> xc_transfer (x_delete k c) = xc_transfer c"
proof -
  have "adel k m = m" if "map_of m k = None" for m :: "(x_key \<times> x_property) list"
    using that by (auto simp: adel_def map_of_eq_None_iff image_iff filter_id_conv)
  then show ?thesis
    using assms by (cases "xc_transfer c") (auto simp: x_delete_def Let_def)
qed

lemma delete_chunk:
  assumes "xc_transfer c = Some t" "xt_key t = k"
  shows "map_of (xc_properties (x_delete k c)) k = Some (next_chunk t) \<and> xc_transfer (x_delete k c) = advance t"
  using assms by (auto simp: x_delete_def Let_def)

lemma delete_rest:
  "xc_order (x_delete k c) = xc_order c \<and> xc_windows (x_delete k c) = xc_windows c \<and>
   (\<exists>new. xc_out (x_delete k c) = xc_out c @ new)"
proof -
  have n: "\<exists>new. xc_out (notify_property j st d) = xc_out d @ new" for j st d
    by (auto simp: notify_property_def x_send_def Let_def)
  define c1 where "c1 = (if map_of (xc_properties c) k = None then c
    else notify_property k 1 (c\<lparr>xc_properties := adel k (xc_properties c)\<rparr>))"
  have c1: "xc_order c1 = xc_order c" "xc_windows c1 = xc_windows c" "\<exists>new. xc_out c1 = xc_out c @ new"
    using n [of k 1 "c\<lparr>xc_properties := adel k (xc_properties c)\<rparr>"] by (auto simp: c1_def)
  then have "\<exists>new. xc_out (notify_property k 0 (c1\<lparr>xc_properties := P, xc_transfer := T\<rparr>)) = xc_out c @ new" for P T
    using n [of k 0 "c1\<lparr>xc_properties := P, xc_transfer := T\<rparr>"] by auto
  then show ?thesis
    using c1 by (auto simp: x_delete_def c1_def [symmetric] Let_def split: option.splits)
qed

lemma read_once:
  assumes "fst k \<in> set (xc_windows c)" "map_of (xc_properties c) k = Some v" "whole v"
    "length (xp_bytes v) \<le> X_CHUNK"
  shows "\<exists>c1. served env (get_request (xc_order c) k) c = Inr c1 \<and>
    reply_data (xc_order c) (xc_out c1 ! length (xc_out c)) = xp_bytes v \<and>
    xc_order c1 = xc_order c \<and> xc_windows c1 = xc_windows c \<and>
    (xc_transfer c = None \<longrightarrow> map_of (xc_properties c1) k = None \<and> xc_transfer c1 = None) \<and>
    (\<forall>t. xc_transfer c = Some t \<and> xt_key t = k \<longrightarrow>
       map_of (xc_properties c1) k = Some (next_chunk t) \<and> xc_transfer c1 = advance t)"
proof -
  define d where "d = x_send (property_reply v 0 0 (length (xp_bytes v)) (begin_request env c)) (begin_request env c)"
  have r: "served env (get_request (xc_order c) k) c = Inr (x_delete k d)"
    unfolding d_def by (rule read_served [OF assms(1,2,4)])
  have d: "xc_order d = xc_order c" "xc_windows d = xc_windows c" "xc_properties d = xc_properties c"
    "xc_transfer d = xc_transfer c"
    "xc_out d = xc_out c @ [property_reply v 0 0 (length (xp_bytes v)) (begin_request env c)]"
    by (simp_all add: d_def) (simp add: x_send_def)
  obtain new where new: "xc_out (x_delete k d) = xc_out d @ new" using delete_rest by blast
  then have "xc_out (x_delete k d) ! length (xc_out c) = property_reply v 0 0 (length (xp_bytes v)) (begin_request env c)"
    by (simp add: d nth_append)
  then have "reply_data (xc_order c) (xc_out (x_delete k d) ! length (xc_out c)) = xp_bytes v"
    using reply_data_whole [OF assms(3,4), of "begin_request env c"] by simp
  moreover have "xc_transfer c = None \<Longrightarrow> map_of (xc_properties (x_delete k d)) k = None \<and> xc_transfer (x_delete k d) = None"
    using delete_plain [of d k] by (simp add: d)
  moreover have "xc_transfer c = Some t \<Longrightarrow> xt_key t = k \<Longrightarrow>
      map_of (xc_properties (x_delete k d)) k = Some (next_chunk t) \<and> xc_transfer (x_delete k d) = advance t" for t
    using delete_chunk [of d t k] by (simp add: d)
  ultimately show ?thesis using r d delete_rest [of k d] by (intro exI [of _ "x_delete k d"]) auto
qed

section \<open>An incremental transfer\<close>

lemma incremental_reads:
  assumes "fst k \<in> set (xc_windows c)" "map_of (xc_properties c) k = Some v" "whole v"
    "length (xp_bytes v) \<le> X_CHUNK" "xc_transfer c = Some t" "xt_key t = k" "xt_offset t \<le> length (xt_bytes t)"
    "length envs = length (chunks_of X_CHUNK (drop (xt_offset t) (xt_bytes t))) + 2"
  shows "\<exists>c'. x_reads envs k c = (c', xp_bytes v # chunks_of X_CHUNK (drop (xt_offset t) (xt_bytes t)) @ [[]]) \<and>
    xc_transfer c' = None \<and> map_of (xc_properties c') k = None"
  using assms
proof (induction "length envs" arbitrary: envs c v t)
  case (Suc n)
  let ?rest = "drop (xt_offset t) (xt_bytes t)"
  obtain env envs' where e: "envs = env # envs'" using Suc.hyps(2) by (cases envs) auto
  obtain c1 where c1: "served env (get_request (xc_order c) k) c = Inr c1"
    "reply_data (xc_order c) (xc_out c1 ! length (xc_out c)) = xp_bytes v"
    "xc_order c1 = xc_order c" "xc_windows c1 = xc_windows c"
    "map_of (xc_properties c1) k = Some (next_chunk t)" "xc_transfer c1 = advance t"
    using read_once [OF Suc.prems(1-4), of env] Suc.prems(5,6) by blast
  have chunk: "whole (next_chunk t)" "length (xp_bytes (next_chunk t)) \<le> X_CHUNK"
    by (simp_all add: next_chunk_def whole_def)
  show ?case
  proof (cases "?rest = []")
    case True
    then have none: "xt_offset t = length (xt_bytes t)" using Suc.prems(7) by simp
    then have c0: "chunks_of X_CHUNK ?rest = []" "advance t = None" "xp_bytes (next_chunk t) = []"
      by (simp_all add: chunks_of.simps advance_def next_chunk_def)
    then obtain env' where e': "envs' = [env']" using Suc.prems(8) e
      by (metis One_nat_def Suc_eq_plus1 Suc_inject add_2_eq_Suc' length_0_conv length_Cons length_Suc_conv list.size(3))
    obtain c2 where "served env' (get_request (xc_order c1) k) c1 = Inr c2"
      "reply_data (xc_order c1) (xc_out c2 ! length (xc_out c1)) = xp_bytes (next_chunk t)"
      "map_of (xc_properties c2) k = None \<and> xc_transfer c2 = None"
      using read_once [of k c1 "next_chunk t" env'] c1 chunk c0 Suc.prems(1) by auto
    then show ?thesis using c1 c0 by (simp add: e e')
  next
    case False
    define t' where "t' = t\<lparr>xt_offset := min (xt_offset t + X_CHUNK) (length (xt_bytes t))\<rparr>"
    have adv: "advance t = Some t'" using False Suc.prems(7) by (auto simp: advance_def t'_def)
    have dr: "drop (xt_offset t') (xt_bytes t') = drop X_CHUNK ?rest"
      by (cases "xt_offset t + X_CHUNK \<le> length (xt_bytes t)") (simp_all add: t'_def add.commute)
    have ch: "chunks_of X_CHUNK ?rest = xp_bytes (next_chunk t) # chunks_of X_CHUNK (drop (xt_offset t') (xt_bytes t'))"
      using False by (subst chunks_of.simps) (simp add: dr next_chunk_def X_CHUNK_def)
    have "\<exists>c'. x_reads envs' k c1 = (c', xp_bytes (next_chunk t) #
        chunks_of X_CHUNK (drop (xt_offset t') (xt_bytes t')) @ [[]]) \<and>
      xc_transfer c' = None \<and> map_of (xc_properties c') k = None"
    proof (rule Suc.hyps(1))
      show "n = length envs'" using Suc.hyps(2) e by simp
      show "length envs' = length (chunks_of X_CHUNK (drop (xt_offset t') (xt_bytes t'))) + 2"
        using Suc.prems(8) e ch by simp
    qed (use c1 chunk adv Suc.prems in \<open>simp_all add: t'_def\<close>)
    then obtain c' where "x_reads envs' k c1 = (c', chunks_of X_CHUNK ?rest @ [[]])"
      "xc_transfer c' = None" "map_of (xc_properties c') k = None" using ch by auto
    then show ?thesis using c1 by (simp add: e)
  qed
qed simp

section \<open>A paste\<close>

text \<open>What the reads of a paste return: the bytes at once, or the notice, the chunks and an empty end.\<close>

definition pasted :: "bytes \<Rightarrow> bytes list \<Rightarrow> bool" where
  "pasted b ds \<longleftrightarrow>
     (if length b \<le> X_CHUNK then ds = [b]
      else (\<exists>notice parts. ds = notice # parts @ [[]] \<and> concat parts = b \<and>
              list_all (\<lambda>p. p \<noteq> [] \<and> length p \<le> X_CHUNK) parts))"

definition paste_reads :: "bytes \<Rightarrow> nat" where
  "paste_reads b = (if length b \<le> X_CHUNK then 1 else length (chunks_of X_CHUNK b) + 2)"

lemma value_bytes:
  assumes "clipboard_offer env ''CLIPBOARD'' = (rv, formats)" "formats \<noteq> []"
    "name \<noteq> ''TARGETS''" "name \<noteq> ''TIMESTAMP''" "xe_get env rv (wanted_format name) = Some b"
  shows "\<exists>as kind. x_value env ''CLIPBOARD'' target name c = (c\<lparr>xc_atoms := as\<rparr>,
    Some \<lparr>xp_kind = kind, xp_format = 8, xp_bytes = b\<rparr>)"
proof -
  have "\<exists>as. c = c\<lparr>xc_atoms := as\<rparr>" by (rule exI [of _ "xc_atoms c"]) simp
  then show ?thesis using assms by (auto simp: x_value_def x_atom_def split: prod.splits)
qed

text \<open>What a stored value leaves to be read.\<close>

lemma stored:
  assumes "\<not> busy c"
  shows "\<exists>v. map_of (xc_properties (x_store k q c)) k = Some v \<and> xc_windows (x_store k q c) = xc_windows c \<and>
    xc_order (x_store k q c) = xc_order c \<and>
    (if length (xp_bytes q) \<le> X_CHUNK then v = q \<and> xc_transfer (x_store k q c) = None
     else whole v \<and> length (xp_bytes v) = 4 \<and> xc_transfer (x_store k q c) =
       Some \<lparr>xt_key = k, xt_kind = xp_kind q, xt_bytes = xp_bytes q, xt_offset = 0\<rparr>)"
  using assms by (auto simp: x_store_def x_atom_def busy_def whole_def x_words_def Let_def split: prod.splits)

lemma paste_read:
  assumes "\<not> busy c" "fst k \<in> set (xc_windows c)" "xp_format q = 8" "length envs = paste_reads (xp_bytes q)"
    and d: "xc_windows d = xc_windows c" "xc_properties d = xc_properties (x_store k q c)"
      "xc_transfer d = xc_transfer (x_store k q c)"
  shows "\<exists>d' ds. x_reads envs k d = (d', ds) \<and> pasted (xp_bytes q) ds \<and> xc_transfer d' = None \<and>
    map_of (xc_properties d') k = None"
proof -
  obtain v where v: "map_of (xc_properties d) k = Some v"
    "if length (xp_bytes q) \<le> X_CHUNK then v = q \<and> xc_transfer d = None
     else whole v \<and> length (xp_bytes v) = 4 \<and> xc_transfer d =
       Some \<lparr>xt_key = k, xt_kind = xp_kind q, xt_bytes = xp_bytes q, xt_offset = 0\<rparr>"
    using stored [OF assms(1), of k q] d by auto
  have w: "fst k \<in> set (xc_windows d)" using assms(2) d by simp
  show ?thesis
  proof (cases "length (xp_bytes q) \<le> X_CHUNK")
    case True
    then obtain env where "envs = [env]" using assms(4) by (auto simp: paste_reads_def length_Suc_conv)
    moreover obtain c1 where "served env (get_request (xc_order d) k) d = Inr c1"
      "reply_data (xc_order d) (xc_out c1 ! length (xc_out d)) = xp_bytes v"
      "map_of (xc_properties c1) k = None \<and> xc_transfer c1 = None"
      using read_once [OF w v(1), of env] v(2) True assms(3) by (auto simp: whole_def)
    ultimately show ?thesis using True v(2) by (simp add: pasted_def)
  next
    case False
    have "list_all (\<lambda>p. p \<noteq> [] \<and> length p \<le> X_CHUNK) (chunks_of X_CHUNK (xp_bytes q))"
      using chunk_bounds by (fastforce simp: list_all_iff)
    moreover have "concat (chunks_of X_CHUNK (xp_bytes q)) = xp_bytes q"
      by (simp add: concat_chunks X_CHUNK_def)
    ultimately have "pasted (xp_bytes q) (xp_bytes v # chunks_of X_CHUNK (xp_bytes q) @ [[]])"
      using False by (auto simp: pasted_def)
    then show ?thesis
      using incremental_reads [OF w v(1), of _ envs] v(2) False assms(4)
      by (simp add: paste_reads_def X_CHUNK_def) blast
  qed
qed

text \<open>
  C33: A paste delivers: when a client with a window of its own converts the clipboard to a format the
  source has, while no other transfer of that client is under way, it is notified of the property, and
  reading that property to the end, a number of times that depends only on the size, yields exactly the
  bytes the source returned for the offered revision and that format, whatever other clients do in
  between; then the property is gone and the next transfer can start.
\<close>

theorem x_paste_delivers:
  assumes "w \<in> set (xc_windows c)" and "\<not> busy c"
    and "atom_name selection (xc_atoms (begin_request env c)) = Some ''CLIPBOARD''"
    and "atom_name target (xc_atoms (begin_request env c)) = Some name"
    and "name \<noteq> ''TARGETS''" and "name \<noteq> ''TIMESTAMP''"
    and "xe_offer env = Some (revision, formats)" and "formats \<noteq> []"
    and "xe_get env revision (wanted_format name) = Some b"
    and "k = (w, if property = 0 then target else property)" and "length envs = paste_reads b"
  shows "\<exists>c1 c2 ds. served env (convert_request (xc_order c) w selection target property time) c = Inr c1 \<and>
    snd k \<noteq> 0 \<and> notified_property (xc_order c) (last (xc_out c1)) = snd k \<and>
    x_reads envs k c1 = (c2, ds) \<and> pasted b ds \<and> xc_transfer c2 = None \<and> map_of (xc_properties c2) k = None"
proof -
  let ?b = "begin_request env c" let ?le = "xc_order c"
  define p where "p = (if property = 0 then target else property)"
  have k: "k = (w, p)" using assms(10) by (simp add: p_def)
  have "target \<noteq> 0" using assms(4) by (auto simp: atom_name_def)
  then have p0: "p \<noteq> 0" by (simp add: p_def)
  have off: "clipboard_offer env ''CLIPBOARD'' = (revision, formats)"
    using assms(7) by (simp add: clipboard_offer_def)
  obtain as kind where v: "x_value env ''CLIPBOARD'' target name ?b
      = (?b\<lparr>xc_atoms := as\<rparr>, Some \<lparr>xp_kind = kind, xp_format = 8, xp_bytes = b\<rparr>)"
    using value_bytes [OF off assms(8,5,6,9)] by blast
  define q where "q = \<lparr>xp_kind = kind, xp_format = 8, xp_bytes = b\<rparr>"
  define a where "a = ?b\<lparr>xc_atoms := as\<rparr>"
  have a: "\<not> busy a" "xc_windows a = xc_windows c" "xc_order a = ?le"
    using assms(2) by (simp_all add: a_def busy_def)
  define d where "d = notify_property (w, p) 0 (x_store (w, p) q a)"
  define e where "e = selection_notify time w selection target p d"
  have "x_convert env w selection target p time ?b = x_send e d"
    using v a(1) assms(3,4)
    by (simp add: x_convert_def x_deliver_def q_def [symmetric] a_def [symmetric] d_def e_def Let_def)
  then have run: "served env (convert_request ?le w selection target property time) c = Inr (x_send e d)"
    using assms(1)
    by (simp add: served_def x_request_def Let_def convert_fields least_lengths x_selection_def p_def)
  have le: "xc_order d = ?le" using stored [OF a(1), of "(w, p)" q] a(3) by (auto simp: d_def)
  have "length (put_at 16 (w32 ?le target) (put_at 12 (w32 ?le selection) (put_at 8 (w32 ?le w)
      (put_at 4 (w32 ?le time) (packet d 31 0))))) = 32" by (simp add: packet_basic)
  then have "take 4 (drop 20 e) = w32 ?le p"
    using put_at_same [of 20 "w32 ?le p"] by (simp add: e_def selection_notify_def Let_def le)
  then have notified: "notified_property ?le (last (xc_out (x_send e d))) = p"
    by (simp add: notified_property_def x_send_def)
  have "\<exists>d' ds. x_reads envs (w, p) (x_send e d) = (d', ds) \<and> pasted (xp_bytes q) ds \<and>
      xc_transfer d' = None \<and> map_of (xc_properties d') (w, p) = None"
    using assms(1,11) a stored [OF a(1), of "(w, p)" q]
    by (intro paste_read [of a]) (auto simp: q_def d_def)
  then show ?thesis using run notified p0 by (auto simp: k q_def)
qed

section \<open>Witnesses\<close>

definition image :: bytes where "image = replicate 70000 (CHR ''x'')"

definition paste_env :: x_env where
  "paste_env = \<lparr>xe_offer = Some ((0, 7, 0), [''image/png'']),
     xe_get = (\<lambda>r f. if r = (0, 7, 0) \<and> f = ''image/png'' then Some image else None),
     xe_utf8 = (\<lambda>_. True), xe_interned = []\<rparr>"

definition paste_client :: x_client where
  "paste_client = (x_connect True 0x200000 [''CLIPBOARD'', ''image/png'', ''DATA''])
     \<lparr>xc_windows := [0x200001]\<rparr>"

theorem x_paste_delivers_witness:
  "\<exists>c1 c2 ds. served paste_env (convert_request True 0x200001 1 2 3 0) paste_client = Inr c1 \<and>
    notified_property True (last (xc_out c1)) = 3 \<and>
    x_reads (replicate (paste_reads image) paste_env) (0x200001, 3) c1 = (c2, ds) \<and> pasted image ds \<and>
    xc_transfer c2 = None \<and> map_of (xc_properties c2) (0x200001, 3) = None"
proof -
  have c: "0x200001 \<in> set (xc_windows paste_client)" "\<not> busy paste_client"
    "atom_name 1 (xc_atoms (begin_request paste_env paste_client)) = Some ''CLIPBOARD''"
    "atom_name 2 (xc_atoms (begin_request paste_env paste_client)) = Some ''image/png''"
    by (simp_all add: paste_client_def x_connect_def busy_def MAX_PROPERTIES_def begin_request_def
        paste_env_def atom_name_def)
  have e: "xe_offer paste_env = Some ((0, 7, 0), [''image/png''])"
    "xe_get paste_env (0, 7, 0) (wanted_format ''image/png'') = Some image"
    by (simp_all add: paste_env_def wanted_format_def text_aliases_def)
  have "xc_order paste_client = True" by (simp add: paste_client_def x_connect_def)
  then show ?thesis
    using x_paste_delivers [OF c _ _ e(1) _ e(2), of "(0x200001, 3)" 3
        "replicate (paste_reads image) paste_env" 0] by simp
qed

definition hello_bytes :: bytes where
  "hello_bytes = ''l'' @ zeros 1 @ w16 True 11 @ zeros 2 @ w16 True 18 @ w16 True 16 @ zeros 2 @
     ''MIT-MAGIC-COOKIE-1'' @ zeros 2 @ replicate 16 (CHR ''k'')"

definition focus_request :: bytes where "focus_request = [CHR 0x2B, CHR 0x00, CHR 0x01, CHR 0x00]"

lemma hello_accepted:
  "x_authenticate (replicate 16 (CHR ''k'')) 0x200000 CORE_ATOMS (hello_bytes @ focus_request)
    = ([x_setup True 0x200000], Inr (x_connect True 0x200000 CORE_ATOMS, focus_request))"
proof -
  have len: "length hello_bytes = 48" by (simp add: hello_bytes_def)
  have h: "read_exact 12 (hello_bytes @ focus_request) = Some (take 12 hello_bytes, drop 12 hello_bytes @ focus_request)"
    by (simp add: read_exact_def len)
  have f: "hd (take 12 hello_bytes) = CHR ''l''" "take 2 (drop 6 (take 12 hello_bytes)) = w16 True 18"
    "take 2 (drop 8 (take 12 hello_bytes)) = w16 True 16" "take 2 (drop 2 (take 12 hello_bytes)) = w16 True 11"
    by (simp_all add: hello_bytes_def numeral_2_eq_2)
  have p: "padded 18 = 20" "padded 16 = 16" by (simp_all add: padded_def)
  have a: "read_exact 36 (drop 12 hello_bytes @ focus_request) = Some (drop 12 hello_bytes, focus_request)"
    by (simp add: read_exact_def len)
  have dk: "drop 32 hello_bytes = replicate 16 (CHR ''k'')" by (simp add: hello_bytes_def)
  have "drop 20 (drop 12 hello_bytes) = drop 32 hello_bytes" by simp
  then have k: "take 16 (drop 20 (drop 12 hello_bytes)) = replicate 16 (CHR ''k'')"
    by (simp only: dk take_replicate min.idem)
  have n: "take 18 (drop 12 hello_bytes) = ''MIT-MAGIC-COOKIE-1''" by (simp add: hello_bytes_def)
  show ?thesis by (simp add: x_authenticate_def h f p a k [simplified] n Let_def)
qed

theorem x_server_safe_witness:
  "\<exists>c reason. x_serve (\<lambda>_. paste_env) 0 focus_request (x_connect True 0x200000 CORE_ATOMS) = (c, reason) \<and>
    reason \<noteq> Panic \<and> x_ok c \<and> (\<exists>outs. xc_out c = concat outs \<and> numbered (xc_order c) 0 outs)"
proof -
  have "\<forall>n. env_ok ((\<lambda>_ :: nat. paste_env) n)" by (simp add: env_ok_def paste_env_def)
  moreover have "atoms_ok CORE_ATOMS" by (simp add: atoms_ok_def CORE_ATOMS_def)
  moreover obtain c reason where
    "x_serve (\<lambda>_. paste_env) 0 focus_request (x_connect True 0x200000 CORE_ATOMS) = (c, reason)" by fastforce
  ultimately show ?thesis using x_server_safe [where env = "\<lambda>_. paste_env", OF _ _ hello_accepted] by blast
qed

end
