(* ===== verification/Wayland.thy ===== *)
theory Wayland
  imports XServer "HOL-Library.Sublist"
begin

text \<open>
  The Wayland clipboard server of the agent, \<open>wl_protocol.rs\<close> and \<open>wl_transfer.rs\<close>: data-control
  devices, the offers published on them, and the transfers of their contents into a pipe. Object
  creation and delivery are \<open>wayland_server\<close>'s: whether an object is still alive and whether a new one
  can be created are inputs of the handlers, and what they tell clients is a list of events. A
  transfer runs in a thread of its own from \<open>receive\<close> to its end.
\<close>

section \<open>State\<close>

datatype wl_event =
    DataOffer nat nat
  | OfferMime nat string
  | Selection nat "nat option"
  | PostError nat string

record wl_job =
  wj_revision :: revision
  wj_mime :: string

record wl_offer =
  wo_device :: nat
  wo_revision :: "revision option"

record wl_state =
  ws_revision :: "revision option"
  ws_formats :: "string list"
  ws_devices :: "nat list"
  ws_active :: "nat \<Rightarrow> nat"
  ws_offers :: "(nat \<times> wl_offer) list"
  ws_jobs :: "wl_job list"
  ws_next :: nat
  ws_events :: "wl_event list"

text \<open>
  What a handler meets: the source's offer, which devices are alive, whether an object can be created.
\<close>

record wl_env =
  we_offer :: "(revision \<times> string list) option"
  we_alive :: "nat \<Rightarrow> bool"
  we_create :: bool

definition wl_new :: wl_state where
  "wl_new = \<lparr>ws_revision = None, ws_formats = [], ws_devices = [], ws_active = (\<lambda>_. 0), ws_offers = [],
     ws_jobs = [], ws_next = 0, ws_events = []\<rparr>"

definition tell :: "wl_event list \<Rightarrow> wl_state \<Rightarrow> wl_state" where
  "tell es s = s\<lparr>ws_events := ws_events s @ es\<rparr>"

section \<open>Publishing\<close>

definition MAX_OFFERS :: nat where "MAX_OFFERS = 32"
definition MAX_DEVICES :: nat where "MAX_DEVICES = 32"
definition MAX_TRANSFERS :: nat where "MAX_TRANSFERS = 8"

definition mime_events :: "nat \<Rightarrow> string list \<Rightarrow> wl_event list" where
  "mime_events i formats = map (OfferMime i) formats @
     (if ''text/plain'' \<in> set formats then [OfferMime i ''text/plain;charset=utf-8''] else [])"

definition wl_publish :: "wl_env \<Rightarrow> nat \<Rightarrow> wl_state \<Rightarrow> wl_state" where
  "wl_publish env d s =
     (if \<not> we_alive env d then s
      else if ws_formats s = [] then tell [Selection d None] s
      else if MAX_OFFERS \<le> ws_active s d then tell [PostError d ''Too many outstanding clipboard offers''] s
      else if \<not> we_create env then s
      else (let i = ws_next s in
        tell (DataOffer d i # mime_events i (ws_formats s) @ [Selection d (Some i)])
          (s\<lparr>ws_active := (ws_active s)(d := ws_active s d + 1), ws_next := i + 1,
             ws_offers := (i, \<lparr>wo_device = d, wo_revision = ws_revision s\<rparr>) # ws_offers s\<rparr>)))"

definition wl_refresh :: "wl_env \<Rightarrow> wl_state \<Rightarrow> wl_state" where
  "wl_refresh env s =
     (let s1 = s\<lparr>ws_devices := filter (we_alive env) (ws_devices s)\<rparr>;
          current = map_option fst (we_offer env) in
      if ws_revision s1 = current then s1
      else (let s2 = s1\<lparr>ws_revision := current,
                  ws_formats := (case we_offer env of Some (_, fs) \<Rightarrow> fs | None \<Rightarrow> [])\<rparr> in
            fold (wl_publish env) (ws_devices s2) s2))"

section \<open>Requests\<close>

definition READ_ONLY :: string where "READ_ONLY = ''Newport clipboard is read-only''"

text \<open>\<open>get_data_device\<close>: the new object is numbered by the next number.\<close>

definition wl_device :: "wl_env \<Rightarrow> wl_state \<Rightarrow> wl_state" where
  "wl_device env s =
     (let s1 = wl_refresh env s; d = ws_next s1; s2 = s1\<lparr>ws_next := d + 1\<rparr> in
      if MAX_DEVICES \<le> length (ws_devices s2) then tell [PostError d ''Too many clipboard devices''] s2
      else (let s3 = wl_publish env d s2 in s3\<lparr>ws_devices := ws_devices s3 @ [d]\<rparr>))"

definition wl_write_attempt :: "nat \<Rightarrow> wl_state \<Rightarrow> wl_state" where
  "wl_write_attempt i s = tell [PostError i READ_ONLY] s"

definition wanted_mime :: "string \<Rightarrow> string" where
  "wanted_mime m = (if m = ''text/plain;charset=utf-8'' then ''text/plain'' else m)"

text \<open>\<open>receive\<close>: only an offer of what the clipboard holds now starts a transfer.\<close>

definition wl_receive :: "wl_env \<Rightarrow> nat \<Rightarrow> string \<Rightarrow> wl_state \<Rightarrow> wl_state" where
  "wl_receive env i mime s =
     (case map_of (ws_offers s) i of
        None \<Rightarrow> s
      | Some off \<Rightarrow>
          (case wo_revision off of
             None \<Rightarrow> s
           | Some r \<Rightarrow>
               if map_option fst (we_offer env) \<noteq> Some r \<or> ws_revision s \<noteq> Some r then s
               else if wanted_mime mime \<notin> set (ws_formats s) \<or> MAX_TRANSFERS \<le> length (ws_jobs s) then s
               else s\<lparr>ws_jobs := ws_jobs s @ [\<lparr>wj_revision = r, wj_mime = wanted_mime mime\<rparr>]\<rparr>))"

text \<open>An offer object is destroyed: its device has one fewer outstanding.\<close>

definition wl_drop_offer :: "nat \<Rightarrow> wl_state \<Rightarrow> wl_state" where
  "wl_drop_offer i s =
     (case map_of (ws_offers s) i of
        None \<Rightarrow> s
      | Some off \<Rightarrow> s\<lparr>ws_offers := adel i (ws_offers s),
                       ws_active := (ws_active s)(wo_device off := ws_active s (wo_device off) - 1)\<rparr>)"

definition wl_finish :: "nat \<Rightarrow> wl_state \<Rightarrow> wl_state" where
  "wl_finish k s = s\<lparr>ws_jobs := take k (ws_jobs s) @ drop (Suc k) (ws_jobs s)\<rparr>"

section \<open>Transfers\<close>

text \<open>
  \<open>write_pipe\<close>, one turn of the loop for each element of the list: whether the server is stopping,
  whether the deadline has passed, and what \<open>write\<close> reports. A file that cannot be made non-blocking
  fails before the first turn. The list is what the process observes until the loop ends.
\<close>

datatype write_result = Wrote nat | WouldBlock | WriteInterrupted | WriteFailed

datatype pipe_error = TimedOut | WriteZero | Stopped | PipeFailed

fun pipe_loop :: "(bool \<times> bool \<times> write_result) list \<Rightarrow> bytes \<Rightarrow> bytes \<times> (pipe_error + unit) option" where
  "pipe_loop turns [] = ([], Some (Inr ()))"
| "pipe_loop [] (b # bs) = ([], None)"
| "pipe_loop ((stop, late, r) # turns) (b # bs) =
     (if stop then ([], Some (Inl Stopped))
      else if late then ([], Some (Inl TimedOut))
      else case r of
          Wrote n \<Rightarrow>
            if n = 0 then ([], Some (Inl WriteZero))
            else (case pipe_loop turns (drop n (b # bs)) of (out, res) \<Rightarrow> (take n (b # bs) @ out, res))
        | WouldBlock \<Rightarrow> pipe_loop turns (b # bs)
        | WriteInterrupted \<Rightarrow> pipe_loop turns (b # bs)
        | WriteFailed \<Rightarrow> ([], Some (Inl PipeFailed)))"

text \<open>The thread of a transfer: what reaches the pipe, and its result once it has one.\<close>

definition wl_transfer ::
  "(revision \<Rightarrow> string \<Rightarrow> bytes option) \<Rightarrow> bool \<Rightarrow> (bool \<times> bool \<times> write_result) list \<Rightarrow> wl_job \<Rightarrow>
   bytes \<times> (pipe_error + unit) option" where
  "wl_transfer get nonblocking turns j =
     (case get (wj_revision j) (wj_mime j) of
        None \<Rightarrow> ([], Some (Inl PipeFailed))
      | Some b \<Rightarrow> if nonblocking then pipe_loop turns b else ([], Some (Inl PipeFailed)))"

section \<open>All runs\<close>

inductive wl_step :: "wl_state \<Rightarrow> wl_state \<Rightarrow> bool" where
  refresh: "wl_step s (wl_refresh env s)"
| device: "wl_step s (wl_device env s)"
| write_attempt: "wl_step s (wl_write_attempt i s)"
| receive: "wl_step s (wl_receive env i mime s)"
| drop_offer: "wl_step s (wl_drop_offer i s)"
| finish: "k < length (ws_jobs s) \<Longrightarrow> wl_step s (wl_finish k s)"

inductive wl_reachable :: "wl_state \<Rightarrow> bool" where
  init: "wl_reachable wl_new"
| step: "wl_reachable s \<Longrightarrow> wl_step s t \<Longrightarrow> wl_reachable t"

code_pred wl_reachable .

section \<open>The bounds\<close>

definition live_offers :: "nat \<Rightarrow> wl_state \<Rightarrow> nat" where
  "live_offers d s = length (filter (\<lambda>(_, off). wo_device off = d) (ws_offers s))"

definition wl_ok :: "wl_state \<Rightarrow> bool" where
  "wl_ok s \<longleftrightarrow> length (ws_devices s) \<le> MAX_DEVICES \<and> length (ws_jobs s) \<le> MAX_TRANSFERS \<and>
     (\<forall>d. ws_active s d = live_offers d s) \<and> (\<forall>d. live_offers d s \<le> MAX_OFFERS) \<and>
     distinct (map fst (ws_offers s)) \<and> list_all (\<lambda>(i, _). i < ws_next s) (ws_offers s)"

lemma tell_ok [simp]: "wl_ok (tell es s) = wl_ok s"
  by (simp add: wl_ok_def live_offers_def tell_def)

lemma tell_simps [simp]:
  "ws_devices (tell es s) = ws_devices s" "ws_jobs (tell es s) = ws_jobs s" "ws_next (tell es s) = ws_next s"
  by (simp_all add: tell_def)

text \<open>Publishing keeps everything but the offers, their counts and the numbers.\<close>

lemma publish_ok:
  assumes "wl_ok s"
  shows "wl_ok (wl_publish env d s) \<and> ws_devices (wl_publish env d s) = ws_devices s \<and>
    ws_next s \<le> ws_next (wl_publish env d s)"
proof -
  have fresh: "ws_next s \<notin> fst ` set (ws_offers s)"
    using assms by (auto simp: wl_ok_def list_all_iff)
  have less: "list_all (\<lambda>(i, _). i < Suc (ws_next s)) (ws_offers s)"
    using assms by (auto simp: wl_ok_def list_all_iff)
  have "ws_active s d < MAX_OFFERS \<Longrightarrow> wl_ok (s\<lparr>ws_active := (ws_active s)(d := ws_active s d + 1),
      ws_next := ws_next s + 1, ws_offers := (ws_next s, \<lparr>wo_device = d, wo_revision = ws_revision s\<rparr>) # ws_offers s\<rparr>)"
    using assms fresh less by (auto simp: wl_ok_def live_offers_def)
  then show ?thesis using assms by (simp add: wl_publish_def Let_def not_le)
qed

lemma publish_all_ok:
  assumes "wl_ok s"
  shows "wl_ok (fold (wl_publish env) ds s) \<and> ws_devices (fold (wl_publish env) ds s) = ws_devices s"
  using assms
proof (induction ds arbitrary: s)
  case (Cons d ds)
  then show ?case using publish_ok [OF Cons.prems, of env d] by simp
qed simp

lemma refresh_ok: "wl_ok s \<Longrightarrow> wl_ok (wl_refresh env s)"
proof -
  assume ok: "wl_ok s"
  have "wl_ok (s\<lparr>ws_devices := filter P (ws_devices s), ws_revision := r, ws_formats := fs\<rparr>)" for P r fs
    using ok by (auto simp: wl_ok_def live_offers_def intro: order_trans [OF length_filter_le])
  moreover have "wl_ok (s\<lparr>ws_devices := filter P (ws_devices s)\<rparr>)" for P
    using ok by (auto simp: wl_ok_def live_offers_def intro: order_trans [OF length_filter_le])
  ultimately show ?thesis using publish_all_ok by (simp add: wl_refresh_def Let_def)
qed

lemma device_ok: "wl_ok s \<Longrightarrow> wl_ok (wl_device env s)"
proof -
  assume "wl_ok s"
  then have r: "wl_ok (wl_refresh env s)" by (rule refresh_ok)
  define s2 where "s2 = (wl_refresh env s)\<lparr>ws_next := ws_next (wl_refresh env s) + 1\<rparr>"
  have s2: "wl_ok s2" using r by (auto simp: s2_def wl_ok_def live_offers_def list_all_iff)
  have p: "wl_ok (wl_publish env d s2)" "ws_devices (wl_publish env d s2) = ws_devices s2" for d
    using publish_ok [OF s2] by simp_all
  then have "length (ws_devices s2) < MAX_DEVICES \<Longrightarrow>
      wl_ok ((wl_publish env d s2)\<lparr>ws_devices := ws_devices (wl_publish env d s2) @ [d]\<rparr>)" for d
    by (simp add: wl_ok_def live_offers_def)
  then show ?thesis
    using s2 unfolding wl_device_def Let_def s2_def [symmetric] by (simp add: not_le)
qed

lemma receive_ok: "wl_ok s \<Longrightarrow> wl_ok (wl_receive env i mime s)"
  by (auto simp: wl_receive_def wl_ok_def live_offers_def split: option.splits)

lemma drop_ok:
  assumes "wl_ok s"
  shows "wl_ok (wl_drop_offer i s)"
proof (cases "map_of (ws_offers s) i")
  case (Some off)
  have d: "distinct (map fst (ws_offers s))" using assms by (simp add: wl_ok_def)
  have count: "length (filter Q (adel k m)) = length (filter Q m) - (if Q (k, v) then 1 else 0)"
    if "distinct (map fst m)" "map_of m k = Some v" for Q k v and m :: "(nat \<times> wl_offer) list"
    using that
  proof (induction m)
    case (Cons a m)
    obtain k' v' where a: "a = (k', v')" by (cases a)
    show ?case
    proof (cases "k' = k")
      case True
      then have "k \<notin> fst ` set m" using Cons.prems a by simp
      then have "adel k m = m" by (force simp: adel_def filter_id_conv)
      then show ?thesis using Cons.prems a True by (simp add: adel_def)
    next
      case False
      moreover have "length (filter Q m) \<noteq> 0" if "Q (k, v)"
        using Cons.prems that False a by (auto simp: filter_empty_conv dest!: map_of_SomeD)
      ultimately show ?thesis using Cons a by (auto simp: adel_def)
    qed
  qed simp
  define s' where "s' = wl_drop_offer i s"
  have s': "ws_offers s' = adel i (ws_offers s)"
    "ws_active s' = (ws_active s)(wo_device off := ws_active s (wo_device off) - 1)"
    "ws_devices s' = ws_devices s" "ws_jobs s' = ws_jobs s" "ws_next s' = ws_next s"
    using Some by (simp_all add: s'_def wl_drop_offer_def)
  have "live_offers x s' = live_offers x s - (if wo_device off = x then 1 else 0)" for x
    using count [OF d Some, of "\<lambda>(_, o'). wo_device o' = x"] by (simp add: live_offers_def s')
  moreover have "distinct (map fst (ws_offers s'))" using d by (simp add: s' distinct_adel)
  moreover have "list_all (\<lambda>(j, _). j < ws_next s) (ws_offers s')"
    using assms by (auto simp: wl_ok_def s' adel_def list_all_iff)
  moreover have "ws_active s x = live_offers x s" "live_offers x s \<le> MAX_OFFERS" for x
    using assms by (simp_all add: wl_ok_def)
  moreover have "n \<le> m \<Longrightarrow> n - k \<le> m" for n m k :: nat by simp
  ultimately have "wl_ok s'"
    using assms unfolding wl_ok_def s' by simp
  then show ?thesis by (simp add: s'_def)
qed (use assms in \<open>simp add: wl_drop_offer_def\<close>)

lemma reachable_ok: "wl_reachable s \<Longrightarrow> wl_ok s"
proof (induction rule: wl_reachable.induct)
  case init
  show ?case by (simp add: wl_new_def wl_ok_def live_offers_def)
next
  case (step s t)
  from step.hyps(2) step.IH show ?case
  proof (induction rule: wl_step.induct)
    case (finish k s)
    then show ?case by (auto simp: wl_finish_def wl_ok_def live_offers_def)
  qed (simp_all add: refresh_ok device_ok receive_ok drop_ok wl_write_attempt_def)
qed

section \<open>What reaches a pipe\<close>

lemma pipe_loop_prefix:
  assumes "pipe_loop turns b = (out, res)"
  shows "(\<exists>rest. b = out @ rest) \<and> (res = Some (Inr ()) \<longleftrightarrow> out = b)"
  using assms
proof (induction turns b arbitrary: out res rule: pipe_loop.induct)
  case (3 stop late r turns c bs)
  show ?case
  proof (cases "\<not> stop \<and> \<not> late")
    case True
    show ?thesis
    proof (cases r)
      case (Wrote n)
      obtain o2 r2 where rec: "pipe_loop turns (drop n (c # bs)) = (o2, r2)" by fastforce
      show ?thesis
      proof (cases "n = 0")
        case False
        then have "out = take n (c # bs) @ o2" "res = r2" using "3.prems" True Wrote rec by simp_all
        moreover have "(\<exists>rest. drop n (c # bs) = o2 @ rest) \<and> (r2 = Some (Inr ()) \<longleftrightarrow> o2 = drop n (c # bs))"
          using "3.IH"(1) True Wrote False rec by simp
        ultimately show ?thesis by (metis append.assoc append_take_drop_id same_append_eq)
      qed (use "3.prems" True Wrote in auto)
    qed (use "3.prems" "3.IH"(2,3) True in auto)
  qed (use "3.prems" in \<open>auto split: if_splits\<close>)
qed auto

text \<open>
  C34: However clients, the clipboard and the transfers interleave, the Wayland server keeps at most 32
  devices, 32 live offers of a device and 8 transfers. A transfer is started only through an offer of
  the revision that the source has and the server published, for a format it has; what reaches the pipe
  is a prefix of what the source returns for that revision and format, and the transfer reports
  success only when it is all of it.
\<close>

theorem wayland_safe:
  assumes "wl_reachable s"
  shows "length (ws_devices s) \<le> MAX_DEVICES \<and> live_offers d s \<le> MAX_OFFERS \<and>
    length (ws_jobs s) \<le> MAX_TRANSFERS \<and>
    (ws_jobs (wl_receive env i mime s) = ws_jobs s \<or>
     (\<exists>off r. map_of (ws_offers s) i = Some off \<and> wo_revision off = Some r \<and>
        map_option fst (we_offer env) = Some r \<and> ws_revision s = Some r \<and>
        wanted_mime mime \<in> set (ws_formats s) \<and>
        ws_jobs (wl_receive env i mime s) = ws_jobs s @ [\<lparr>wj_revision = r, wj_mime = wanted_mime mime\<rparr>])) \<and>
    (case wl_transfer get nonblocking turns j of (out, res) \<Rightarrow>
       (case get (wj_revision j) (wj_mime j) of
          None \<Rightarrow> out = [] \<and> res = Some (Inl PipeFailed)
        | Some b \<Rightarrow> prefix out b \<and> (res = Some (Inr ()) \<longrightarrow> out = b)))"
proof -
  have ok: "wl_ok s" using assms by (rule reachable_ok)
  have "ws_jobs (wl_receive env i mime s) = ws_jobs s \<or>
     (\<exists>off r. map_of (ws_offers s) i = Some off \<and> wo_revision off = Some r \<and>
        map_option fst (we_offer env) = Some r \<and> ws_revision s = Some r \<and>
        wanted_mime mime \<in> set (ws_formats s) \<and>
        ws_jobs (wl_receive env i mime s) = ws_jobs s @ [\<lparr>wj_revision = r, wj_mime = wanted_mime mime\<rparr>])"
    by (auto simp: wl_receive_def split: option.splits)
  moreover have "case wl_transfer get nonblocking turns j of (out, res) \<Rightarrow>
       (case get (wj_revision j) (wj_mime j) of
          None \<Rightarrow> out = [] \<and> res = Some (Inl PipeFailed)
        | Some b \<Rightarrow> prefix out b \<and> (res = Some (Inr ()) \<longrightarrow> out = b))"
    by (auto simp: wl_transfer_def prefix_def split: option.splits prod.splits dest!: pipe_loop_prefix)
  ultimately show ?thesis using ok by (simp add: wl_ok_def)
qed

definition wl_sample_env :: wl_env where
  "wl_sample_env = \<lparr>we_offer = Some ((0, 7, 0), [''text/plain'']), we_alive = (\<lambda>_. True), we_create = True\<rparr>"

theorem wayland_safe_witness:
  "length (ws_jobs (wl_receive wl_sample_env 1 ''text/plain'' (wl_device wl_sample_env wl_new))) = 1 \<and>
   length (ws_devices (wl_device wl_sample_env wl_new)) \<le> MAX_DEVICES"
proof -
  have "wl_reachable (wl_device wl_sample_env wl_new)"
    by (rule wl_reachable.step [OF wl_reachable.init wl_step.device])
  from wayland_safe [OF this] show ?thesis
    by (simp add: wl_device_def wl_refresh_def wl_publish_def wl_receive_def wl_sample_env_def wl_new_def
        tell_def Let_def MAX_OFFERS_def MAX_DEVICES_def MAX_TRANSFERS_def wanted_mime_def)
qed

end
