(* ===== verification/Lanes.thy ===== *)
theory Lanes
  imports Requests Dispatch
begin

text \<open>
  How the desktop's requests share one Git session (\<open>src-tauri/src/git/mod.rs\<close>, \<open>reads.rs\<close>): four
  lanes, each a channel with an agent of its own and one request at a time; a lock that readers share
  and a write holds alone; the keepalive that pings idle lanes; and the registry that lets a read be
  cancelled. The \<open>tokio\<close> locks are modelled by who holds them; every interleaving is a run of
  \<open>lane_step\<close>.
\<close>

section \<open>Which lane, which access, how long\<close>

definition request_lane :: "request \<Rightarrow> nat" where
  "request_lane rq =
     (case rq of
        RemoteRefs _ _ _ _ _ _ _ \<Rightarrow> 3
      | History _ _ _ _ _ \<Rightarrow> 1
      | Tag _ _ \<Rightarrow> 2 | Commit _ _ \<Rightarrow> 2 | BlobPage _ _ _ _ \<Rightarrow> 2 | Blob _ _ \<Rightarrow> 2
      | CommitFiles _ _ _ _ _ \<Rightarrow> 2 | CommitDiffPage _ _ _ _ _ _ _ _ _ \<Rightarrow> 2 | CommitDiff _ _ _ _ _ \<Rightarrow> 2
      | DiffPage _ _ _ _ _ _ _ _ _ \<Rightarrow> 2 | Diff _ _ _ _ _ \<Rightarrow> 2
      | _ \<Rightarrow> 0)"

definition exclusive :: "request \<Rightarrow> bool" where
  "exclusive rq = (case rq of Start _ _ _ _ \<Rightarrow> True | Init _ _ _ \<Rightarrow> True | Clone _ _ _ _ _ \<Rightarrow> True
     | request.Review _ \<Rightarrow> True | _ \<Rightarrow> False)"

definition reusable :: "bool \<Rightarrow> nat \<Rightarrow> nat \<Rightarrow> bool" where
  "reusable cancelled revision current \<longleftrightarrow> \<not> cancelled \<and> revision = current"

definition IDLE :: nat where "IDLE = 600"

definition idle_expired :: "nat \<Rightarrow> nat \<Rightarrow> bool" where
  "idle_expired last_used now \<longleftrightarrow> IDLE \<le> now - last_used"

definition verify_backend :: "json \<Rightarrow> gerror + unit" where
  "verify_backend info =
     (if jstr (jget (jget info ''capabilities'') ''backend'') = Some ''cli'' then Inr ()
      else Inl (gerror_new ''UNSUPPORTED_CAPABILITY'' (''The agent requires an update to support the Git '' @
        ''CLI backend. Update the agent and reconnect.'')))"

section \<open>The registry of reads\<close>

type_synonym read_key = "string \<times> string"

record read_entry =
  re_claimed :: bool
  re_created :: nat

record registry =
  rg_entries :: "(read_key \<times> read_entry) list"
  rg_signals :: "read_key list"

definition MAX_READS :: nat where "MAX_READS = 256"
definition READ_EXPIRY :: nat where "READ_EXPIRY = 60"

definition fresh_read :: "nat \<Rightarrow> read_entry \<Rightarrow> bool" where
  "fresh_read now e \<longleftrightarrow> re_claimed e \<or> now - re_created e < READ_EXPIRY"

text \<open>\<open>register\<close>: \<open>i\<close> is what \<open>Uuid::new_v4\<close> yields.\<close>

definition rg_register :: "nat \<Rightarrow> string \<Rightarrow> string \<Rightarrow> registry \<Rightarrow> registry \<times> (gerror + string)" where
  "rg_register now server i rg =
     (let rg1 = rg\<lparr>rg_entries := filter (\<lambda>(_, e). fresh_read now e) (rg_entries rg)\<rparr> in
      if MAX_READS \<le> length (rg_entries rg1)
      then (rg1, Inl (gerror_new ''TOO_MANY_REQUESTS'' ''Too many pending Git reads.''))
      else (rg1\<lparr>rg_entries := aput (server, i) \<lparr>re_claimed = False, re_created = now\<rparr> (rg_entries rg1)\<rparr>, Inr i))"

definition rg_claim :: "read_key \<Rightarrow> registry \<Rightarrow> registry \<times> (gerror + read_key)" where
  "rg_claim k rg =
     (case map_of (rg_entries rg) k of
        None \<Rightarrow> (rg, Inl read_cancelled)
      | Some e \<Rightarrow>
          if re_claimed e then (rg, Inl (gerror_invalid ''Git read ID was already used.''))
          else (rg\<lparr>rg_entries := aput k (e\<lparr>re_claimed := True\<rparr>) (rg_entries rg)\<rparr>, Inr k))"

text \<open>\<open>cancel\<close> raises the signal of the entry it removes; dropping a read removes its entry.\<close>

definition rg_cancel :: "read_key \<Rightarrow> registry \<Rightarrow> registry" where
  "rg_cancel k rg =
     (if map_of (rg_entries rg) k = None then rg
      else rg\<lparr>rg_entries := adel k (rg_entries rg), rg_signals := k # rg_signals rg\<rparr>)"

definition rg_drop :: "read_key \<Rightarrow> registry \<Rightarrow> registry" where
  "rg_drop k rg = rg\<lparr>rg_entries := adel k (rg_entries rg)\<rparr>"

definition read_is_cancelled :: "read_key \<Rightarrow> registry \<Rightarrow> bool" where
  "read_is_cancelled k rg \<longleftrightarrow> k \<in> set (rg_signals rg)"

text \<open>
  All uses of a registry: what was registered, claimed and given up. A number from \<open>Uuid::new_v4\<close> is
  one never issued before; only the holder of a claimed read drops it.
\<close>

record read_history =
  rh_registry :: registry
  rh_issued :: "read_key list"
  rh_claims :: "read_key list"
  rh_drops :: "read_key list"

inductive read_step :: "read_history \<Rightarrow> read_history \<Rightarrow> bool" where
  registered: "(server, i) \<notin> set (rh_issued h) \<Longrightarrow> rg_register now server i (rh_registry h) = (rg, Inr j) \<Longrightarrow>
    read_step h (h\<lparr>rh_registry := rg, rh_issued := (server, i) # rh_issued h\<rparr>)"
| refused: "rg_register now server i (rh_registry h) = (rg, Inl e) \<Longrightarrow> read_step h (h\<lparr>rh_registry := rg\<rparr>)"
| claimed: "rg_claim k (rh_registry h) = (rg, Inr k) \<Longrightarrow>
    read_step h (h\<lparr>rh_registry := rg, rh_claims := k # rh_claims h\<rparr>)"
| cancelled: "read_step h (h\<lparr>rh_registry := rg_cancel k (rh_registry h)\<rparr>)"
| dropped: "k \<in> set (rh_claims h) \<Longrightarrow>
    read_step h (h\<lparr>rh_registry := rg_drop k (rh_registry h), rh_drops := k # rh_drops h\<rparr>)"

definition no_reads :: read_history where
  "no_reads = \<lparr>rh_registry = \<lparr>rg_entries = [], rg_signals = []\<rparr>, rh_issued = [], rh_claims = [], rh_drops = []\<rparr>"

inductive read_reachable :: "read_history \<Rightarrow> bool" where
  init: "read_reachable no_reads"
| step: "read_reachable h \<Longrightarrow> read_step h h' \<Longrightarrow> read_reachable h'"


text \<open>The invariant of a registry and its history.\<close>

definition entry_ok :: "read_history \<Rightarrow> read_key \<Rightarrow> read_entry \<Rightarrow> bool" where
  "entry_ok h k e \<longleftrightarrow> k \<in> set (rh_issued h) \<and> k \<notin> set (rg_signals (rh_registry h))
     \<and> (re_claimed e \<longleftrightarrow> k \<in> set (rh_claims h))"

definition reads_ok :: "read_history \<Rightarrow> bool" where
  "reads_ok h \<longleftrightarrow>
     length (rg_entries (rh_registry h)) \<le> MAX_READS \<and> distinct (rh_claims h) \<and>
     distinct (map fst (rg_entries (rh_registry h))) \<and>
     set (rh_claims h) \<subseteq> set (rh_issued h) \<and> set (rg_signals (rh_registry h)) \<subseteq> set (rh_issued h) \<and>
     (\<forall>k e. map_of (rg_entries (rh_registry h)) k = Some e \<longrightarrow> entry_ok h k e) \<and>
     (\<forall>k \<in> set (rh_claims h) - set (rh_drops h) - set (rg_signals (rh_registry h)).
        map_of (rg_entries (rh_registry h)) k \<noteq> None)"

lemma length_adel: "length (adel k m) \<le> length m"
  by (simp add: adel_def)

declare map_of_eq_Some_iff [simp del] split_paired_All [simp del] split_paired_Ex [simp del]

lemma entry_okD: "reads_ok h \<Longrightarrow> map_of (rg_entries (rh_registry h)) k = Some e \<Longrightarrow> entry_ok h k e"
  by (simp add: reads_ok_def)

lemma claimed_kept:
  "reads_ok h \<Longrightarrow> k \<in> set (rh_claims h) \<Longrightarrow> k \<notin> set (rh_drops h) \<Longrightarrow> k \<notin> set (rg_signals (rh_registry h)) \<Longrightarrow>
   map_of (rg_entries (rh_registry h)) k \<noteq> None"
  unfolding reads_ok_def by blast

lemma map_of_retain:
  "distinct (map fst m) \<Longrightarrow> map_of (filter (\<lambda>(_, e). P e) m) k = (case map_of m k of Some e \<Rightarrow> if P e then Some e else None | None \<Rightarrow> None)"
  by (induction m) (auto simp: map_of_eq_None_iff split: option.splits)

lemma distinct_retain: "distinct (map fst m) \<Longrightarrow> distinct (map fst (filter P m))"
  by (simp add: distinct_map_filter)

lemma retain_ok:
  assumes "reads_ok h"
  shows "reads_ok (h\<lparr>rh_registry := (rh_registry h)\<lparr>rg_entries :=
           filter (\<lambda>(_, e). fresh_read now e) (rg_entries (rh_registry h))\<rparr>\<rparr>)"
proof -
  let ?m = "rg_entries (rh_registry h)"
  have "length (filter (\<lambda>(_, e). fresh_read now e) ?m) \<le> MAX_READS"
    using assms length_filter_le [of "\<lambda>(_, e). fresh_read now e" ?m] unfolding reads_ok_def by linarith
  moreover have "map_of (filter (\<lambda>(_, e). fresh_read now e) ?m) k \<noteq> None"
    if "k \<in> set (rh_claims h)" "map_of ?m k \<noteq> None" for k
    using that assms by (auto simp: reads_ok_def map_of_retain entry_ok_def fresh_read_def)
  ultimately show ?thesis using assms
    by (auto simp: reads_ok_def distinct_retain map_of_retain entry_ok_def split: option.splits if_splits)
qed

lemma reads_step:
  assumes "read_step h h'" "reads_ok h"
  shows "reads_ok h'"
  using assms(1)
proof cases
  case (registered server i now rg j)
  let ?m = "filter (\<lambda>(_, e). fresh_read now e) (rg_entries (rh_registry h))"
  have r: "reads_ok (h\<lparr>rh_registry := (rh_registry h)\<lparr>rg_entries := ?m\<rparr>\<rparr>)" using assms(2) by (rule retain_ok)
  have "length ?m < MAX_READS"
    and rg: "rg = (rh_registry h)\<lparr>rg_entries := aput (server, i) \<lparr>re_claimed = False, re_created = now\<rparr> ?m\<rparr>"
    using registered(3) by (auto simp: rg_register_def Let_def split: if_splits)
  moreover have "(server, i) \<notin> set (rh_claims h)" using registered(2) assms(2) by (auto simp: reads_ok_def)
  ultimately show ?thesis using r registered(2) unfolding registered(1) rg
    by (auto simp: reads_ok_def entry_ok_def length_aput distinct_aput)
next
  case (refused now server i rg e)
  then have "rg = (rh_registry h)\<lparr>rg_entries := filter (\<lambda>(_, e). fresh_read now e) (rg_entries (rh_registry h))\<rparr>"
    by (auto simp: rg_register_def Let_def split: if_splits)
  then show ?thesis using retain_ok [OF assms(2)] refused by simp
next
  case (claimed k rg)
  then obtain e where e: "map_of (rg_entries (rh_registry h)) k = Some e" "\<not> re_claimed e"
    and rg: "rg = (rh_registry h)\<lparr>rg_entries := aput k (e\<lparr>re_claimed := True\<rparr>) (rg_entries (rh_registry h))\<rparr>"
    by (auto simp: rg_claim_def split: option.splits if_splits)
  have "k \<in> fst ` set (rg_entries (rh_registry h))" using e(1) by (force dest: map_of_SomeD)
  moreover have "entry_ok h k e" using assms(2) e(1) by (simp add: reads_ok_def)
  ultimately show ?thesis using assms(2) e unfolding claimed(1) rg
    by (auto simp: reads_ok_def entry_ok_def length_aput distinct_aput split: if_splits)
next
  case (cancelled k)
  show ?thesis
  proof (cases "map_of (rg_entries (rh_registry h)) k")
    case None
    then show ?thesis using assms(2) cancelled by (simp add: rg_cancel_def)
  next
    case (Some e)
    then have "entry_ok h k e" using assms(2) by (simp add: reads_ok_def)
    moreover have "length (adel k (rg_entries (rh_registry h))) \<le> MAX_READS"
      using assms(2) length_adel [of k "rg_entries (rh_registry h)"] unfolding reads_ok_def by linarith
    ultimately show ?thesis using assms(2) Some unfolding cancelled
      by (auto simp: reads_ok_def entry_ok_def rg_cancel_def distinct_adel split: if_splits)
  qed
next
  case (dropped k)
  have "length (adel k (rg_entries (rh_registry h))) \<le> MAX_READS"
    using assms(2) length_adel [of k "rg_entries (rh_registry h)"] unfolding reads_ok_def by linarith
  then show ?thesis using assms(2) unfolding dropped(1)
    by (auto simp: reads_ok_def entry_ok_def rg_drop_def distinct_adel split: if_splits)
qed

lemma reads_hold: "read_reachable h \<Longrightarrow> reads_ok h"
proof (induction rule: read_reachable.induct)
  case init
  show ?case by (simp add: reads_ok_def no_reads_def MAX_READS_def)
next
  case (step h h')
  then show ?case by (metis reads_step)
qed

text \<open>
  C36: However registrations, claims, cancellations and drops interleave, each registered read is claimed
  at most once; at most 256 entries are kept; a cancelled read can never be claimed afterwards, so a
  cancellation that arrives before the request itself is not lost; and a cancellation always reaches a
  claimed read that is still running: expiry never removes its entry, so its signal is raised.
\<close>

theorem reads_claimed_once:
  assumes "read_reachable h"
  shows "distinct (rh_claims h)
       \<and> length (rg_entries (rh_registry h)) \<le> 256
       \<and> (\<forall>k. read_is_cancelled k (rh_registry h) \<longrightarrow> snd (rg_claim k (rh_registry h)) = Inl read_cancelled)
       \<and> (\<forall>k. snd (rg_claim k (rg_cancel k (rh_registry h))) = Inl read_cancelled)
       \<and> (\<forall>k \<in> set (rh_claims h) - set (rh_drops h). read_is_cancelled k (rg_cancel k (rh_registry h)))"
proof -
  have ok: "reads_ok h" using assms by (rule reads_hold)
  have "map_of (rg_entries (rh_registry h)) k = None" if "read_is_cancelled k (rh_registry h)" for k
    using that ok unfolding reads_ok_def entry_ok_def read_is_cancelled_def
    by (cases "map_of (rg_entries (rh_registry h)) k") auto
  moreover have "read_is_cancelled k (rg_cancel k (rh_registry h))"
    if "k \<in> set (rh_claims h) - set (rh_drops h)" for k
  proof (cases "k \<in> set (rg_signals (rh_registry h))")
    case False
    then show ?thesis using that claimed_kept [OF ok, of k] by (simp add: read_is_cancelled_def rg_cancel_def)
  qed (simp add: read_is_cancelled_def rg_cancel_def)
  moreover have "map_of (rg_entries (rg_cancel k (rh_registry h))) k = None" for k
    by (simp add: rg_cancel_def)
  ultimately show ?thesis using ok by (auto simp: reads_ok_def MAX_READS_def rg_claim_def)
qed

theorem reads_claimed_once_witness:
  "\<exists>h :: read_history. rh_claims h = [(''srv'', ''a'')]
     \<and> read_is_cancelled (''srv'', ''a'') (rg_cancel (''srv'', ''a'') (rh_registry h))"
proof -
  let ?k = "(''srv'', ''a'')"
  let ?rg = "fst (rg_register 0 ''srv'' ''a'' (rh_registry no_reads))"
  let ?h = "no_reads\<lparr>rh_registry := ?rg, rh_issued := [?k]\<rparr>"
  let ?g = "?h\<lparr>rh_registry := fst (rg_claim ?k ?rg), rh_claims := [?k]\<rparr>"
  have "read_step no_reads ?h"
    using registered [of "''srv''" "''a''" no_reads 0 ?rg "''a''"] by (simp add: no_reads_def rg_register_def MAX_READS_def)
  then have "read_reachable ?h" by (rule read_reachable.step [OF read_reachable.init])
  moreover have "read_step ?h ?g"
    using claimed [of ?k ?h "fst (rg_claim ?k ?rg)"]
    by (simp add: no_reads_def rg_register_def MAX_READS_def rg_claim_def)
  ultimately have r: "read_reachable ?g" by (rule read_reachable.step)
  have "\<forall>k \<in> set (rh_claims ?g) - set (rh_drops ?g). read_is_cancelled k (rg_cancel k (rh_registry ?g))"
    using reads_claimed_once [OF r] by (elim conjE)
  then have "read_is_cancelled ?k (rg_cancel ?k (rh_registry ?g))" by (simp add: no_reads_def)
  moreover have "rh_claims ?g = [?k]" by simp
  ultimately show ?thesis by blast
qed

declare map_of_eq_Some_iff [simp] split_paired_All [simp] split_paired_Ex [simp]

section \<open>The session\<close>

datatype call_phase = Waiting | Access | Lane | Sent | Finished

text \<open>
  The calls of \<open>git_request\<close> by number, whether each lane has an initialized client, which lanes a
  ping holds, and whether the session was closed (\<open>cancelled\<close>).
\<close>

record lanes =
  la_calls :: "nat \<Rightarrow> (request \<times> call_phase) option"
  la_ready :: "nat \<Rightarrow> bool"
  la_pings :: "nat \<Rightarrow> bool"
  la_closed :: bool

definition lanes_start :: lanes where
  "lanes_start = \<lparr>la_calls = Map.empty, la_ready = (\<lambda>l. l = 0), la_pings = (\<lambda>_. False), la_closed = False\<rparr>"

definition holds_access :: "lanes \<Rightarrow> nat \<Rightarrow> request \<Rightarrow> bool" where
  "holds_access s c rq \<longleftrightarrow> (\<exists>p. la_calls s c = Some (rq, p) \<and> p \<in> {Access, Lane, Sent})"

definition holds_lane :: "lanes \<Rightarrow> nat \<Rightarrow> nat \<Rightarrow> bool" where
  "holds_lane s c l \<longleftrightarrow> (\<exists>rq p. la_calls s c = Some (rq, p) \<and> p \<in> {Lane, Sent} \<and> request_lane rq = l)"

text \<open>\<open>request_access\<close>: a writer needs the lock alone, a reader only without a writer.\<close>

definition access_free :: "lanes \<Rightarrow> request \<Rightarrow> bool" where
  "access_free s rq \<longleftrightarrow> (\<forall>c rq'. holds_access s c rq' \<longrightarrow> \<not> exclusive rq \<and> \<not> exclusive rq')"

definition lane_free :: "lanes \<Rightarrow> nat \<Rightarrow> bool" where
  "lane_free s l \<longleftrightarrow> (\<forall>c. \<not> holds_lane s c l) \<and> \<not> la_pings s l"

definition enter :: "nat \<Rightarrow> request \<Rightarrow> call_phase \<Rightarrow> lanes \<Rightarrow> lanes" where
  "enter c rq p s = s\<lparr>la_calls := (la_calls s)(c \<mapsto> (rq, p))\<rparr>"

text \<open>
  A lane whose agent cannot be started: a write, or the loss of the connection (\<open>gone\<close>), closes the
  session; a read gives up alone.
\<close>

definition launch_fails :: "bool \<Rightarrow> request \<Rightarrow> lanes \<Rightarrow> lanes" where
  "launch_fails gone rq s = s\<lparr>la_closed := la_closed s \<or> exclusive rq \<or> gone\<rparr>"

text \<open>
  What an answer does to the lane and the session; \<open>current\<close> is whether the server's configuration is
  still the session's.
\<close>

definition answered :: "bool \<Rightarrow> bool \<Rightarrow> request \<Rightarrow> waited \<Rightarrow> lanes \<Rightarrow> lanes" where
  "answered gone current rq w s =
     (case response (exclusive rq) w of (result, alive) \<Rightarrow>
        if is_error ''READ_CANCELLED'' result
        then s\<lparr>la_ready := (la_ready s)(request_lane rq := alive)\<rparr>
        else if is_error ''READ_CHANNEL_ERROR'' result \<and> gone
        then s\<lparr>la_ready := (la_ready s)(request_lane rq := alive), la_closed := True\<rparr>
        else s\<lparr>la_ready := (la_ready s)(request_lane rq := alive \<and> \<not> broken result),
               la_closed := la_closed s \<or> broken result \<or> \<not> current\<rparr>)"

datatype actor = Call nat | Keepalive | User

inductive lane_step :: "lanes \<Rightarrow> actor \<Rightarrow> lanes \<Rightarrow> bool" where
  arrives: "la_calls s c = None \<Longrightarrow> \<not> la_closed s \<Longrightarrow> lane_step s (Call c) (enter c rq Waiting s)"
| admitted: "la_calls s c = Some (rq, Waiting) \<Longrightarrow> access_free s rq \<Longrightarrow>
    lane_step s (Call c) (enter c rq Access s)"
| locked: "la_calls s c = Some (rq, Access) \<Longrightarrow> lane_free s (request_lane rq) \<Longrightarrow> \<not> la_closed s \<Longrightarrow>
    lane_step s (Call c) (enter c rq Lane s)"
| launched: "la_calls s c = Some (rq, Lane) \<Longrightarrow> \<not> la_ready s (request_lane rq) \<Longrightarrow>
    lane_step s (Call c) (s\<lparr>la_ready := (la_ready s)(request_lane rq := True)\<rparr>)"
| not_launched: "la_calls s c = Some (rq, Lane) \<Longrightarrow> \<not> la_ready s (request_lane rq) \<Longrightarrow>
    lane_step s (Call c) (launch_fails gone rq (enter c rq Finished s))"
| transmits: "la_calls s c = Some (rq, Lane) \<Longrightarrow> la_ready s (request_lane rq) \<Longrightarrow>
    lane_step s (Call c) (enter c rq Sent s)"
| finishes: "la_calls s c = Some (rq, Sent) \<Longrightarrow>
    lane_step s (Call c) (answered gone current rq w (enter c rq Finished s))"
| gives_up: "la_calls s c = Some (rq, p) \<Longrightarrow> p \<in> {Waiting, Access, Lane} \<Longrightarrow>
    lane_step s (Call c) (enter c rq Finished s)"
| pings: "lane_free s l \<Longrightarrow> la_ready s l \<Longrightarrow> lane_step s Keepalive (s\<lparr>la_pings := (la_pings s)(l := True)\<rparr>)"
| pinged: "la_pings s l \<Longrightarrow> lane_step s Keepalive (s\<lparr>la_pings := (la_pings s)(l := False),
    la_ready := (la_ready s)(l := healthy)\<rparr>)"
| idles: "\<forall>c rq. \<not> holds_access s c rq \<Longrightarrow> idle_expired last_used now \<Longrightarrow>
    lane_step s Keepalive (s\<lparr>la_closed := True\<rparr>)"
| disconnects: "lane_step s User (s\<lparr>la_closed := True\<rparr>)"

inductive lane_reachable :: "lanes \<Rightarrow> bool" where
  start: "lane_reachable lanes_start"
| step: "lane_reachable s \<Longrightarrow> lane_step s a t \<Longrightarrow> lane_reachable t"

section \<open>What the locks give\<close>

lemma calls_after [simp]:
  "la_calls (enter c rq p s) = (la_calls s)(c \<mapsto> (rq, p))"
  "la_calls (launch_fails gone rq s) = la_calls s"
  "la_calls (answered gone current rq w s) = la_calls s"
  by (simp_all add: enter_def launch_fails_def answered_def split: prod.splits)

lemma pings_after [simp]:
  "la_pings (enter c rq p s) = la_pings s"
  "la_pings (launch_fails gone rq s) = la_pings s"
  "la_pings (answered gone current rq w s) = la_pings s"
  by (simp_all add: enter_def launch_fails_def answered_def split: prod.splits)

lemma closed_enter [simp]: "la_closed (enter c rq p s) = la_closed s"
  by (simp add: enter_def)

text \<open>The invariant of the locks.\<close>

definition locks_ok :: "lanes \<Rightarrow> bool" where
  "locks_ok s \<longleftrightarrow>
     (\<forall>c d rq rq'. holds_access s c rq \<longrightarrow> exclusive rq \<longrightarrow> holds_access s d rq' \<longrightarrow> d = c) \<and>
     (\<forall>c d l. holds_lane s c l \<longrightarrow> holds_lane s d l \<longrightarrow> d = c) \<and>
     (\<forall>c l. holds_lane s c l \<longrightarrow> \<not> la_pings s l)"

lemma locks_okI:
  assumes "\<And>c d rq rq'. holds_access s c rq \<Longrightarrow> exclusive rq \<Longrightarrow> holds_access s d rq' \<Longrightarrow> d = c"
    and "\<And>c d l. holds_lane s c l \<Longrightarrow> holds_lane s d l \<Longrightarrow> d = c"
    and "\<And>c l. holds_lane s c l \<Longrightarrow> \<not> la_pings s l"
  shows "locks_ok s"
  using assms unfolding locks_ok_def by blast

lemmas holds_defs = holds_access_def holds_lane_def

lemma locks_weaken:
  assumes "locks_ok s" "\<And>c rq. holds_access t c rq \<Longrightarrow> holds_access s c rq"
    "\<And>c l. holds_lane t c l \<Longrightarrow> holds_lane s c l" "\<And>l. la_pings t l \<Longrightarrow> la_pings s l"
  shows "locks_ok t"
  using assms unfolding locks_ok_def by blast

lemma holds_enter [simp]:
  "holds_access (enter c rq p s) d rq' = (if d = c then rq' = rq \<and> p \<in> {Access, Lane, Sent} else holds_access s d rq')"
  "holds_lane (enter c rq p s) d l = (if d = c then l = request_lane rq \<and> p \<in> {Lane, Sent} else holds_lane s d l)"
  by (auto simp: holds_defs)

lemma holds_same [simp]:
  "holds_access (s\<lparr>la_ready := r\<rparr>) = holds_access s" "holds_lane (s\<lparr>la_ready := r\<rparr>) = holds_lane s"
  "holds_access (s\<lparr>la_closed := b\<rparr>) = holds_access s" "holds_lane (s\<lparr>la_closed := b\<rparr>) = holds_lane s"
  "holds_access (s\<lparr>la_pings := q\<rparr>) = holds_access s" "holds_lane (s\<lparr>la_pings := q\<rparr>) = holds_lane s"
  "holds_access (launch_fails gone rq s) = holds_access s" "holds_lane (launch_fails gone rq s) = holds_lane s"
  "holds_access (answered gone current rq w s) = holds_access s"
  "holds_lane (answered gone current rq w s) = holds_lane s"
  by (simp_all add: holds_defs fun_eq_iff)

lemma holds_at:
  "la_calls s c = Some (rq, p) \<Longrightarrow> p \<in> {Access, Lane, Sent} \<Longrightarrow> holds_access s c rq"
  "la_calls s c = Some (rq, p) \<Longrightarrow> p \<in> {Lane, Sent} \<Longrightarrow> holds_lane s c (request_lane rq)"
  by (auto simp: holds_defs)

lemma locks_enter:
  assumes "locks_ok s"
    "p \<in> {Access, Lane, Sent} \<Longrightarrow> holds_access s c rq \<or> access_free s rq"
    "p \<in> {Lane, Sent} \<Longrightarrow> holds_lane s c (request_lane rq) \<or> lane_free s (request_lane rq)"
  shows "locks_ok (enter c rq p s)"
proof (rule locks_okI)
  fix d e rq1 rq2
  assume "holds_access (enter c rq p s) d rq1" "exclusive rq1" "holds_access (enter c rq p s) e rq2"
  then show "e = d" using assms(1,2) unfolding locks_ok_def access_free_def by (simp split: if_splits) metis+
next
  fix d e l
  assume "holds_lane (enter c rq p s) d l" "holds_lane (enter c rq p s) e l"
  then show "e = d" using assms(1,3) unfolding locks_ok_def lane_free_def by (simp split: if_splits) metis+
next
  fix d l
  assume "holds_lane (enter c rq p s) d l"
  then show "\<not> la_pings (enter c rq p s) l"
    using assms(1,3) unfolding locks_ok_def lane_free_def by (simp split: if_splits) metis+
qed

lemma locks_step:
  assumes "lane_step s a t" "locks_ok s"
  shows "locks_ok t"
  using assms
proof cases
  case (arrives c rq)
  then show ?thesis using assms(2) by (auto intro!: locks_enter)
next
  case (admitted c rq)
  then show ?thesis using assms(2) by (auto intro!: locks_enter)
next
  case (locked c rq)
  then show ?thesis using assms(2) by (auto intro!: locks_enter intro: holds_at)
next
  case (not_launched c rq gone)
  have "locks_ok (enter c rq Finished s)" using assms(2) by (auto intro!: locks_enter)
  then show ?thesis unfolding not_launched(2) by (rule locks_weaken) simp_all
next
  case (transmits c rq)
  then show ?thesis using assms(2) by (auto intro!: locks_enter intro: holds_at)
next
  case (finishes c rq gone current w)
  have "locks_ok (enter c rq Finished s)" using assms(2) by (auto intro!: locks_enter)
  then show ?thesis unfolding finishes(2) by (rule locks_weaken) simp_all
next
  case (gives_up c rq p)
  then show ?thesis using assms(2) by (auto intro!: locks_enter)
next
  case (pings l)
  then show ?thesis using assms(2) by (auto simp: locks_ok_def lane_free_def)
qed (use assms(2) in \<open>auto simp: locks_ok_def\<close>)

lemma locks_hold: "lane_reachable s \<Longrightarrow> locks_ok s"
proof (induction rule: lane_reachable.induct)
  case start
  show ?case by (simp add: locks_ok_def holds_defs lanes_start_def)
next
  case (step s a t)
  then show ?case by (metis locks_step)
qed

lemma closes_step:
  assumes "lane_step s a t" "\<not> la_closed s" "la_closed t" "locks_ok s" "holds_access s c rq" "exclusive rq"
  shows "a = Call c \<or> a = User"
  using assms(1)
proof cases
  case (not_launched d rq')
  have "holds_access s d rq'" using not_launched(3) by (rule holds_at) simp
  then show ?thesis using assms not_launched by (auto simp: locks_ok_def)
next
  case (finishes d rq')
  have "holds_access s d rq'" using finishes(3) by (rule holds_at) simp
  then show ?thesis using assms finishes by (auto simp: locks_ok_def)
qed (use assms in auto)



end
