(* ===== verification/Connectivity.thy ===== *)
theory Connectivity
  imports Prelude
begin

text \<open>
  What the desktop concludes about a server from connection attempts (\<open>src-tauri/src/connectivity.rs\<close>).
  Attempts overlap and are reported when they end, so a failure may be older evidence than a success
  that is already known. An \<open>Instant\<close> and a \<open>SystemTime\<close> are milliseconds on their clocks; the
  monotonic clock saturates where \<open>duration_since\<close> does.
\<close>

record observation =
  ob_started :: nat
  ob_finished :: nat
  ob_wall :: nat
  ob_result :: "string + unit"

record connectivity =
  cn_observed :: "nat option"
  cn_wall :: "nat option"
  cn_succeeded :: "nat option"
  cn_error :: "string option"

record health =
  he_status :: string
  he_error :: "string option"

definition FRESH_FOR :: nat where "FRESH_FOR = 60000"

definition unobserved :: connectivity where
  "unobserved = \<lparr>cn_observed = None, cn_wall = None, cn_succeeded = None, cn_error = None\<rparr>"

definition succeeds :: "observation \<Rightarrow> bool" where
  "succeeds ob \<longleftrightarrow> ob_result ob = Inr ()"

definition later_than :: "nat option \<Rightarrow> nat \<Rightarrow> bool" where
  "later_than t n \<longleftrightarrow> (case t of None \<Rightarrow> False | Some at \<Rightarrow> n < at)"

definition not_before :: "nat option \<Rightarrow> nat \<Rightarrow> bool" where
  "not_before t n \<longleftrightarrow> (case t of None \<Rightarrow> False | Some at \<Rightarrow> n \<le> at)"

definition observe_at :: "observation \<Rightarrow> connectivity \<Rightarrow> connectivity" where
  "observe_at ob c =
     (let cutoff = (if succeeds ob then ob_finished ob else ob_started ob) in
      if later_than (cn_observed c) cutoff \<or> (\<not> succeeds ob \<and> not_before (cn_succeeded c) (ob_started ob)) then c
      else
        let c1 = c\<lparr>cn_observed := Some (ob_finished ob), cn_wall := Some (ob_wall ob)\<rparr> in
        case ob_result ob of
          Inr _ \<Rightarrow> c1\<lparr>cn_succeeded := Some (ob_finished ob), cn_error := None\<rparr>
        | Inl e \<Rightarrow> c1\<lparr>cn_error := Some e\<rparr>)"

definition is_fresh :: "nat \<Rightarrow> nat \<Rightarrow> connectivity \<Rightarrow> bool" where
  "is_fresh now wall c \<longleftrightarrow>
     (case cn_observed c of None \<Rightarrow> False | Some at \<Rightarrow> now - at < FRESH_FOR) \<and>
     (case cn_wall c of None \<Rightarrow> False | Some at \<Rightarrow> at \<le> wall \<and> wall - at < FRESH_FOR)"

definition health_at :: "nat \<Rightarrow> nat \<Rightarrow> connectivity \<Rightarrow> health" where
  "health_at now wall c =
     \<lparr>he_status = (if \<not> is_fresh now wall c then ''unknown''
                   else if cn_error c \<noteq> None then ''error''
                   else if cn_succeeded c \<noteq> None then ''reachable''
                   else ''unknown''),
      he_error = cn_error c\<rparr>"

definition observe_all :: "observation list \<Rightarrow> connectivity" where
  "observe_all obs = foldl (\<lambda>c ob. observe_at ob c) unobserved obs"

section \<open>What the evidence says\<close>

text \<open>
  The specification: the attempts that ended are in question, whatever was reported in between. A
  server is down when some attempt failed that began after every success had ended.
\<close>

definition evidence_of_failure :: "observation set \<Rightarrow> bool" where
  "evidence_of_failure obs \<longleftrightarrow>
     (\<exists>f \<in> obs. \<not> succeeds f \<and> (\<forall>g \<in> obs. succeeds g \<longrightarrow> ob_finished g < ob_started f))"

definition evidence_ok :: "observation list \<Rightarrow> connectivity \<Rightarrow> bool" where
  "evidence_ok obs c \<longleftrightarrow>
     (cn_error c \<noteq> None \<longleftrightarrow> evidence_of_failure (set obs)) \<and>
     (cn_observed c = None \<longleftrightarrow> obs = []) \<and>
     (\<forall>t. cn_observed c = Some t \<longrightarrow> (\<exists>ob \<in> set obs. ob_finished ob = t)) \<and>
     (\<forall>t. cn_succeeded c = Some t \<longrightarrow>
        (\<exists>g \<in> set obs. succeeds g \<and> ob_finished g = t) \<and> (\<forall>g \<in> set obs. succeeds g \<longrightarrow> ob_finished g \<le> t)) \<and>
     (cn_succeeded c = None \<longrightarrow> (\<forall>g \<in> set obs. \<not> succeeds g)) \<and>
     (cn_error c = None \<longrightarrow> cn_observed c = cn_succeeded c)"

lemma fails_result: "\<not> succeeds ob \<Longrightarrow> \<exists>e. ob_result ob = Inl e"
  by (cases "ob_result ob") (auto simp: succeeds_def)

lemma evidence_success:
  assumes "evidence_ok obs c" "succeeds ob"
    "\<forall>ob' \<in> set obs. ob_started ob' \<le> ob_finished ob' \<and> ob_finished ob' \<le> ob_finished ob"
  shows "evidence_ok (obs @ [ob]) (observe_at ob c)"
proof -
  have r: "ob_result ob = Inr ()" using assms(2) by (simp add: succeeds_def)
  have "t \<le> ob_finished ob" if "cn_observed c = Some t" for t
    using assms(1,3) that unfolding evidence_ok_def by blast
  then have "\<not> later_than (cn_observed c) (ob_finished ob)"
    by (auto simp: later_than_def not_less split: option.splits)
  moreover have "\<not> evidence_of_failure (insert ob (set obs))"
    using assms(2,3) unfolding evidence_of_failure_def
    by (metis insert_iff order_trans not_less)
  ultimately show ?thesis using assms r by (auto simp: evidence_ok_def observe_at_def)
qed

lemma evidence_failure:
  assumes "evidence_ok obs c" "\<not> succeeds ob"
  shows "evidence_ok (obs @ [ob]) (observe_at ob c)"
proof -
  obtain e where r: "ob_result ob = Inl e" using fails_result [OF assms(2)] by blast
  have more: "evidence_of_failure (insert ob (set obs)) \<longleftrightarrow>
      evidence_of_failure (set obs) \<or> (\<forall>g \<in> set obs. succeeds g \<longrightarrow> ob_finished g < ob_started ob)"
    using assms(2) by (auto simp: evidence_of_failure_def)
  show ?thesis
  proof (cases "later_than (cn_observed c) (ob_started ob) \<or> not_before (cn_succeeded c) (ob_started ob)")
    case True
    have "cn_error c \<noteq> None \<or> (\<exists>g \<in> set obs. succeeds g \<and> ob_started ob \<le> ob_finished g)"
    proof (cases "cn_error c")
      case None
      then have "not_before (cn_succeeded c) (ob_started ob)"
        using True assms(1) by (auto simp: evidence_ok_def later_than_def not_before_def split: option.splits)
      then show ?thesis using assms(1) by (auto simp: evidence_ok_def not_before_def split: option.splits)
    qed simp
    then have "evidence_of_failure (insert ob (set obs)) \<longleftrightarrow> evidence_of_failure (set obs)"
      using assms(1) more by (auto simp: evidence_ok_def not_less)
    moreover have "obs \<noteq> []"
      using True assms(1) by (auto simp: evidence_ok_def later_than_def not_before_def split: option.splits)
    ultimately show ?thesis using True assms by (auto simp: evidence_ok_def observe_at_def Let_def)
  next
    case False
    have "ob_finished g < ob_started ob" if "g \<in> set obs" "succeeds g" for g
    proof (cases "cn_succeeded c")
      case None
      then show ?thesis using assms(1) that unfolding evidence_ok_def by blast
    next
      case (Some t)
      then have "ob_finished g \<le> t" using assms(1) that unfolding evidence_ok_def by blast
      then show ?thesis using False Some by (simp add: not_before_def)
    qed
    then show ?thesis using False assms r more by (auto simp: evidence_ok_def observe_at_def Let_def)
  qed
qed

lemma evidence_all:
  assumes "sorted (map ob_finished obs)" "\<forall>ob \<in> set obs. ob_started ob \<le> ob_finished ob"
  shows "evidence_ok obs (observe_all obs)"
  using assms
proof (induction obs rule: rev_induct)
  case Nil
  show ?case by (simp add: evidence_ok_def observe_all_def unobserved_def evidence_of_failure_def)
next
  case (snoc ob obs)
  then have "evidence_ok obs (observe_all obs)" and "\<forall>ob' \<in> set obs. ob_finished ob' \<le> ob_finished ob"
    by (auto simp: sorted_append)
  then show ?case using snoc.prems(2)
    by (cases "succeeds ob") (simp_all add: observe_all_def evidence_success evidence_failure)
qed



end
