(* ===== verification/Profiles.thy ===== *)
theory Profiles
  imports Prelude Connectivity
begin

text \<open>
  The saved profiles: servers and tunnels (\<open>src-tauri/src/model.rs\<close>) and the encrypted file that holds
  them with the passwords (\<open>vault.rs\<close>). A \<open>Uuid\<close> is a string, a port a 16-bit word, an error of these
  files a plain string. The encryption and the JSON encoding of a record are one parameter with its
  round-trip law.
\<close>

section \<open>Addresses\<close>

text \<open>\<open>Ipv4Addr\<close> and \<open>Ipv6Addr\<close> of the standard library: parsing, and the canonical text.\<close>

type_synonym port = "16 word"

definition digit_value :: "char \<Rightarrow> nat option" where
  "digit_value c =
     (let n = byte c in
      if 48 \<le> n \<and> n \<le> 57 then Some (n - 48)
      else if 97 \<le> n \<and> n \<le> 102 then Some (n - 87)
      else if 65 \<le> n \<and> n \<le> 70 then Some (n - 55)
      else None)"

definition is_digit :: "nat \<Rightarrow> char \<Rightarrow> bool" where
  "is_digit radix c \<longleftrightarrow> (case digit_value c of None \<Rightarrow> False | Some d \<Rightarrow> d < radix)"

definition read_number :: "nat \<Rightarrow> nat \<Rightarrow> bool \<Rightarrow> nat \<Rightarrow> string \<Rightarrow> (nat \<times> string) option" where
  "read_number radix digits zero_prefix bound s =
     (let ds = takeWhile (is_digit radix) s;
          n = foldl (\<lambda>a c. a * radix + (case digit_value c of None \<Rightarrow> 0 | Some d \<Rightarrow> d)) 0 ds in
      if ds = [] \<or> digits < length ds then None
      else if \<not> zero_prefix \<and> hd ds = CHR ''0'' \<and> 1 < length ds then None
      else if bound < n then None
      else Some (n, drop (length ds) s))"

definition read_separated :: "char \<Rightarrow> nat \<Rightarrow> (string \<Rightarrow> 'a option) \<Rightarrow> string \<Rightarrow> 'a option" where
  "read_separated c i p s =
     (if i = 0 then p s else case s of [] \<Rightarrow> None | x # r \<Rightarrow> if x = c then p r else None)"

fun read_quad :: "nat \<Rightarrow> nat \<Rightarrow> string \<Rightarrow> (nat list \<times> string) option" where
  "read_quad i 0 s = Some ([], s)"
| "read_quad i (Suc k) s =
     (case read_separated CHR ''.'' i (read_number 10 3 False 255) s of
        None \<Rightarrow> None
      | Some (n, r) \<Rightarrow> map_option (\<lambda>(ns, r'). (n # ns, r')) (read_quad (Suc i) k r))"

text \<open>\<open>read_groups\<close>: at most \<open>k\<close> groups from the \<open>i\<close>-th on, and whether they end in dotted notation.\<close>

fun read_groups :: "nat \<Rightarrow> nat \<Rightarrow> string \<Rightarrow> nat list \<times> bool \<times> string" where
  "read_groups i 0 s = ([], False, s)"
| "read_groups i (Suc k) s =
     (case (if 0 < k then read_separated CHR '':'' i (read_quad 0 4) s else None) of
        Some ([a, b, c, d], r) \<Rightarrow> ([a * 256 + b, c * 256 + d], True, r)
      | _ \<Rightarrow>
          (case read_separated CHR '':'' i (read_number 16 4 True 65535) s of
             None \<Rightarrow> ([], False, s)
           | Some (n, r) \<Rightarrow> (case read_groups (Suc i) k r of (ns, v4, r') \<Rightarrow> (n # ns, v4, r'))))"

definition read_ipv6 :: "string \<Rightarrow> (nat list \<times> string) option" where
  "read_ipv6 s =
     (case read_groups 0 8 s of (front, v4, r) \<Rightarrow>
        if length front = 8 then Some (front, r)
        else if v4 \<or> \<not> starts_with ''::'' r then None
        else case read_groups 0 (8 - (length front + 1)) (drop 2 r) of (back, _, r') \<Rightarrow>
          Some (front @ replicate (8 - length front - length back) 0 @ back, r'))"

definition whole :: "('a \<times> string) option \<Rightarrow> 'a option" where
  "whole p = (case p of Some (x, []) \<Rightarrow> Some x | _ \<Rightarrow> None)"

datatype address = V4 "nat list" | V6 "nat list"

definition parse_address :: "string \<Rightarrow> address option" where
  "parse_address s =
     (case read_quad 0 4 s of
        Some p \<Rightarrow> map_option V4 (whole (Some p))
      | None \<Rightarrow> map_option V6 (whole (read_ipv6 s)))"

fun join :: "string \<Rightarrow> string list \<Rightarrow> string" where
  "join sep [] = []"
| "join sep [s] = s"
| "join sep (s # ss) = s @ sep @ join sep ss"

text \<open>The first longest run of zero groups, as its start and length.\<close>

fun zero_run :: "nat \<Rightarrow> nat \<times> nat \<Rightarrow> nat \<times> nat \<Rightarrow> nat list \<Rightarrow> nat \<times> nat" where
  "zero_run i longest current [] = longest"
| "zero_run i longest current (g # gs) =
     (if g = 0
      then (let cur = (if snd current = 0 then i else fst current, Suc (snd current)) in
            zero_run (Suc i) (if snd longest < snd cur then cur else longest) cur gs)
      else zero_run (Suc i) longest (0, 0) gs)"

definition show_quad :: "nat list \<Rightarrow> string" where
  "show_quad ns = join ''.'' (map show_nat ns)"

definition show_address :: "address \<Rightarrow> string" where
  "show_address a =
     (case a of
        V4 ns \<Rightarrow> show_quad ns
      | V6 gs \<Rightarrow>
          if take 6 gs = [0, 0, 0, 0, 0, 65535]
          then ''::ffff:'' @ show_quad [gs ! 6 div 256, gs ! 6 mod 256, gs ! 7 div 256, gs ! 7 mod 256]
          else case zero_run 0 (0, 0) (0, 0) gs of (start, n) \<Rightarrow>
            if 1 < n
            then join '':'' (map (show_base 16) (take start gs)) @ ''::'' @
                 join '':'' (map (show_base 16) (drop (start + n) gs))
            else join '':'' (map (show_base 16) gs))"

definition ascii_alphanumeric :: "char \<Rightarrow> bool" where
  "ascii_alphanumeric c \<longleftrightarrow>
     (let n = byte c in 48 \<le> n \<and> n \<le> 57 \<or> 65 \<le> n \<and> n \<le> 90 \<or> 97 \<le> n \<and> n \<le> 122)"

definition ascii_lower :: "char \<Rightarrow> char" where
  "ascii_lower c = (if 65 \<le> byte c \<and> byte c \<le> 90 then char_of (byte c + 32) else c)"

definition host_valid :: "string \<Rightarrow> bool" where
  "host_valid s \<longleftrightarrow>
     (CHR '':'' \<notin> set s \<or> whole (read_ipv6 s) \<noteq> None) \<and> s \<noteq> [] \<and> length s \<le> 253 \<and>
     \<not> starts_with ''-'' s \<and> list_all (\<lambda>c. ascii_alphanumeric c \<or> c \<in> set ''.-_:'') s"

definition trim_end_matches :: "char \<Rightarrow> string \<Rightarrow> string" where
  "trim_end_matches c s = rev (dropWhile (\<lambda>x. x = c) (rev s))"

definition forwarding_host :: "string \<Rightarrow> string" where
  "forwarding_host host =
     (let h = map ascii_lower (trim_end_matches CHR ''.'' host);
          h2 = (case parse_address h of Some a \<Rightarrow> show_address a | None \<Rightarrow> h) in
      if h2 = ''localhost'' \<or> h2 = ''0.0.0.0'' then ''127.0.0.1''
      else if h2 = ''::'' then ''::1''
      else h2)"

section \<open>Servers and tunnels\<close>

datatype auth_method = PublicKey | Password

record server =
  sv_id :: string
  sv_name :: string
  sv_user :: string
  sv_host :: string
  sv_port :: port
  sv_identity :: "string option"
  sv_agent :: "string option"
  sv_fingerprint :: "string option"
  sv_auth :: auth_method
  sv_clipboard :: bool
  sv_browser :: bool

record tunnel =
  tn_id :: string
  tn_name :: string
  tn_server :: string
  tn_local :: port
  tn_local_end :: "port option"
  tn_host :: string
  tn_remote :: port
  tn_remote_end :: "port option"
  tn_auto_connect :: bool
  tn_auto_reconnect :: bool

record config =
  cf_servers :: "server list"
  cf_tunnels :: "tunnel list"

definition same_destination :: "server \<Rightarrow> server \<Rightarrow> bool" where
  "same_destination a b \<longleftrightarrow> sv_host a = sv_host b \<and> sv_port a = sv_port b \<and> sv_user a = sv_user b"

definition same_connection :: "server \<Rightarrow> server \<Rightarrow> bool" where
  "same_connection a b \<longleftrightarrow> same_destination a b \<and> sv_identity a = sv_identity b \<and> sv_agent a = sv_agent b
     \<and> sv_fingerprint a = sv_fingerprint b \<and> sv_auth a = sv_auth b"

definition ensure :: "bool \<Rightarrow> string \<Rightarrow> string + unit" where
  "ensure b e = (if b then Inr () else Inl e)"

definition fingerprint_valid :: "string \<Rightarrow> bool" where
  "fingerprint_valid f \<longleftrightarrow> starts_with ''SHA256:'' f \<and> length f = 50 \<and>
     list_all (\<lambda>c. ascii_alphanumeric c \<or> c = CHR ''+'' \<or> c = CHR ''/'') (drop 7 f)"

definition validate_server :: "server \<Rightarrow> string + unit" where
  "validate_server s =
     bindR (ensure (case sv_agent s of None \<Rightarrow> True | Some a \<Rightarrow> a \<in> {''system'', ''onePassword''}) ''Unknown SSH agent'') (\<lambda>_.
     bindR (case sv_fingerprint s of
              None \<Rightarrow> Inr ()
            | Some f \<Rightarrow>
                bindR (ensure (fingerprint_valid f) ''Invalid SSH key fingerprint'') (\<lambda>_.
                ensure (case sv_identity s of None \<Rightarrow> True | Some k \<Rightarrow> k = [])
                  ''Choose an agent key or a key file, not both'')) (\<lambda>_.
     bindR (ensure (host_valid (sv_host s)) ''Enter a hostname or an unbracketed IP address.'') (\<lambda>_.
     bindR (ensure (sv_user s \<noteq> [] \<and> \<not> starts_with ''-'' (sv_user s) \<and>
              list_all (\<lambda>c. ascii_alphanumeric c \<or> c \<in> set ''_.-'') (sv_user s)) ''Enter a valid SSH username.'') (\<lambda>_.
     ensure (sv_port s \<noteq> 0) ''SSH port must be between 1 and 65535.''))))"

definition local_end :: "tunnel \<Rightarrow> port" where
  "local_end t = (case tn_local_end t of None \<Rightarrow> tn_local t | Some e \<Rightarrow> e)"

definition remote_end :: "tunnel \<Rightarrow> port" where
  "remote_end t = (case tn_remote_end t of None \<Rightarrow> tn_remote t | Some e \<Rightarrow> e)"

text \<open>An inclusive range of ports; the dash in the first message is the three bytes of an en dash.\<close>

definition port_range :: "port \<Rightarrow> port \<Rightarrow> port list" where
  "port_range a b = map word_of_nat [unat a ..< Suc (unat b)]"

definition port_pairs :: "tunnel \<Rightarrow> string + (port \<times> port) list" where
  "port_pairs t =
     (let le = local_end t; re = remote_end t in
      bindR (ensure (\<not> (tn_local t = 0 \<or> tn_remote t = 0 \<or> le < tn_local t \<or> re < tn_remote t))
        (''Ports must be 1'' @ [CHR 0xE2, CHR 0x80, CHR 0x93] @ ''65535 and ranges must run from low to high.'')) (\<lambda>_.
      bindR (ensure (le - tn_local t = re - tn_remote t)
        ''Local and remote ranges must contain the same number of ports.'') (\<lambda>_.
      bindR (ensure (\<not> 256 \<le> le - tn_local t) ''Use at most 256 ports per tunnel.'') (\<lambda>_.
      bindR (ensure (host_valid (tn_host t)) ''Enter a valid remote hostname or unbracketed IP address.'') (\<lambda>_.
      Inr (zip (port_range (tn_local t) le) (port_range (tn_remote t) re)))))))"

definition local_overlap :: "tunnel \<Rightarrow> tunnel \<Rightarrow> bool" where
  "local_overlap a b \<longleftrightarrow> tn_local a \<le> local_end b \<and> tn_local b \<le> local_end a"

definition remote_overlap :: "tunnel \<Rightarrow> tunnel \<Rightarrow> bool" where
  "remote_overlap a b \<longleftrightarrow> tn_remote a \<le> remote_end b \<and> tn_remote b \<le> remote_end a"

definition quoted :: "string \<Rightarrow> string" where
  "quoted s = [CHR 0x27] @ s @ [CHR 0x27]"

fun unique_among :: "tunnel \<Rightarrow> tunnel list \<Rightarrow> string + unit" where
  "unique_among t [] = Inr ()"
| "unique_among t (u # us) =
     (if tn_id u = tn_id t then unique_among t us
      else if local_overlap t u
      then Inl (''Local port range overlaps the saved tunnel '' @ quoted (tn_name u) @
        ''. Edit that tunnel or choose another local port.'')
      else if tn_server t = tn_server u \<and> forwarding_host (tn_host t) = forwarding_host (tn_host u) \<and>
              remote_overlap t u
      then Inl (''This remote port is already forwarded by '' @ quoted (tn_name u) @
        ''. Edit the existing tunnel instead.'')
      else unique_among t us)"

definition validate_unique :: "tunnel \<Rightarrow> tunnel list \<Rightarrow> string + unit" where
  "validate_unique t saved = bindR (port_pairs t) (\<lambda>_. unique_among t saved)"

section \<open>The configuration\<close>

fun validate_servers :: "string list \<Rightarrow> server list \<Rightarrow> string + string list" where
  "validate_servers ids [] = Inr ids"
| "validate_servers ids (s # ss) =
     bindR (validate_server s) (\<lambda>_.
     bindR (ensure (sv_id s \<notin> set ids) ''Duplicate server ID.'') (\<lambda>_.
     validate_servers (sv_id s # ids) ss))"

fun validate_tunnels :: "string list \<Rightarrow> string list \<Rightarrow> tunnel list \<Rightarrow> string + unit" where
  "validate_tunnels ids seen [] = Inr ()"
| "validate_tunnels ids seen (t # ts) =
     bindR (port_pairs t) (\<lambda>_.
     bindR (ensure (tn_server t \<in> set ids) (''Tunnel '' @ quoted (tn_name t) @ '' references a missing server.'')) (\<lambda>_.
     bindR (ensure (tn_id t \<notin> set seen) ''Duplicate tunnel ID.'') (\<lambda>_.
     validate_tunnels ids (tn_id t # seen) ts)))"

definition validate :: "config \<Rightarrow> string + unit" where
  "validate c = bindR (validate_servers [] (cf_servers c)) (\<lambda>ids. validate_tunnels ids [] (cf_tunnels c))"

definition find_server :: "string \<Rightarrow> config \<Rightarrow> server option" where
  "find_server i c = List.find (\<lambda>s. sv_id s = i) (cf_servers c)"

definition find_tunnel :: "string \<Rightarrow> config \<Rightarrow> tunnel option" where
  "find_tunnel i c = List.find (\<lambda>t. tn_id t = i) (cf_tunnels c)"

text \<open>\<open>upsert_server\<close>: consent is never taken from the editor and does not survive a change of destination.\<close>

fun upsert :: "server \<Rightarrow> server list \<Rightarrow> server list" where
  "upsert s [] = [s\<lparr>sv_clipboard := False, sv_browser := False\<rparr>]"
| "upsert s (e # es) =
     (if sv_id e = sv_id s
      then s\<lparr>sv_clipboard := sv_clipboard e \<and> same_destination e s,
             sv_browser := sv_browser e \<and> same_destination e s\<rparr> # es
      else e # upsert s es)"

definition upsert_server :: "server \<Rightarrow> config \<Rightarrow> config" where
  "upsert_server s c = c\<lparr>cf_servers := upsert s (cf_servers c)\<rparr>"

definition integration_servers :: "config \<Rightarrow> string list" where
  "integration_servers c = map sv_id (filter (\<lambda>s. sv_clipboard s \<or> sv_browser s) (cf_servers c))"

section \<open>The encrypted file\<close>

text \<open>A \<open>BTreeMap\<close> is an association list; zeroing a secret in memory has no effect on values.\<close>

record vault_record =
  vr_version :: nat
  vr_config :: config
  vr_passwords :: "(string \<times> string) list"

record 'f vault_lib =
  vl_version :: "'f \<Rightarrow> nat option option"
  vl_record :: "'f \<Rightarrow> vault_record option"
  vl_config :: "'f \<Rightarrow> config option"
  vl_encode :: "vault_record \<Rightarrow> 'f"

definition vault_lib_ok :: "'f vault_lib \<Rightarrow> bool" where
  "vault_lib_ok lib \<longleftrightarrow> (\<forall>r. vl_version lib (vl_encode lib r) = Some (Some (vr_version r)) \<and>
     vl_record lib (vl_encode lib r) = Some r)"

definition SCHEMA_VERSION :: nat where "SCHEMA_VERSION = 2"

definition decode_record :: "'f vault_lib \<Rightarrow> 'f \<Rightarrow> string + vault_record" where
  "decode_record lib d =
     bindR (ok_or ''Invalid encrypted profile format'' (vl_version lib d)) (\<lambda>v.
     bindR (case v of
              Some n \<Rightarrow>
                if n = 1 \<or> n = SCHEMA_VERSION then ok_or ''Invalid encrypted profiles'' (vl_record lib d)
                else Inl ''Unsupported profile version. Update Newport before editing these profiles.''
            | None \<Rightarrow>
                mapR (\<lambda>c. \<lparr>vr_version = SCHEMA_VERSION, vr_config = c, vr_passwords = []\<rparr>)
                  (ok_or ''Invalid encrypted profiles'' (vl_config lib d))) (\<lambda>r.
     bindR (validate (vr_config r)) (\<lambda>_. Inr r)))"

text \<open>
  What can go wrong around the file: the key, unlocking it, building the replacement, and replacing
  it, which may fail before or after the new file is in place.
\<close>

datatype replacement = InPlace | NotInPlace string | NotSynced string

record vault_faults =
  vf_key :: "string + unit"
  vf_unlock :: "string + unit"
  vf_stage :: "string + unit"
  vf_replace :: replacement

definition read_vault :: "'f vault_lib \<Rightarrow> vault_faults \<Rightarrow> 'f \<Rightarrow> string + vault_record" where
  "read_vault lib f d = bindR (vf_unlock f) (\<lambda>_. decode_record lib d)"

definition server_ids :: "config \<Rightarrow> string set" where
  "server_ids c = sv_id ` set (cf_servers c)"

definition next_record ::
  "config \<Rightarrow> (string \<times> string) option \<Rightarrow> vault_record \<Rightarrow> string + vault_record" where
  "next_record cfg pw r =
     (let kept = filter (\<lambda>(i, _). i \<in> server_ids cfg) (vr_passwords r) in
      mapR (\<lambda>ps. \<lparr>vr_version = SCHEMA_VERSION, vr_config = cfg, vr_passwords = ps\<rparr>)
        (case pw of
           None \<Rightarrow> Inr kept
         | Some (i, secret) \<Rightarrow>
             if i \<notin> server_ids cfg then Inl ''Server no longer exists.'' else Inr (aput i secret kept)))"

definition replace_vault :: "replacement \<Rightarrow> 'f \<Rightarrow> 'f option \<Rightarrow> 'f option \<times> (string + unit)" where
  "replace_vault how d file =
     (case how of
        InPlace \<Rightarrow> (Some d, Inr ())
      | NotInPlace e \<Rightarrow> (file, Inl e)
      | NotSynced e \<Rightarrow> (Some d, Inl e))"

text \<open>Everything up to the staged file, read back and compared.\<close>

definition stage_vault ::
  "'f vault_lib \<Rightarrow> vault_faults \<Rightarrow> config \<Rightarrow> (string \<times> string) option \<Rightarrow> 'f option \<Rightarrow> string + 'f" where
  "stage_vault lib f cfg pw file =
     bindR (vf_key f) (\<lambda>_.
     bindR (validate cfg) (\<lambda>_.
     bindR (case file of
              Some d \<Rightarrow> read_vault lib f d
            | None \<Rightarrow> Inr \<lparr>vr_version = SCHEMA_VERSION, vr_config = cfg, vr_passwords = []\<rparr>) (\<lambda>old.
     bindR (next_record cfg pw old) (\<lambda>r.
     bindR (vf_stage f) (\<lambda>_.
     bindR (decode_record lib (vl_encode lib r)) (\<lambda>verified.
     bindR (ensure (vr_config verified = vr_config r \<and> vr_passwords verified = vr_passwords r)
              ''Encrypted profile verification failed; previous snapshot preserved'') (\<lambda>_.
     Inr (vl_encode lib r))))))))"

definition vault_write ::
  "'f vault_lib \<Rightarrow> vault_faults \<Rightarrow> config \<Rightarrow> (string \<times> string) option \<Rightarrow> 'f option \<Rightarrow>
   'f option \<times> (string + unit)" where
  "vault_write lib f cfg pw file =
     (case stage_vault lib f cfg pw file of
        Inl e \<Rightarrow> (file, Inl e)
      | Inr d \<Rightarrow> replace_vault (vf_replace f) d file)"

definition vault_password :: "'f vault_lib \<Rightarrow> vault_faults \<Rightarrow> string \<Rightarrow> 'f \<Rightarrow> string + string" where
  "vault_password lib f i d =
     bindR (read_vault lib f d) (\<lambda>r.
     ok_or ''No saved SSH password. Save a password in Edit Server.'' (map_of (vr_passwords r) i))"

section \<open>Facts\<close>

lemma ensure_Inr [simp]: "ensure b e = Inr u \<longleftrightarrow> b"
  by (simp add: ensure_def)

lemma validate_servers_ok:
  "validate_servers ids ss = Inr js \<Longrightarrow>
   distinct (map sv_id ss) \<and> set js = set ids \<union> sv_id ` set ss \<and> (\<forall>s \<in> set ss. sv_id s \<notin> set ids)"
proof (induction ss arbitrary: ids)
  case (Cons s ss)
  then have "sv_id s \<notin> set ids" "validate_servers (sv_id s # ids) ss = Inr js" by (auto simp: result_simps)
  then show ?case using Cons.IH [of "sv_id s # ids"] by fastforce
qed simp

lemma validate_tunnels_ok:
  "validate_tunnels ids seen ts = Inr u \<Longrightarrow>
   distinct (map tn_id ts) \<and> (\<forall>t \<in> set ts. (\<exists>ps. port_pairs t = Inr ps) \<and> tn_server t \<in> set ids \<and> tn_id t \<notin> set seen)"
proof (induction ts arbitrary: seen)
  case (Cons t ts)
  then have "\<exists>ps. port_pairs t = Inr ps" "tn_server t \<in> set ids" "tn_id t \<notin> set seen"
    "validate_tunnels ids (tn_id t # seen) ts = Inr u" by (auto simp: result_simps)
  then show ?case using Cons.IH [of "tn_id t # seen"] by fastforce
qed simp

lemma validate_ok:
  assumes "validate c = Inr u"
  shows "distinct (map sv_id (cf_servers c))" "distinct (map tn_id (cf_tunnels c))"
    "t \<in> set (cf_tunnels c) \<Longrightarrow> \<exists>ps. port_pairs t = Inr ps"
    "t \<in> set (cf_tunnels c) \<Longrightarrow> tn_server t \<in> server_ids c"
proof -
  obtain js where "validate_servers [] (cf_servers c) = Inr js" "validate_tunnels js [] (cf_tunnels c) = Inr u"
    using assms by (auto simp: validate_def result_simps)
  from validate_servers_ok [OF this(1)] validate_tunnels_ok [OF this(2)]
  show "distinct (map sv_id (cf_servers c))" "distinct (map tn_id (cf_tunnels c))"
    "t \<in> set (cf_tunnels c) \<Longrightarrow> \<exists>ps. port_pairs t = Inr ps"
    "t \<in> set (cf_tunnels c) \<Longrightarrow> tn_server t \<in> server_ids c"
    by (auto simp: server_ids_def)
qed

lemma find_server_Some: "find_server i c = Some s \<Longrightarrow> s \<in> set (cf_servers c) \<and> sv_id s = i"
  by (auto simp: find_server_def find_Some_iff)

lemma find_tunnel_Some: "find_tunnel i c = Some t \<Longrightarrow> t \<in> set (cf_tunnels c) \<and> tn_id t = i"
  by (auto simp: find_tunnel_def find_Some_iff)

lemma find_unique: "distinct (map g xs) \<Longrightarrow> x \<in> set xs \<Longrightarrow> List.find (\<lambda>y. g y = g x) xs = Some x"
  by (induction xs) auto

lemma find_tunnel_at:
  "validate c = Inr u \<Longrightarrow> t \<in> set (cf_tunnels c) \<Longrightarrow> find_tunnel (tn_id t) c = Some t"
  unfolding find_tunnel_def by (rule find_unique) (auto dest: validate_ok)

lemma find_filter_kept:
  "List.find P xs = Some x \<Longrightarrow> Q x \<Longrightarrow> List.find P (filter Q xs) = Some x"
  by (induction xs) (auto split: if_splits)

lemma find_filter_other:
  "(\<And>x. P x \<Longrightarrow> Q x) \<Longrightarrow> List.find P (filter Q xs) = List.find P xs"
  by (induction xs) auto

definition upserted :: "server \<Rightarrow> server option \<Rightarrow> server" where
  "upserted s old = (case old of
     None \<Rightarrow> s\<lparr>sv_clipboard := False, sv_browser := False\<rparr>
   | Some e \<Rightarrow> s\<lparr>sv_clipboard := sv_clipboard e \<and> same_destination e s,
                 sv_browser := sv_browser e \<and> same_destination e s\<rparr>)"

lemma find_upsert:
  "find_server j (upsert_server s c) =
     (if j = sv_id s then Some (upserted s (find_server j c)) else find_server j c)"
proof -
  have "List.find (\<lambda>x. sv_id x = j) (upsert s ss) =
     (if j = sv_id s then Some (upserted s (List.find (\<lambda>x. sv_id x = j) ss)) else List.find (\<lambda>x. sv_id x = j) ss)" for ss
    by (induction ss) (auto simp: upserted_def)
  then show ?thesis by (simp add: find_server_def upsert_server_def)
qed

lemma same_connection_refl [simp]: "same_connection s s"
  by (simp add: same_connection_def same_destination_def)

lemma same_connection_trans: "same_connection a b \<Longrightarrow> same_connection b c \<Longrightarrow> same_connection a c"
  by (simp add: same_connection_def same_destination_def)

lemma same_connection_sym: "same_connection a b \<Longrightarrow> same_connection b a"
  by (simp add: same_connection_def same_destination_def)

lemma same_connection_consent [simp]:
  "same_connection (s\<lparr>sv_clipboard := b\<rparr>) x = same_connection s x"
  "same_connection (s\<lparr>sv_browser := b\<rparr>) x = same_connection s x"
  by (simp_all add: same_connection_def same_destination_def)

lemma same_connection_upserted [simp]: "same_connection (upserted s old) x = same_connection s x"
  by (simp add: upserted_def split: option.splits)

section \<open>What a write of the file leaves\<close>

definition stored_password :: "'f vault_lib \<Rightarrow> 'f option \<Rightarrow> string \<Rightarrow> string option" where
  "stored_password lib file i =
     (case file of
        None \<Rightarrow> None
      | Some d \<Rightarrow> (case decode_record lib d of Inl _ \<Rightarrow> None | Inr r \<Rightarrow> map_of (vr_passwords r) i))"

definition wanted_password ::
  "config \<Rightarrow> (string \<times> string) option \<Rightarrow> (string \<Rightarrow> string option) \<Rightarrow> string \<Rightarrow> string option" where
  "wanted_password cfg pw old i =
     (if i \<notin> server_ids cfg then None
      else case pw of Some (j, secret) \<Rightarrow> if i = j then Some secret else old i | None \<Rightarrow> old i)"

definition no_faults :: "vault_faults \<Rightarrow> bool" where
  "no_faults f \<longleftrightarrow> vf_key f = Inr () \<and> vf_unlock f = Inr () \<and> vf_stage f = Inr () \<and> vf_replace f = InPlace"

lemma map_of_kept: "map_of (filter (\<lambda>(i, _). i \<in> A) ps) i = (if i \<in> A then map_of ps i else None)"
  by (induction ps) auto

lemma next_record_ok:
  assumes "next_record cfg pw r = Inr r'"
  shows "vr_config r' = cfg" "map_of (vr_passwords r') = wanted_password cfg pw (map_of (vr_passwords r))"
    "vr_version r' = SCHEMA_VERSION"
  using assms
  by (auto simp: next_record_def wanted_password_def map_of_kept fun_eq_iff result_simps Let_def
      split: option.splits if_splits)

lemma stage_vault_ok:
  assumes "stage_vault lib f cfg pw file = Inr d"
  shows "\<exists>v. decode_record lib d = Inr v \<and> vr_config v = cfg \<and>
     map_of (vr_passwords v) = wanted_password cfg pw (stored_password lib file)"
proof -
  obtain old r v where old: "(case file of Some d \<Rightarrow> read_vault lib f d
        | None \<Rightarrow> Inr \<lparr>vr_version = SCHEMA_VERSION, vr_config = cfg, vr_passwords = []\<rparr>) = Inr old"
    and r: "next_record cfg pw old = Inr r" and d: "d = vl_encode lib r"
    and v: "decode_record lib d = Inr v" "vr_config v = vr_config r" "vr_passwords v = vr_passwords r"
    using assms by (auto simp: stage_vault_def result_simps)
  have "map_of (vr_passwords old) = stored_password lib file"
    using old by (auto simp: stored_password_def read_vault_def result_simps fun_eq_iff split: option.splits)
  then show ?thesis using v next_record_ok [OF r] by auto
qed

text \<open>
  C40: Saving profiles is all or nothing, whatever the encryption library and the file system do: when the
  write ends, the file is what it was and an error is reported, or it holds a record that has been read
  back, decodes and validates to exactly the new profiles, with the passwords of the remaining servers,
  the new password if one was given, and no password of a server that is gone. Success is reported only in
  the second case, and it is reported when nothing fails, the profiles are valid, the old file can be
  read and the password belongs to a saved server.
\<close>

theorem vault_write_atomic:
  assumes "vault_write lib f cfg pw file = (file', res)"
  shows "((file' = file \<and> res \<noteq> Inr ()) \<or>
          (\<exists>d v. file' = Some d \<and> decode_record lib d = Inr v \<and> vr_config v = cfg \<and>
             validate cfg = Inr () \<and>
             map_of (vr_passwords v) = wanted_password cfg pw (stored_password lib file)))
       \<and> (vault_lib_ok lib \<and> no_faults f \<and> validate cfg = Inr () \<and>
          (\<forall>d. file = Some d \<longrightarrow> (\<exists>v. decode_record lib d = Inr v)) \<and>
          (\<forall>i secret. pw = Some (i, secret) \<longrightarrow> i \<in> server_ids cfg) \<longrightarrow> res = Inr ())"
proof (intro conjI impI)
  show "(file' = file \<and> res \<noteq> Inr ()) \<or> (\<exists>d v. file' = Some d \<and> decode_record lib d = Inr v \<and>
      vr_config v = cfg \<and> validate cfg = Inr () \<and>
      map_of (vr_passwords v) = wanted_password cfg pw (stored_password lib file))"
  proof (cases "stage_vault lib f cfg pw file")
    case (Inl e)
    then show ?thesis using assms by (auto simp: vault_write_def)
  next
    case (Inr d)
    then have "validate cfg = Inr ()" by (auto simp: stage_vault_def result_simps)
    then show ?thesis using assms Inr stage_vault_ok [OF Inr]
      by (auto simp: vault_write_def replace_vault_def split: replacement.splits)
  qed
next
  assume ok: "vault_lib_ok lib \<and> no_faults f \<and> validate cfg = Inr () \<and>
      (\<forall>d. file = Some d \<longrightarrow> (\<exists>v. decode_record lib d = Inr v)) \<and>
      (\<forall>i secret. pw = Some (i, secret) \<longrightarrow> i \<in> server_ids cfg)"
  then obtain old where old: "(case file of Some d \<Rightarrow> read_vault lib f d
        | None \<Rightarrow> Inr \<lparr>vr_version = SCHEMA_VERSION, vr_config = cfg, vr_passwords = []\<rparr>) = Inr old"
    by (cases "file") (auto simp: read_vault_def no_faults_def)
  obtain r where r: "next_record cfg pw old = Inr r"
    using ok by (cases pw) (auto simp: next_record_def)
  have "decode_record lib (vl_encode lib r) = Inr r"
    using ok next_record_ok [OF r] by (simp add: decode_record_def vault_lib_ok_def)
  then have "stage_vault lib f cfg pw file = Inr (vl_encode lib r)"
    using ok old r by (simp add: stage_vault_def no_faults_def ensure_def)
  then show "res = Inr ()" using assms ok by (simp add: vault_write_def no_faults_def replace_vault_def)
qed

section \<open>A sample\<close>

definition sample_server :: server where
  "sample_server = \<lparr>sv_id = ''s'', sv_name = ''Build'', sv_user = ''u'', sv_host = ''h'', sv_port = 22,
     sv_identity = None, sv_agent = None, sv_fingerprint = None, sv_auth = PublicKey,
     sv_clipboard = True, sv_browser = False\<rparr>"

definition sample_tunnel :: tunnel where
  "sample_tunnel = \<lparr>tn_id = ''t'', tn_name = ''Web'', tn_server = ''s'', tn_local = 8000, tn_local_end = Some 8001,
     tn_host = ''h'', tn_remote = 80, tn_remote_end = Some 81, tn_auto_connect = False, tn_auto_reconnect = True\<rparr>"

definition sample_config :: config where
  "sample_config = \<lparr>cf_servers = [sample_server], cf_tunnels = [sample_tunnel]\<rparr>"

definition sample_vault :: "vault_record vault_lib" where
  "sample_vault = \<lparr>vl_version = (\<lambda>r. Some (Some (vr_version r))), vl_record = Some, vl_config = (\<lambda>_. None),
     vl_encode = (\<lambda>r. r)\<rparr>"

definition faultless :: vault_faults where
  "faultless = \<lparr>vf_key = Inr (), vf_unlock = Inr (), vf_stage = Inr (), vf_replace = InPlace\<rparr>"

lemma sample_host: "host_valid ''h''"
  by (simp add: host_valid_def starts_with_def ascii_alphanumeric_def byte_def)

lemma sample_pairs: "port_pairs sample_tunnel = Inr [(8000, 80), (8001, 81)]"
  by (simp add: port_pairs_def sample_tunnel_def local_end_def remote_end_def ensure_def sample_host Let_def
      port_range_def upt_rec word_le_nat_alt word_less_nat_alt)

lemma sample_valid: "validate sample_config = Inr ()"
proof -
  have "validate_server sample_server = Inr ()"
    by (simp add: validate_server_def sample_server_def ensure_def sample_host starts_with_def
        ascii_alphanumeric_def byte_def)
  then show ?thesis
    by (simp add: validate_def sample_config_def sample_pairs ensure_def)
       (simp add: sample_server_def sample_tunnel_def)
qed

theorem vault_write_atomic_witness:
  "\<exists>d v. vault_write sample_vault faultless sample_config (Some (''s'', ''pw'')) None = (Some d, Inr ())
     \<and> decode_record sample_vault d = Inr v \<and> vr_config v = sample_config \<and> map_of (vr_passwords v) ''s'' = Some ''pw''"
proof -
  obtain fl res where w: "vault_write sample_vault faultless sample_config (Some (''s'', ''pw'')) None = (fl, res)"
    by fastforce
  have ids: "server_ids sample_config = {''s''}" by (simp add: server_ids_def sample_config_def sample_server_def)
  have "vault_lib_ok sample_vault" by (simp add: vault_lib_ok_def sample_vault_def)
  moreover have "no_faults faultless" by (simp add: no_faults_def faultless_def)
  ultimately have res: "res = Inr ()"
    using conjunct2 [OF vault_write_atomic [OF w]] sample_valid ids by simp
  then obtain d v where "fl = Some d" "decode_record sample_vault d = Inr v" "vr_config v = sample_config"
    "map_of (vr_passwords v) = wanted_password sample_config (Some (''s'', ''pw'')) (stored_password sample_vault None)"
    using conjunct1 [OF vault_write_atomic [OF w]] by blast
  then show ?thesis using w res ids by (simp add: wanted_password_def)
qed

end
