(* ===== verification/Manager.thy ===== *)
theory Manager
  imports Profiles
begin

text \<open>
  The desktop's manager of connections (\<open>src-tauri/src/manager.rs\<close>) and the commands that act on it
  (\<open>commands.rs\<close>). Commands hold the manager's lock, so each is one step; between them the tasks of
  tunnels and of clipboard sharing move on their own. SSH is what a task reports: connected, failed, or
  ended. What the file system, the operating system and the clock contribute to a command are its
  parameters.
\<close>

section \<open>State\<close>

datatype conn_status = Disconnected | Connecting | Connected | Reconnecting | Errored

record conn_state =
  cs_status :: conn_status
  cs_message :: "string option"
  cs_attempt :: nat

definition state_of :: "conn_status \<Rightarrow> conn_state" where
  "state_of st = \<lparr>cs_status = st, cs_message = None, cs_attempt = 0\<rparr>"

definition error_state :: "string \<Rightarrow> conn_state" where
  "error_state e = \<lparr>cs_status = Errored, cs_message = Some e, cs_attempt = 0\<rparr>"

record tunnel_task =
  tt_server :: server
  tt_tunnel :: tunnel
  tt_attempt :: nat
  tt_finished :: bool

record share_task =
  st_server :: server
  st_finished :: bool

record 'f manager =
  mg_config :: config
  mg_file :: "'f option"
  mg_load_error :: "string option"
  mg_tunnels :: "string \<Rightarrow> tunnel_task option"
  mg_shares :: "string \<Rightarrow> share_task option"
  mg_states :: "string \<Rightarrow> conn_state option"
  mg_share_states :: "string \<Rightarrow> conn_state option"
  mg_messages :: "string \<Rightarrow> string option"
  mg_revisions :: "string \<Rightarrow> nat option"
  mg_next_revision :: nat
  mg_evidence :: "string \<Rightarrow> connectivity option"
  mg_changed_at :: "string \<Rightarrow> nat option"

definition manager_new :: "string + config \<Rightarrow> 'f option \<Rightarrow> 'f manager" where
  "manager_new loaded file =
     \<lparr>mg_config = (case loaded of Inr c \<Rightarrow> c | Inl _ \<Rightarrow> \<lparr>cf_servers = [], cf_tunnels = []\<rparr>),
      mg_file = file,
      mg_load_error = (case loaded of Inr _ \<Rightarrow> None | Inl e \<Rightarrow> Some e),
      mg_tunnels = Map.empty, mg_shares = Map.empty, mg_states = Map.empty, mg_share_states = Map.empty,
      mg_messages = Map.empty, mg_revisions = Map.empty, mg_next_revision = 0,
      mg_evidence = Map.empty, mg_changed_at = Map.empty\<rparr>"

section \<open>Revisions and evidence\<close>

definition connection_revision :: "string \<Rightarrow> 'f manager \<Rightarrow> nat" where
  "connection_revision i m = (case mg_revisions m i of None \<Rightarrow> 0 | Some n \<Rightarrow> n)"

definition advance_revision :: "nat \<Rightarrow> string \<Rightarrow> 'f manager \<Rightarrow> 'f manager" where
  "advance_revision now i m =
     m\<lparr>mg_changed_at := (mg_changed_at m)(i \<mapsto> now),
       mg_evidence := (mg_evidence m)(i := None),
       mg_next_revision := Suc (mg_next_revision m),
       mg_revisions := (mg_revisions m)(i \<mapsto> Suc (mg_next_revision m))\<rparr>"

definition matches_connection :: "server \<Rightarrow> nat \<Rightarrow> 'f manager \<Rightarrow> bool" where
  "matches_connection s rv m \<longleftrightarrow> connection_revision (sv_id s) m = rv \<and>
     list_ex (\<lambda>c. sv_id c = sv_id s \<and> same_connection c s) (cf_servers (mg_config m))"

definition add_evidence :: "string \<Rightarrow> observation \<Rightarrow> 'f manager \<Rightarrow> 'f manager" where
  "add_evidence i ob m =
     m\<lparr>mg_evidence := (mg_evidence m)(i \<mapsto>
        observe_at ob (case mg_evidence m i of None \<Rightarrow> unobserved | Some c \<Rightarrow> c))\<rparr>"

definition observe_connection :: "server \<Rightarrow> nat \<Rightarrow> observation \<Rightarrow> 'f manager \<Rightarrow> 'f manager" where
  "observe_connection s rv ob m = (if matches_connection s rv m then add_evidence (sv_id s) ob m else m)"

text \<open>\<open>connection_events\<close>: an attempt that began before the profile changed is ignored.\<close>

definition observe_event :: "server \<Rightarrow> observation \<Rightarrow> 'f manager \<Rightarrow> 'f manager" where
  "observe_event s ob m =
     (if later_than (mg_changed_at m (sv_id s)) (ob_started ob) then m
      else observe_connection s (connection_revision (sv_id s) m) ob m)"

definition health_of :: "nat \<Rightarrow> nat \<Rightarrow> 'f manager \<Rightarrow> string \<Rightarrow> health" where
  "health_of now wall m i = health_at now wall (case mg_evidence m i of None \<Rightarrow> unobserved | Some c \<Rightarrow> c)"

section \<open>Saving and looking up\<close>

definition save ::
  "'f vault_lib \<Rightarrow> vault_faults \<Rightarrow> config \<Rightarrow> (string \<times> string) option \<Rightarrow> 'f manager \<Rightarrow>
   'f manager \<times> (string + unit)" where
  "save lib f cfg pw m =
     (case mg_load_error m of
        Some e \<Rightarrow> (m, Inl e)
      | None \<Rightarrow>
          (case vault_write lib f cfg pw (mg_file m) of
             (file, Inl e) \<Rightarrow> (m\<lparr>mg_file := file\<rparr>, Inl e)
           | (file, Inr _) \<Rightarrow> (m\<lparr>mg_file := file, mg_config := cfg\<rparr>, Inr ())))"

definition the_server :: "string \<Rightarrow> 'f manager \<Rightarrow> string + server" where
  "the_server i m = ok_or ''Server no longer exists.'' (find_server i (mg_config m))"

section \<open>Tunnels\<close>

definition running :: "string \<Rightarrow> 'f manager \<Rightarrow> bool" where
  "running i m \<longleftrightarrow> (case mg_tunnels m i of None \<Rightarrow> False | Some r \<Rightarrow> \<not> tt_finished r)"

definition set_state :: "string \<Rightarrow> conn_state \<Rightarrow> 'f manager \<Rightarrow> 'f manager" where
  "set_state i st m = m\<lparr>mg_states := (mg_states m)(i \<mapsto> st)\<rparr>"

text \<open>The check of \<open>connect\<close> against the active tunnels.\<close>

fun clash :: "'f manager \<Rightarrow> string \<Rightarrow> port list \<Rightarrow> tunnel list \<Rightarrow> string + unit" where
  "clash m i ports [] = Inr ()"
| "clash m i ports (t # ts) =
     (if tn_id t \<noteq> i \<and> running (tn_id t) m
      then bindR (port_pairs t) (\<lambda>qs.
           if list_ex (\<lambda>(p, _). p \<in> set ports) qs
           then Inl (''Local ports overlap with active tunnel '' @ quoted (tn_name t) @ ''.'')
           else clash m i ports ts)
      else clash m i ports ts)"

definition connect_checks :: "string \<Rightarrow> 'f manager \<Rightarrow> string + (server \<times> tunnel)" where
  "connect_checks i m =
     bindR (ok_or ''Tunnel no longer exists.'' (find_tunnel i (mg_config m))) (\<lambda>t.
     bindR (port_pairs t) (\<lambda>ps.
     bindR (the_server (tn_server t) m) (\<lambda>s.
     bindR (clash m i (map fst ps) (cf_tunnels (mg_config m))) (\<lambda>_.
     Inr (s, t)))))"

definition connect :: "string \<Rightarrow> 'f manager \<Rightarrow> 'f manager \<times> (string + unit)" where
  "connect i m =
     (if running i m then (m, Inr ())
      else case connect_checks i m of
             Inl e \<Rightarrow> (m, Inl e)
           | Inr (s, t) \<Rightarrow>
               ((set_state i (state_of Connecting) m)
                  \<lparr>mg_tunnels := (mg_tunnels m)(i \<mapsto>
                     \<lparr>tt_server = s, tt_tunnel = t, tt_attempt = 0, tt_finished = False\<rparr>)\<rparr>, Inr ()))"

definition disconnect :: "string \<Rightarrow> 'f manager \<Rightarrow> 'f manager" where
  "disconnect i m = set_state i (state_of Disconnected) (m\<lparr>mg_tunnels := (mg_tunnels m)(i := None)\<rparr>)"

definition active_tunnels :: "string \<Rightarrow> 'f manager \<Rightarrow> string list" where
  "active_tunnels sid m =
     map tn_id (filter (\<lambda>t. tn_server t = sid \<and> running (tn_id t) m) (cf_tunnels (mg_config m)))"

text \<open>
  The task of a tunnel (\<open>spawn\<close>): it reports \<open>Connected\<close>, forgets earlier attempts after a minute, and on
  a failure retries or ends. The counter saturates as a \<open>u32\<close>; seconds until the next attempt.
\<close>

definition set_task :: "string \<Rightarrow> tunnel_task \<Rightarrow> 'f manager \<Rightarrow> 'f manager" where
  "set_task i r m = m\<lparr>mg_tunnels := (mg_tunnels m)(i \<mapsto> r)\<rparr>"

definition next_attempt :: "nat \<Rightarrow> nat" where
  "next_attempt n = min (Suc n) (2 ^ 32 - 1)"

definition retry_delay :: "nat \<Rightarrow> nat" where
  "retry_delay attempt = min (2 ^ min attempt 5) 30"

definition task_connected :: "string \<Rightarrow> 'f manager \<Rightarrow> 'f manager" where
  "task_connected i m = (if running i m then set_state i (state_of Connected) m else m)"

definition task_settled :: "string \<Rightarrow> 'f manager \<Rightarrow> 'f manager" where
  "task_settled i m =
     (case mg_tunnels m i of
        Some r \<Rightarrow> if tt_finished r then m else set_task i (r\<lparr>tt_attempt := 0\<rparr>) m
      | None \<Rightarrow> m)"

definition task_failed :: "string \<Rightarrow> string \<Rightarrow> bool \<Rightarrow> 'f manager \<Rightarrow> 'f manager" where
  "task_failed i e retryable m =
     (case mg_tunnels m i of
        None \<Rightarrow> m
      | Some r \<Rightarrow>
          if tt_finished r then m
          else if \<not> retryable \<or> \<not> tn_auto_reconnect (tt_tunnel r)
          then set_task i (r\<lparr>tt_finished := True\<rparr>) (set_state i (error_state e) m)
          else
            let n = next_attempt (tt_attempt r) in
            set_task i (r\<lparr>tt_attempt := n\<rparr>)
              (set_state i \<lparr>cs_status = Reconnecting, cs_message = Some e, cs_attempt = n\<rparr> m))"

section \<open>Sharing\<close>

definition sharing :: "string \<Rightarrow> 'f manager \<Rightarrow> bool" where
  "sharing i m \<longleftrightarrow> (case mg_shares m i of None \<Rightarrow> False | Some r \<Rightarrow> \<not> st_finished r)"

definition set_share_state :: "string \<Rightarrow> conn_state \<Rightarrow> 'f manager \<Rightarrow> 'f manager" where
  "set_share_state i st m = m\<lparr>mg_share_states := (mg_share_states m)(i \<mapsto> st)\<rparr>"

text \<open>\<open>start_integration\<close>; \<open>identity\<close> is the result of \<open>clipboard::client_identity\<close>.\<close>

definition start_share :: "string + string \<Rightarrow> string \<Rightarrow> 'f manager \<Rightarrow> 'f manager \<times> (string + unit)" where
  "start_share identity i m =
     (if sharing i m then (m, Inr ())
      else case the_server i m of
             Inl e \<Rightarrow> (m, Inl e)
           | Inr s \<Rightarrow>
               if \<not> sv_clipboard s \<and> \<not> sv_browser s then (m, Inr ())
               else case identity of
                      Inl e \<Rightarrow> (m, Inl e)
                    | Inr _ \<Rightarrow>
                        ((set_share_state i (state_of Connecting) m)
                           \<lparr>mg_messages := (mg_messages m)(i := None),
                            mg_shares := (mg_shares m)(i \<mapsto> \<lparr>st_server = s, st_finished = False\<rparr>)\<rparr>, Inr ()))"

text \<open>\<open>final\<close> is the state a running task leaves when it is told to stop.\<close>

definition stop_share :: "conn_state \<Rightarrow> string \<Rightarrow> 'f manager \<Rightarrow> 'f manager" where
  "stop_share final i m =
     (let m1 = (case mg_shares m i of
                  Some r \<Rightarrow> (if st_finished r then m else set_share_state i final m)\<lparr>mg_shares := (mg_shares m)(i := None)\<rparr>
                | None \<Rightarrow> set_share_state i (state_of Disconnected) m)
      in m1\<lparr>mg_messages := (mg_messages m1)(i := None)\<rparr>)"

definition share_reports :: "string \<Rightarrow> string \<Rightarrow> 'f manager \<Rightarrow> 'f manager" where
  "share_reports i note_text m =
     (if sharing i m
      then set_share_state i (state_of Connected) (m\<lparr>mg_messages := (mg_messages m)(i \<mapsto> note_text)\<rparr>)
      else m)"

definition share_retries :: "string \<Rightarrow> 'f manager \<Rightarrow> 'f manager" where
  "share_retries i m = (if sharing i m then set_share_state i (state_of Reconnecting) m else m)"

definition share_ends :: "string \<Rightarrow> string + unit \<Rightarrow> 'f manager \<Rightarrow> 'f manager" where
  "share_ends i result m =
     (case mg_shares m i of
        None \<Rightarrow> m
      | Some r \<Rightarrow>
          if st_finished r then m
          else (set_share_state i (case result of Inr _ \<Rightarrow> state_of Disconnected | Inl e \<Rightarrow> error_state e) m)
                 \<lparr>mg_shares := (mg_shares m)(i \<mapsto> r\<lparr>st_finished := True\<rparr>)\<rparr>)"

fun change_server :: "string \<Rightarrow> (server \<Rightarrow> server) \<Rightarrow> server list \<Rightarrow> server list" where
  "change_server i g [] = []"
| "change_server i g (s # ss) = (if sv_id s = i then g s # ss else s # change_server i g ss)"

definition consent :: "bool \<Rightarrow> server \<Rightarrow> bool" where
  "consent browser s = (if browser then sv_browser s else sv_clipboard s)"

definition set_consent :: "bool \<Rightarrow> bool \<Rightarrow> server \<Rightarrow> server" where
  "set_consent browser b s = (if browser then s\<lparr>sv_browser := b\<rparr> else s\<lparr>sv_clipboard := b\<rparr>)"

definition remember_share ::
  "'f vault_lib \<Rightarrow> vault_faults \<Rightarrow> bool \<Rightarrow> bool \<Rightarrow> string \<Rightarrow> 'f manager \<Rightarrow> 'f manager \<times> (string + unit)" where
  "remember_share lib f browser enabled i m =
     (case the_server i m of
        Inl e \<Rightarrow> (m, Inl e)
      | Inr s \<Rightarrow>
          if consent browser s = enabled then (m, Inr ())
          else save lib f ((mg_config m)\<lparr>cf_servers :=
                 change_server i (set_consent browser enabled) (cf_servers (mg_config m))\<rparr>) None m)"

section \<open>Commands\<close>

text \<open>Steps of a command that may fail; the changes made before a failure stay.\<close>

definition thenM ::
  "'s \<times> (string + 'a) \<Rightarrow> ('s \<Rightarrow> 'a \<Rightarrow> 's \<times> (string + 'b)) \<Rightarrow> 's \<times> (string + 'b)" where
  "thenM p k = (case p of (s, Inl e) \<Rightarrow> (s, Inl e) | (s, Inr x) \<Rightarrow> k s x)"

fun restart :: "string list \<Rightarrow> 'f manager \<Rightarrow> 'f manager \<times> (string + unit)" where
  "restart [] m = (m, Inr ())"
| "restart (i # js) m = thenM (connect i (disconnect i m)) (\<lambda>m' _. restart js m')"

record inputs =
  in_faults :: vault_faults
  in_now :: nat
  in_identity :: "string \<Rightarrow> string + string"
  in_last :: "string \<Rightarrow> conn_state"
  in_cleanup :: "string + unit"

definition needs_reconnect :: "string option \<Rightarrow> server \<Rightarrow> 'f manager \<Rightarrow> bool" where
  "needs_reconnect password s m \<longleftrightarrow> (\<exists>p. password = Some p \<and> p \<noteq> []) \<or>
     (case find_server (sv_id s) (mg_config m) of None \<Rightarrow> False | Some old \<Rightarrow> \<not> same_connection old s)"

definition save_server ::
  "'f vault_lib \<Rightarrow> inputs \<Rightarrow> server \<Rightarrow> string option \<Rightarrow> 'f manager \<Rightarrow> 'f manager \<times> (string + unit)" where
  "save_server lib inp s password m =
     (let i = sv_id s;
          is_new = (find_server i (mg_config m) = None);
          again = needs_reconnect password s m;
          pw = (case password of Some p \<Rightarrow> if p = [] then None else Some (i, p) | None \<Rightarrow> None) in
      thenM (m, validate_server s) (\<lambda>m _.
      thenM (save lib (in_faults inp) (upsert_server s (mg_config m)) pw m) (\<lambda>m1 _.
        let m2 = (if again \<or> is_new then advance_revision (in_now inp) i m1 else m1) in
        if \<not> again then (m2, Inr ())
        else
          let active = active_tunnels i m2 in
          thenM (restart active (stop_share (in_last inp i) i m2)) (\<lambda>m3 _.
          thenM (m3, the_server i m3) (\<lambda>m3 s'.
            if sv_clipboard s' \<or> sv_browser s' then start_share (in_identity inp i) i m3
            else (m3, Inr ()))))))"

definition forget_tunnel :: "string \<Rightarrow> 'f manager \<Rightarrow> 'f manager" where
  "forget_tunnel i m = (let m1 = disconnect i m in m1\<lparr>mg_states := (mg_states m1)(i := None)\<rparr>)"

definition without_server :: "string \<Rightarrow> config \<Rightarrow> config" where
  "without_server i c =
     \<lparr>cf_servers = filter (\<lambda>s. sv_id s \<noteq> i) (cf_servers c),
      cf_tunnels = filter (\<lambda>t. tn_server t \<noteq> i) (cf_tunnels c)\<rparr>"

definition delete_server :: "'f vault_lib \<Rightarrow> inputs \<Rightarrow> string \<Rightarrow> 'f manager \<Rightarrow> 'f manager \<times> (string + unit)" where
  "delete_server lib inp i m =
     thenM (m, the_server i m) (\<lambda>m _.
     let ids = map tn_id (filter (\<lambda>t. tn_server t = i) (cf_tunnels (mg_config m))) in
     thenM (save lib (in_faults inp) (without_server i (mg_config m)) None m) (\<lambda>m1 _.
     let m2 = stop_share (in_last inp i) i (fold forget_tunnel ids m1) in
     (m2\<lparr>mg_share_states := (mg_share_states m2)(i := None)\<rparr>,
      map_errR (\<lambda>e. ''Server removed, but local data cleanup failed: '' @ e) (in_cleanup inp))))"

fun put_tunnel :: "tunnel \<Rightarrow> tunnel list \<Rightarrow> tunnel list" where
  "put_tunnel t [] = [t]"
| "put_tunnel t (u # us) = (if tn_id u = tn_id t then t # us else u # put_tunnel t us)"

definition busy_state :: "conn_state option \<Rightarrow> bool" where
  "busy_state st \<longleftrightarrow> (case st of None \<Rightarrow> False
     | Some c \<Rightarrow> cs_status c = Connecting \<or> cs_status c = Connected \<or> cs_status c = Reconnecting)"

definition save_tunnel :: "'f vault_lib \<Rightarrow> inputs \<Rightarrow> tunnel \<Rightarrow> 'f manager \<Rightarrow> 'f manager \<times> (string + unit)" where
  "save_tunnel lib inp t m =
     thenM (m, port_pairs t) (\<lambda>m _.
     thenM (m, the_server (tn_server t) m) (\<lambda>m _.
     thenM (m, validate_unique t (cf_tunnels (mg_config m))) (\<lambda>m _.
     let active = busy_state (mg_states m (tn_id t)) in
     thenM (save lib (in_faults inp)
              ((mg_config m)\<lparr>cf_tunnels := put_tunnel t (cf_tunnels (mg_config m))\<rparr>) None m) (\<lambda>m1 _.
     if active then connect (tn_id t) (disconnect (tn_id t) m1) else (m1, Inr ())))))"

definition delete_tunnel :: "'f vault_lib \<Rightarrow> inputs \<Rightarrow> string \<Rightarrow> 'f manager \<Rightarrow> 'f manager \<times> (string + unit)" where
  "delete_tunnel lib inp i m =
     thenM (save lib (in_faults inp)
              ((mg_config m)\<lparr>cf_tunnels := filter (\<lambda>t. tn_id t \<noteq> i) (cf_tunnels (mg_config m))\<rparr>) None m)
       (\<lambda>m1 _. (forget_tunnel i m1, Inr ()))"

definition set_tunnel_connected :: "string \<Rightarrow> bool \<Rightarrow> 'f manager \<Rightarrow> 'f manager \<times> (string + unit)" where
  "set_tunnel_connected i connected m = (if connected then connect i m else (disconnect i m, Inr ()))"

definition set_share_enabled ::
  "'f vault_lib \<Rightarrow> inputs \<Rightarrow> bool \<Rightarrow> bool \<Rightarrow> string \<Rightarrow> 'f manager \<Rightarrow> 'f manager \<times> (string + unit)" where
  "set_share_enabled lib inp browser enabled i m =
     thenM (m, the_server i m) (\<lambda>m before.
     thenM (remember_share lib (in_faults inp) browser enabled i m) (\<lambda>m1 _.
     thenM (m1, the_server i m1) (\<lambda>m1 after.
     let m2 = (if sv_clipboard before \<noteq> sv_clipboard after \<or> sv_browser before \<noteq> sv_browser after
               then stop_share (in_last inp i) i m1 else m1) in
     if sv_clipboard after \<or> sv_browser after then start_share (in_identity inp i) i m2
     else (stop_share (in_last inp i) i m2, Inr ()))))"

text \<open>\<open>reinstall_agent\<close> stops sharing, works without the lock, and resumes on the same profile only.\<close>

definition pause_share :: "inputs \<Rightarrow> string \<Rightarrow> 'f manager \<Rightarrow> 'f manager \<times> (string + (server \<times> nat))" where
  "pause_share inp i m =
     thenM (m, the_server i m) (\<lambda>m s. (stop_share (in_last inp i) i m, Inr (s, connection_revision i m)))"

definition resume_share :: "inputs \<Rightarrow> server \<Rightarrow> nat \<Rightarrow> 'f manager \<Rightarrow> 'f manager \<times> (string + unit)" where
  "resume_share inp s rv m =
     (if matches_connection s rv m then start_share (in_identity inp (sv_id s)) (sv_id s) m else (m, Inr ()))"

text \<open>The start of \<open>background\<close>, which restores what the profiles ask for, and \<open>shutdown\<close>.\<close>

definition restore_share :: "inputs \<Rightarrow> string \<Rightarrow> 'f manager \<Rightarrow> 'f manager" where
  "restore_share inp i m =
     (case start_share (in_identity inp i) i m of
        (m', Inl e) \<Rightarrow> set_share_state i (error_state e) m' | (m', Inr _) \<Rightarrow> m')"

definition restore_tunnel :: "string \<Rightarrow> 'f manager \<Rightarrow> 'f manager" where
  "restore_tunnel i m =
     (case connect i m of (m', Inl e) \<Rightarrow> set_state i (error_state e) m' | (m', Inr _) \<Rightarrow> m')"

definition restore :: "inputs \<Rightarrow> 'f manager \<Rightarrow> 'f manager" where
  "restore inp m =
     fold restore_tunnel (map tn_id (filter tn_auto_connect (cf_tunnels (mg_config m))))
       (fold (restore_share inp) (integration_servers (mg_config m)) m)"

definition shutdown :: "inputs \<Rightarrow> string list \<Rightarrow> string list \<Rightarrow> 'f manager \<Rightarrow> 'f manager" where
  "shutdown inp tunnels shares m =
     fold (\<lambda>i. stop_share (in_last inp i) i) shares (fold disconnect tunnels m)"

inductive manager_step :: "'f vault_lib \<Rightarrow> 'f manager \<Rightarrow> 'f manager \<Rightarrow> bool" for lib where
  saves_server: "manager_step lib m (fst (save_server lib inp s password m))"
| deletes_server: "manager_step lib m (fst (delete_server lib inp i m))"
| saves_tunnel: "manager_step lib m (fst (save_tunnel lib inp t m))"
| deletes_tunnel: "manager_step lib m (fst (delete_tunnel lib inp i m))"
| switches_tunnel: "manager_step lib m (fst (set_tunnel_connected i b m))"
| switches_share: "manager_step lib m (fst (set_share_enabled lib inp browser b i m))"
| pauses_share: "manager_step lib m (fst (pause_share inp i m))"
| resumes_share: "manager_step lib m (fst (resume_share inp s rv m))"
| restores: "manager_step lib m (restore inp m)"
| shuts_down: "manager_step lib m (shutdown inp ts ss m)"
| observes: "manager_step lib m (observe_connection s rv ob m)"
| hears: "manager_step lib m (observe_event s ob m)"
| connects: "manager_step lib m (task_connected i m)"
| settles: "manager_step lib m (task_settled i m)"
| fails: "manager_step lib m (task_failed i e retryable m)"
| reports: "manager_step lib m (share_reports i note_text m)"
| retries: "manager_step lib m (share_retries i m)"
| ends: "manager_step lib m (share_ends i result m)"

inductive manager_reachable :: "'f vault_lib \<Rightarrow> 'f manager \<Rightarrow> bool" for lib where
  start: "(\<And>c. loaded = Inr c \<Longrightarrow> validate c = Inr ()) \<Longrightarrow> manager_reachable lib (manager_new loaded file)"
| step: "manager_reachable lib m \<Longrightarrow> manager_step lib m m' \<Longrightarrow> manager_reachable lib m'"

end
