(* ===== verification/ManagerProps.thy ===== *)
theory ManagerProps
  imports Manager
begin

text \<open>
  The invariant of the manager, kept by every command and every move of a task: what runs is what the
  profiles say, on ports of its own, and sharing runs only with consent.
\<close>

section \<open>The invariant\<close>

definition local_ports :: "tunnel \<Rightarrow> port set" where
  "local_ports t = (case port_pairs t of Inr ps \<Rightarrow> fst ` set ps | Inl _ \<Rightarrow> {})"

text \<open>The tunnels in \<open>X\<close> may still run with an older version of their server.\<close>

definition tunnels_ok ::
  "string set \<Rightarrow> config \<Rightarrow> (string \<Rightarrow> tunnel_task option) \<Rightarrow> (string \<Rightarrow> conn_state option) \<Rightarrow> bool" where
  "tunnels_ok X cfg ts sts \<longleftrightarrow>
     (\<forall>i r. ts i = Some r \<longrightarrow> \<not> tt_finished r \<longrightarrow>
        find_tunnel i cfg = Some (tt_tunnel r) \<and> busy_state (sts i) \<and>
        (\<exists>s. find_server (tn_server (tt_tunnel r)) cfg = Some s \<and> (i \<notin> X \<longrightarrow> same_connection s (tt_server r))))"

definition ports_ok :: "(string \<Rightarrow> tunnel_task option) \<Rightarrow> bool" where
  "ports_ok ts \<longleftrightarrow>
     (\<forall>i j r q. ts i = Some r \<longrightarrow> ts j = Some q \<longrightarrow> \<not> tt_finished r \<longrightarrow> \<not> tt_finished q \<longrightarrow> i \<noteq> j \<longrightarrow>
        local_ports (tt_tunnel r) \<inter> local_ports (tt_tunnel q) = {})"

definition same_consent :: "server \<Rightarrow> server \<Rightarrow> bool" where
  "same_consent a b \<longleftrightarrow> sv_clipboard a = sv_clipboard b \<and> sv_browser a = sv_browser b"

definition shares_ok :: "config \<Rightarrow> (string \<Rightarrow> share_task option) \<Rightarrow> bool" where
  "shares_ok cfg sh \<longleftrightarrow>
     (\<forall>i r. sh i = Some r \<longrightarrow> \<not> st_finished r \<longrightarrow>
        (\<exists>s. find_server i cfg = Some s \<and> same_connection s (st_server r) \<and> same_consent s (st_server r) \<and>
           (sv_clipboard s \<or> sv_browser s)))"

definition consistent :: "string set \<Rightarrow> 'f manager \<Rightarrow> bool" where
  "consistent X m \<longleftrightarrow> validate (mg_config m) = Inr () \<and>
     tunnels_ok X (mg_config m) (mg_tunnels m) (mg_states m) \<and> ports_ok (mg_tunnels m) \<and>
     shares_ok (mg_config m) (mg_shares m)"

lemma consistent_same:
  "mg_config m' = mg_config m \<Longrightarrow> mg_tunnels m' = mg_tunnels m \<Longrightarrow> mg_states m' = mg_states m \<Longrightarrow>
   mg_shares m' = mg_shares m \<Longrightarrow> consistent X m \<Longrightarrow> consistent X m'"
  by (simp add: consistent_def)

lemma running_iff: "running i m \<longleftrightarrow> (\<exists>r. mg_tunnels m i = Some r \<and> \<not> tt_finished r)"
  by (simp add: running_def split: option.splits)

lemma busy_simps [simp]:
  "busy_state (Some c) \<longleftrightarrow> cs_status c = Connecting \<or> cs_status c = Connected \<or> cs_status c = Reconnecting"
  "\<not> busy_state None"
  "cs_status (state_of st) = st"
  by (simp_all add: busy_state_def state_of_def)

section \<open>Changes of the maps\<close>

lemma tunnels_drop: "tunnels_ok X cfg ts sts \<Longrightarrow> tunnels_ok X cfg (ts(i := None)) (sts(i := st))"
  by (simp add: tunnels_ok_def)

lemma tunnels_state:
  "tunnels_ok X cfg ts sts \<Longrightarrow> (\<And>r. ts i = Some r \<Longrightarrow> tt_finished r \<or> busy_state st) \<Longrightarrow>
   tunnels_ok X cfg ts (sts(i := st))"
  by (auto simp: tunnels_ok_def)

lemma tunnels_add:
  assumes "tunnels_ok X cfg ts sts" "find_tunnel i cfg = Some t" "find_server (tn_server t) cfg = Some s"
  shows "tunnels_ok (X - {i}) cfg
    (ts(i \<mapsto> \<lparr>tt_server = s, tt_tunnel = t, tt_attempt = n, tt_finished = False\<rparr>)) (sts(i \<mapsto> state_of Connecting))"
  using assms by (simp add: tunnels_ok_def)

lemma tunnels_mono: "tunnels_ok X cfg ts sts \<Longrightarrow> X \<subseteq> Y \<Longrightarrow> tunnels_ok Y cfg ts sts"
  unfolding tunnels_ok_def by blast

lemma tunnels_task:
  assumes "tunnels_ok X cfg ts sts" "ts i = Some r" "tt_tunnel r' = tt_tunnel r" "tt_server r' = tt_server r"
    "tt_finished r \<Longrightarrow> tt_finished r'" "tt_finished r' \<or> busy_state st"
  shows "tunnels_ok X cfg (ts(i \<mapsto> r')) (sts(i := st))"
  using assms unfolding tunnels_ok_def by auto

lemma ports_drop: "ports_ok ts \<Longrightarrow> ports_ok (ts(i := None))"
  by (simp add: ports_ok_def)

lemma ports_add:
  assumes "ports_ok ts" "\<And>j q. ts j = Some q \<Longrightarrow> \<not> tt_finished q \<Longrightarrow> j \<noteq> i \<Longrightarrow>
     local_ports (tt_tunnel q) \<inter> local_ports (tt_tunnel r) = {}"
  shows "ports_ok (ts(i \<mapsto> r))"
  unfolding ports_ok_def
proof (intro allI impI)
  fix a b p q
  assume "(ts(i \<mapsto> r)) a = Some p" "(ts(i \<mapsto> r)) b = Some q" "\<not> tt_finished p" "\<not> tt_finished q" "a \<noteq> b"
  then show "local_ports (tt_tunnel p) \<inter> local_ports (tt_tunnel q) = {}"
    using assms unfolding ports_ok_def by (cases "a = i"; cases "b = i") (auto simp: Int_commute)
qed

lemma ports_task:
  assumes "ports_ok ts" "ts i = Some r" "tt_tunnel r' = tt_tunnel r" "tt_finished r \<Longrightarrow> tt_finished r'"
  shows "ports_ok (ts(i \<mapsto> r'))"
proof (cases "tt_finished r'")
  case True
  then show ?thesis using assms(1) by (auto simp: ports_ok_def)
next
  case False
  then have "\<not> tt_finished r" using assms(4) by blast
  then show ?thesis using assms by (intro ports_add) (auto simp: ports_ok_def)
qed

lemma shares_drop: "shares_ok cfg sh \<Longrightarrow> shares_ok cfg (sh(i := None))"
  by (simp add: shares_ok_def)

section \<open>Connecting\<close>

lemma clash_apart:
  "clash m i ports ts = Inr u \<Longrightarrow> t \<in> set ts \<Longrightarrow> tn_id t \<noteq> i \<Longrightarrow> running (tn_id t) m \<Longrightarrow>
   local_ports t \<inter> set ports = {}"
proof (induction ts)
  case (Cons v ts)
  show ?case
  proof (cases "t = v")
    case True
    then have "\<exists>qs. port_pairs t = Inr qs \<and> \<not> list_ex (\<lambda>(p, _). p \<in> set ports) qs"
      using Cons.prems by (auto simp: result_simps split: if_splits)
    then show ?thesis by (force simp: local_ports_def list_ex_iff)
  next
    case False
    then show ?thesis using Cons by (auto simp: result_simps split: if_splits)
  qed
qed simp

lemma clash_none:
  "(\<And>t. t \<in> set ts \<Longrightarrow> tn_id t \<noteq> i \<Longrightarrow> running (tn_id t) m \<Longrightarrow>
      (\<exists>qs. port_pairs t = Inr qs) \<and> local_ports t \<inter> set ports = {}) \<Longrightarrow> clash m i ports ts = Inr ()"
proof (induction ts)
  case (Cons t ts)
  have "clash m i ports ts = Inr ()" using Cons.prems by (intro Cons.IH) simp
  moreover have "\<not> list_ex (\<lambda>(p, _). p \<in> set ports) qs"
    if "tn_id t \<noteq> i" "running (tn_id t) m" "port_pairs t = Inr qs" for qs
    using Cons.prems [of t] that by (auto simp: local_ports_def list_ex_iff)
  ultimately show ?case using Cons.prems [of t] by auto
qed simp

lemma connect_checks_ok:
  assumes "connect_checks i m = Inr (s, t)"
  shows "find_tunnel i (mg_config m) = Some t" "find_server (tn_server t) (mg_config m) = Some s"
    "v \<in> set (cf_tunnels (mg_config m)) \<Longrightarrow> tn_id v \<noteq> i \<Longrightarrow> running (tn_id v) m \<Longrightarrow> local_ports v \<inter> local_ports t = {}"
proof -
  obtain ps where "find_tunnel i (mg_config m) = Some t" "port_pairs t = Inr ps"
    "find_server (tn_server t) (mg_config m) = Some s" "clash m i (map fst ps) (cf_tunnels (mg_config m)) = Inr ()"
    using assms by (auto simp: connect_checks_def the_server_def result_simps)
  then show "find_tunnel i (mg_config m) = Some t" "find_server (tn_server t) (mg_config m) = Some s"
    "v \<in> set (cf_tunnels (mg_config m)) \<Longrightarrow> tn_id v \<noteq> i \<Longrightarrow> running (tn_id v) m \<Longrightarrow> local_ports v \<inter> local_ports t = {}"
    using clash_apart [of m i "map fst ps" "cf_tunnels (mg_config m)" "()" v] by (auto simp: local_ports_def)
qed

definition started :: "string \<Rightarrow> server \<Rightarrow> tunnel \<Rightarrow> 'f manager \<Rightarrow> 'f manager" where
  "started i s t m = (set_state i (state_of Connecting) m)
     \<lparr>mg_tunnels := (mg_tunnels m)(i \<mapsto> \<lparr>tt_server = s, tt_tunnel = t, tt_attempt = 0, tt_finished = False\<rparr>)\<rparr>"

lemma connect_eq:
  "connect i m = (if running i m then (m, Inr ())
     else case connect_checks i m of Inl e \<Rightarrow> (m, Inl e) | Inr (s, t) \<Rightarrow> (started i s t m, Inr ()))"
  by (simp add: connect_def started_def split: sum.splits)

lemma running_saved:
  assumes "consistent X m" "mg_tunnels m j = Some r" "\<not> tt_finished r"
  shows "tt_tunnel r \<in> set (cf_tunnels (mg_config m))" "tn_id (tt_tunnel r) = j"
  using assms find_tunnel_Some [of j "mg_config m" "tt_tunnel r"] by (auto simp: consistent_def tunnels_ok_def)

lemma consistent_started:
  assumes "consistent X m" "connect_checks i m = Inr (s, t)"
  shows "consistent (X - {i}) (started i s t m)"
proof -
  note ok = connect_checks_ok [OF assms(2)]
  have "local_ports (tt_tunnel q) \<inter> local_ports t = {}" if "mg_tunnels m j = Some q" "\<not> tt_finished q" "j \<noteq> i" for j q
    using ok(3) [of "tt_tunnel q"] running_saved [OF assms(1) that(1,2)] that by (auto simp: running_iff)
  then show ?thesis using assms(1) ok(1,2)
    by (simp add: consistent_def started_def set_state_def tunnels_add ports_add)
qed

lemma consistent_not_running:
  assumes "consistent X m" "\<not> running i m"
  shows "consistent (X - {i}) m"
proof -
  have "tunnels_ok (X - {i}) (mg_config m) (mg_tunnels m) (mg_states m)"
    using assms unfolding consistent_def tunnels_ok_def running_iff by (metis DiffI singletonD)
  then show ?thesis using assms(1) by (simp add: consistent_def)
qed

lemma consistent_mono: "consistent X m \<Longrightarrow> X \<subseteq> Y \<Longrightarrow> consistent Y m"
  unfolding consistent_def using tunnels_mono by blast

lemma consistent_connect: "consistent X m \<Longrightarrow> consistent X (fst (connect i m))"
  by (auto simp: connect_eq intro: consistent_mono [OF consistent_started] split: sum.splits)

lemma consistent_disconnect: "consistent X m \<Longrightarrow> consistent X (disconnect i m)"
  by (simp add: consistent_def disconnect_def set_state_def tunnels_drop ports_drop)

lemma find_server_valid:
  assumes "validate c = Inr u" "t \<in> set (cf_tunnels c)"
  shows "\<exists>s. find_server (tn_server t) c = Some s"
proof (cases "find_server (tn_server t) c")
  case None
  then show ?thesis using validate_ok(4) [OF assms] by (auto simp: find_server_def find_None_iff server_ids_def)
qed simp

lemma connect_checks_succeed:
  assumes "validate (mg_config m) = Inr ()" "find_tunnel i (mg_config m) = Some t"
    "\<And>v. v \<in> set (cf_tunnels (mg_config m)) \<Longrightarrow> tn_id v \<noteq> i \<Longrightarrow> running (tn_id v) m \<Longrightarrow> local_ports v \<inter> local_ports t = {}"
  shows "\<exists>s. connect_checks i m = Inr (s, t)"
proof -
  have t: "t \<in> set (cf_tunnels (mg_config m))" using find_tunnel_Some [OF assms(2)] by simp
  obtain ps where ps: "port_pairs t = Inr ps" using validate_ok(3) [OF assms(1) t] by blast
  obtain s where s: "find_server (tn_server t) (mg_config m) = Some s" using find_server_valid [OF assms(1) t] by blast
  have "clash m i (map fst ps) (cf_tunnels (mg_config m)) = Inr ()"
    using assms(3) validate_ok(3) [OF assms(1)] ps by (intro clash_none) (auto simp: local_ports_def)
  then show ?thesis using assms(2) ps s by (simp add: connect_checks_def the_server_def)
qed

text \<open>Restarting tunnels that ran beside each other succeeds and brings each to its saved server.\<close>

lemma restart_ok:
  assumes "consistent (set js) m" "\<forall>j \<in> set js. find_tunnel j (mg_config m) \<noteq> None"
    and "\<And>a b t u. a \<in> A \<Longrightarrow> b \<in> A \<Longrightarrow> a \<noteq> b \<Longrightarrow> find_tunnel a (mg_config m) = Some t \<Longrightarrow>
      find_tunnel b (mg_config m) = Some u \<Longrightarrow> local_ports t \<inter> local_ports u = {}"
    and "set js \<subseteq> A" "\<And>i. running i m \<Longrightarrow> i \<in> A"
  shows "\<exists>m'. restart js m = (m', Inr ()) \<and> consistent {} m'"
  using assms
proof (induction js arbitrary: m)
  case (Cons j js)
  let ?m = "disconnect j m"
  obtain t where t: "find_tunnel j (mg_config m) = Some t" using Cons.prems(2) by auto
  have cfg: "mg_config ?m = mg_config m" by (simp add: disconnect_def set_state_def)
  have off: "\<not> running j ?m" and less: "running i ?m \<Longrightarrow> running i m" for i
    by (auto simp: running_iff disconnect_def set_state_def split: if_splits)
  have valid: "validate (mg_config m) = Inr ()" using Cons.prems(1) by (simp add: consistent_def)
  have "local_ports v \<inter> local_ports t = {}"
    if "v \<in> set (cf_tunnels (mg_config m))" "tn_id v \<noteq> j" "running (tn_id v) ?m" for v
    using Cons.prems(3) [of "tn_id v" j v t] find_tunnel_at [OF valid that(1)] t that Cons.prems(4)
      Cons.prems(5) [OF less [OF that(3)]] by simp
  then obtain s where ok: "connect_checks j ?m = Inr (s, t)"
    using connect_checks_succeed [of ?m j t] valid t unfolding cfg by blast
  let ?n = "started j s t ?m"
  have "consistent (set (j # js) - {j}) ?n"
    using consistent_started [OF consistent_disconnect [OF Cons.prems(1)] ok] .
  then have n: "consistent (set js) ?n" by (rule consistent_mono) auto
  have cfg_n: "mg_config ?n = mg_config m" by (simp add: started_def set_state_def cfg)
  have more: "running i ?n \<Longrightarrow> i \<in> A" for i
    using Cons.prems(4) Cons.prems(5) [OF less, of i]
    by (auto simp: running_iff started_def set_state_def split: if_splits)
  have "\<exists>m'. restart js ?n = (m', Inr ()) \<and> consistent {} m'"
    by (rule Cons.IH [OF n]) (use Cons.prems(2,3,4) more in \<open>auto simp: cfg_n\<close>)
  then show ?case using ok off by (simp add: connect_eq thenM_def)
qed simp

section \<open>Saving\<close>

lemma vault_write_valid: "vault_write lib f cfg pw fl = (fl', Inr u) \<Longrightarrow> validate cfg = Inr ()"
  by (auto simp: vault_write_def stage_vault_def result_simps split: sum.splits)

lemma save_cases:
  assumes "save lib f cfg pw m = (m', res)"
  obtains (failed) e fl where "res = Inl e" "m' = m\<lparr>mg_file := fl\<rparr>"
  | (saved) fl where "res = Inr ()" "validate cfg = Inr ()" "m' = m\<lparr>mg_file := fl, mg_config := cfg\<rparr>"
proof (cases "mg_load_error m")
  case (Some e)
  then show ?thesis using assms failed [of e "mg_file m"] by (simp add: save_def)
next
  case None
  obtain fl r where w: "vault_write lib f cfg pw (mg_file m) = (fl, r)" by fastforce
  then show ?thesis
    using assms None failed [of _ fl] saved [of fl] vault_write_valid [of lib f cfg pw "mg_file m" fl]
    by (cases r) (auto simp: save_def)
qed

lemma consistent_file: "consistent X m \<Longrightarrow> consistent X (m\<lparr>mg_file := fl\<rparr>)"
  by (rule consistent_same) simp_all

lemma tunnels_upsert:
  assumes "tunnels_ok {} cfg ts sts"
    "\<And>i r. ts i = Some r \<Longrightarrow> \<not> tt_finished r \<Longrightarrow> tn_server (tt_tunnel r) = sv_id s \<Longrightarrow> i \<notin> X \<Longrightarrow>
       \<exists>e. find_server (sv_id s) cfg = Some e \<and> same_connection e s"
  shows "tunnels_ok X (upsert_server s cfg) ts sts"
  unfolding tunnels_ok_def
proof (intro allI impI)
  fix i r
  assume r: "ts i = Some r" "\<not> tt_finished r"
  then obtain e where e: "find_tunnel i cfg = Some (tt_tunnel r)" "busy_state (sts i)"
    "find_server (tn_server (tt_tunnel r)) cfg = Some e" "same_connection e (tt_server r)"
    using assms(1) unfolding tunnels_ok_def by blast
  have "find_tunnel i (upsert_server s cfg) = Some (tt_tunnel r)"
    using e(1) by (simp add: find_tunnel_def upsert_server_def)
  moreover have "same_connection s (tt_server r)" if "tn_server (tt_tunnel r) = sv_id s" "i \<notin> X"
    using assms(2) [OF r that] e(3,4) that(1) by (auto intro: same_connection_trans same_connection_sym)
  ultimately show "find_tunnel i (upsert_server s cfg) = Some (tt_tunnel r) \<and> busy_state (sts i) \<and>
      (\<exists>x. find_server (tn_server (tt_tunnel r)) (upsert_server s cfg) = Some x \<and>
        (i \<notin> X \<longrightarrow> same_connection x (tt_server r)))"
    using e by (auto simp: find_upsert)
qed

lemma shares_upsert_other: "shares_ok cfg sh \<Longrightarrow> shares_ok (upsert_server s cfg) (sh(sv_id s := None))"
  by (simp add: shares_ok_def find_upsert)

lemma shares_upsert_same:
  assumes "shares_ok cfg sh" "\<And>e. find_server (sv_id s) cfg = Some e \<Longrightarrow> same_connection e s"
  shows "shares_ok (upsert_server s cfg) sh"
  unfolding shares_ok_def
proof (intro allI impI)
  fix i r
  assume "sh i = Some r" "\<not> st_finished r"
  then obtain e where e: "find_server i cfg = Some e" "same_connection e (st_server r)" "same_consent e (st_server r)"
    "sv_clipboard e \<or> sv_browser e" using assms(1) unfolding shares_ok_def by blast
  have "same_connection s (st_server r)" "same_destination e s" if "i = sv_id s"
    using assms(2) [of e] e(1,2) that same_connection_trans [of s e "st_server r"] same_connection_sym [of e s]
    by (auto simp: same_connection_def [of e s])
  then show "\<exists>x. find_server i (upsert_server s cfg) = Some x \<and> same_connection x (st_server r) \<and>
      same_consent x (st_server r) \<and> (sv_clipboard x \<or> sv_browser x)"
    using e by (auto simp: find_upsert upserted_def same_consent_def)
qed

section \<open>Sharing\<close>

lemma stop_share_fields [simp]:
  "mg_config (stop_share final i m) = mg_config m" "mg_tunnels (stop_share final i m) = mg_tunnels m"
  "mg_states (stop_share final i m) = mg_states m" "mg_shares (stop_share final i m) = (mg_shares m)(i := None)"
  by (auto simp: stop_share_def set_share_state_def Let_def fun_eq_iff split: option.splits)

lemma consistent_stop_share: "consistent X m \<Longrightarrow> consistent X (stop_share final i m)"
  by (simp add: consistent_def shares_drop)

lemma consistent_start_share: "consistent X m \<Longrightarrow> consistent X (fst (start_share identity i m))"
  by (auto simp: start_share_def the_server_def consistent_def shares_ok_def set_share_state_def same_consent_def
      result_simps split: sum.splits)

section \<open>Commands\<close>

lemma running_fields: "mg_tunnels m' = mg_tunnels m \<Longrightarrow> running i m' = running i m"
  by (simp add: running_iff)

lemma advance_fields [simp]:
  "mg_config (advance_revision now i m) = mg_config m" "mg_tunnels (advance_revision now i m) = mg_tunnels m"
  "mg_states (advance_revision now i m) = mg_states m" "mg_shares (advance_revision now i m) = mg_shares m"
  by (simp_all add: advance_revision_def)

lemma tunnels_of_upsert [simp]: "cf_tunnels (upsert_server s c) = cf_tunnels c"
  by (simp add: upsert_server_def)

lemma find_tunnel_upsert [simp]: "find_tunnel j (upsert_server s c) = find_tunnel j c"
  by (simp add: find_tunnel_def)

text \<open>A profile whose connection did not change.\<close>

lemma consistent_renamed:
  assumes "consistent {} m" "validate (upsert_server s (mg_config m)) = Inr ()"
    "\<And>e. find_server (sv_id s) (mg_config m) = Some e \<Longrightarrow> same_connection e s"
  shows "consistent {} (m\<lparr>mg_file := fl, mg_config := upsert_server s (mg_config m)\<rparr>)"
proof -
  have "tunnels_ok {} (upsert_server s (mg_config m)) (mg_tunnels m) (mg_states m)"
  proof (rule tunnels_upsert)
    fix i r
    assume r: "mg_tunnels m i = Some r" "\<not> tt_finished r" "tn_server (tt_tunnel r) = sv_id s"
    then obtain e where "find_server (sv_id s) (mg_config m) = Some e"
      using assms(1) unfolding consistent_def tunnels_ok_def by metis
    then show "\<exists>e. find_server (sv_id s) (mg_config m) = Some e \<and> same_connection e s" using assms(3) by blast
  qed (use assms(1) in \<open>simp add: consistent_def\<close>)
  then show ?thesis using assms shares_upsert_same [OF _ assms(3)] by (simp add: consistent_def)
qed

text \<open>A profile whose connection changed: its sharing is stopped and its tunnels are due.\<close>

lemma consistent_changed:
  assumes "consistent {} m" "validate (upsert_server s (mg_config m)) = Inr ()"
    "mg_config m' = upsert_server s (mg_config m)" "mg_tunnels m' = mg_tunnels m" "mg_states m' = mg_states m"
    "mg_shares m' = (mg_shares m)(sv_id s := None)"
  shows "consistent (set (active_tunnels (sv_id s) m')) m'"
proof -
  have "tunnels_ok (set (active_tunnels (sv_id s) m')) (upsert_server s (mg_config m)) (mg_tunnels m) (mg_states m)"
  proof (rule tunnels_upsert)
    fix i r
    assume r: "mg_tunnels m i = Some r" "\<not> tt_finished r" "tn_server (tt_tunnel r) = sv_id s"
      "i \<notin> set (active_tunnels (sv_id s) m')"
    then have "i \<in> set (active_tunnels (sv_id s) m')"
      using running_saved [OF assms(1) r(1,2)] assms(3,4)
      by (force simp: active_tunnels_def running_iff)
    then show "\<exists>e. find_server (sv_id s) (mg_config m) = Some e \<and> same_connection e s" using r(4) by blast
  qed (use assms(1) in \<open>simp add: consistent_def\<close>)
  then show ?thesis using assms shares_upsert_other by (simp add: consistent_def)
qed

lemma consistent_restarted:
  assumes "consistent {} m" "validate (upsert_server s (mg_config m)) = Inr ()"
    "mg_config m' = upsert_server s (mg_config m)" "mg_tunnels m' = mg_tunnels m" "mg_states m' = mg_states m"
    "mg_shares m' = (mg_shares m)(sv_id s := None)"
  shows "\<exists>m3. restart (active_tunnels (sv_id s) m') m' = (m3, Inr ()) \<and> consistent {} m3"
proof (rule restart_ok [where A = "{i. running i m}"])
  show "consistent (set (active_tunnels (sv_id s) m')) m'" using assms by (rule consistent_changed)
  have same: "running i m' = running i m" for i using assms(4) by (rule running_fields)
  show "set (active_tunnels (sv_id s) m') \<subseteq> {i. running i m}" by (auto simp: active_tunnels_def same)
  then show "\<forall>j \<in> set (active_tunnels (sv_id s) m'). find_tunnel j (mg_config m') \<noteq> None"
    using assms(1) unfolding assms(3) consistent_def tunnels_ok_def by (auto simp: running_iff)
  show "local_ports t \<inter> local_ports u = {}"
    if ab: "a \<in> {i. running i m}" "b \<in> {i. running i m}" "a \<noteq> b" "find_tunnel a (mg_config m') = Some t"
      "find_tunnel b (mg_config m') = Some u" for a b t u
  proof -
    obtain r q where "mg_tunnels m a = Some r" "\<not> tt_finished r" "mg_tunnels m b = Some q" "\<not> tt_finished q"
      using ab(1,2) by (auto simp: running_iff)
    moreover from this have "tt_tunnel r = t" "tt_tunnel q = u"
      using assms(1) ab(4,5) unfolding assms(3) consistent_def tunnels_ok_def by auto
    ultimately show ?thesis using assms(1) ab(3) unfolding consistent_def ports_ok_def by blast
  qed
qed (use running_fields [OF assms(4)] in simp)

lemma consistent_save_server:
  assumes "consistent {} m"
  shows "consistent {} (fst (save_server lib inp s password m))"
proof (cases "validate_server s")
  case (Inl e)
  then show ?thesis using assms by (simp add: save_server_def thenM_def Let_def)
next
  case ok: (Inr u)
  let ?pw = "case password of Some p \<Rightarrow> if p = [] then None else Some (sv_id s, p) | None \<Rightarrow> None"
  obtain m1 res where sv: "save lib (in_faults inp) (upsert_server s (mg_config m)) ?pw m = (m1, res)" by fastforce
  from sv show ?thesis
  proof (cases rule: save_cases)
    case (failed e fl)
    then show ?thesis using assms ok sv by (simp add: save_server_def thenM_def Let_def consistent_file)
  next
    case (saved fl)
    show ?thesis
    proof (cases "needs_reconnect password s m")
      case False
      then have "same_connection e s" if "find_server (sv_id s) (mg_config m) = Some e" for e
        using that by (auto simp: needs_reconnect_def)
      then have m1: "consistent {} m1" using consistent_renamed [OF assms saved(2)] saved(3) by blast
      then have "consistent {} (advance_revision (in_now inp) (sv_id s) m1)"
        by (rule consistent_same [rotated 4]) simp_all
      then show ?thesis using m1 ok sv saved(1) False by (simp add: save_server_def thenM_def Let_def)
    next
      case True
      let ?m2 = "stop_share (in_last inp (sv_id s)) (sv_id s) (advance_revision (in_now inp) (sv_id s) m1)"
      have "active_tunnels (sv_id s) (advance_revision (in_now inp) (sv_id s) m1) = active_tunnels (sv_id s) ?m2"
        by (simp add: active_tunnels_def running_def)
      moreover obtain m3 where "restart (active_tunnels (sv_id s) ?m2) ?m2 = (m3, Inr ())" "consistent {} m3"
        using consistent_restarted [OF assms saved(2), of ?m2] saved(3) by auto
      ultimately show ?thesis using ok sv saved(1) True
        by (auto simp: save_server_def thenM_def Let_def consistent_start_share split: sum.splits)
    qed
  qed
qed

lemma forget_fields [simp]:
  "mg_config (forget_tunnel i m) = mg_config m" "mg_shares (forget_tunnel i m) = mg_shares m"
  "mg_tunnels (forget_tunnel i m) = (mg_tunnels m)(i := None)"
  "mg_states (forget_tunnel i m) = (mg_states m)(i := None)"
  by (simp_all add: forget_tunnel_def disconnect_def set_state_def Let_def)

lemma fold_forget [simp]:
  "mg_config (fold forget_tunnel js m) = mg_config m" "mg_shares (fold forget_tunnel js m) = mg_shares m"
  "mg_tunnels (fold forget_tunnel js m) = (\<lambda>i. if i \<in> set js then None else mg_tunnels m i)"
  "mg_states (fold forget_tunnel js m) = (\<lambda>i. if i \<in> set js then None else mg_states m i)"
  by (induction js arbitrary: m) (auto simp: fun_eq_iff)

text \<open>Profiles and tasks are removed together.\<close>

lemma consistent_removed:
  assumes "consistent {} m" "validate cfg = Inr ()" "mg_config m' = cfg"
    "mg_tunnels m' = (\<lambda>i. if i \<in> A then None else mg_tunnels m i)"
    "mg_states m' = (\<lambda>i. if i \<in> A then None else mg_states m i)"
    "\<And>i. i \<notin> A \<Longrightarrow> find_tunnel i (mg_config m) \<noteq> None \<Longrightarrow> find_tunnel i cfg = find_tunnel i (mg_config m)"
    "\<And>i t. i \<notin> A \<Longrightarrow> find_tunnel i (mg_config m) = Some t \<Longrightarrow>
       find_server (tn_server t) cfg = find_server (tn_server t) (mg_config m)"
    "shares_ok cfg (mg_shares m')"
  shows "consistent {} m'"
proof -
  have "tunnels_ok {} cfg (mg_tunnels m') (mg_states m')"
    unfolding tunnels_ok_def
  proof (intro allI impI)
    fix i r
    assume "mg_tunnels m' i = Some r" "\<not> tt_finished r"
    then have "i \<notin> A" "mg_tunnels m i = Some r" "\<not> tt_finished r" by (auto simp: assms(4) split: if_splits)
    moreover from this obtain s where "find_tunnel i (mg_config m) = Some (tt_tunnel r)" "busy_state (mg_states m i)"
      "find_server (tn_server (tt_tunnel r)) (mg_config m) = Some s" "same_connection s (tt_server r)"
      using assms(1) unfolding consistent_def tunnels_ok_def by blast
    ultimately show "find_tunnel i cfg = Some (tt_tunnel r) \<and> busy_state (mg_states m' i) \<and>
        (\<exists>s. find_server (tn_server (tt_tunnel r)) cfg = Some s \<and> (i \<notin> {} \<longrightarrow> same_connection s (tt_server r)))"
      using assms(6) [of i] assms(7) [of i "tt_tunnel r"] by (simp add: assms(5))
  qed
  moreover have "ports_ok (mg_tunnels m')"
    using assms(1) by (auto simp: consistent_def ports_ok_def assms(4) split: if_splits)
  ultimately show ?thesis using assms(2,3,8) by (simp add: consistent_def)
qed

lemma find_tunnel_filter:
  "find_tunnel i c = Some t \<Longrightarrow> Q t \<Longrightarrow> find_tunnel i (c\<lparr>cf_tunnels := filter Q (cf_tunnels c)\<rparr>) = Some t"
  by (simp add: find_tunnel_def find_filter_kept)

lemma find_without_server:
  "find_tunnel j c = Some t \<Longrightarrow> tn_server t \<noteq> i \<Longrightarrow> find_tunnel j (without_server i c) = Some t"
  "j \<noteq> i \<Longrightarrow> find_server j (without_server i c) = find_server j c"
  by (auto simp: find_tunnel_def find_server_def without_server_def find_filter_kept intro: find_filter_other)

lemma saved_fields:
  "mg_config (m\<lparr>mg_share_states := q\<rparr>) = mg_config m" "mg_tunnels (m\<lparr>mg_share_states := q\<rparr>) = mg_tunnels m"
  "mg_states (m\<lparr>mg_share_states := q\<rparr>) = mg_states m" "mg_config (m\<lparr>mg_file := fl, mg_config := cfg\<rparr>) = cfg"
  "mg_tunnels (m\<lparr>mg_file := fl, mg_config := cfg\<rparr>) = mg_tunnels m"
  "mg_states (m\<lparr>mg_file := fl, mg_config := cfg\<rparr>) = mg_states m"
  by simp_all

lemma consistent_delete_server:
  assumes "consistent {} m"
  shows "consistent {} (fst (delete_server lib inp i m))"
proof (cases "the_server i m")
  case (Inl e)
  then show ?thesis using assms by (simp add: delete_server_def thenM_def)
next
  case ok: (Inr u)
  obtain m1 res where sv: "save lib (in_faults inp) (without_server i (mg_config m)) None m = (m1, res)" by fastforce
  from sv show ?thesis
  proof (cases rule: save_cases)
    case (failed e fl)
    then show ?thesis using assms ok sv by (simp add: delete_server_def thenM_def Let_def consistent_file)
  next
    case (saved fl)
    let ?ids = "map tn_id (filter (\<lambda>t. tn_server t = i) (cf_tunnels (mg_config m)))"
    have kept: "tn_server t \<noteq> i" if "j \<notin> set ?ids" "find_tunnel j (mg_config m) = Some t" for j t
      using that find_tunnel_Some [OF that(2)] by auto
    let ?m = "fold forget_tunnel ?ids m1" and ?m2 = "stop_share (in_last inp i) i (fold forget_tunnel ?ids m1)"
    have "consistent {} (?m2\<lparr>mg_share_states := (mg_share_states ?m2)(i := None)\<rparr>)"
    proof (rule consistent_removed [OF assms saved(2), where A = "set ?ids"])
      fix j t
      assume "j \<notin> set ?ids" "find_tunnel j (mg_config m) = Some t"
      then have t: "tn_server t \<noteq> i" by (rule kept)
      then show "find_server (tn_server t) (without_server i (mg_config m)) = find_server (tn_server t) (mg_config m)"
        by (rule find_without_server)
    next
      fix j
      assume j: "j \<notin> set ?ids" "find_tunnel j (mg_config m) \<noteq> None"
      then obtain t where t: "find_tunnel j (mg_config m) = Some t" by blast
      show "find_tunnel j (without_server i (mg_config m)) = find_tunnel j (mg_config m)"
        using find_without_server(1) [OF t kept [OF j(1) t]] t by simp
    next
      show "shares_ok (without_server i (mg_config m))
          (mg_shares (?m2\<lparr>mg_share_states := (mg_share_states ?m2)(i := None)\<rparr>))"
        using assms find_without_server(2) [of _ i "mg_config m"] unfolding saved(3)
        by (simp add: consistent_def shares_ok_def)
    qed (simp_all only: saved(3) saved_fields stop_share_fields fold_forget)
    then show ?thesis using ok sv saved(1) by (simp add: delete_server_def thenM_def Let_def)
  qed
qed

lemma find_put_tunnel:
  "find_tunnel j (c\<lparr>cf_tunnels := put_tunnel t (cf_tunnels c)\<rparr>) = (if j = tn_id t then Some t else find_tunnel j c)"
proof -
  have "List.find (\<lambda>u. tn_id u = j) (put_tunnel t us) =
      (if j = tn_id t then Some t else List.find (\<lambda>u. tn_id u = j) us)" for us
    by (induction us) auto
  then show ?thesis by (simp add: find_tunnel_def)
qed

lemma find_server_tunnels [simp]: "find_server j (c\<lparr>cf_tunnels := ts\<rparr>) = find_server j c"
  by (simp add: find_server_def)

lemma shares_tunnels [simp]: "shares_ok (c\<lparr>cf_tunnels := ts\<rparr>) sh = shares_ok c sh"
  by (simp add: shares_ok_def)

lemma consistent_save_tunnel:
  assumes "consistent {} m"
  shows "consistent {} (fst (save_tunnel lib inp t m))"
proof (cases "bindR (port_pairs t) (\<lambda>_. bindR (the_server (tn_server t) m) (\<lambda>_. validate_unique t (cf_tunnels (mg_config m))))")
  case (Inl e)
  then show ?thesis using assms by (auto simp: save_tunnel_def thenM_def result_simps split: sum.splits)
next
  case (Inr u)
  then obtain ps s where ok: "port_pairs t = Inr ps" "the_server (tn_server t) m = Inr s"
    "validate_unique t (cf_tunnels (mg_config m)) = Inr u" by (auto simp: result_simps)
  let ?cfg = "(mg_config m)\<lparr>cf_tunnels := put_tunnel t (cf_tunnels (mg_config m))\<rparr>"
  obtain m1 res where sv: "save lib (in_faults inp) ?cfg None m = (m1, res)" by fastforce
  from sv show ?thesis
  proof (cases rule: save_cases)
    case (failed e fl)
    then show ?thesis using assms ok sv by (simp add: save_tunnel_def thenM_def Let_def consistent_file)
  next
    case (saved fl)
    show ?thesis
    proof (cases "busy_state (mg_states m (tn_id t))")
      case True
      have "consistent {} (disconnect (tn_id t) m1)"
        using assms saved(2) unfolding saved(3)
        by (auto simp: consistent_def tunnels_ok_def disconnect_def set_state_def find_put_tunnel ports_drop)
      then show ?thesis using ok sv saved(1) True
        by (simp add: save_tunnel_def thenM_def Let_def consistent_connect)
    next
      case False
      then have "tt_finished r" if "mg_tunnels m (tn_id t) = Some r" for r
        using assms that unfolding consistent_def tunnels_ok_def by blast
      then have "consistent {} m1"
        using assms saved(2) unfolding saved(3) by (auto simp: consistent_def tunnels_ok_def find_put_tunnel)
      then show ?thesis using ok sv saved(1) False by (simp add: save_tunnel_def thenM_def Let_def)
    qed
  qed
qed

lemma consistent_delete_tunnel:
  assumes "consistent {} m"
  shows "consistent {} (fst (delete_tunnel lib inp i m))"
proof -
  let ?cfg = "(mg_config m)\<lparr>cf_tunnels := filter (\<lambda>t. tn_id t \<noteq> i) (cf_tunnels (mg_config m))\<rparr>"
  obtain m1 res where sv: "save lib (in_faults inp) ?cfg None m = (m1, res)" by fastforce
  from sv show ?thesis
  proof (cases rule: save_cases)
    case (failed e fl)
    then show ?thesis using assms sv by (simp add: delete_tunnel_def thenM_def consistent_file)
  next
    case (saved fl)
    have "find_tunnel j ?cfg = find_tunnel j (mg_config m)" if "j \<noteq> i" for j
      using that by (auto simp: find_tunnel_def intro: find_filter_other)
    then have "consistent {} (forget_tunnel i m1)"
      using assms saved(2) unfolding saved(3) by (auto simp: consistent_def tunnels_ok_def ports_drop)
    then show ?thesis using sv saved(1) by (simp add: delete_tunnel_def thenM_def)
  qed
qed

lemma find_change_server:
  assumes "\<And>x. sv_id (g x) = sv_id x"
  shows "find_server j (c\<lparr>cf_servers := change_server i g (cf_servers c)\<rparr>) =
    (if j = i then map_option g (find_server j c) else find_server j c)"
proof -
  have "List.find (\<lambda>x. sv_id x = j) (change_server i g ss) =
      (if j = i then map_option g (List.find (\<lambda>x. sv_id x = j) ss) else List.find (\<lambda>x. sv_id x = j) ss)" for ss
    by (induction ss) (auto simp: assms)
  then show ?thesis by (simp add: find_server_def)
qed

lemma set_consent_simps [simp]:
  "sv_id (set_consent browser b s) = sv_id s"
  "same_connection (set_consent browser b s) x = same_connection s x"
  by (simp_all add: set_consent_def)

lemma find_tunnel_servers [simp]: "find_tunnel j (c\<lparr>cf_servers := ss\<rparr>) = find_tunnel j c"
  by (simp add: find_tunnel_def)

lemma consistent_set_share:
  assumes "consistent {} m"
  shows "consistent {} (fst (set_share_enabled lib inp browser b i m))"
proof (cases "the_server i m")
  case (Inl e)
  then show ?thesis using assms by (simp add: set_share_enabled_def thenM_def)
next
  case ok: (Inr s)
  then have s: "find_server i (mg_config m) = Some s" by (simp add: the_server_def result_simps)
  let ?cfg = "(mg_config m)\<lparr>cf_servers := change_server i (set_consent browser b) (cf_servers (mg_config m))\<rparr>"
  show ?thesis
  proof (cases "consent browser s = b")
    case True
    then show ?thesis using assms ok
      by (auto simp: set_share_enabled_def remember_share_def thenM_def Let_def consistent_start_share consistent_stop_share)
  next
    case False
    obtain m1 res where sv: "save lib (in_faults inp) ?cfg None m = (m1, res)" by fastforce
    from sv show ?thesis
    proof (cases rule: save_cases)
      case (failed e fl)
      then show ?thesis using assms ok sv False
        by (simp add: set_share_enabled_def remember_share_def thenM_def consistent_file)
    next
      case (saved fl)
      have find: "find_server j ?cfg = (if j = i then Some (set_consent browser b s) else find_server j (mg_config m))" for j
        using s by (simp add: find_change_server)
      let ?m2 = "stop_share (in_last inp i) i m1"
      have "tunnels_ok {} ?cfg (mg_tunnels m) (mg_states m)"
        using assms s unfolding consistent_def tunnels_ok_def find by fastforce
      moreover have "shares_ok ?cfg ((mg_shares m)(i := None))"
        using assms unfolding consistent_def shares_ok_def find by simp
      ultimately have "consistent {} ?m2"
        using assms saved(2) unfolding saved(3) by (simp add: consistent_def)
      moreover have "the_server i m1 = Inr (set_consent browser b s)"
        unfolding saved(3) by (simp add: the_server_def find)
      moreover have "sv_clipboard s \<noteq> sv_clipboard (set_consent browser b s) \<or>
          sv_browser s \<noteq> sv_browser (set_consent browser b s)"
        using False by (auto simp: consent_def set_consent_def split: if_splits)
      ultimately show ?thesis using ok sv saved(1) False
        by (auto simp: set_share_enabled_def remember_share_def thenM_def Let_def consistent_start_share
            consistent_stop_share)
    qed
  qed
qed

lemma consistent_restore_share: "consistent X m \<Longrightarrow> consistent X (restore_share inp i m)"
proof -
  assume "consistent X m"
  then have m': "consistent X (fst (start_share (in_identity inp i) i m))" by (rule consistent_start_share)
  have "consistent X (set_share_state i st m'')" if "consistent X m''" for st and m'' :: "'a manager"
    using that by (rule consistent_same [rotated 4]) (simp_all add: set_share_state_def)
  then show ?thesis using m' by (auto simp: restore_share_def split: prod.splits sum.splits)
qed

lemma consistent_restore_tunnel:
  assumes "consistent X m"
  shows "consistent X (restore_tunnel i m)"
proof (cases "snd (connect i m)")
  case (Inl e)
  then have eq: "connect i m = (m, Inl e)" and off: "\<not> running i m"
    by (auto simp: connect_eq split: if_splits sum.splits)
  have "consistent X (set_state i st m)" for st
    using assms off by (auto simp: consistent_def set_state_def running_iff intro!: tunnels_state)
  then show ?thesis by (simp add: restore_tunnel_def eq)
next
  case (Inr u)
  then show ?thesis using consistent_connect [OF assms, of i]
    by (cases "connect i m") (simp add: restore_tunnel_def)
qed

lemma consistent_fold: "(\<And>i m. consistent X m \<Longrightarrow> consistent X (g i m)) \<Longrightarrow> consistent X m \<Longrightarrow> consistent X (fold g is m)"
  by (induction "is" arbitrary: m) auto

lemma consistent_task_connected: "consistent X m \<Longrightarrow> consistent X (task_connected i m)"
  by (auto simp: task_connected_def consistent_def set_state_def intro!: tunnels_state)

lemma consistent_set_task:
  assumes "consistent X m" "mg_tunnels m i = Some r" "\<not> tt_finished r" "tt_tunnel r' = tt_tunnel r"
    "tt_server r' = tt_server r" "tt_finished r' \<or> busy_state (Some st)"
  shows "consistent X (set_task i r' (set_state i st m))"
  using assms tunnels_task [of X "mg_config m" "mg_tunnels m" "mg_states m" i r r' "Some st"]
    ports_task [of "mg_tunnels m" i r r']
  by (simp add: consistent_def set_task_def set_state_def)

lemma consistent_task_failed: "consistent X m \<Longrightarrow> consistent X (task_failed i e retryable m)"
  by (auto simp: task_failed_def Let_def split: option.splits intro!: consistent_set_task)

lemma consistent_task_settled:
  assumes "consistent X m"
  shows "consistent X (task_settled i m)"
proof (cases "mg_tunnels m i")
  case (Some r)
  show ?thesis
  proof (cases "tt_finished r")
    case False
    then have "busy_state (mg_states m i)"
      using assms Some unfolding consistent_def tunnels_ok_def by blast
    then obtain st where st: "mg_states m i = Some st" "busy_state (Some st)"
      by (cases "mg_states m i") simp_all
    have "consistent X (set_task i (r\<lparr>tt_attempt := 0\<rparr>) (set_state i st m))"
      using assms Some False st(2) by (intro consistent_set_task) simp_all
    moreover have "(mg_states m)(i \<mapsto> st) = mg_states m" using st(1) by auto
    ultimately show ?thesis using Some False by (simp add: task_settled_def set_state_def)
  qed (use assms Some in \<open>simp add: task_settled_def\<close>)
qed (use assms in \<open>simp add: task_settled_def\<close>)

lemma consistent_share_ends: "consistent X m \<Longrightarrow> consistent X (share_ends i result m)"
  by (auto simp: share_ends_def set_share_state_def consistent_def shares_ok_def split: option.splits)

lemma consistent_frame:
  assumes "consistent X m"
  shows "consistent X (observe_connection s rv ob m)" "consistent X (observe_event s ob m)"
    "consistent X (share_reports i note_text m)" "consistent X (share_retries i m)"
  using assms
  by (auto simp: observe_connection_def observe_event_def add_evidence_def share_reports_def share_retries_def
      set_share_state_def consistent_def)

lemma consistent_step:
  assumes "manager_step lib m m'" "consistent {} m"
  shows "consistent {} m'"
  using assms
proof cases
  case (switches_tunnel i b)
  then show ?thesis using assms(2)
    by (simp add: set_tunnel_connected_def consistent_connect consistent_disconnect)
next
  case (pauses_share inp i)
  then show ?thesis using assms(2) consistent_stop_share
    by (auto simp: pause_share_def thenM_def split: sum.splits)
next
  case (resumes_share inp s rv)
  then show ?thesis using assms(2) by (simp add: resume_share_def consistent_start_share)
next
  case (restores inp)
  then show ?thesis using assms(2)
    by (simp add: restore_def consistent_fold consistent_restore_share consistent_restore_tunnel)
next
  case (shuts_down inp ts ss)
  then show ?thesis using assms(2)
    by (simp add: shutdown_def consistent_fold consistent_stop_share consistent_disconnect)
qed (simp_all add: consistent_save_server consistent_delete_server consistent_save_tunnel consistent_delete_tunnel
    consistent_set_share consistent_frame consistent_task_connected consistent_task_settled consistent_task_failed
    consistent_share_ends)

lemma manager_consistent: "manager_reachable lib m \<Longrightarrow> consistent {} m"
proof (induction rule: manager_reachable.induct)
  case (start loaded fl)
  then show ?case
    by (cases loaded) (simp_all add: consistent_def manager_new_def tunnels_ok_def ports_ok_def shares_ok_def validate_def)
next
  case (step m m')
  then show ?case by (metis consistent_step)
qed

text \<open>
  C38: What runs is what the profiles say. In every state the desktop can reach, through any sequence of
  commands, failed saves, restarts and moves of the tasks: the profiles in memory are valid; every tunnel
  that runs is a saved one, exactly as it is saved, over a connection with the saved address, user, port
  and key of its server, and is shown as active; and no two running tunnels share a local port.
\<close>

theorem tunnels_match_profiles:
  assumes "manager_reachable lib m"
  shows "validate (mg_config m) = Inr ()
       \<and> (\<forall>i r. mg_tunnels m i = Some r \<and> \<not> tt_finished r \<longrightarrow>
            find_tunnel i (mg_config m) = Some (tt_tunnel r) \<and> busy_state (mg_states m i) \<and>
            (\<exists>s. find_server (tn_server (tt_tunnel r)) (mg_config m) = Some s \<and> same_connection s (tt_server r)))
       \<and> (\<forall>i j r q. mg_tunnels m i = Some r \<and> mg_tunnels m j = Some q \<and> \<not> tt_finished r \<and> \<not> tt_finished q \<and>
            i \<noteq> j \<longrightarrow> local_ports (tt_tunnel r) \<inter> local_ports (tt_tunnel q) = {})"
proof (intro conjI allI impI)
  note ok = manager_consistent [OF assms, unfolded consistent_def tunnels_ok_def ports_ok_def]
  show "validate (mg_config m) = Inr ()" using ok by blast
  show "find_tunnel i (mg_config m) = Some (tt_tunnel r)" "busy_state (mg_states m i)"
    "\<exists>s. find_server (tn_server (tt_tunnel r)) (mg_config m) = Some s \<and> same_connection s (tt_server r)"
    if "mg_tunnels m i = Some r \<and> \<not> tt_finished r" for i r
    using ok that by blast+
  show "local_ports (tt_tunnel r) \<inter> local_ports (tt_tunnel q) = {}"
    if "mg_tunnels m i = Some r \<and> mg_tunnels m j = Some q \<and> \<not> tt_finished r \<and> \<not> tt_finished q \<and> i \<noteq> j" for i j r q
    using ok that by blast
qed

section \<open>Consent\<close>

lemma config_after [simp]:
  "mg_config (fst (connect i m)) = mg_config m" "mg_config (disconnect i m) = mg_config m"
  "mg_config (fst (start_share identity i m)) = mg_config m"
  by (auto simp: connect_eq started_def set_state_def disconnect_def start_share_def set_share_state_def
      split: sum.splits)

lemma config_restart [simp]: "mg_config (fst (restart js m)) = mg_config m"
proof (induction js arbitrary: m)
  case (Cons j js)
  obtain m' res where c: "connect j (disconnect j m) = (m', res)" by fastforce
  then have "mg_config m' = mg_config m" using config_after(1) [of j "disconnect j m"] by simp
  then show ?case using Cons c by (auto simp: thenM_def split: sum.splits)
qed simp

lemma save_server_config:
  "mg_config (fst (save_server lib inp s password m)) \<in> {mg_config m, upsert_server s (mg_config m)}"
proof (cases "validate_server s")
  case (Inl e)
  then show ?thesis by (simp add: save_server_def thenM_def Let_def)
next
  case ok: (Inr u)
  let ?pw = "case password of Some p \<Rightarrow> if p = [] then None else Some (sv_id s, p) | None \<Rightarrow> None"
  obtain m1 res where sv: "save lib (in_faults inp) (upsert_server s (mg_config m)) ?pw m = (m1, res)" by fastforce
  from sv show ?thesis
  proof (cases rule: save_cases)
    case (failed e fl)
    then show ?thesis using ok sv by (simp add: save_server_def thenM_def Let_def)
  next
    case (saved fl)
    let ?m2 = "advance_revision (in_now inp) (sv_id s) m1"
    obtain m3 res3 where r: "restart (active_tunnels (sv_id s) ?m2) (stop_share (in_last inp (sv_id s)) (sv_id s) ?m2) = (m3, res3)"
      by fastforce
    then have "mg_config m3 = upsert_server s (mg_config m)"
      using config_restart [of "active_tunnels (sv_id s) ?m2" "stop_share (in_last inp (sv_id s)) (sv_id s) ?m2"] saved(3)
      by simp
    then show ?thesis using ok sv saved r by (auto simp: save_server_def thenM_def Let_def split: sum.splits)
  qed
qed

text \<open>
  C39: The clipboard and the browser of the user are shared only with consent. Whenever sharing runs for a
  server, its saved profile consents to just what is shared, and it runs over a connection with the
  profile's address, user, port and key. The editor cannot grant consent: after a profile is saved, by
  whatever request and with whatever failures, a consent it holds was held before, by a profile of the
  same destination.
\<close>

theorem sharing_needs_consent:
  assumes "manager_reachable lib m"
  shows "(\<forall>i r. mg_shares m i = Some r \<and> \<not> st_finished r \<longrightarrow>
            (\<exists>s. find_server i (mg_config m) = Some s \<and> same_connection s (st_server r) \<and>
               same_consent s (st_server r) \<and> (sv_clipboard s \<or> sv_browser s)))
       \<and> (\<forall>inp s password x. find_server (sv_id s) (mg_config (fst (save_server lib inp s password m))) = Some x \<longrightarrow>
            (sv_clipboard x \<longrightarrow> (\<exists>e. find_server (sv_id s) (mg_config m) = Some e \<and> sv_clipboard e \<and> same_destination e x)) \<and>
            (sv_browser x \<longrightarrow> (\<exists>e. find_server (sv_id s) (mg_config m) = Some e \<and> sv_browser e \<and> same_destination e x)))"
proof (intro conjI allI impI)
  fix i r
  assume "mg_shares m i = Some r \<and> \<not> st_finished r"
  then show "\<exists>s. find_server i (mg_config m) = Some s \<and> same_connection s (st_server r) \<and>
      same_consent s (st_server r) \<and> (sv_clipboard s \<or> sv_browser s)"
    using manager_consistent [OF assms] unfolding consistent_def shares_ok_def by blast
next
  fix inp s password x
  assume "find_server (sv_id s) (mg_config (fst (save_server lib inp s password m))) = Some x"
  then have x: "find_server (sv_id s) (mg_config m) = Some x \<or> x = upserted s (find_server (sv_id s) (mg_config m))"
    using save_server_config [of lib inp s password m] by (auto simp: find_upsert)
  show "\<exists>e. find_server (sv_id s) (mg_config m) = Some e \<and> sv_clipboard e \<and> same_destination e x" if "sv_clipboard x"
    using x that by (auto simp: upserted_def same_destination_def split: option.splits)
  show "\<exists>e. find_server (sv_id s) (mg_config m) = Some e \<and> sv_browser e \<and> same_destination e x" if "sv_browser x"
    using x that by (auto simp: upserted_def same_destination_def split: option.splits)
qed

section \<open>What saving a tunnel checks\<close>

lemma port_range_iff: "p \<in> set (port_range a b) \<longleftrightarrow> a \<le> p \<and> p \<le> b"
proof
  assume "p \<in> set (port_range a b)"
  then obtain n where "p = word_of_nat n" "unat a \<le> n" "n \<le> unat b" by (auto simp: port_range_def)
  moreover from this have "unat (word_of_nat n :: port) = n"
    using unsigned_less [of b, where 'a = nat] by (simp add: unat_of_nat take_bit_nat_eq_self)
  ultimately show "a \<le> p \<and> p \<le> b" by (simp add: word_le_nat_alt)
next
  assume "a \<le> p \<and> p \<le> b"
  then have "unat p \<in> {unat a ..< Suc (unat b)}" by (simp add: word_le_nat_alt)
  then have "word_of_nat (unat p) \<in> set (port_range a b)" unfolding port_range_def set_map set_upt by (rule imageI)
  then show "p \<in> set (port_range a b)" by simp
qed

lemma local_ports_within: "p \<in> local_ports t \<Longrightarrow> tn_local t \<le> p \<and> p \<le> local_end t"
  by (auto simp: local_ports_def port_pairs_def Let_def result_simps port_range_iff split: sum.splits dest: set_zip_leftD)

lemma unique_among_apart:
  "unique_among t us = Inr v \<Longrightarrow> u \<in> set us \<Longrightarrow> tn_id u \<noteq> tn_id t \<Longrightarrow> \<not> local_overlap t u"
  by (induction t us rule: unique_among.induct) (auto split: if_splits)

text \<open>A tunnel that passes the check of the editor shares no local port with any other saved one.\<close>

lemma saved_apart:
  assumes "validate_unique t saved = Inr v" "u \<in> set saved" "tn_id u \<noteq> tn_id t"
  shows "local_ports t \<inter> local_ports u = {}"
proof -
  have "\<not> local_overlap t u"
    using assms unique_among_apart by (auto simp: validate_unique_def result_simps)
  then show ?thesis using local_ports_within [of _ t] local_ports_within [of _ u]
    by (fastforce simp: local_overlap_def)
qed

section \<open>Witnesses\<close>

definition sample_inputs :: inputs where
  "sample_inputs = \<lparr>in_faults = faultless, in_now = 0, in_identity = (\<lambda>_. Inr ''client''),
     in_last = (\<lambda>_. state_of Disconnected), in_cleanup = Inr ()\<rparr>"

definition sample_manager :: "vault_record manager" where
  "sample_manager = manager_new (Inr sample_config) None"

lemma sample_reachable: "manager_reachable sample_vault sample_manager"
  unfolding sample_manager_def by (rule manager_reachable.start) (simp add: sample_valid)

lemma sample_finds:
  "find_server ''s'' sample_config = Some sample_server" "find_tunnel ''t'' sample_config = Some sample_tunnel"
  by (simp_all add: find_server_def find_tunnel_def sample_config_def sample_server_def sample_tunnel_def)

theorem tunnels_match_profiles_witness:
  "\<exists>m r. manager_reachable sample_vault m \<and> mg_tunnels m ''t'' = Some r \<and> \<not> tt_finished r \<and>
     find_tunnel ''t'' (mg_config m) = Some (tt_tunnel r) \<and> busy_state (mg_states m ''t'')"
proof -
  let ?m = "started ''t'' sample_server sample_tunnel sample_manager"
  have cfg: "mg_config sample_manager = sample_config" and off: "\<not> running i sample_manager" for i
    by (simp_all add: sample_manager_def manager_new_def running_def)
  obtain s where ok: "connect_checks ''t'' sample_manager = Inr (s, sample_tunnel)"
    using connect_checks_succeed [of sample_manager "''t''" sample_tunnel] off
    by (auto simp: cfg sample_valid sample_finds)
  moreover have "tn_server sample_tunnel = ''s''" by (simp add: sample_tunnel_def)
  ultimately have "s = sample_server" using connect_checks_ok(2) [OF ok] by (simp add: cfg sample_finds)
  then have "connect_checks ''t'' sample_manager = Inr (sample_server, sample_tunnel)" using ok by simp
  then have "connect ''t'' sample_manager = (?m, Inr ())"
    by (simp add: connect_eq running_def sample_manager_def manager_new_def)
  then have "manager_step sample_vault sample_manager ?m"
    using switches_tunnel [of sample_vault sample_manager "''t''" True] by (simp add: set_tunnel_connected_def)
  then have r: "manager_reachable sample_vault ?m" using sample_reachable by (metis manager_reachable.step)
  moreover obtain t where t: "mg_tunnels ?m ''t'' = Some t" "\<not> tt_finished t" by (simp add: started_def)
  moreover have "find_tunnel ''t'' (mg_config ?m) = Some (tt_tunnel t)" "busy_state (mg_states ?m ''t'')"
    using conjunct1 [OF conjunct2 [OF tunnels_match_profiles [OF r]]] t by blast+
  ultimately show ?thesis by blast
qed

theorem sharing_needs_consent_witness:
  "\<exists>m r s. manager_reachable sample_vault m \<and> mg_shares m ''s'' = Some r \<and> \<not> st_finished r \<and>
     find_server ''s'' (mg_config m) = Some s \<and> same_consent s (st_server r)"
proof -
  let ?m = "restore_share sample_inputs ''s'' sample_manager"
  have "integration_servers (mg_config sample_manager) = [''s'']" "filter tn_auto_connect (cf_tunnels (mg_config sample_manager)) = []"
    by (simp_all add: integration_servers_def sample_manager_def manager_new_def sample_config_def sample_server_def
        sample_tunnel_def)
  then have "restore sample_inputs sample_manager = ?m" by (simp add: restore_def)
  then have "manager_step sample_vault sample_manager ?m"
    using restores [of sample_vault sample_manager sample_inputs] by simp
  then have r: "manager_reachable sample_vault ?m" using sample_reachable by (metis manager_reachable.step)
  have "sv_clipboard sample_server" by (simp add: sample_server_def)
  then obtain t where t: "mg_shares ?m ''s'' = Some t" "\<not> st_finished t"
    by (simp add: restore_share_def start_share_def sharing_def the_server_def sample_manager_def manager_new_def
        sample_finds sample_inputs_def)
  obtain s where "find_server ''s'' (mg_config ?m) = Some s" "same_consent s (st_server t)"
    using conjunct1 [OF sharing_needs_consent [OF r]] t by blast
  then show ?thesis using r t by blast
qed

end
